(* ===== verification/Prelude.thy ===== *)
theory Prelude
  imports Main "HOL-Library.Word"
begin

text \<open>
  What every component theory shares: the machine types of the program, Rust's
  \<open>Result\<close> as a sum with the \<open>?\<close> operator as \<open>and_then\<close>, the array operations the
  fixed binary layouts are written with (sub-slices and \<open>copy_from_slice\<close>), the number
  formatting of \<open>format!\<close>, little-endian integers, and the generic lemmas about them.
  A Rust \<open>String\<close> or \<open>&str\<close> is a list of \<open>char\<close>, one per byte of its UTF-8 encoding, so
  that \<open>length\<close> is Rust's \<open>len()\<close>; a byte buffer is a list of 8-bit words.
\<close>

unbundle bit_operations_syntax

section \<open>Machine types\<close>

type_synonym u8 = "8 word"
type_synonym u32 = "32 word"
type_synonym u64 = "64 word"
type_synonym bytes = "u8 list"

named_theorems result_simps
named_theorems layout_simps

section \<open>Results\<close>

text \<open>\<open>Inl\<close> is \<open>Err\<close>, \<open>Inr\<close> is \<open>Ok\<close>; \<open>and_then r f\<close> is \<open>f(r?)\<close>.\<close>

primrec and_then :: "'e + 'a \<Rightarrow> ('a \<Rightarrow> 'e + 'b) \<Rightarrow> 'e + 'b" where
  "and_then (Inl e) f = Inl e"
| "and_then (Inr x) f = f x"

primrec map_err :: "('e \<Rightarrow> 'f) \<Rightarrow> 'e + 'a \<Rightarrow> 'f + 'a" where
  "map_err g (Inl e) = Inl (g e)"
| "map_err g (Inr x) = Inr x"

primrec ok_or :: "'e \<Rightarrow> 'a option \<Rightarrow> 'e + 'a" where
  "ok_or e None = Inl e"
| "ok_or e (Some x) = Inr x"

definition guard_err :: "bool \<Rightarrow> 'e \<Rightarrow> 'e + unit" where
  "guard_err bad e = (if bad then Inl e else Inr ())"

primrec is_ok :: "'e + 'a \<Rightarrow> bool" where
  "is_ok (Inl e) = False"
| "is_ok (Inr x) = True"

lemma and_then_Inr_iff [result_simps]:
  "(and_then r f = Inr y) \<longleftrightarrow> (\<exists>x. r = Inr x \<and> f x = Inr y)"
  by (cases r) auto

lemma and_then_Inl_iff [result_simps]:
  "(and_then r f = Inl e) \<longleftrightarrow> r = Inl e \<or> (\<exists>x. r = Inr x \<and> f x = Inl e)"
  by (cases r) auto

lemma map_err_Inr_iff [result_simps]: "(map_err g r = Inr y) \<longleftrightarrow> r = Inr y"
  by (cases r) auto

lemma map_err_Inl_iff [result_simps]: "(map_err g r = Inl y) \<longleftrightarrow> (\<exists>e. r = Inl e \<and> y = g e)"
  by (cases r) auto

lemma ok_or_Inr_iff [result_simps]: "(ok_or e x = Inr y) \<longleftrightarrow> x = Some y"
  by (cases x) auto

lemma ok_or_Inl_iff [result_simps]: "(ok_or e x = Inl y) \<longleftrightarrow> x = None \<and> y = e"
  by (cases x) auto

lemma guard_err_Inr_iff [result_simps]: "(guard_err b e = Inr u) \<longleftrightarrow> \<not> b"
  by (auto simp: guard_err_def)

lemma guard_err_Inl_iff [result_simps]: "(guard_err b e = Inl f) \<longleftrightarrow> b \<and> f = e"
  by (auto simp: guard_err_def)

lemma guard_err_simps [simp]: "guard_err True e = Inl e" "guard_err False e = Inr ()"
  by (simp_all add: guard_err_def)

lemma and_then_cong [fundef_cong]:
  "r = r' \<Longrightarrow> (\<And>x. r' = Inr x \<Longrightarrow> f x = g x) \<Longrightarrow> and_then r f = and_then r' g"
  by (cases r') auto

lemma is_ok_iff: "is_ok r \<longleftrightarrow> (\<exists>x. r = Inr x)"
  by (cases r) auto

section \<open>Slices of fixed arrays\<close>

text \<open>\<open>slice i j xs\<close> is \<open>&xs[i..j]\<close>, \<open>copy_at i src xs\<close> is
  \<open>xs[i..i + src.len()].copy_from_slice(src)\<close>; the code uses both only within bounds it has
  checked or that the array types fix.\<close>

definition slice :: "nat \<Rightarrow> nat \<Rightarrow> 'a list \<Rightarrow> 'a list" where
  "slice i j xs = take (j - i) (drop i xs)"

definition copy_at :: "nat \<Rightarrow> 'a list \<Rightarrow> 'a list \<Rightarrow> 'a list" where
  "copy_at i src xs = take i xs @ src @ drop (i + length src) xs"

lemma length_slice [layout_simps]: "j \<le> length xs \<Longrightarrow> length (slice i j xs) = j - i"
  by (simp add: slice_def)

lemma length_copy_at [layout_simps]:
  "i + length src \<le> length xs \<Longrightarrow> length (copy_at i src xs) = length xs"
  by (simp add: copy_at_def)

lemma slice_append_left: "length xs = i \<Longrightarrow> slice i j (xs @ ys) = take (j - i) ys"
  by (simp add: slice_def)

lemma slice_split: "i \<le> j \<Longrightarrow> slice i j xs @ drop j xs = drop i xs"
  by (metis append_take_drop_id drop_drop le_add_diff_inverse2 slice_def)

lemma slice_join: "i \<le> j \<Longrightarrow> j \<le> k \<Longrightarrow> slice i j xs @ slice j k xs = slice i k xs"
proof -
  assume ij: "i \<le> j" and jk: "j \<le> k"
  have "slice j k xs = take (k - j) (drop (j - i) (drop i xs))"
    using ij by (simp add: slice_def)
  moreover have "k - i = (j - i) + (k - j)" using ij jk by simp
  ultimately show ?thesis by (simp add: slice_def take_add)
qed

lemma slice_0 [simp]: "slice 0 j xs = take j xs"
  by (simp add: slice_def)

lemma slice_full: "j = length xs \<Longrightarrow> slice i j xs = drop i xs"
  by (simp add: slice_def)

section \<open>Number formatting\<close>

definition digit_char :: "nat \<Rightarrow> char" where
  "digit_char d = ''0123456789ABCDEF'' ! d"

definition digit_char_lower :: "nat \<Rightarrow> char" where
  "digit_char_lower d = ''0123456789abcdef'' ! d"

text \<open>The digits of a number, most significant first and without leading zeros.\<close>

function digits_of :: "nat \<Rightarrow> nat \<Rightarrow> nat list" where
  "digits_of base n =
     (if base < 2 \<or> n < base then [n] else digits_of base (n div base) @ [n mod base])"
  by pat_completeness auto
termination
  by (relation "measure snd") auto

declare digits_of.simps [simp del]

text \<open>\<open>{n}\<close>, \<open>{n:o}\<close>, and \<open>{n:0wX}\<close>, \<open>{n:0wx}\<close>, padded with zeros to at least \<open>w\<close>
  characters.\<close>

definition dec :: "nat \<Rightarrow> string" where
  "dec n = map digit_char (digits_of 10 n)"

definition oct_str :: "nat \<Rightarrow> string" where
  "oct_str n = map digit_char (digits_of 8 n)"

definition pad_zero :: "nat \<Rightarrow> string \<Rightarrow> string" where
  "pad_zero w s = replicate (w - length s) (CHR ''0'') @ s"

definition hex_upper :: "nat \<Rightarrow> nat \<Rightarrow> string" where
  "hex_upper w n = pad_zero w (map digit_char (digits_of 16 n))"

definition hex_lower :: "nat \<Rightarrow> nat \<Rightarrow> string" where
  "hex_lower w n = pad_zero w (map digit_char_lower (digits_of 16 n))"

text \<open>A fixed number of hexadecimal digits, most significant first: what \<open>hex_upper\<close> prints
  for a value that fits.\<close>

fun hex_fixed :: "nat \<Rightarrow> nat \<Rightarrow> string" where
  "hex_fixed 0 n = []"
| "hex_fixed (Suc k) n = hex_fixed k (n div 16) @ [digit_char (n mod 16)]"

lemma length_hex_fixed [simp]: "length (hex_fixed k n) = k"
  by (induction k arbitrary: n) auto

lemma digit_char_0 [simp]: "digit_char 0 = CHR ''0''"
  by (simp add: digit_char_def)

lemma hex_fixed_0: "hex_fixed k 0 = replicate k (CHR ''0'')"
  by (induction k) (auto simp: replicate_append_same [symmetric])

lemma hex_upper_fixed: "n < 16 ^ Suc k \<Longrightarrow> hex_upper (Suc k) n = hex_fixed (Suc k) n"
proof (induction k arbitrary: n)
  case 0
  then show ?case by (subst hex_upper_def, subst digits_of.simps) (simp add: pad_zero_def)
next
  case (Suc k)
  show ?case
  proof (cases "n < 16")
    case True
    then show ?thesis
      by (subst hex_upper_def, subst digits_of.simps)
        (simp add: pad_zero_def hex_fixed_0 replicate_append_same)
  next
    case False
    have small: "n div 16 < 16 ^ Suc k"
      using Suc.prems by (simp add: less_mult_imp_div_less mult.commute)
    have "hex_upper (Suc (Suc k)) n = hex_upper (Suc k) (n div 16) @ [digit_char (n mod 16)]"
      using False by (subst hex_upper_def, subst digits_of.simps) (simp add: pad_zero_def hex_upper_def)
    then show ?thesis using Suc.IH [OF small] by simp
  qed
qed

lemma digit_char_inj: "a < 16 \<Longrightarrow> b < 16 \<Longrightarrow> digit_char a = digit_char b \<Longrightarrow> a = b"
proof -
  assume a: "a < 16" and b: "b < 16" and eq: "digit_char a = digit_char b"
  have d: "distinct ''0123456789ABCDEF''" by simp
  show "a = b"
    using nth_eq_iff_index_eq [OF d, of a b] a b eq by (simp add: digit_char_def)
qed

lemma hex_fixed_inj:
  "m < 16 ^ k \<Longrightarrow> n < 16 ^ k \<Longrightarrow> hex_fixed k m = hex_fixed k n \<Longrightarrow> m = n"
proof (induction k arbitrary: m n)
  case 0
  then show ?case by simp
next
  case (Suc k)
  have "m div 16 = n div 16"
    using Suc.prems by (intro Suc.IH) (auto simp: less_mult_imp_div_less mult.commute)
  moreover have "m mod 16 = n mod 16"
    using Suc.prems(3) by (auto intro: digit_char_inj)
  ultimately show ?case by (metis div_mult_mod_eq)
qed

section \<open>Little-endian integers\<close>

fun le_bytes :: "nat \<Rightarrow> nat \<Rightarrow> bytes" where
  "le_bytes 0 n = []"
| "le_bytes (Suc k) n = word_of_nat (n mod 256) # le_bytes k (n div 256)"

fun le_nat :: "bytes \<Rightarrow> nat" where
  "le_nat [] = 0"
| "le_nat (b # bs) = unat b + 256 * le_nat bs"

definition u64_to_le_bytes :: "u64 \<Rightarrow> bytes" where
  "u64_to_le_bytes w = le_bytes 8 (unat w)"

definition u64_from_le_bytes :: "bytes \<Rightarrow> u64" where
  "u64_from_le_bytes bs = word_of_nat (le_nat bs)"

lemma length_le_bytes [simp]: "length (le_bytes k n) = k"
  by (induction k arbitrary: n) auto

lemma length_u64_to_le_bytes [simp, layout_simps]: "length (u64_to_le_bytes w) = 8"
  by (simp add: u64_to_le_bytes_def)

lemma unat_u8_less: "unat (b :: u8) < 256"
  using unsigned_less [of b, where ?'a = nat] by simp

lemma le_nat_bound: "le_nat bs < 256 ^ length bs"
proof (induction bs)
  case Nil
  then show ?case by simp
next
  case (Cons b bs)
  have "unat b < 256" by (rule unat_u8_less)
  moreover have "256 * le_nat bs + 256 \<le> 256 * 256 ^ length bs"
    using Cons.IH by (metis Suc_leI add.commute mult_Suc_right mult_le_mono2)
  ultimately show ?case by simp
qed

lemma le_nat_le_bytes: "n < 256 ^ k \<Longrightarrow> le_nat (le_bytes k n) = n"
proof (induction k arbitrary: n)
  case 0
  then show ?case by simp
next
  case (Suc k)
  have "n div 256 < 256 ^ k" using Suc.prems by (simp add: less_mult_imp_div_less mult.commute)
  then have "le_nat (le_bytes k (n div 256)) = n div 256" by (rule Suc.IH)
  then show ?case by (simp add: unat_of_nat)
qed

lemma le_bytes_le_nat: "le_bytes (length bs) (le_nat bs) = bs"
proof (induction bs)
  case Nil
  then show ?case by simp
next
  case (Cons b bs)
  have b: "unat b < 256" by (rule unat_u8_less)
  have "(unat b + 256 * le_nat bs) mod 256 = unat b" using b by simp
  moreover have "(unat b + 256 * le_nat bs) div 256 = le_nat bs" using b by simp
  ultimately show ?case using Cons.IH by simp
qed

lemma le_nat_8_bound: "length bs = 8 \<Longrightarrow> le_nat bs < 2 ^ 64"
  using le_nat_bound [of bs] by simp

lemma u64_le_roundtrip [simp]: "u64_from_le_bytes (u64_to_le_bytes w) = w"
proof -
  have "unat w < 256 ^ 8" using unsigned_less [of w, where ?'a = nat] by simp
  then show ?thesis by (simp add: u64_from_le_bytes_def u64_to_le_bytes_def le_nat_le_bytes)
qed

lemma u64_le_roundtrip_bytes: "length bs = 8 \<Longrightarrow> u64_to_le_bytes (u64_from_le_bytes bs) = bs"
proof -
  assume l: "length bs = 8"
  have "unat (word_of_nat (le_nat bs) :: u64) = le_nat bs"
    using le_nat_8_bound [OF l] by (simp add: unat_of_nat)
  then show ?thesis
    using le_bytes_le_nat [of bs] l by (simp add: u64_from_le_bytes_def u64_to_le_bytes_def)
qed

lemma unat_u64_from_le: "length bs = 8 \<Longrightarrow> unat (u64_from_le_bytes bs) = le_nat bs"
  using le_nat_8_bound [of bs] by (simp add: u64_from_le_bytes_def unat_of_nat)

section \<open>Byte-wise exclusive or\<close>

definition xor_bytes :: "bytes \<Rightarrow> bytes \<Rightarrow> bytes" where
  "xor_bytes xs ys = map2 (\<lambda>x y. x XOR y) xs ys"

lemma length_xor_bytes [simp, layout_simps]:
  "length (xor_bytes xs ys) = min (length xs) (length ys)"
  by (simp add: xor_bytes_def)

lemma xor_bytes_twice: "length xs \<le> length ys \<Longrightarrow> xor_bytes (xor_bytes xs ys) ys = xs"
  by (rule nth_equalityI) (auto simp: xor_bytes_def xor.assoc)

end
