(* ===== verification/Text.thy ===== *)
theory Text
  imports Prelude
begin

text \<open>
  The part of Rust's \<open>str\<close> and \<open>String\<close> that the program uses: UTF-8 decoding as
  \<open>std::str::from_utf8\<close>, \<open>chars\<close> and \<open>to_string_lossy\<close> do it (with the well-formed byte
  ranges of the Unicode standard and one replacement character per maximal invalid
  sequence), \<open>lines\<close>, prefixes, substrings and the ASCII escapes.
  The lemmas that matter to the components: an ASCII byte of a string is always one of its
  characters, and a string without line breaks is one line.
\<close>

section \<open>UTF-8\<close>

datatype utf8_unit = Scalar nat nat | Invalid nat | Incomplete nat

text \<open>\<open>Scalar c n\<close> is the code point \<open>c\<close> read from \<open>n\<close> bytes; \<open>Invalid n\<close> an ill-formed
  sequence of \<open>n\<close> bytes; \<open>Incomplete n\<close> a well-formed beginning cut off by the end of the
  input.\<close>

definition cont_byte :: "nat \<Rightarrow> bool" where
  "cont_byte b \<longleftrightarrow> 0x80 \<le> b \<and> b \<le> 0xBF"

definition second_byte :: "nat \<Rightarrow> nat \<Rightarrow> bool" where
  "second_byte a b \<longleftrightarrow>
     (if a = 0xE0 then 0xA0 \<le> b \<and> b \<le> 0xBF
      else if a = 0xED then 0x80 \<le> b \<and> b \<le> 0x9F
      else if a = 0xF0 then 0x90 \<le> b \<and> b \<le> 0xBF
      else if a = 0xF4 then 0x80 \<le> b \<and> b \<le> 0x8F
      else cont_byte b)"

definition utf8_step2 :: "nat \<Rightarrow> nat list \<Rightarrow> utf8_unit" where
  "utf8_step2 a r =
     (case r of [] \<Rightarrow> Incomplete 1
      | b # _ \<Rightarrow> if cont_byte b then Scalar ((a - 0xC0) * 64 + (b - 0x80)) 2 else Invalid 1)"

definition utf8_step3 :: "nat \<Rightarrow> nat list \<Rightarrow> utf8_unit" where
  "utf8_step3 a r =
     (case r of [] \<Rightarrow> Incomplete 1
      | b # r' \<Rightarrow>
          if \<not> second_byte a b then Invalid 1
          else (case r' of [] \<Rightarrow> Incomplete 2
                | c # _ \<Rightarrow>
                    if cont_byte c
                    then Scalar (((a - 0xE0) * 64 + (b - 0x80)) * 64 + (c - 0x80)) 3
                    else Invalid 2))"

definition utf8_step4 :: "nat \<Rightarrow> nat list \<Rightarrow> utf8_unit" where
  "utf8_step4 a r =
     (case r of [] \<Rightarrow> Incomplete 1
      | b # r' \<Rightarrow>
          if \<not> second_byte a b then Invalid 1
          else (case r' of [] \<Rightarrow> Incomplete 2
                | c # r'' \<Rightarrow>
                    if \<not> cont_byte c then Invalid 2
                    else (case r'' of [] \<Rightarrow> Incomplete 3
                          | d # _ \<Rightarrow>
                              if cont_byte d
                              then Scalar ((((a - 0xF0) * 64 + (b - 0x80)) * 64 + (c - 0x80)) * 64
                                             + (d - 0x80)) 4
                              else Invalid 3)))"

definition utf8_step :: "nat \<Rightarrow> nat list \<Rightarrow> utf8_unit" where
  "utf8_step a r =
     (if a < 0x80 then Scalar a 1
      else if 0xC2 \<le> a \<and> a \<le> 0xDF then utf8_step2 a r
      else if 0xE0 \<le> a \<and> a \<le> 0xEF then utf8_step3 a r
      else if 0xF0 \<le> a \<and> a \<le> 0xF4 then utf8_step4 a r
      else Invalid 1)"

primrec unit_width :: "utf8_unit \<Rightarrow> nat" where
  "unit_width (Scalar c n) = n"
| "unit_width (Invalid n) = n"
| "unit_width (Incomplete n) = n"

fun utf8_units :: "nat list \<Rightarrow> utf8_unit list" where
  "utf8_units [] = []"
| "utf8_units (a # r) = utf8_step a r # utf8_units (drop (unit_width (utf8_step a r) - 1) r)"

primrec unit_char :: "utf8_unit \<Rightarrow> nat" where
  "unit_char (Scalar c n) = c"
| "unit_char (Invalid n) = 0xFFFD"
| "unit_char (Incomplete n) = 0xFFFD"

text \<open>The code points of a string. On valid UTF-8 this is \<open>str::chars\<close>; on other bytes it is
  \<open>to_string_lossy\<close>, which replaces each ill-formed sequence by U+FFFD.\<close>

definition chars :: "string \<Rightarrow> nat list" where
  "chars s = map unit_char (utf8_units (map of_char s))"

datatype utf8_error = Utf8Error nat "nat option"

fun utf8_scan :: "nat \<Rightarrow> utf8_unit list \<Rightarrow> utf8_error option" where
  "utf8_scan pos [] = None"
| "utf8_scan pos (Scalar c n # us) = utf8_scan (pos + n) us"
| "utf8_scan pos (Invalid n # us) = Some (Utf8Error pos (Some n))"
| "utf8_scan pos (Incomplete n # us) = Some (Utf8Error pos None)"

definition text_of :: "bytes \<Rightarrow> string" where
  "text_of bs = map (\<lambda>b. char_of (unat b)) bs"

definition as_bytes :: "string \<Rightarrow> bytes" where
  "as_bytes s = map of_char s"

text \<open>\<open>std::str::from_utf8\<close> and \<open>String::from_utf8\<close>; the error says how many bytes were valid
  and how long the offending sequence is.\<close>

definition from_utf8 :: "bytes \<Rightarrow> utf8_error + string" where
  "from_utf8 bs =
     (case utf8_scan 0 (utf8_units (map unat bs)) of
        Some e \<Rightarrow> Inl e
      | None \<Rightarrow> Inr (text_of bs))"

definition is_utf8 :: "string \<Rightarrow> bool" where
  "is_utf8 s \<longleftrightarrow> utf8_scan 0 (utf8_units (map of_char s)) = None"

text \<open>\<open>String::push\<close>: the UTF-8 encoding of a code point.\<close>

definition utf8_encode :: "nat \<Rightarrow> string" where
  "utf8_encode c =
     map char_of
       (if c < 0x80 then [c]
        else if c < 0x800 then [0xC0 + c div 64, 0x80 + c mod 64]
        else if c < 0x10000 then [0xE0 + c div 4096, 0x80 + c div 64 mod 64, 0x80 + c mod 64]
        else [0xF0 + c div 262144, 0x80 + c div 4096 mod 64, 0x80 + c div 64 mod 64,
              0x80 + c mod 64])"

definition to_string_lossy :: "string \<Rightarrow> string" where
  "to_string_lossy s = concat (map utf8_encode (chars s))"

lemma as_bytes_simps [simp]:
  "as_bytes [] = []" "as_bytes (c # s) = of_char c # as_bytes s"
  "as_bytes (s @ t) = as_bytes s @ as_bytes t" "length (as_bytes s) = length s"
  by (simp_all add: as_bytes_def)

lemma text_of_simps [simp]:
  "text_of [] = []" "text_of (b # bs) = char_of (unat b) # text_of bs"
  "text_of (bs @ cs) = text_of bs @ text_of cs" "length (text_of bs) = length bs"
  by (simp_all add: text_of_def)

lemma of_char_less: "of_char c < (256 :: nat)"
proof -
  have "of_char c = (of_char c :: nat) mod 256"
    by (metis char_of_eq_iff of_char_mod_256)
  then show ?thesis by (metis mod_less_divisor zero_less_numeral)
qed

lemma unat_of_char [simp]: "unat (of_char c :: u8) = of_char c"
proof -
  have "(of_char c :: u8) = word_of_nat (of_char c)" by (simp only: of_nat_of_char)
  then have "unat (of_char c :: u8) = of_char c mod 2 ^ 8"
    by (simp only: unat_of_nat) simp
  then show ?thesis using of_char_less [of c] by simp
qed

lemma text_of_as_bytes [simp]: "text_of (as_bytes s) = s"
  by (induction s) simp_all

lemma as_bytes_text_of [simp]: "as_bytes (text_of bs) = bs"
proof (induction bs)
  case Nil
  then show ?case by simp
next
  case (Cons b bs)
  have "of_char (char_of (unat b) :: char) = (word_of_nat (of_char (char_of (unat b) :: char)) :: u8)"
    by (simp only: of_nat_of_char)
  also have "of_char (char_of (unat b) :: char) = unat b mod 256"
    by (simp add: of_char_of)
  also have "unat b mod 256 = unat b" using unat_u8_less [of b] by simp
  finally show ?case using Cons.IH by simp
qed

lemma as_bytes_inj: "as_bytes s = as_bytes t \<Longrightarrow> s = t"
  by (metis text_of_as_bytes)

lemma from_utf8_Inr: "from_utf8 bs = Inr s \<longleftrightarrow> is_utf8 (text_of bs) \<and> s = text_of bs"
proof -
  have "map of_char (text_of bs) = map unat bs"
    using unat_u8_less by (simp add: text_of_def of_char_of comp_def)
  then show ?thesis by (auto simp: from_utf8_def is_utf8_def split: option.splits)
qed

lemma from_utf8_as_bytes: "is_utf8 s \<Longrightarrow> from_utf8 (as_bytes s) = Inr s"
  by (simp add: from_utf8_Inr)

lemma unit_width_pos: "0 < unit_width (utf8_step a r)"
  by (auto simp: utf8_step_def utf8_step2_def utf8_step3_def utf8_step4_def split: list.splits)

lemma second_byte_high: "second_byte a b \<Longrightarrow> 0x80 \<le> b"
  by (auto simp: second_byte_def cont_byte_def split: if_splits)

lemma cont_byte_high: "cont_byte b \<Longrightarrow> 0x80 \<le> b"
  by (simp add: cont_byte_def)

lemma utf8_step2_high: "b \<in> set (take (unit_width (utf8_step2 a r) - 1) r) \<Longrightarrow> 0x80 \<le> b"
  by (cases r) (auto simp: utf8_step2_def dest: cont_byte_high split: if_splits)

lemma utf8_step3_high: "b \<in> set (take (unit_width (utf8_step3 a r) - 1) r) \<Longrightarrow> 0x80 \<le> b"
proof (cases r)
  case (Cons x r')
  then show "b \<in> set (take (unit_width (utf8_step3 a r) - 1) r) \<Longrightarrow> 0x80 \<le> b"
    by (cases r') (auto simp: utf8_step3_def dest: cont_byte_high second_byte_high split: if_splits)
qed simp

lemma utf8_step4_high: "b \<in> set (take (unit_width (utf8_step4 a r) - 1) r) \<Longrightarrow> 0x80 \<le> b"
proof (cases r)
  case (Cons x r')
  show "b \<in> set (take (unit_width (utf8_step4 a r) - 1) r) \<Longrightarrow> 0x80 \<le> b"
  proof (cases r')
    case (Cons y r'')
    then show "b \<in> set (take (unit_width (utf8_step4 a r) - 1) r) \<Longrightarrow> 0x80 \<le> b"
      using \<open>r = x # r'\<close>
      by (cases r'') (auto simp: utf8_step4_def dest: cont_byte_high second_byte_high split: if_splits)
  qed (auto simp: utf8_step4_def \<open>r = x # r'\<close> dest: second_byte_high split: if_splits)
qed simp

lemma utf8_step_high: "b \<in> set (take (unit_width (utf8_step a r) - 1) r) \<Longrightarrow> 0x80 \<le> b"
  using utf8_step2_high utf8_step3_high utf8_step4_high
  by (auto simp: utf8_step_def split: if_splits)

text \<open>An ASCII byte is never part of a longer sequence, valid or not.\<close>

lemma utf8_units_ascii: "b \<in> set bs \<Longrightarrow> b < 0x80 \<Longrightarrow> Scalar b 1 \<in> set (utf8_units bs)"
proof (induction bs rule: utf8_units.induct)
  case 1
  then show ?case by simp
next
  case (2 a r)
  let ?k = "unit_width (utf8_step a r) - 1"
  show ?case
  proof (cases "b = a")
    case True
    then show ?thesis using "2.prems"(2) by (simp add: utf8_step_def)
  next
    case False
    then have "b \<in> set (take ?k r @ drop ?k r)" using "2.prems"(1) by simp
    moreover have "b \<notin> set (take ?k r)" using utf8_step_high [of b a r] "2.prems"(2) by auto
    ultimately have "b \<in> set (drop ?k r)" by (metis Un_iff set_append)
    then show ?thesis using "2.IH" "2.prems"(2) by simp
  qed
qed

lemma chars_ascii: "c \<in> set s \<Longrightarrow> of_char c < (0x80 :: nat) \<Longrightarrow> of_char c \<in> set (chars s)"
  using utf8_units_ascii [of "of_char c" "map of_char s"]
  by (force simp: chars_def)

lemma utf8_units_all_ascii:
  "\<forall>b \<in> set bs. b < 0x80 \<Longrightarrow> utf8_units bs = map (\<lambda>b. Scalar b 1) bs"
  by (induction bs) (auto simp: utf8_step_def)

definition is_ascii :: "string \<Rightarrow> bool" where
  "is_ascii s \<longleftrightarrow> (\<forall>c \<in> set s. of_char c < (0x80 :: nat))"

lemma is_ascii_simps [simp]:
  "is_ascii []" "is_ascii (c # s) \<longleftrightarrow> of_char c < (0x80 :: nat) \<and> is_ascii s"
  "is_ascii (s @ t) \<longleftrightarrow> is_ascii s \<and> is_ascii t"
  by (auto simp: is_ascii_def)

lemma chars_is_ascii: "is_ascii s \<Longrightarrow> chars s = map of_char s"
  by (simp add: chars_def utf8_units_all_ascii is_ascii_def)

lemma utf8_scan_scalars: "\<forall>u \<in> set us. \<exists>c n. u = Scalar c n \<Longrightarrow> utf8_scan pos us = None"
  by (induction us arbitrary: pos) auto

lemma is_utf8_ascii: "is_ascii s \<Longrightarrow> is_utf8 s"
  unfolding is_utf8_def by (rule utf8_scan_scalars) (auto simp: utf8_units_all_ascii is_ascii_def)

section \<open>Lines\<close>

abbreviation LF :: char where "LF \<equiv> CHR 0x0A"
abbreviation CR :: char where "CR \<equiv> CHR 0x0D"
abbreviation TAB :: char where "TAB \<equiv> CHR 0x09"

text \<open>\<open>str::lines\<close>: split after each line feed, then drop the line feed and one carriage return
  before it. A final line without a line feed keeps its carriage return.\<close>

fun split_inclusive :: "string \<Rightarrow> string list" where
  "split_inclusive [] = []"
| "split_inclusive (c # s) =
     (if c = LF then [c] # split_inclusive s
      else (case split_inclusive s of [] \<Rightarrow> [[c]] | l # ls \<Rightarrow> (c # l) # ls))"

definition strip_cr :: "string \<Rightarrow> string" where
  "strip_cr l = (if l \<noteq> [] \<and> last l = CR then butlast l else l)"

definition strip_eol :: "string \<Rightarrow> string" where
  "strip_eol l = (if l \<noteq> [] \<and> last l = LF then strip_cr (butlast l) else l)"

definition lines :: "string \<Rightarrow> string list" where
  "lines s = map strip_eol (split_inclusive s)"

lemma split_inclusive_line:
  "LF \<notin> set a \<Longrightarrow> split_inclusive (a @ LF # rest) = (a @ [LF]) # split_inclusive rest"
  by (induction a) auto

lemma strip_cr_id: "CR \<notin> set l \<Longrightarrow> strip_cr l = l"
  by (cases l rule: rev_cases) (auto simp: strip_cr_def)

lemma lines_Nil [simp]: "lines [] = []"
  by (simp add: lines_def)

lemma lines_line:
  "LF \<notin> set a \<Longrightarrow> CR \<notin> set a \<Longrightarrow> lines (a @ LF # rest) = a # lines rest"
  by (simp add: lines_def split_inclusive_line strip_eol_def strip_cr_id)

lemma split_inclusive_no_lf: "l \<in> set (split_inclusive s) \<Longrightarrow> LF \<notin> set (butlast l)"
  by (induction s arbitrary: l) (auto split: list.splits if_splits)

lemma lines_no_lf: "l \<in> set (lines s) \<Longrightarrow> LF \<notin> set l"
proof -
  assume "l \<in> set (lines s)"
  then obtain m where m: "m \<in> set (split_inclusive s)" and l: "l = strip_eol m"
    by (auto simp: lines_def)
  have no: "LF \<notin> set (butlast m)" using split_inclusive_no_lf [OF m] .
  show "LF \<notin> set l"
  proof (cases "m \<noteq> [] \<and> last m = LF")
    case True
    then show ?thesis using no l by (auto simp: strip_eol_def strip_cr_def dest: in_set_butlastD)
  next
    case False
    then show ?thesis using no l
      by (cases m rule: rev_cases) (auto simp: strip_eol_def)
  qed
qed

section \<open>Prefixes, substrings, replacement\<close>

fun strip_prefix :: "string \<Rightarrow> string \<Rightarrow> string option" where
  "strip_prefix [] s = Some s"
| "strip_prefix (p # ps) [] = None"
| "strip_prefix (p # ps) (c # s) = (if p = c then strip_prefix ps s else None)"

lemma strip_prefix_Some: "strip_prefix p s = Some r \<longleftrightarrow> s = p @ r"
  by (induction p s rule: strip_prefix.induct) auto

lemma strip_prefix_append [simp]: "strip_prefix p (p @ r) = Some r"
  by (simp add: strip_prefix_Some)

definition starts_with :: "string \<Rightarrow> string \<Rightarrow> bool" where
  "starts_with p s \<longleftrightarrow> strip_prefix p s \<noteq> None"

fun contains_str :: "string \<Rightarrow> string \<Rightarrow> bool" where
  "contains_str p [] = (p = [])"
| "contains_str p (c # s) = (starts_with p (c # s) \<or> contains_str p s)"

lemma contains_str_iff: "contains_str p s \<longleftrightarrow> (\<exists>a b. s = a @ p @ b)"
proof (induction s)
  case Nil
  then show ?case by auto
next
  case (Cons c s)
  have "(\<exists>a b. c # s = a @ p @ b) \<longleftrightarrow> (\<exists>b. c # s = p @ b) \<or> (\<exists>a b. s = a @ p @ b)"
    by (metis append_Cons append_Nil list.sel(3) neq_Nil_conv)
  then show ?case using Cons.IH by (auto simp: starts_with_def strip_prefix_Some)
qed

text \<open>\<open>escape_ascii\<close> of a byte slice.\<close>

definition escape_ascii_byte :: "nat \<Rightarrow> string" where
  "escape_ascii_byte b =
     (if b = 0x09 then [CHR 0x5C, CHR ''t'']
      else if b = 0x0D then [CHR 0x5C, CHR ''r'']
      else if b = 0x0A then [CHR 0x5C, CHR ''n'']
      else if b = 0x27 then [CHR 0x5C, CHR 0x27]
      else if b = 0x22 then [CHR 0x5C, CHR 0x22]
      else if b = 0x5C then [CHR 0x5C, CHR 0x5C]
      else if 0x20 \<le> b \<and> b < 0x7F then [char_of b]
      else [CHR 0x5C, CHR ''x''] @ hex_lower 2 b)"

definition escape_ascii :: "bytes \<Rightarrow> string" where
  "escape_ascii bs = concat (map (\<lambda>b. escape_ascii_byte (unat b)) bs)"

end
