(* ===== verification/Errors.thy ===== *)
theory Errors
  imports Text
begin

text \<open>
  The error type of the program (\<open>errors.rs\<close>) with every constructor of the source, and the
  messages its \<open>#[error(...)]\<close> attributes print. A path is the byte string of its
  \<open>OsStr\<close>. An \<open>io::Error\<close> is its \<open>ErrorKind\<close>, as far as the code looks at it, and the text
  it displays; the error values of the \<open>base64\<close> crate carry only the text they display.
\<close>

type_synonym path = string

datatype io_kind = NotFound | AlreadyExists | InterruptedIo | OtherKind

datatype io_error = IoError io_kind string

primrec io_kind_of :: "io_error \<Rightarrow> io_kind" where
  "io_kind_of (IoError k t) = k"

primrec io_text :: "io_error \<Rightarrow> string" where
  "io_text (IoError k t) = t"

datatype b64_error = DecodeError string

datatype error =
    FileRead path io_error
  | FileWrite path io_error
  | FileNotFound path
  | FileExists path
  | OutputAlias path path
  | OutputIsSymlink path
  | InvalidBase64 b64_error
  | InvalidKeyFormat string
  | InvalidPublicKey string
  | InvalidSecretKey string
  | InvalidSignatureFormat string
  | InvalidFileFormat string string
  | MissingField string
  | InvalidUtf8 string utf8_error
  | VerificationFailed
  | InvalidSignature
  | LegacySignatureRejected
  | KeyMismatch string
  | ChecksumFailed
  | CredentialStoreError string
  | KdfError string
  | KdfMemoryError string
  | KdfOverBudget u64 u64
  | RngError string
  | PasswordRequired
  | ScryptParamError string
  | PasswordMismatch
  | InvalidPath path
  | MissingArgument string
  | InvalidComment string
  | Usage string
  | Io string
  | Interrupted
  | PartialFailure
  | TotalFailure
  | Other string

primrec b64_text :: "b64_error \<Rightarrow> string" where
  "b64_text (DecodeError t) = t"

text \<open>\<open>Display\<close> of \<open>std::str::Utf8Error\<close>.\<close>

primrec utf8_error_text :: "utf8_error \<Rightarrow> string" where
  "utf8_error_text (Utf8Error pos len) =
     (case len of
        Some n \<Rightarrow> ''invalid utf-8 sequence of '' @ dec n @ '' bytes from index '' @ dec pos
      | None \<Rightarrow> ''incomplete utf-8 byte sequence from index '' @ dec pos)"

text \<open>The messages of the \<open>#[error(...)]\<close> attributes; \<open>dbg\<close> is the \<open>Debug\<close> rendering of a path,
  which the format strings ask for with \<open>{path:?}\<close>.\<close>

primrec display_error :: "(path \<Rightarrow> string) \<Rightarrow> error \<Rightarrow> string" where
  "display_error dbg (FileRead p e) = ''failed to read file '' @ dbg p @ '': '' @ io_text e"
| "display_error dbg (FileWrite p e) = ''failed to write file '' @ dbg p @ '': '' @ io_text e"
| "display_error dbg (FileNotFound p) = ''file not found: '' @ dbg p"
| "display_error dbg (FileExists p) = ''file already exists: '' @ dbg p"
| "display_error dbg (OutputAlias p q) =
     ''output file '' @ dbg p @ '' names the same file as '' @ dbg q"
| "display_error dbg (OutputIsSymlink p) = ''refusing to replace symlink '' @ dbg p"
| "display_error dbg (InvalidBase64 e) = ''invalid base64: '' @ b64_text e"
| "display_error dbg (InvalidKeyFormat m) = ''invalid key format: '' @ m"
| "display_error dbg (InvalidPublicKey m) = ''invalid public key: '' @ m"
| "display_error dbg (InvalidSecretKey m) = ''invalid secret key: '' @ m"
| "display_error dbg (InvalidSignatureFormat m) = ''invalid signature format: '' @ m"
| "display_error dbg (InvalidFileFormat expected found) =
     ''invalid file format: expected '' @ expected @ '', found '' @ found"
| "display_error dbg (MissingField m) = ''missing field: '' @ m"
| "display_error dbg (InvalidUtf8 ctxt e) =
     ''invalid UTF-8 in '' @ ctxt @ '': '' @ utf8_error_text e"
| "display_error dbg VerificationFailed = ''signature verification failed''"
| "display_error dbg InvalidSignature = ''invalid signature''"
| "display_error dbg LegacySignatureRejected = ''Legacy (non-prehashed) signature found''"
| "display_error dbg (KeyMismatch k) = ''key mismatch: signature keyid '' @ k"
| "display_error dbg ChecksumFailed = ''checksum verification failed''"
| "display_error dbg (CredentialStoreError m) = ''credential store operation failed: '' @ m"
| "display_error dbg (KdfError m) = ''key derivation failed: '' @ m"
| "display_error dbg (KdfMemoryError m) =
     ''key derivation failed (insufficient memory): '' @ m"
| "display_error dbg (KdfOverBudget memlimit mx) =
     ''key file requests '' @ dec (unat memlimit)
       @ '' bytes of scrypt memory, which exceeds the supported maximum of ''
       @ dec (unat mx) @ '' bytes''"
| "display_error dbg (RngError m) = ''random number generator failed: '' @ m"
| "display_error dbg PasswordRequired = ''password required but not provided''"
| "display_error dbg (ScryptParamError m) = ''scrypt parameter out of range: '' @ m"
| "display_error dbg PasswordMismatch = ''Passwords don'' @ [CHR 0x27] @ ''t match''"
| "display_error dbg (InvalidPath p) = ''invalid path: '' @ dbg p"
| "display_error dbg (MissingArgument m) = ''missing required argument: '' @ m"
| "display_error dbg (InvalidComment m) = ''invalid comment: '' @ m"
| "display_error dbg (Usage m) = ''usage: '' @ m"
| "display_error dbg (Io m) = ''I/O error: '' @ m"
| "display_error dbg Interrupted = ''interrupted''"
| "display_error dbg PartialFailure = ''Some files in batch operation failed''"
| "display_error dbg TotalFailure = ''All files in batch operation failed''"
| "display_error dbg (Other m) = m"

end
