(* ===== verification/Crates.thy ===== *)
theory Crates
  imports Errors
begin

text \<open>
  The third-party crates the program calls (\<open>base64\<close>, \<open>blake2\<close>, \<open>scrypt\<close>,
  \<open>ed25519-dalek\<close>), as one record of functions that the definitions using them take as their
  first argument, and the documented behaviour the program relies on as named predicates on
  that record. Nothing else is assumed of them.
\<close>

datatype b64_slice_error = SliceDecodeError b64_error | OutputSliceTooSmall

record crates =
  b64_encode :: "bytes \<Rightarrow> string"
  b64_decode :: "string \<Rightarrow> b64_error + bytes"
  b64_decode_slice :: "string \<Rightarrow> nat \<Rightarrow> b64_slice_error + bytes"
  blake2b :: "nat \<Rightarrow> bytes list \<Rightarrow> bytes"
  scrypt_params :: "u8 \<Rightarrow> u32 \<Rightarrow> u32 \<Rightarrow> nat \<Rightarrow> string option"
  scrypt_kdf :: "bytes \<Rightarrow> bytes \<Rightarrow> u8 \<Rightarrow> u32 \<Rightarrow> u32 \<Rightarrow> nat \<Rightarrow> string + bytes"
  ed_generate :: "bytes \<Rightarrow> bytes"
  ed_keypair :: "bytes \<Rightarrow> string option"
  ed_public :: "bytes \<Rightarrow> bytes"
  ed_sign :: "bytes \<Rightarrow> bytes \<Rightarrow> bytes"
  ed_point :: "bytes \<Rightarrow> bool"
  ed_weak :: "bytes \<Rightarrow> bool"
  ed_verify_strict :: "bytes \<Rightarrow> bytes \<Rightarrow> bytes \<Rightarrow> bool"

text \<open>
  \<^item> \<open>b64_encode\<close>, \<open>b64_decode\<close>: \<open>STANDARD.encode\<close> and \<open>STANDARD.decode\<close>;
    \<open>b64_decode_slice s n\<close>: \<open>STANDARD.decode_slice\<close> into a buffer of \<open>n\<close> bytes.
  \<^item> \<open>blake2b n us\<close>: the \<open>n\<close>-byte BLAKE2b digest after the \<open>update\<close> calls \<open>us\<close>, in order.
  \<^item> \<open>scrypt_params log_n r p len\<close>: the error \<open>scrypt::Params::new\<close> returns, if any;
    \<open>scrypt_kdf password salt log_n r p n\<close>: \<open>scrypt::scrypt\<close> into a buffer of \<open>n\<close> bytes.
  \<^item> \<open>ed_generate seed\<close>: the 64 keypair bytes of \<open>SigningKey::generate\<close> from 32 random bytes;
    \<open>ed_keypair kp\<close>: the error of \<open>SigningKey::from_keypair_bytes\<close>, if any;
    \<open>ed_public kp\<close>: \<open>verifying_key().to_bytes()\<close>, derived from the scalar half of \<open>kp\<close>;
    \<open>ed_sign kp m\<close>: \<open>Signer::sign\<close>.
  \<^item> \<open>ed_point pk\<close>: \<open>VerifyingKey::from_bytes\<close> succeeds; \<open>ed_weak\<close>: \<open>is_weak\<close>;
    \<open>ed_verify_strict pk m s\<close>: \<open>verify_strict\<close> accepts.
\<close>

text \<open>The characters of standard base64.\<close>

definition b64_char :: "char \<Rightarrow> bool" where
  "b64_char c \<longleftrightarrow>
     c \<in> set ''ABCDEFGHIJKLMNOPQRSTUVWXYZabcdefghijklmnopqrstuvwxyz0123456789+/=''"

definition b64_ok :: "crates \<Rightarrow> bool" where
  "b64_ok C \<longleftrightarrow>
     (\<forall>bs. b64_decode C (b64_encode C bs) = Inr bs)
     \<and> (\<forall>bs. \<forall>c \<in> set (b64_encode C bs). b64_char c)
     \<and> (\<forall>s n bs. b64_decode_slice C s n = Inr bs \<longleftrightarrow> b64_decode C s = Inr bs \<and> length bs \<le> n)"

definition blake2b_ok :: "crates \<Rightarrow> bool" where
  "blake2b_ok C \<longleftrightarrow>
     (\<forall>n us. length (blake2b C n us) = n) \<and> (\<forall>n us. blake2b C n us = blake2b C n [concat us])"

definition scrypt_ok :: "crates \<Rightarrow> bool" where
  "scrypt_ok C \<longleftrightarrow>
     (\<forall>pw salt l r p n out. scrypt_kdf C pw salt l r p n = Inr out \<longrightarrow> length out = n)"

definition ed_ok :: "crates \<Rightarrow> bool" where
  "ed_ok C \<longleftrightarrow>
     (\<forall>kp m. length (ed_sign C kp m) = 64)
     \<and> (\<forall>kp. length (ed_public C kp) = 32)
     \<and> (\<forall>seed. length (ed_generate C seed) = 64)
     \<and> (\<forall>seed. ed_keypair C (ed_generate C seed) = None)
     \<and> (\<forall>kp. ed_keypair C kp = None \<longrightarrow>
           ed_point C (ed_public C kp) \<and> \<not> ed_weak C (ed_public C kp)
           \<and> (\<forall>m. ed_verify_strict C (ed_public C kp) m (ed_sign C kp m)))"

lemma b64_decode_encode: "b64_ok C \<Longrightarrow> b64_decode C (b64_encode C bs) = Inr bs"
  by (simp add: b64_ok_def)

lemma b64_decode_slice_iff:
  "b64_ok C \<Longrightarrow> b64_decode_slice C s n = Inr bs \<longleftrightarrow> b64_decode C s = Inr bs \<and> length bs \<le> n"
  by (simp add: b64_ok_def)

lemma b64_char_no_eol: "b64_char c \<Longrightarrow> c \<noteq> LF \<and> c \<noteq> CR"
  by (auto simp: b64_char_def)

lemma b64_encode_no_eol: "b64_ok C \<Longrightarrow> LF \<notin> set (b64_encode C bs) \<and> CR \<notin> set (b64_encode C bs)"
  unfolding b64_ok_def using b64_char_no_eol by blast

lemma blake2b_length [layout_simps]: "blake2b_ok C \<Longrightarrow> length (blake2b C n us) = n"
  by (simp add: blake2b_ok_def)

lemma blake2b_concat: "blake2b_ok C \<Longrightarrow> blake2b C n us = blake2b C n [concat us]"
  unfolding blake2b_ok_def by blast

lemma scrypt_length: "scrypt_ok C \<Longrightarrow> scrypt_kdf C pw salt l r p n = Inr out \<Longrightarrow> length out = n"
  unfolding scrypt_ok_def by blast

lemma ed_sign_length [layout_simps]: "ed_ok C \<Longrightarrow> length (ed_sign C kp m) = 64"
  by (simp add: ed_ok_def)

lemma ed_public_length [layout_simps]: "ed_ok C \<Longrightarrow> length (ed_public C kp) = 32"
  by (simp add: ed_ok_def)

lemma ed_verify_sign:
  "ed_ok C \<Longrightarrow> ed_keypair C kp = None \<Longrightarrow>
     ed_point C (ed_public C kp) \<and> \<not> ed_weak C (ed_public C kp)
     \<and> ed_verify_strict C (ed_public C kp) m (ed_sign C kp m)"
  by (simp add: ed_ok_def)

end
