(* ===== verification/Formats.thy ===== *)
theory Formats
  imports Crates
begin

text \<open>
  \<open>formats.rs\<close>: the base64 wrappers and the bounds-checked little-endian reader. The decoder
  into a caller's buffer returns the buffer and the decoded length, as the code leaves them.
\<close>

definition encode_base64 :: "crates \<Rightarrow> bytes \<Rightarrow> string" where
  "encode_base64 C data = b64_encode C data"

definition decode_base64 :: "crates \<Rightarrow> string \<Rightarrow> error + bytes" where
  "decode_base64 C data = map_err InvalidBase64 (b64_decode C data)"

definition decode_base64_into :: "crates \<Rightarrow> string \<Rightarrow> bytes \<Rightarrow> error + bytes \<times> nat" where
  "decode_base64_into C data out =
     (case b64_decode_slice C data (length out) of
        Inr bs \<Rightarrow> Inr (copy_at 0 bs out, length bs)
      | Inl (SliceDecodeError e) \<Rightarrow> Inl (InvalidBase64 e)
      | Inl OutputSliceTooSmall \<Rightarrow>
          Inl (InvalidKeyFormat (''decoded data exceeds '' @ dec (length out) @ '' bytes'')))"

text \<open>\<open>bytes.get(..8)\<close> is \<open>None\<close> on a shorter slice; the conversion to an array cannot fail.\<close>

definition read_u64_le :: "bytes \<Rightarrow> error + u64" where
  "read_u64_le bs =
     and_then (ok_or (Other (''read_u64_le requires at least 8 bytes, got '' @ dec (length bs)))
                (if length bs < 8 then None else Some (take 8 bs)))
       (\<lambda>buf. Inr (u64_from_le_bytes buf))"

lemma decode_encode_base64 [simp]:
  "b64_ok C \<Longrightarrow> decode_base64 C (encode_base64 C bs) = Inr bs"
  by (simp add: decode_base64_def encode_base64_def b64_decode_encode)

lemma decode_base64_Inr: "decode_base64 C s = Inr bs \<longleftrightarrow> b64_decode C s = Inr bs"
  by (simp add: decode_base64_def result_simps)

lemma encode_base64_no_eol:
  "b64_ok C \<Longrightarrow> LF \<notin> set (encode_base64 C bs) \<and> CR \<notin> set (encode_base64 C bs)"
  by (simp add: encode_base64_def b64_encode_no_eol)

text \<open>The buffered decoder agrees with the allocating one on everything that fits.\<close>

lemma decode_base64_into_Inr:
  "b64_ok C \<Longrightarrow>
     decode_base64_into C s out = Inr (buf, n) \<longleftrightarrow>
       (\<exists>bs. b64_decode C s = Inr bs \<and> length bs \<le> length out
          \<and> buf = copy_at 0 bs out \<and> n = length bs)"
  unfolding decode_base64_into_def
  by (cases "b64_decode_slice C s (length out)")
    (auto simp: b64_decode_slice_iff dest: b64_decode_slice_iff [THEN iffD2]
      split: b64_slice_error.splits)

lemma decode_base64_into_take:
  "b64_ok C \<Longrightarrow> decode_base64_into C s out = Inr (buf, n) \<Longrightarrow> b64_decode C s = Inr (take n buf)"
  by (auto simp: decode_base64_into_Inr copy_at_def)

lemma decode_base64_into_encode:
  "b64_ok C \<Longrightarrow> length bs \<le> length out \<Longrightarrow>
     decode_base64_into C (encode_base64 C bs) out = Inr (bs @ drop (length bs) out, length bs)"
  by (simp add: decode_base64_into_Inr b64_decode_encode encode_base64_def copy_at_def)

lemma read_u64_le_exact [simp]: "length bs = 8 \<Longrightarrow> read_u64_le bs = Inr (u64_from_le_bytes bs)"
  by (simp add: read_u64_le_def)

lemma read_u64_le_short: "length bs < 8 \<Longrightarrow> \<exists>m. read_u64_le bs = Inl (Other m)"
  by (simp add: read_u64_le_def)

end
