(* ===== verification/Kdf.thy ===== *)
theory Kdf
  imports Formats
begin

text \<open>
  The key-derivation half of \<open>crypto.rs\<close>: the constants, the checked 64-bit arithmetic that
  turns \<open>log_n\<close> into \<open>opslimit\<close> and \<open>memlimit\<close> and back, the memory budget, and the
  wrapper around \<open>scrypt\<close>. The lemmas characterise the two conversions exactly, on every
  64-bit input.
\<close>

section \<open>Constants\<close>

definition SIGNATURE_BYTES :: nat where "SIGNATURE_BYTES = 64"
definition PUBLIC_KEY_BYTES :: nat where "PUBLIC_KEY_BYTES = 32"
definition SECRET_KEY_BYTES :: nat where "SECRET_KEY_BYTES = 64"
definition KEYNUM_BYTES :: nat where "KEYNUM_BYTES = 8"
definition KDF_SALT_BYTES :: nat where "KDF_SALT_BYTES = 32"
definition CHECKSUM_BYTES :: nat where "CHECKSUM_BYTES = 32"

lemmas size_defs [layout_simps] = SIGNATURE_BYTES_def PUBLIC_KEY_BYTES_def SECRET_KEY_BYTES_def
  KEYNUM_BYTES_def KDF_SALT_BYTES_def CHECKSUM_BYTES_def

definition SCRYPT_LOG_N :: u8 where "SCRYPT_LOG_N = 20"
definition SCRYPT_R :: u32 where "SCRYPT_R = 8"
definition SCRYPT_P :: u32 where "SCRYPT_P = 1"
definition LIBSODIUM_OPSLIMIT_MULTIPLIER :: u64 where "LIBSODIUM_OPSLIMIT_MULTIPLIER = 4"
definition LIBSODIUM_MEMLIMIT_MULTIPLIER :: u64 where "LIBSODIUM_MEMLIMIT_MULTIPLIER = 128"
definition PRODUCTION_OPSLIMIT :: u64 where "PRODUCTION_OPSLIMIT = 33554432"
definition PRODUCTION_MEMLIMIT :: u64 where "PRODUCTION_MEMLIMIT = 1073741824"
definition MAX_KDF_MEMLIMIT :: u64 where "MAX_KDF_MEMLIMIT = PRODUCTION_MEMLIMIT"
definition MAX_KDF_OUTPUT_LEN :: nat where "MAX_KDF_OUTPUT_LEN = 1024"

lemmas kdf_const_defs = SCRYPT_LOG_N_def SCRYPT_R_def SCRYPT_P_def
  LIBSODIUM_OPSLIMIT_MULTIPLIER_def LIBSODIUM_MEMLIMIT_MULTIPLIER_def
  PRODUCTION_OPSLIMIT_def PRODUCTION_MEMLIMIT_def MAX_KDF_MEMLIMIT_def

section \<open>Checked 64-bit arithmetic\<close>

text \<open>\<open>u64::checked_mul\<close>, \<open>is_multiple_of\<close>, \<open>is_power_of_two\<close>, \<open>trailing_zeros\<close> and
  \<open>u32::try_from\<close>.\<close>

definition checked_mul :: "u64 \<Rightarrow> u64 \<Rightarrow> u64 option" where
  "checked_mul a b = (if unat a * unat b < 2 ^ 64 then Some (a * b) else None)"

definition is_multiple_of :: "u64 \<Rightarrow> u64 \<Rightarrow> bool" where
  "is_multiple_of a b = (if b = 0 then a = 0 else a mod b = 0)"

definition count_ones :: "u64 \<Rightarrow> nat" where
  "count_ones w = length (filter (bit w) [0..<64])"

definition is_power_of_two :: "u64 \<Rightarrow> bool" where
  "is_power_of_two w \<longleftrightarrow> count_ones w = 1"

definition trailing_zeros :: "u64 \<Rightarrow> nat" where
  "trailing_zeros w = length (takeWhile (\<lambda>i. \<not> bit w i) [0..<64])"

definition u32_try_from :: "u64 \<Rightarrow> u32 option" where
  "u32_try_from w = (if unat w < 2 ^ 32 then Some (ucast w) else None)"

definition u8_try_from :: "nat \<Rightarrow> u8 option" where
  "u8_try_from n = (if n < 2 ^ 8 then Some (word_of_nat n) else None)"

lemma unat_u64_less: "unat (w :: u64) < 2 ^ 64"
  using unsigned_less [of w, where ?'a = nat] by simp

lemma checked_mul_Some:
  "checked_mul a b = Some c \<longleftrightarrow> unat a * unat b < 2 ^ 64 \<and> unat c = unat a * unat b"
proof -
  have "unat a * unat b < 2 ^ 64 \<Longrightarrow> unat (a * b) = unat a * unat b"
    by (simp add: unat_word_ariths)
  then show ?thesis by (auto simp: checked_mul_def word_unat_eq_iff)
qed

lemma checked_mul_None: "checked_mul a b = None \<longleftrightarrow> 2 ^ 64 \<le> unat a * unat b"
  by (auto simp: checked_mul_def)

lemma is_multiple_of_dvd: "is_multiple_of a b \<longleftrightarrow> unat b dvd unat a"
proof (cases "b = 0")
  case True
  then show ?thesis by (simp add: is_multiple_of_def unat_eq_zero)
next
  case False
  have "a mod b = 0 \<longleftrightarrow> unat (a mod b) = 0" by (simp add: unat_eq_zero)
  then show ?thesis using False by (simp add: is_multiple_of_def unat_mod_distrib dvd_eq_mod_eq_0)
qed

lemma upt64_split: "k < 64 \<Longrightarrow> [0..<64] = [0..<k] @ k # [Suc k..<64]"
  by (metis le_add_diff_inverse less_imp_le_nat upt_add_eq_append upt_conv_Cons zero_le)

lemma trailing_zeros_unique:
  assumes "k < 64" "bit w k" "\<And>i. i < k \<Longrightarrow> \<not> bit w i"
  shows "trailing_zeros w = k"
proof -
  have "takeWhile (\<lambda>i. \<not> bit w i) [0..<64] = [0..<k]"
    unfolding upt64_split [OF assms(1)] using assms(2,3) by (simp add: takeWhile_append)
  then show ?thesis by (simp add: trailing_zeros_def)
qed

lemma is_power_of_two_iff:
  "is_power_of_two w \<longleftrightarrow> (\<exists>k < 64. w = push_bit k 1)"
proof
  assume "is_power_of_two w"
  then have "length (filter (bit w) [0..<64]) = 1"
    by (simp add: is_power_of_two_def count_ones_def)
  then obtain k where k: "filter (bit w) [0..<64] = [k]"
    by (metis One_nat_def length_0_conv length_Suc_conv)
  then have "set (filter (bit w) [0..<64]) = {k}" by simp
  then have bits: "\<And>i. i < 64 \<Longrightarrow> bit w i \<longleftrightarrow> i = k" and "k < 64"
    by (auto simp: set_eq_iff)
  have "w = push_bit k 1"
  proof (rule bit_word_eqI)
    fix n
    assume "n < LENGTH(64)"
    then show "bit w n = bit (push_bit k 1 :: u64) n"
      using bits [of n] \<open>k < 64\<close> by (auto simp: bit_simps)
  qed
  then show "\<exists>k < 64. w = push_bit k 1" using \<open>k < 64\<close> by blast
next
  assume "\<exists>k < 64. w = push_bit k 1"
  then obtain k where k: "k < 64" "w = push_bit k 1" by blast
  have "filter (bit w) [0..<64] = filter (\<lambda>i. i = k) [0..<64]"
    using k by (intro filter_cong) (auto simp: bit_simps)
  also have "\<dots> = [k]" unfolding upt64_split [OF k(1)] by simp
  finally show "is_power_of_two w" by (simp add: is_power_of_two_def count_ones_def)
qed

lemma trailing_zeros_push_bit: "k < 64 \<Longrightarrow> trailing_zeros (push_bit k 1) = k"
  by (rule trailing_zeros_unique) (auto simp: bit_simps)

lemma unat_push_bit_1: "k < 64 \<Longrightarrow> unat (push_bit k 1 :: u64) = 2 ^ k"
proof -
  assume k: "k < 64"
  have "(push_bit k 1 :: u64) = word_of_nat (2 ^ k)" by (simp add: push_bit_eq_mult)
  moreover have "(2 :: nat) ^ k < 2 ^ 64" using k by (rule power_strict_increasing) simp
  ultimately show ?thesis by (simp only: unat_of_nat) simp
qed

lemma is_power_of_two_unat:
  "is_power_of_two w \<longleftrightarrow> (\<exists>k < 64. unat w = 2 ^ k)"
  unfolding is_power_of_two_iff
  by (metis unat_push_bit_1 word_unat_eq_iff)

lemma trailing_zeros_unat: "k < 64 \<Longrightarrow> unat w = 2 ^ k \<Longrightarrow> trailing_zeros w = k"
  by (metis trailing_zeros_push_bit unat_push_bit_1 word_unat_eq_iff)

section \<open>Parameters\<close>

text \<open>\<open>check_kdf_budget\<close>: the stored \<open>memlimit\<close> may not exceed one gibibyte.\<close>

definition check_kdf_budget :: "u64 \<Rightarrow> error + unit" where
  "check_kdf_budget memlimit =
     (if memlimit > MAX_KDF_MEMLIMIT then Inl (KdfOverBudget memlimit MAX_KDF_MEMLIMIT)
      else Inr ())"

text \<open>\<open>calculate_kdf_params\<close>; \<open>dbg\<close> says whether the build has debug assertions.\<close>

definition calculate_kdf_params :: "bool \<Rightarrow> u8 \<Rightarrow> bool \<Rightarrow> error + u64 \<times> u64" where
  "calculate_kdf_params dbg log_n force_weak_kdf =
     (if dbg \<and> force_weak_kdf then Inr (4194304, 134217728)
      else if force_weak_kdf then
        Inl (ScryptParamError ''force_weak_kdf is not permitted in release builds'')
      else if log_n \<ge> 64 then
        Inl (ScryptParamError (''log_n must be < 64, got '' @ dec (unat log_n)))
      else
        (let n = push_bit (unat log_n) (1 :: u64);
             r = (ucast SCRYPT_R :: u64)
         in and_then
              (ok_or (ScryptParamError (''overflow calculating opslimit for log_n='' @ dec (unat log_n)))
                (Option.bind (checked_mul LIBSODIUM_OPSLIMIT_MULTIPLIER n) (\<lambda>v. checked_mul v r)))
              (\<lambda>opslimit. and_then
                (ok_or (ScryptParamError (''overflow calculating memlimit for log_n='' @ dec (unat log_n)))
                  (Option.bind (checked_mul LIBSODIUM_MEMLIMIT_MULTIPLIER n) (\<lambda>v. checked_mul v r)))
                (\<lambda>memlimit. Inr (opslimit, memlimit)))))"

text \<open>\<open>decode_kdf_params\<close>: the exact inverse, with every check of the source in its order.\<close>

definition decode_kdf_params :: "crates \<Rightarrow> u64 \<Rightarrow> u64 \<Rightarrow> error + u8 \<times> u32 \<times> u32" where
  "decode_kdf_params C opslimit memlimit =
     and_then (ok_or (ScryptParamError ''overflow calculating divisor'')
                (checked_mul LIBSODIUM_MEMLIMIT_MULTIPLIER (ucast SCRYPT_R)))
     (\<lambda>divisor.
       if \<not> is_multiple_of memlimit divisor then
         Inl (ScryptParamError (''memlimit '' @ dec (unat memlimit) @ '' is not an exact minisign KDF encoding''))
       else let n = memlimit div divisor in
       if n = 0 then Inl (ScryptParamError ''N cannot be zero'')
       else if \<not> is_power_of_two n then
         Inl (ScryptParamError (''memlimit-derived N '' @ dec (unat n) @ '' is not a power of two''))
       else and_then (ok_or (ScryptParamError ''log_n out of valid range'') (u8_try_from (trailing_zeros n)))
       (\<lambda>log_n. and_then
           (ok_or (ScryptParamError ''overflow calculating derived r'')
             (checked_mul LIBSODIUM_OPSLIMIT_MULTIPLIER n))
         (\<lambda>opslimit_divisor.
           if \<not> is_multiple_of opslimit opslimit_divisor then
             Inl (ScryptParamError (''opslimit '' @ dec (unat opslimit) @ '' is not an exact minisign KDF encoding''))
           else let derived_r = opslimit div opslimit_divisor in
           if derived_r = 0 then Inl (ScryptParamError ''derived r cannot be zero'')
           else and_then (ok_or (ScryptParamError ''derived r exceeds supported scrypt limits'') (u32_try_from derived_r))
           (\<lambda>derived_r.
             case scrypt_params C log_n derived_r SCRYPT_P 64 of
               Some e \<Rightarrow> Inl (ScryptParamError (''invalid scrypt parameters: '' @ e))
             | None \<Rightarrow>
                 if derived_r \<noteq> SCRYPT_R then
                   Inl (ScryptParamError (''unsupported non-standard scrypt parameter pair: r='' @ dec (unat derived_r)))
                 else Inr (log_n, SCRYPT_R, SCRYPT_P)))))"

definition opslimit_memlimit_to_params :: "crates \<Rightarrow> u64 \<Rightarrow> u64 \<Rightarrow> error + u8 \<times> u32 \<times> u32" where
  "opslimit_memlimit_to_params C opslimit memlimit =
     and_then (decode_kdf_params C opslimit memlimit)
       (\<lambda>params. and_then (check_kdf_budget memlimit) (\<lambda>_. Inr params))"

text \<open>\<open>derive_key_with_params\<close>. The \<open>Params\<close> are built for at most 64 bytes; \<open>scrypt\<close> fills
  the whole buffer, and the last check refuses a buffer whose tail was left at zero.\<close>

definition derive_key_with_params ::
  "crates \<Rightarrow> bytes \<Rightarrow> bytes \<Rightarrow> u8 \<Rightarrow> u32 \<Rightarrow> u32 \<Rightarrow> nat \<Rightarrow> error + bytes" where
  "derive_key_with_params C password salt log_n r p output_len =
     (if output_len > MAX_KDF_OUTPUT_LEN then
        Inl (KdfError (''output length '' @ dec output_len @ '' exceeds maximum ''
               @ dec MAX_KDF_OUTPUT_LEN @ '' bytes''))
      else case scrypt_params C log_n r p (min output_len 64) of
        Some e \<Rightarrow> Inl (KdfError (''invalid scrypt parameters: '' @ e))
      | None \<Rightarrow>
          and_then (map_err (\<lambda>e. KdfError (''scrypt failed: '' @ e))
                     (scrypt_kdf C password salt log_n r p output_len))
          (\<lambda>out.
            if output_len > 64 \<and> list_all (\<lambda>b. b = 0) (drop 64 out) then
              Inl (KdfError (''scrypt produced truncated output: bytes beyond index 64 are all zero; ''
                     @ ''the scrypt crate may now honour Params.len '' @ [char_of (226 :: nat), char_of (128 :: nat), char_of (148 :: nat)]
                     @ '' pin or migrate to two-round derivation''))
            else Inr out))"

definition derive_key :: "crates \<Rightarrow> bytes \<Rightarrow> bytes \<Rightarrow> nat \<Rightarrow> error + bytes" where
  "derive_key C password salt output_len =
     derive_key_with_params C password salt SCRYPT_LOG_N SCRYPT_R SCRYPT_P output_len"

section \<open>What the conversions compute\<close>

lemma bind_checked_mul:
  "0 < unat r \<Longrightarrow>
     Option.bind (checked_mul a n) (\<lambda>v. checked_mul v r) = Some x \<longleftrightarrow>
       unat a * unat n * unat r < 2 ^ 64 \<and> unat x = unat a * unat n * unat r"
proof -
  assume r: "0 < unat r"
  have small: "unat a * unat n < 2 ^ 64" if "unat a * unat n * unat r < 2 ^ 64"
    using that r by (metis le_less_trans mult.right_neutral mult_le_mono2 Suc_leI One_nat_def)
  show ?thesis
  proof
    assume "Option.bind (checked_mul a n) (\<lambda>v. checked_mul v r) = Some x"
    then show "unat a * unat n * unat r < 2 ^ 64 \<and> unat x = unat a * unat n * unat r"
      by (auto simp: bind_eq_Some_conv checked_mul_Some)
  next
    assume rhs: "unat a * unat n * unat r < 2 ^ 64 \<and> unat x = unat a * unat n * unat r"
    have "unat (a * n) = unat a * unat n"
      using small [OF conjunct1 [OF rhs]] by (simp add: unat_word_ariths)
    then have first: "checked_mul a n = Some (a * n)" using small [OF conjunct1 [OF rhs]]
      by (simp add: checked_mul_def)
    have "checked_mul (a * n) r = Some x"
      unfolding checked_mul_Some \<open>unat (a * n) = unat a * unat n\<close> by (rule rhs)
    then show "Option.bind (checked_mul a n) (\<lambda>v. checked_mul v r) = Some x"
      unfolding first by simp
  qed
qed

lemma pow2_less_64: "(2 :: nat) ^ k < 2 ^ 64 \<longleftrightarrow> k < 64"
  by (rule power_strict_increasing_iff) simp

lemma calculate_kdf_params_iff:
  "calculate_kdf_params dbg l False = Inr (opslimit, memlimit) \<longleftrightarrow>
     unat l \<le> 53 \<and> unat opslimit = 2 ^ (unat l + 5) \<and> unat memlimit = 2 ^ (unat l + 10)"
proof (cases "unat l < 64")
  case False
  then have "l \<ge> 64" by (simp add: word_le_nat_alt)
  then show ?thesis using False by (simp add: calculate_kdf_params_def)
next
  case True
  then have l: "\<not> l \<ge> 64" by (simp add: word_le_nat_alt)
  have n: "unat (2 ^ unat l :: u64) = 2 ^ unat l" using unat_push_bit_1 [OF True] by simp
  have o: "4 * 2 ^ unat l * 8 = (2 :: nat) ^ (unat l + 5)"
    and m: "128 * 2 ^ unat l * 8 = (2 :: nat) ^ (unat l + 10)" by (simp_all add: power_add)
  have r: "0 < unat (ucast SCRYPT_R :: u64)" and r8: "unat (ucast SCRYPT_R :: u64) = 8"
    by (simp_all add: SCRYPT_R_def)
  have ops: "Option.bind (checked_mul LIBSODIUM_OPSLIMIT_MULTIPLIER (2 ^ unat l))
      (\<lambda>v. checked_mul v (ucast SCRYPT_R)) = Some x \<longleftrightarrow>
      unat l < 59 \<and> unat x = 2 ^ (unat l + 5)" for x
    unfolding bind_checked_mul [OF r] n r8 LIBSODIUM_OPSLIMIT_MULTIPLIER_def
    using pow2_less_64 [of "unat l + 5"] by (simp add: o)
  have mem: "Option.bind (checked_mul LIBSODIUM_MEMLIMIT_MULTIPLIER (2 ^ unat l))
      (\<lambda>v. checked_mul v (ucast SCRYPT_R)) = Some x \<longleftrightarrow>
      unat l < 54 \<and> unat x = 2 ^ (unat l + 10)" for x
    unfolding bind_checked_mul [OF r] n r8 LIBSODIUM_MEMLIMIT_MULTIPLIER_def
    using pow2_less_64 [of "unat l + 10"] by (simp add: m)
  show ?thesis
    using l by (auto simp: calculate_kdf_params_def Let_def result_simps ops mem)
qed

lemma calculate_kdf_params_error:
  "53 < unat l \<Longrightarrow> \<exists>m. calculate_kdf_params dbg l False = Inl (ScryptParamError m)"
proof -
  assume l: "53 < unat l"
  have "calculate_kdf_params dbg l False \<noteq> Inr x" for x
    using calculate_kdf_params_iff [of dbg l "fst x" "snd x"] l by auto
  then obtain e where e: "calculate_kdf_params dbg l False = Inl e"
    by (metis old.sum.exhaust)
  then show ?thesis
    by (auto simp: calculate_kdf_params_def Let_def result_simps split: if_splits)
qed

lemma check_kdf_budget_iff: "check_kdf_budget m = Inr u \<longleftrightarrow> unat m \<le> 2 ^ 30"
  by (auto simp: check_kdf_budget_def MAX_KDF_MEMLIMIT_def PRODUCTION_MEMLIMIT_def
      word_less_nat_alt word_le_nat_alt not_less)

text \<open>The memory limit alone fixes \<open>N\<close>: the divisions of the source are exact.\<close>

lemma memlimit_pow2:
  "unat m mod 1024 = 0 \<and> is_power_of_two (m div 1024) \<longleftrightarrow>
     (\<exists>k \<le> 53. unat m = 2 ^ (k + 10))"
proof
  assume a: "unat m mod 1024 = 0 \<and> is_power_of_two (m div 1024)"
  then obtain k where k: "unat (m div 1024) = 2 ^ k" by (auto simp: is_power_of_two_unat)
  then have "unat m div 1024 = 2 ^ k" by (simp add: unat_div_distrib)
  moreover have "unat m = 1024 * (unat m div 1024)"
    using a by (metis add.right_neutral mult_div_mod_eq)
  ultimately have m: "unat m = 2 ^ (k + 10)" by (simp add: power_add)
  have "k + 10 < 64" using unat_u64_less [of m] m pow2_less_64 by simp
  then show "\<exists>k \<le> 53. unat m = 2 ^ (k + 10)" using m by (intro exI [of _ k]) auto
next
  assume "\<exists>k \<le> 53. unat m = 2 ^ (k + 10)"
  then obtain k where k: "k \<le> 53" "unat m = 2 ^ (k + 10)" by blast
  have "unat (m div 1024) = 2 ^ k" using k(2) by (simp add: unat_div_distrib power_add)
  then show "unat m mod 1024 = 0 \<and> is_power_of_two (m div 1024)"
    using k by (auto simp: is_power_of_two_unat power_add intro!: exI [of _ k])
qed

lemma kdf_divisor: "checked_mul LIBSODIUM_MEMLIMIT_MULTIPLIER (ucast SCRYPT_R) = Some 1024"
  by (simp add: checked_mul_def LIBSODIUM_MEMLIMIT_MULTIPLIER_def SCRYPT_R_def)

lemma opslimit_divisor:
  assumes "k \<le> 53" "unat n = 2 ^ k"
  shows "\<exists>d. checked_mul LIBSODIUM_OPSLIMIT_MULTIPLIER n = Some d \<and> unat d = 2 ^ (k + 2)"
proof -
  have p: "(2 :: nat) ^ (k + 2) = 4 * 2 ^ k" by (simp add: power_add)
  have "(2 :: nat) ^ (k + 2) < 2 ^ 64" unfolding pow2_less_64 using assms(1) by simp
  then have small: "4 * unat n < 2 ^ 64" unfolding p assms(2) .
  then have "unat (4 * n) = 4 * unat n" by (simp add: unat_word_ariths)
  then have "unat (4 * n) = 2 ^ (k + 2)" unfolding p assms(2) .
  moreover have "checked_mul LIBSODIUM_OPSLIMIT_MULTIPLIER n = Some (4 * n)"
    using small by (simp add: checked_mul_def LIBSODIUM_OPSLIMIT_MULTIPLIER_def)
  ultimately show ?thesis by blast
qed

lemma u32_try_from_Some: "u32_try_from w = Some v \<longleftrightarrow> unat w < 2 ^ 32 \<and> unat v = unat w"
proof -
  have "unat w < 2 ^ 32 \<Longrightarrow> unat (ucast w :: u32) = unat w"
    by (simp add: unsigned_ucast_eq take_bit_nat_eq_self)
  then show ?thesis by (auto simp: u32_try_from_def word_unat_eq_iff)
qed

lemma decode_opslimit:
  assumes "unat d = 2 ^ (k + 2)"
  shows "(is_multiple_of opslimit d \<and> u32_try_from (opslimit div d) = Some SCRYPT_R) \<longleftrightarrow>
     unat opslimit = 2 ^ (k + 5)"
proof -
  have e: "(2 :: nat) ^ (k + 5) = 8 * 2 ^ (k + 2)" by (simp add: power_add)
  have "u32_try_from (opslimit div d) = Some SCRYPT_R \<longleftrightarrow> unat opslimit div 2 ^ (k + 2) = 8"
    by (auto simp: u32_try_from_Some SCRYPT_R_def unat_div_distrib assms)
  moreover have "is_multiple_of opslimit d \<longleftrightarrow> 2 ^ (k + 2) dvd unat opslimit"
    by (simp add: is_multiple_of_dvd assms)
  ultimately show ?thesis
    unfolding e by (metis dvd_div_mult_self dvd_triv_right nonzero_mult_div_cancel_right
        power_not_zero zero_neq_numeral)
qed

lemma u8_try_from_small: "k \<le> 53 \<Longrightarrow> u8_try_from k = Some (word_of_nat k)"
  by (simp add: u8_try_from_def)

lemma unat_u8_small: "k \<le> 53 \<Longrightarrow> unat (word_of_nat k :: u8) = k"
  by (simp add: unat_of_nat)

lemma decode_kdf_params_mem:
  assumes "k \<le> 53" "unat memlimit = 2 ^ (k + 10)"
  shows "decode_kdf_params C opslimit memlimit = Inr (l, r, p) \<longleftrightarrow>
    unat opslimit = 2 ^ (k + 5) \<and> scrypt_params C (word_of_nat k) SCRYPT_R SCRYPT_P 64 = None
    \<and> l = word_of_nat k \<and> r = SCRYPT_R \<and> p = SCRYPT_P"
proof -
  let ?n = "memlimit div 1024"
  have mult: "is_multiple_of memlimit 1024"
    using assms(2) by (simp add: is_multiple_of_dvd power_add)
  have n: "unat ?n = 2 ^ k" using assms(2) by (simp add: unat_div_distrib power_add)
  then have n0: "?n \<noteq> 0" by (metis power_not_zero unat_0 zero_neq_numeral)
  have pow: "is_power_of_two ?n" using n assms(1) by (auto simp: is_power_of_two_unat intro!: exI [of _ k])
  have tz: "trailing_zeros ?n = k" using n assms(1) by (intro trailing_zeros_unat) auto
  obtain d where d: "checked_mul LIBSODIUM_OPSLIMIT_MULTIPLIER ?n = Some d" "unat d = 2 ^ (k + 2)"
    using opslimit_divisor [OF assms(1) n] by blast
  have r0: "opslimit div d \<noteq> 0" if "u32_try_from (opslimit div d) = Some SCRYPT_R"
    using that by (auto simp: u32_try_from_Some SCRYPT_R_def)
  have "decode_kdf_params C opslimit memlimit = Inr (l, r, p) \<longleftrightarrow>
    is_multiple_of opslimit d \<and> u32_try_from (opslimit div d) = Some SCRYPT_R
    \<and> scrypt_params C (word_of_nat k) SCRYPT_R SCRYPT_P 64 = None
    \<and> l = word_of_nat k \<and> r = SCRYPT_R \<and> p = SCRYPT_P"
    using r0 by (auto simp: decode_kdf_params_def kdf_divisor mult n0 pow tz
        u8_try_from_small [OF assms(1)] d(1) Let_def result_simps split: option.splits if_splits)
  then show ?thesis using decode_opslimit [OF d(2), of opslimit] by blast
qed

lemma decode_kdf_params_pow2:
  assumes "decode_kdf_params C opslimit memlimit = Inr x"
  shows "\<exists>k \<le> 53. unat memlimit = 2 ^ (k + 10)"
proof -
  have "is_multiple_of memlimit 1024" "is_power_of_two (memlimit div 1024)"
    using assms by (auto simp: decode_kdf_params_def kdf_divisor Let_def result_simps split: if_splits)
  then show ?thesis by (simp add: is_multiple_of_dvd dvd_eq_mod_eq_0 memlimit_pow2 [symmetric])
qed

text \<open>The exact inverse relation between the stored limits and the parameters.\<close>

lemma decode_kdf_params_exact:
  "decode_kdf_params C opslimit memlimit = Inr (l, r, p) \<longleftrightarrow>
     r = SCRYPT_R \<and> p = SCRYPT_P \<and> unat memlimit = 2 ^ (unat l + 10)
     \<and> unat opslimit = 2 ^ (unat l + 5) \<and> scrypt_params C l SCRYPT_R SCRYPT_P 64 = None"
proof
  assume d: "decode_kdf_params C opslimit memlimit = Inr (l, r, p)"
  then obtain k where k: "k \<le> 53" "unat memlimit = 2 ^ (k + 10)"
    using decode_kdf_params_pow2 by blast
  show "r = SCRYPT_R \<and> p = SCRYPT_P \<and> unat memlimit = 2 ^ (unat l + 10)
     \<and> unat opslimit = 2 ^ (unat l + 5) \<and> scrypt_params C l SCRYPT_R SCRYPT_P 64 = None"
    using d unfolding decode_kdf_params_mem [OF k] by (auto simp: unat_u8_small k)
next
  assume a: "r = SCRYPT_R \<and> p = SCRYPT_P \<and> unat memlimit = 2 ^ (unat l + 10)
     \<and> unat opslimit = 2 ^ (unat l + 5) \<and> scrypt_params C l SCRYPT_R SCRYPT_P 64 = None"
  then have "(2 :: nat) ^ (unat l + 10) < 2 ^ 64" using unat_u64_less [of memlimit] by simp
  then have "unat l \<le> 53" unfolding pow2_less_64 by simp
  then show "decode_kdf_params C opslimit memlimit = Inr (l, r, p)"
    using a by (subst decode_kdf_params_mem [where k = "unat l"]) auto
qed

lemma opslimit_memlimit_to_params_exact:
  "opslimit_memlimit_to_params C opslimit memlimit = Inr (l, r, p) \<longleftrightarrow>
     decode_kdf_params C opslimit memlimit = Inr (l, r, p) \<and> unat memlimit \<le> 2 ^ 30"
  by (auto simp: opslimit_memlimit_to_params_def result_simps check_kdf_budget_iff)

lemma opslimit_memlimit_to_params_log_n:
  "opslimit_memlimit_to_params C opslimit memlimit = Inr (l, r, p) \<Longrightarrow> unat l \<le> 20"
proof -
  assume "opslimit_memlimit_to_params C opslimit memlimit = Inr (l, r, p)"
  then have "(2 :: nat) ^ (unat l + 10) \<le> 2 ^ 30"
    by (auto simp: opslimit_memlimit_to_params_exact decode_kdf_params_exact)
  then have "unat l + 10 \<le> 30" by (rule power_le_imp_le_exp [rotated]) simp
  then show ?thesis by simp
qed

section \<open>The derived key\<close>

lemma derive_key_with_params_Inr:
  "derive_key_with_params C pw salt l r p n = Inr out \<Longrightarrow>
     scrypt_kdf C pw salt l r p n = Inr out \<and> n \<le> 1024
     \<and> scrypt_params C l r p (min n 64) = None \<and> (64 < n \<longrightarrow> (\<exists>b \<in> set (drop 64 out). b \<noteq> 0))"
  by (auto simp: derive_key_with_params_def MAX_KDF_OUTPUT_LEN_def result_simps list_all_iff
      split: if_splits option.splits)

lemma derive_key_length:
  "scrypt_ok C \<Longrightarrow> derive_key_with_params C pw salt l r p n = Inr out \<Longrightarrow> length out = n"
  using derive_key_with_params_Inr scrypt_length by blast

end
