(* ===== verification/Crypto.thy ===== *)
theory Crypto
  imports Kdf
begin

text \<open>
  The rest of \<open>crypto.rs\<close>: key numbers and their display, key generation, the Ed25519
  wrappers, and the BLAKE2b wrappers with the streaming loop. Secret keys, public keys,
  signatures and key numbers are byte lists; the predicates \<open>wf_...\<close> say that they have the
  length their Rust array types fix.
\<close>

section \<open>Byte-array newtypes\<close>

type_synonym secret_key = bytes
type_synonym public_key = bytes
type_synonym signature = bytes
type_synonym key_num = bytes

definition wf_secret_key :: "secret_key \<Rightarrow> bool" where
  "wf_secret_key sk \<longleftrightarrow> length sk = SECRET_KEY_BYTES"

definition wf_public_key :: "public_key \<Rightarrow> bool" where
  "wf_public_key pk \<longleftrightarrow> length pk = PUBLIC_KEY_BYTES"

definition wf_signature :: "signature \<Rightarrow> bool" where
  "wf_signature s \<longleftrightarrow> length s = SIGNATURE_BYTES"

definition wf_key_num :: "key_num \<Rightarrow> bool" where
  "wf_key_num k \<longleftrightarrow> length k = KEYNUM_BYTES"

lemmas wf_array_defs = wf_secret_key_def wf_public_key_def wf_signature_def wf_key_num_def

section \<open>Random bytes\<close>

text \<open>\<open>OsRng\<close> is an infinite supply of bytes; \<open>fill_bytes\<close> takes the next ones.\<close>

type_synonym rng = "nat \<Rightarrow> u8"

definition fill_bytes :: "nat \<Rightarrow> rng \<Rightarrow> bytes \<times> rng" where
  "fill_bytes n g = (map g [0..<n], \<lambda>i. g (n + i))"

lemma length_fill_bytes [simp]: "length (fst (fill_bytes n g)) = n"
  by (simp add: fill_bytes_def)

section \<open>Key numbers\<close>

definition keynum_generate :: "rng \<Rightarrow> key_num \<times> rng" where
  "keynum_generate g = fill_bytes KEYNUM_BYTES g"

text \<open>\<open>KeyNum::to_hex\<close>: two upper-case hexadecimal digits per byte, in array order.\<close>

definition to_hex :: "key_num \<Rightarrow> string" where
  "to_hex k = foldl (\<lambda>out b. out @ hex_upper 2 (unat b)) [] k"

text \<open>\<open>KeyNum::to_key_id\<close>: the little-endian value as sixteen upper-case digits.\<close>

definition to_key_id :: "key_num \<Rightarrow> string" where
  "to_key_id k = hex_upper 16 (unat (u64_from_le_bytes k))"

lemma to_key_id_fixed: "to_key_id k = hex_fixed 16 (unat (u64_from_le_bytes k))"
proof -
  have "unat (u64_from_le_bytes k) < 16 ^ Suc 15"
    using unat_u64_less [of "u64_from_le_bytes k"] by simp
  then have "hex_upper (Suc 15) (unat (u64_from_le_bytes k)) = hex_fixed (Suc 15) (unat (u64_from_le_bytes k))"
    by (rule hex_upper_fixed)
  then show ?thesis by (simp add: to_key_id_def del: hex_fixed.simps)
qed

lemma length_to_key_id [simp]: "length (to_key_id k) = 16"
  by (simp add: to_key_id_fixed)

lemma to_key_id_inj:
  assumes "wf_key_num j" "wf_key_num k" "to_key_id j = to_key_id k"
  shows "j = k"
proof -
  have "unat (u64_from_le_bytes j) = unat (u64_from_le_bytes k)"
  proof (rule hex_fixed_inj)
    show "unat (u64_from_le_bytes j) < 16 ^ 16" "unat (u64_from_le_bytes k) < 16 ^ 16"
      using unat_u64_less [of "u64_from_le_bytes j"] unat_u64_less [of "u64_from_le_bytes k"]
      by simp_all
    show "hex_fixed 16 (unat (u64_from_le_bytes j)) = hex_fixed 16 (unat (u64_from_le_bytes k))"
      using assms(3) by (simp add: to_key_id_fixed)
  qed
  then have "u64_from_le_bytes j = u64_from_le_bytes k" by (simp add: word_unat_eq_iff)
  then show ?thesis
    using assms(1,2) by (metis KEYNUM_BYTES_def u64_le_roundtrip_bytes wf_key_num_def)
qed

lemma digit_char_ascii: "d < 16 \<Longrightarrow> digit_char d \<in> set ''0123456789ABCDEF''"
  unfolding digit_char_def by (rule nth_mem) simp

lemma hex_fixed_chars: "c \<in> set (hex_fixed k n) \<Longrightarrow> c \<in> set ''0123456789ABCDEF''"
proof (induction k arbitrary: n)
  case 0
  then show ?case by simp
next
  case (Suc k)
  then show ?case using digit_char_ascii [of "n mod 16"] by fastforce
qed

lemma to_key_id_chars: "c \<in> set (to_key_id k) \<Longrightarrow> c \<in> set ''0123456789ABCDEF''"
  unfolding to_key_id_fixed by (rule hex_fixed_chars)

text \<open>The key id reads the bytes from the last to the first: it is \<open>to_hex\<close> of the reversal.\<close>

lemma to_hex_concat: "to_hex k = concat (map (\<lambda>b. hex_upper 2 (unat b)) k)"
proof -
  have "foldl (\<lambda>out b. out @ hex_upper 2 (unat b)) acc k =
      acc @ concat (map (\<lambda>b. hex_upper 2 (unat b)) k)" for acc
    by (induction k arbitrary: acc) auto
  then show ?thesis by (simp add: to_hex_def)
qed

lemma hex_upper_byte: "hex_upper 2 (unat (b :: u8)) = hex_fixed 2 (unat b)"
proof -
  have "unat b < 16 ^ Suc 1" using unat_u8_less [of b] by simp
  then have "hex_upper (Suc 1) (unat b) = hex_fixed (Suc 1) (unat b)" by (rule hex_upper_fixed)
  then show ?thesis by (simp add: numeral_2_eq_2)
qed

lemma byte_digits:
  fixes n x :: nat
  assumes "n < 256"
  shows "(n + 256 * x) div 16 div 16 = x"
    "(n + 256 * x) div 16 mod 16 = n div 16 mod 16"
    "(n + 256 * x) mod 16 = n mod 16"
proof -
  have e: "n + 256 * x = n + 16 * (16 * x)" by simp
  have q: "(n + 256 * x) div 16 = n div 16 + 16 * x" unfolding e by (subst div_mult_self2) simp_all
  have "n div 16 < 16" using assms by simp
  then show "(n + 256 * x) div 16 div 16 = x" unfolding q by simp
  show "(n + 256 * x) div 16 mod 16 = n div 16 mod 16" unfolding q by simp
  show "(n + 256 * x) mod 16 = n mod 16" unfolding e by (rule mod_mult_self2)
qed

lemma hex_fixed_le_nat:
  "hex_fixed (2 * length k) (le_nat k) = concat (map (\<lambda>b. hex_fixed 2 (unat b)) (rev k))"
proof (induction k)
  case Nil
  then show ?case by simp
next
  case (Cons b k)
  have e: "2 * length (b # k) = Suc (Suc (2 * length k))" by simp
  show ?case
    unfolding e using Cons.IH
    by (simp add: byte_digits [OF unat_u8_less] numeral_2_eq_2)
qed

lemma to_key_id_rev_to_hex: "wf_key_num k \<Longrightarrow> to_key_id k = to_hex (rev k)"
proof -
  assume "wf_key_num k"
  then have l: "length k = 8" by (simp add: wf_key_num_def KEYNUM_BYTES_def)
  have "hex_fixed (2 * length k) (le_nat k) = to_hex (rev k)"
    by (simp add: hex_fixed_le_nat to_hex_concat hex_upper_byte)
  then show ?thesis by (simp add: to_key_id_fixed unat_u64_from_le l)
qed

section \<open>Key generation, signing, verification\<close>

definition generate_keypair ::
  "crates \<Rightarrow> rng \<Rightarrow> (secret_key \<times> public_key \<times> key_num) \<times> rng" where
  "generate_keypair C g =
     (let (seed, g1) = fill_bytes 32 g;
          keypair_bytes = ed_generate C seed;
          secret_key = copy_at 0 keypair_bytes (replicate SECRET_KEY_BYTES 0);
          public_key = ed_public C keypair_bytes;
          (keynum, g2) = keynum_generate g1
      in ((secret_key, public_key, keynum), g2))"

definition sign :: "crates \<Rightarrow> secret_key \<Rightarrow> bytes \<Rightarrow> error + signature" where
  "sign C sk message =
     (case ed_keypair C sk of
        Some e \<Rightarrow> Inl (InvalidSecretKey e)
      | None \<Rightarrow> Inr (ed_sign C sk message))"

definition verify :: "crates \<Rightarrow> public_key \<Rightarrow> bytes \<Rightarrow> signature \<Rightarrow> error + unit" where
  "verify C pk message sig =
     (if \<not> ed_point C pk then Inl (InvalidPublicKey ''not a valid Ed25519 point'')
      else if ed_weak C pk then Inl (InvalidPublicKey ''small-order Ed25519 point'')
      else if ed_verify_strict C pk message sig then Inr ()
      else Inl VerificationFailed)"

lemma sign_Inr: "sign C sk m = Inr s \<longleftrightarrow> ed_keypair C sk = None \<and> s = ed_sign C sk m"
  by (auto simp: sign_def split: option.splits)

lemma verify_Inr:
  "verify C pk m s = Inr u \<longleftrightarrow> ed_point C pk \<and> \<not> ed_weak C pk \<and> ed_verify_strict C pk m s"
  by (auto simp: verify_def)

lemma sign_verifies:
  "ed_ok C \<Longrightarrow> sign C sk m = Inr s \<Longrightarrow> verify C (ed_public C sk) m s = Inr ()"
  by (auto simp: sign_Inr verify_Inr dest: ed_verify_sign)

lemma sign_wf: "ed_ok C \<Longrightarrow> sign C sk m = Inr s \<Longrightarrow> wf_signature s"
  by (auto simp: sign_Inr wf_signature_def SIGNATURE_BYTES_def ed_sign_length)

lemma generate_keypair_wf:
  assumes "ed_ok C" "generate_keypair C g = ((sk, pk, kn), g')"
  shows "wf_secret_key sk \<and> wf_public_key pk \<and> wf_key_num kn
    \<and> ed_keypair C sk = None \<and> pk = ed_public C sk"
proof -
  have l: "length (ed_generate C seed) = 64" "ed_keypair C (ed_generate C seed) = None" for seed
    using assms(1) by (simp_all add: ed_ok_def)
  have sp: "copy_at 0 (ed_generate C seed) (replicate 64 0) = ed_generate C seed" for seed
    by (simp add: copy_at_def l)
  show ?thesis
    using assms by (auto simp: generate_keypair_def fill_bytes_def keynum_generate_def sp l Let_def
        wf_array_defs size_defs ed_public_length)
qed

section \<open>Hashing\<close>

definition blake2b_256 :: "crates \<Rightarrow> bytes \<Rightarrow> bytes" where
  "blake2b_256 C data = blake2b C 32 [data]"

definition blake2b_512 :: "crates \<Rightarrow> bytes \<Rightarrow> bytes" where
  "blake2b_512 C data = blake2b C 64 [data]"

text \<open>A reader is the list of what its successive \<open>read\<close> calls return; after the last one it
  reports the end of the file, as an empty read does. \<open>updates\<close> are the blocks hashed so
  far.\<close>

type_synonym reader = "(io_error + bytes) list"

fun blake2b_512_loop :: "crates \<Rightarrow> bytes list \<Rightarrow> reader \<Rightarrow> error + bytes" where
  "blake2b_512_loop C updates [] = Inr (blake2b C 64 updates)"
| "blake2b_512_loop C updates (Inl e # rest) =
     Inl (Io (''failed to read data for hashing: '' @ io_text e))"
| "blake2b_512_loop C updates (Inr block # rest) =
     (if length block = 0 then Inr (blake2b C 64 updates)
      else blake2b_512_loop C (updates @ [block]) rest)"

definition blake2b_512_stream :: "crates \<Rightarrow> reader \<Rightarrow> error + bytes" where
  "blake2b_512_stream C reader = blake2b_512_loop C [] reader"

lemma blake2b_512_loop_blocks:
  "\<forall>b \<in> set blocks. b \<noteq> [] \<Longrightarrow>
     blake2b_512_loop C updates (map Inr blocks) = Inr (blake2b C 64 (updates @ blocks))"
  by (induction blocks arbitrary: updates) auto

text \<open>However the file is cut into reads, the streamed hash is the hash of the whole.\<close>

lemma blake2b_512_stream_eq:
  assumes "blake2b_ok C" "\<forall>b \<in> set blocks. b \<noteq> []"
  shows "blake2b_512_stream C (map Inr blocks) = Inr (blake2b_512 C (concat blocks))"
proof -
  have "blake2b C 64 blocks = blake2b C 64 [concat blocks]"
    using assms(1) by (rule blake2b_concat)
  then show ?thesis
    using assms(2) by (simp add: blake2b_512_stream_def blake2b_512_loop_blocks blake2b_512_def)
qed

lemma blake2b_512_stream_error:
  "\<forall>b \<in> set blocks. b \<noteq> [] \<Longrightarrow>
     blake2b_512_stream C (map Inr blocks @ Inl e # rest) =
       Inl (Io (''failed to read data for hashing: '' @ io_text e))"
proof -
  have "\<forall>b \<in> set blocks. b \<noteq> [] \<Longrightarrow> blake2b_512_loop C updates (map Inr blocks @ Inl e # rest) =
       Inl (Io (''failed to read data for hashing: '' @ io_text e))" for updates
    by (induction blocks arbitrary: updates) auto
  then show "\<forall>b \<in> set blocks. b \<noteq> [] \<Longrightarrow>
     blake2b_512_stream C (map Inr blocks @ Inl e # rest) =
       Inl (Io (''failed to read data for hashing: '' @ io_text e))"
    by (simp add: blake2b_512_stream_def)
qed

end
