(* ===== verification/Validation.thy ===== *)
theory Validation
  imports Crypto
begin

text \<open>
  \<open>validation.rs\<close>: the comment checks and the Windows reserved-name check. The lemma the file
  formats rest on: a comment that passes holds no line break, so it stays on its own line.
\<close>

section \<open>Printable text\<close>

text \<open>\<open>char::is_control\<close>: the general category Cc.\<close>

definition is_control :: "nat \<Rightarrow> bool" where
  "is_control c \<longleftrightarrow> c \<le> 0x1F \<or> (0x7F \<le> c \<and> c \<le> 0x9F)"

fun is_printable_loop :: "nat list \<Rightarrow> error + unit" where
  "is_printable_loop [] = Inr ()"
| "is_printable_loop (c # cs) =
     (if c = 0x09 then is_printable_loop cs
      else if is_control c \<or> c = 0x7F then
        Inl (InvalidComment (''contains control character: U+'' @ hex_upper 4 c))
      else is_printable_loop cs)"

definition is_printable :: "string \<Rightarrow> error + unit" where
  "is_printable s = is_printable_loop (chars s)"

text \<open>\<open>str::contains\<close> with a character pattern.\<close>

definition validate_no_embedded_cr :: "string \<Rightarrow> error + unit" where
  "validate_no_embedded_cr s =
     (if 0x0D \<in> set (chars s) then Inl (InvalidComment ''contains embedded carriage return character'')
      else Inr ())"

definition validate_comment :: "string \<Rightarrow> error + unit" where
  "validate_comment s = is_printable s"

definition validate_comment_with_length :: "string \<Rightarrow> nat option \<Rightarrow> string \<Rightarrow> error + unit" where
  "validate_comment_with_length s max_length comment_type =
     and_then (validate_comment s) (\<lambda>_.
       case max_length of
         Some max_len \<Rightarrow>
           (if length s \<ge> max_len then
              Inl (InvalidComment (comment_type @ '' comment too long: '' @ dec (length s)
                     @ '' bytes (limit: '' @ dec (max_len - 1) @ '' bytes)''))
            else Inr ())
       | None \<Rightarrow> Inr ())"

section \<open>Comments of keys and signatures\<close>

definition COMMENTMAXBYTES :: nat where "COMMENTMAXBYTES = 1024"
definition TRUSTEDCOMMENTMAXBYTES :: nat where "TRUSTEDCOMMENTMAXBYTES = 8192"
definition COMMENT_PREFIX_SIZE :: nat where "COMMENT_PREFIX_SIZE = 20"
definition TRUSTED_COMMENT_PREFIX_SIZE :: nat where "TRUSTED_COMMENT_PREFIX_SIZE = 18"

lemmas comment_size_defs = COMMENTMAXBYTES_def TRUSTEDCOMMENTMAXBYTES_def
  COMMENT_PREFIX_SIZE_def TRUSTED_COMMENT_PREFIX_SIZE_def

definition validate_untrusted_comment :: "string \<Rightarrow> error + unit" where
  "validate_untrusted_comment comment =
     and_then (validate_comment comment) (\<lambda>_.
       if length comment \<ge> COMMENTMAXBYTES - COMMENT_PREFIX_SIZE then
         Inl (InvalidComment (''untrusted comment exceeds maximum length of ''
                @ dec (COMMENTMAXBYTES - COMMENT_PREFIX_SIZE - 1) @ '' bytes''))
       else Inr ())"

definition validate_key_comment :: "string \<Rightarrow> error + unit" where
  "validate_key_comment comment =
     (if comment = [] then
        Inl (InvalidComment ''comment must not be empty; omit --comment to use the default'')
      else validate_untrusted_comment comment)"

lemma is_printable_loop_iff:
  "is_printable_loop cs = Inr u \<longleftrightarrow> (\<forall>c \<in> set cs. c = 0x09 \<or> \<not> is_control c)"
  by (induction cs) (auto simp: is_control_def)

lemma is_printable_iff:
  "is_printable s = Inr u \<longleftrightarrow> (\<forall>c \<in> set (chars s). c = 0x09 \<or> \<not> is_control c)"
  by (simp add: is_printable_def is_printable_loop_iff)

lemma is_printable_loop_Inl:
  "is_printable_loop cs = Inl e \<Longrightarrow>
     \<exists>c \<in> set cs. c \<noteq> 0x09 \<and> is_control c
       \<and> e = InvalidComment (''contains control character: U+'' @ hex_upper 4 c)"
  by (induction cs) (auto simp: is_control_def split: if_splits)

lemma validate_comment_no_control:
  assumes "validate_comment s = Inr u" "c \<in> set s" "of_char c < (0x20 :: nat)"
  shows "c = TAB"
proof -
  have "of_char c \<in> set (chars s)" using assms(2,3) by (intro chars_ascii) auto
  then have "of_char c = (9 :: nat)"
    using assms(1,3) by (auto simp: validate_comment_def is_printable_iff is_control_def)
  then have "(of_char c :: nat) = of_char TAB" by simp
  then show ?thesis by (simp only: of_char_eq_iff)
qed

lemma validate_comment_no_eol:
  "validate_comment s = Inr u \<Longrightarrow> LF \<notin> set s \<and> CR \<notin> set s"
  using validate_comment_no_control [of s u LF] validate_comment_no_control [of s u CR] by auto

lemma validate_comment_cr:
  "validate_comment s = Inr u \<Longrightarrow> validate_no_embedded_cr s = Inr ()"
  by (auto simp: validate_comment_def is_printable_iff validate_no_embedded_cr_def is_control_def)

lemma validate_untrusted_comment_iff:
  "validate_untrusted_comment s = Inr u \<longleftrightarrow> validate_comment s = Inr () \<and> length s < 1004"
  by (auto simp: validate_untrusted_comment_def result_simps comment_size_defs)

lemma validate_untrusted_comment_no_eol:
  "validate_untrusted_comment s = Inr u \<Longrightarrow> LF \<notin> set s \<and> CR \<notin> set s"
  unfolding validate_untrusted_comment_iff using validate_comment_no_eol by blast

lemma validate_comment_with_length_iff:
  "validate_comment_with_length s (Some n) t = Inr u \<longleftrightarrow> validate_comment s = Inr () \<and> length s < n"
  by (auto simp: validate_comment_with_length_def result_simps)

lemma validate_comment_ascii:
  "\<forall>c \<in> set s. 0x20 \<le> (of_char c :: nat) \<and> of_char c < (0x7F :: nat) \<Longrightarrow> validate_comment s = Inr ()"
proof -
  assume a: "\<forall>c \<in> set s. 0x20 \<le> (of_char c :: nat) \<and> of_char c < (0x7F :: nat)"
  then have "is_ascii s" by (auto simp: is_ascii_def)
  then show ?thesis
    using a by (auto simp: validate_comment_def is_printable_iff chars_is_ascii is_control_def)
qed

section \<open>Windows device names\<close>

text \<open>\<open>Path::file_stem\<close> of a single component: what is before the last dot, unless there is none
  or nothing is before it.\<close>

definition file_stem :: "string \<Rightarrow> string" where
  "file_stem name =
     (let before = rev (drop 1 (dropWhile (\<lambda>c. c \<noteq> CHR ''.'') (rev name)))
      in if name = ''..'' \<or> CHR ''.'' \<notin> set name \<or> before = [] then name else before)"

definition ascii_upper :: "char \<Rightarrow> char" where
  "ascii_upper c =
     (if (0x61 :: nat) \<le> of_char c \<and> of_char c \<le> (0x7A :: nat)
      then char_of (of_char c - 0x20 :: nat) else c)"

definition is_digit_1_9 :: "char \<Rightarrow> bool" where
  "is_digit_1_9 c \<longleftrightarrow> (0x31 :: nat) \<le> of_char c \<and> of_char c \<le> (0x39 :: nat)"

text \<open>The Windows build; \<open>filename\<close> is the last component of the path if it is valid Unicode.
  Upper-casing is written for ASCII, which is all the reserved names can come from: no other
  character upper-cases to a single letter of theirs.\<close>

definition validate_windows_path_windows :: "path \<Rightarrow> string option \<Rightarrow> error + unit" where
  "validate_windows_path_windows path filename =
     and_then (ok_or (InvalidPath path) filename) (\<lambda>filename.
       let base_upper = map ascii_upper (file_stem filename)
       in if base_upper \<in> set [''CON'', ''PRN'', ''AUX'', ''NUL''] then Inl (InvalidPath path)
          else if starts_with ''COM'' base_upper \<and> length base_upper = 4 \<and> is_digit_1_9 (base_upper ! 3)
          then Inl (InvalidPath path)
          else if starts_with ''LPT'' base_upper \<and> length base_upper = 4 \<and> is_digit_1_9 (base_upper ! 3)
          then Inl (InvalidPath path)
          else Inr ())"

definition validate_windows_path :: "path \<Rightarrow> error + unit" where
  "validate_windows_path path = Inr ()"

end
