(* ===== verification/Codec.thy ===== *)
theory Codec
  imports Validation
begin

text \<open>
  The two contracts the file formats share. A \<open>byte_codec\<close> is a fixed-size binary structure:
  \<open>enc\<close> writes \<open>size\<close> bytes, \<open>dec\<close> reads them back, and whatever \<open>dec\<close> accepts is exactly
  what \<open>enc\<close> writes for the value it returns. A \<open>key_file\<close> wraps such a structure into the
  two-line text file of a key: a comment line and a line of base64. The client lemmas are
  proved once from the contracts; the structures of the program are interpretations.
\<close>

definition UNTRUSTED_PREFIX :: string where
  "UNTRUSTED_PREFIX = ''untrusted comment: ''"

locale byte_codec =
  fixes size :: nat
    and enc :: "'a \<Rightarrow> bytes"
    and dec :: "bytes \<Rightarrow> error + 'a"
    and wf :: "'a \<Rightarrow> bool"
  assumes enc_size: "wf x \<Longrightarrow> length (enc x) = size"
    and dec_enc: "wf x \<Longrightarrow> dec (enc x) = Inr x"
    and dec_wf: "dec bs = Inr x \<Longrightarrow> wf x"
    and enc_dec: "dec bs = Inr x \<Longrightarrow> enc x = bs"
begin

lemma dec_size: "dec bs = Inr x \<Longrightarrow> length bs = size"
  using dec_wf enc_dec enc_size by blast

lemma wrong_size: "length bs \<noteq> size \<Longrightarrow> \<exists>e. dec bs = Inl e"
  using dec_size by (cases "dec bs") auto

lemma dec_iff: "dec bs = Inr x \<longleftrightarrow> wf x \<and> bs = enc x"
  using dec_wf enc_dec dec_enc by blast

lemma enc_inj: "wf x \<Longrightarrow> wf y \<Longrightarrow> enc x = enc y \<Longrightarrow> x = y"
  using dec_enc by (metis sum.inject(2))

lemma dec_inj: "dec as = Inr x \<Longrightarrow> dec bs = Inr x \<Longrightarrow> as = bs"
  using enc_dec by blast

end

locale key_file = byte_codec size enc dec wf
  for size :: nat
    and enc :: "'a \<Rightarrow> bytes"
    and dec :: "bytes \<Rightarrow> error + 'a"
    and wf :: "'a \<Rightarrow> bool" +
  fixes render :: "crates \<Rightarrow> 'a \<Rightarrow> string \<Rightarrow> error + string"
    and parse :: "crates \<Rightarrow> string \<Rightarrow> error + 'a"
  assumes render_ok: "render C x c = Inr t \<longleftrightarrow>
      validate_untrusted_comment c = Inr ()
      \<and> t = UNTRUSTED_PREFIX @ c @ [LF] @ encode_base64 C (enc x) @ [LF]"
    and render_err: "render C x c = Inl e \<longleftrightarrow> validate_untrusted_comment c = Inl e"
    and parse_ok: "b64_ok C \<Longrightarrow> parse C t = Inr x \<longleftrightarrow>
      2 \<le> length (lines t) \<and> (\<exists>bs. decode_base64 C (lines t ! 1) = Inr bs \<and> dec bs = Inr x)"
begin

lemma render_lines:
  assumes "b64_ok C" "render C x c = Inr t"
  shows "lines t = [UNTRUSTED_PREFIX @ c, encode_base64 C (enc x)]"
proof -
  have c: "LF \<notin> set c" "CR \<notin> set c"
    using assms(2) validate_untrusted_comment_no_eol by (auto simp: render_ok)
  have p: "LF \<notin> set UNTRUSTED_PREFIX" "CR \<notin> set UNTRUSTED_PREFIX"
    by (simp_all add: UNTRUSTED_PREFIX_def)
  have b: "LF \<notin> set (encode_base64 C (enc x))" "CR \<notin> set (encode_base64 C (enc x))"
    using assms(1) encode_base64_no_eol by blast+
  have t: "t = (UNTRUSTED_PREFIX @ c) @ LF # (encode_base64 C (enc x) @ LF # [])"
    using assms(2) by (simp add: render_ok)
  have "lines t = (UNTRUSTED_PREFIX @ c) # lines (encode_base64 C (enc x) @ LF # [])"
    unfolding t using c p by (intro lines_line) auto
  then show ?thesis using b by (simp add: lines_line)
qed

lemma parse_render:
  assumes "b64_ok C" "wf x" "render C x c = Inr t"
  shows "parse C t = Inr x"
  using assms render_lines [OF assms(1,3)] by (simp add: parse_ok dec_enc)

text \<open>Only the second line matters to the parser: the comment is not authenticated.\<close>

lemma parse_ignores_comment:
  assumes "b64_ok C" "lines s ! 1 = lines t ! 1" "2 \<le> length (lines s)" "2 \<le> length (lines t)"
  shows "parse C s = Inr x \<longleftrightarrow> parse C t = Inr x"
  using assms by (simp add: parse_ok)

lemma parse_wf: "b64_ok C \<Longrightarrow> parse C t = Inr x \<Longrightarrow> wf x"
  using dec_wf by (auto simp: parse_ok)

lemma render_inj:
  assumes "b64_ok C" "wf x" "wf y" "render C x c = Inr t" "render C y d = Inr t"
  shows "x = y"
  using parse_render [OF assms(1,2,4)] parse_render [OF assms(1,3,5)] by simp

end

end
