(* ===== verification/SigFile.thy ===== *)
theory SigFile
  imports Codec
begin

text \<open>
  \<open>signature.rs\<close>: the 74-byte signature structure and the four-line signature file. The
  binary structure is a \<open>byte_codec\<close>; the text file is proved to parse back to what was
  written, and the global signature to bind the signature bytes and the trusted comment.
\<close>

section \<open>The binary structure\<close>

definition SIG_STRUCT_SIZE :: nat where
  "SIG_STRUCT_SIZE = 2 + KEYNUM_BYTES + SIGNATURE_BYTES"

definition SIG_ALG_NORMAL :: bytes where "SIG_ALG_NORMAL = as_bytes ''Ed''"
definition SIG_ALG_PREHASHED :: bytes where "SIG_ALG_PREHASHED = as_bytes ''ED''"

definition SIG_ALG_OFFSET :: nat where "SIG_ALG_OFFSET = 0"
definition SIG_ALG_SIZE :: nat where "SIG_ALG_SIZE = 2"
definition SIG_KEYNUM_OFFSET :: nat where "SIG_KEYNUM_OFFSET = 2"
definition SIG_KEYNUM_SIZE :: nat where "SIG_KEYNUM_SIZE = KEYNUM_BYTES"
definition SIG_SIGNATURE_OFFSET :: nat where "SIG_SIGNATURE_OFFSET = 10"
definition SIG_SIGNATURE_SIZE :: nat where "SIG_SIGNATURE_SIZE = SIGNATURE_BYTES"

lemmas sig_offset_defs = SIG_ALG_OFFSET_def SIG_ALG_SIZE_def SIG_KEYNUM_OFFSET_def
  SIG_KEYNUM_SIZE_def SIG_SIGNATURE_OFFSET_def SIG_SIGNATURE_SIZE_def

lemmas sig_layout_defs = sig_offset_defs SIG_STRUCT_SIZE_def SIG_ALG_NORMAL_def
  SIG_ALG_PREHASHED_def KEYNUM_BYTES_def SIGNATURE_BYTES_def

datatype signature_algorithm = Normal | Prehashed

record sig_struct =
  ss_prehashed :: bool
  ss_keynum :: key_num
  ss_signature :: signature

definition sig_struct_new :: "key_num \<Rightarrow> signature \<Rightarrow> bool \<Rightarrow> sig_struct" where
  "sig_struct_new keynum sig prehashed =
     \<lparr>ss_prehashed = prehashed, ss_keynum = keynum, ss_signature = sig\<rparr>"

definition sig_algorithm :: "sig_struct \<Rightarrow> signature_algorithm" where
  "sig_algorithm s = (if ss_prehashed s then Prehashed else Normal)"

definition wf_sig_struct :: "sig_struct \<Rightarrow> bool" where
  "wf_sig_struct s \<longleftrightarrow> wf_key_num (ss_keynum s) \<and> wf_signature (ss_signature s)"

definition sig_struct_to_bytes :: "sig_struct \<Rightarrow> bytes" where
  "sig_struct_to_bytes s =
     (let bs = replicate SIG_STRUCT_SIZE 0;
          sig_alg = (if ss_prehashed s then SIG_ALG_PREHASHED else SIG_ALG_NORMAL);
          bs = copy_at SIG_ALG_OFFSET sig_alg bs;
          bs = copy_at SIG_KEYNUM_OFFSET (ss_keynum s) bs;
          bs = copy_at SIG_SIGNATURE_OFFSET (ss_signature s) bs
      in bs)"

definition sig_struct_from_bytes :: "bytes \<Rightarrow> error + sig_struct" where
  "sig_struct_from_bytes bs =
     (if length bs \<noteq> SIG_STRUCT_SIZE then
        Inl (InvalidSignatureFormat
          (''expected '' @ dec SIG_STRUCT_SIZE @ '' bytes, got '' @ dec (length bs)))
      else
        let sig_alg_end = SIG_ALG_OFFSET + SIG_ALG_SIZE;
            keynum_end = SIG_KEYNUM_OFFSET + SIG_KEYNUM_SIZE;
            signature_end = SIG_SIGNATURE_OFFSET + SIG_SIGNATURE_SIZE;
            sig_alg = slice SIG_ALG_OFFSET sig_alg_end bs
        in and_then
            (if sig_alg = SIG_ALG_NORMAL then Inr False
             else if sig_alg = SIG_ALG_PREHASHED then Inr True
             else Inl (InvalidSignatureFormat
               (''invalid signature algorithm: expected '' @ [CHR 0x27] @ ''Ed'' @ [CHR 0x27]
                @ '' or '' @ [CHR 0x27] @ ''ED'' @ [CHR 0x27] @ '', got '' @ [CHR 0x27]
                @ escape_ascii sig_alg @ [CHR 0x27])))
            (\<lambda>prehashed.
              let keynum_bytes = copy_at 0 (slice SIG_KEYNUM_OFFSET keynum_end bs) (replicate KEYNUM_BYTES 0);
                  signature_bytes = copy_at 0 (slice SIG_SIGNATURE_OFFSET signature_end bs)
                                      (replicate SIGNATURE_BYTES 0)
              in Inr \<lparr>ss_prehashed = prehashed, ss_keynum = keynum_bytes,
                      ss_signature = signature_bytes\<rparr>))"

lemma copy_at_all: "length src = length dst \<Longrightarrow> copy_at 0 src dst = src"
  by (simp add: copy_at_def)

lemma sig_struct_to_bytes_append:
  "wf_sig_struct s \<Longrightarrow>
     sig_struct_to_bytes s =
       (if ss_prehashed s then SIG_ALG_PREHASHED else SIG_ALG_NORMAL) @ ss_keynum s @ ss_signature s"
  by (simp add: sig_struct_to_bytes_def wf_sig_struct_def wf_array_defs sig_layout_defs copy_at_def)

lemma slices_2_8_64:
  assumes "length alg = 2" "length kn = 8" "length sg = 64"
  shows "slice 0 2 (alg @ kn @ sg) = alg" "slice 2 10 (alg @ kn @ sg) = kn"
    "slice 10 74 (alg @ kn @ sg) = sg"
  using assms by (simp_all add: slice_def)

lemma sig_ends:
  "SIG_ALG_OFFSET + SIG_ALG_SIZE = 2" "SIG_KEYNUM_OFFSET + SIG_KEYNUM_SIZE = 10"
  "SIG_SIGNATURE_OFFSET + SIG_SIGNATURE_SIZE = 74" "SIG_ALG_OFFSET = 0"
  "SIG_KEYNUM_OFFSET = 2" "SIG_SIGNATURE_OFFSET = 10"
  by (simp_all add: sig_offset_defs size_defs)

lemma alg_distinct: "SIG_ALG_NORMAL \<noteq> SIG_ALG_PREHASHED"
  by (simp add: SIG_ALG_NORMAL_def SIG_ALG_PREHASHED_def)

lemma sig_struct_from_bytes_append:
  assumes "length alg = 2" "length kn = 8" "length sg = 64"
  shows "sig_struct_from_bytes (alg @ kn @ sg) = Inr s \<longleftrightarrow>
     (alg = SIG_ALG_NORMAL \<and> \<not> ss_prehashed s \<or> alg = SIG_ALG_PREHASHED \<and> ss_prehashed s)
     \<and> ss_keynum s = kn \<and> ss_signature s = sg"
proof -
  have len: "length (alg @ kn @ sg) = SIG_STRUCT_SIZE"
    using assms by (simp add: SIG_STRUCT_SIZE_def size_defs)
  have parts: "slice SIG_ALG_OFFSET (SIG_ALG_OFFSET + SIG_ALG_SIZE) (alg @ kn @ sg) = alg"
    "slice SIG_KEYNUM_OFFSET (SIG_KEYNUM_OFFSET + SIG_KEYNUM_SIZE) (alg @ kn @ sg) = kn"
    "slice SIG_SIGNATURE_OFFSET (SIG_SIGNATURE_OFFSET + SIG_SIGNATURE_SIZE) (alg @ kn @ sg) = sg"
    unfolding sig_ends(1-3) unfolding sig_ends(4-6) by (rule slices_2_8_64 [OF assms])+
  have copies: "copy_at 0 kn (replicate KEYNUM_BYTES 0) = kn"
    "copy_at 0 sg (replicate SIGNATURE_BYTES 0) = sg"
    using assms by (simp_all add: copy_at_all size_defs)
  show ?thesis
    unfolding sig_struct_from_bytes_def Let_def parts copies len
    using alg_distinct by (cases s) (auto simp: result_simps)
qed

lemma split_74:
  assumes "length bs = 74"
  shows "\<exists>alg kn sg. bs = alg @ kn @ sg \<and> length alg = 2 \<and> length kn = 8 \<and> length sg = 64"
proof (intro exI conjI)
  have "take 8 (drop 2 bs) @ drop 8 (drop 2 bs) = drop 2 bs" by (rule append_take_drop_id)
  then show "bs = take 2 bs @ take 8 (drop 2 bs) @ drop 8 (drop 2 bs)"
    by (simp only: append_take_drop_id)
  show "length (take 2 bs) = 2" "length (take 8 (drop 2 bs)) = 8"
    "length (drop 8 (drop 2 bs)) = 64"
    using assms by simp_all
qed

interpretation sig_codec: byte_codec SIG_STRUCT_SIZE sig_struct_to_bytes sig_struct_from_bytes
  wf_sig_struct
proof (unfold_locales)
  fix s :: sig_struct
  assume wf: "wf_sig_struct s"
  show "length (sig_struct_to_bytes s) = SIG_STRUCT_SIZE"
    using wf by (simp add: sig_struct_to_bytes_append)
      (simp add: wf_sig_struct_def wf_array_defs sig_layout_defs)
  show "sig_struct_from_bytes (sig_struct_to_bytes s) = Inr s"
    using wf sig_struct_from_bytes_append [of "if ss_prehashed s then SIG_ALG_PREHASHED else SIG_ALG_NORMAL" "ss_keynum s" "ss_signature s" s]
    by (simp add: sig_struct_to_bytes_append)
      (auto simp: wf_sig_struct_def wf_array_defs sig_layout_defs split: if_splits)
next
  fix bs and s :: sig_struct
  assume ok: "sig_struct_from_bytes bs = Inr s"
  then have "length bs = 74" by (auto simp: sig_struct_from_bytes_def sig_layout_defs split: if_splits)
  then obtain alg kn sg where bs: "bs = alg @ kn @ sg" "length alg = 2" "length kn = 8" "length sg = 64"
    using split_74 by blast
  have s: "(alg = SIG_ALG_NORMAL \<and> \<not> ss_prehashed s \<or> alg = SIG_ALG_PREHASHED \<and> ss_prehashed s)
     \<and> ss_keynum s = kn \<and> ss_signature s = sg"
    using ok sig_struct_from_bytes_append [OF bs(2-4)] bs(1) by simp
  show wf: "wf_sig_struct s" using s bs by (simp add: wf_sig_struct_def wf_array_defs size_defs)
  show "sig_struct_to_bytes s = bs" using s bs(1) by (auto simp: sig_struct_to_bytes_append [OF wf])
qed

section \<open>The signature file\<close>

record sig_box =
  sb_untrusted_comment :: string
  sb_sig_struct :: sig_struct
  sb_trusted_comment :: string
  sb_global_signature :: signature

definition TRUSTED_PREFIX :: string where
  "TRUSTED_PREFIX = ''trusted comment: ''"

definition validate_trusted_comment :: "string \<Rightarrow> error + unit" where
  "validate_trusted_comment trusted =
     and_then (validate_comment trusted) (\<lambda>_.
       if length trusted \<ge> TRUSTEDCOMMENTMAXBYTES - TRUSTED_COMMENT_PREFIX_SIZE then
         Inl (InvalidComment (''trusted comment exceeds maximum length of ''
                @ dec (TRUSTEDCOMMENTMAXBYTES - TRUSTED_COMMENT_PREFIX_SIZE - 1) @ '' bytes''))
       else Inr ())"

definition validate_comments :: "string \<Rightarrow> string \<Rightarrow> error + unit" where
  "validate_comments untrusted trusted =
     and_then (validate_untrusted_comment untrusted) (\<lambda>_. validate_trusted_comment trusted)"

definition sig_box_new ::
  "string \<Rightarrow> sig_struct \<Rightarrow> string \<Rightarrow> signature \<Rightarrow> error + sig_box" where
  "sig_box_new untrusted_comment s trusted_comment global_signature =
     and_then (validate_comments untrusted_comment trusted_comment) (\<lambda>_.
       Inr \<lparr>sb_untrusted_comment = untrusted_comment, sb_sig_struct = s,
            sb_trusted_comment = trusted_comment, sb_global_signature = global_signature\<rparr>)"

definition into_parts :: "sig_box \<Rightarrow> string \<times> sig_struct \<times> string \<times> signature" where
  "into_parts b = (sb_untrusted_comment b, sb_sig_struct b, sb_trusted_comment b, sb_global_signature b)"

text \<open>\<open>SignatureBox::from_file_contents\<close>, with its checks in the order of the source.\<close>

definition sig_box_from_file_contents :: "crates \<Rightarrow> string \<Rightarrow> error + sig_box" where
  "sig_box_from_file_contents C contents =
     (let ls = lines contents
      in if length ls \<noteq> 4 then
           Inl (InvalidSignatureFormat (''expected 4 lines, got '' @ dec (length ls)))
         else
           and_then (ok_or (InvalidSignatureFormat
               (''untrusted comment must start with '' @ [CHR 0x22] @ UNTRUSTED_PREFIX @ [CHR 0x22]))
             (strip_prefix UNTRUSTED_PREFIX (ls ! 0))) (\<lambda>untrusted_comment.
           and_then (validate_untrusted_comment untrusted_comment) (\<lambda>_.
           and_then (decode_base64 C (ls ! 1)) (\<lambda>sig_struct_bytes.
           and_then (sig_struct_from_bytes sig_struct_bytes) (\<lambda>s.
           and_then (ok_or (InvalidSignatureFormat
               (''trusted comment must start with '' @ [CHR 0x22] @ TRUSTED_PREFIX @ [CHR 0x22]))
             (strip_prefix TRUSTED_PREFIX (ls ! 2))) (\<lambda>trusted_comment.
           and_then (validate_trusted_comment trusted_comment) (\<lambda>_.
           and_then (decode_base64 C (ls ! 3)) (\<lambda>global_sig_bytes.
             if length global_sig_bytes \<noteq> SIGNATURE_BYTES then
               Inl (InvalidSignatureFormat (''global signature must be '' @ dec SIGNATURE_BYTES
                      @ '' bytes, got '' @ dec (length global_sig_bytes)))
             else
               let sig_bytes = copy_at 0 global_sig_bytes (replicate SIGNATURE_BYTES 0)
               in Inr \<lparr>sb_untrusted_comment = untrusted_comment, sb_sig_struct = s,
                       sb_trusted_comment = trusted_comment, sb_global_signature = sig_bytes\<rparr>))))))))"

definition sig_box_to_file_contents :: "crates \<Rightarrow> sig_box \<Rightarrow> string" where
  "sig_box_to_file_contents C b =
     (let sig_struct_base64 = encode_base64 C (sig_struct_to_bytes (sb_sig_struct b));
          global_sig_base64 = encode_base64 C (sb_global_signature b)
      in UNTRUSTED_PREFIX @ sb_untrusted_comment b @ [LF] @ sig_struct_base64 @ [LF]
         @ TRUSTED_PREFIX @ sb_trusted_comment b @ [LF] @ global_sig_base64 @ [LF])"

definition verify_global_signature :: "crates \<Rightarrow> sig_box \<Rightarrow> public_key \<Rightarrow> error + unit" where
  "verify_global_signature C b pk =
     (let data = ss_signature (sb_sig_struct b) @ as_bytes (sb_trusted_comment b)
      in verify C pk data (sb_global_signature b))"

definition with_global_signature ::
  "crates \<Rightarrow> string \<Rightarrow> sig_struct \<Rightarrow> string \<Rightarrow> secret_key \<Rightarrow> error + sig_box" where
  "with_global_signature C untrusted_comment s trusted_comment sk =
     and_then (validate_comments untrusted_comment trusted_comment) (\<lambda>_.
       let data = ss_signature s @ as_bytes trusted_comment
       in and_then (sign C sk data) (\<lambda>global_signature.
            Inr \<lparr>sb_untrusted_comment = untrusted_comment, sb_sig_struct = s,
                 sb_trusted_comment = trusted_comment, sb_global_signature = global_signature\<rparr>))"

text \<open>What every constructor of a signature box establishes.\<close>

definition wf_sig_box :: "sig_box \<Rightarrow> bool" where
  "wf_sig_box b \<longleftrightarrow>
     wf_sig_struct (sb_sig_struct b) \<and> wf_signature (sb_global_signature b)
     \<and> validate_comments (sb_untrusted_comment b) (sb_trusted_comment b) = Inr ()"

lemma validate_trusted_comment_iff:
  "validate_trusted_comment s = Inr u \<longleftrightarrow> validate_comment s = Inr () \<and> length s < 8174"
  by (auto simp: validate_trusted_comment_def result_simps comment_size_defs)

lemma validate_comments_iff:
  "validate_comments s t = Inr u \<longleftrightarrow>
     validate_untrusted_comment s = Inr () \<and> validate_trusted_comment t = Inr ()"
  by (auto simp: validate_comments_def result_simps)

lemma validate_comments_no_eol:
  assumes "validate_comments s t = Inr u"
  shows "LF \<notin> set s" "CR \<notin> set s" "LF \<notin> set t" "CR \<notin> set t"
  using assms validate_untrusted_comment_no_eol [of s "()"] validate_comment_no_eol [of t "()"]
  by (auto simp: validate_comments_iff validate_trusted_comment_iff)

lemma sig_box_lines:
  assumes "b64_ok C" "validate_comments (sb_untrusted_comment b) (sb_trusted_comment b) = Inr ()"
  shows "lines (sig_box_to_file_contents C b) =
    [UNTRUSTED_PREFIX @ sb_untrusted_comment b, encode_base64 C (sig_struct_to_bytes (sb_sig_struct b)),
     TRUSTED_PREFIX @ sb_trusted_comment b, encode_base64 C (sb_global_signature b)]"
proof -
  note no_eol = validate_comments_no_eol [OF assms(2)] encode_base64_no_eol [OF assms(1)]
  have p: "LF \<notin> set UNTRUSTED_PREFIX" "CR \<notin> set UNTRUSTED_PREFIX"
    "LF \<notin> set TRUSTED_PREFIX" "CR \<notin> set TRUSTED_PREFIX"
    by (simp_all add: UNTRUSTED_PREFIX_def TRUSTED_PREFIX_def)
  let ?t = "sig_box_to_file_contents C b"
  have t: "?t = (UNTRUSTED_PREFIX @ sb_untrusted_comment b) @ LF #
      (encode_base64 C (sig_struct_to_bytes (sb_sig_struct b)) @ LF #
        ((TRUSTED_PREFIX @ sb_trusted_comment b) @ LF #
          (encode_base64 C (sb_global_signature b) @ LF # [])))"
    by (simp add: sig_box_to_file_contents_def Let_def)
  have u: "LF \<notin> set (UNTRUSTED_PREFIX @ sb_untrusted_comment b)"
    "CR \<notin> set (UNTRUSTED_PREFIX @ sb_untrusted_comment b)"
    "LF \<notin> set (TRUSTED_PREFIX @ sb_trusted_comment b)"
    "CR \<notin> set (TRUSTED_PREFIX @ sb_trusted_comment b)"
    using no_eol p by simp_all
  show ?thesis
    unfolding t by (simp only: lines_line lines_Nil u no_eol not_False_eq_True)
qed

text \<open>The written file is read back as the box it was written from.\<close>

lemma sig_box_roundtrip:
  assumes "b64_ok C" "wf_sig_box b"
  shows "sig_box_from_file_contents C (sig_box_to_file_contents C b) = Inr b"
proof -
  have v: "validate_comments (sb_untrusted_comment b) (sb_trusted_comment b) = Inr ()"
    and s: "wf_sig_struct (sb_sig_struct b)" and g: "length (sb_global_signature b) = SIGNATURE_BYTES"
    using assms(2) by (simp_all add: wf_sig_box_def wf_signature_def)
  have c: "validate_untrusted_comment (sb_untrusted_comment b) = Inr ()"
    "validate_trusted_comment (sb_trusted_comment b) = Inr ()"
    using v by (simp_all add: validate_comments_iff)
  show ?thesis
    unfolding sig_box_from_file_contents_def sig_box_lines [OF assms(1) v]
    using c assms(1) g by (simp add: sig_codec.dec_enc [OF s] Let_def copy_at_all)
qed

lemma sig_box_from_file_contents_wf:
  "sig_box_from_file_contents C t = Inr b \<Longrightarrow> wf_sig_box b"
  by (auto simp: sig_box_from_file_contents_def Let_def result_simps wf_sig_box_def wf_signature_def
      validate_comments_iff copy_at_all dest: sig_codec.dec_wf split: if_splits)

text \<open>What a parsed file looked like: four lines, with the fields of the box in them.\<close>

lemma sig_box_from_file_contents_Inr:
  assumes "sig_box_from_file_contents C t = Inr b"
  shows "\<exists>l2 l4. lines t = [UNTRUSTED_PREFIX @ sb_untrusted_comment b, l2,
      TRUSTED_PREFIX @ sb_trusted_comment b, l4]
    \<and> b64_decode C l2 = Inr (sig_struct_to_bytes (sb_sig_struct b))
    \<and> b64_decode C l4 = Inr (sb_global_signature b)"
proof -
  have "length (lines t) = 4"
    using assms by (auto simp: sig_box_from_file_contents_def Let_def split: if_splits)
  then obtain l1 l2 l3 l4 where l: "lines t = [l1, l2, l3, l4]"
    by (auto simp: length_Suc_conv eval_nat_numeral)
  show ?thesis
    using assms by (auto simp: sig_box_from_file_contents_def Let_def result_simps l decode_base64_Inr
        strip_prefix_Some copy_at_all numeral_3_eq_3 dest: sig_codec.enc_dec split: if_splits)
qed

lemma sig_box_new_wf:
  "wf_sig_struct s \<Longrightarrow> wf_signature g \<Longrightarrow> sig_box_new u s t g = Inr b \<Longrightarrow>
     wf_sig_box b \<and> into_parts b = (u, s, t, g)"
  by (auto simp: sig_box_new_def wf_sig_box_def into_parts_def result_simps)

lemma with_global_signature_Inr:
  "with_global_signature C u s t sk = Inr b \<longleftrightarrow>
     validate_comments u t = Inr () \<and>
     (\<exists>g. sign C sk (ss_signature s @ as_bytes t) = Inr g \<and> into_parts b = (u, s, t, g))"
  by (cases b) (auto simp: with_global_signature_def Let_def result_simps into_parts_def)

lemma with_global_signature_wf:
  "ed_ok C \<Longrightarrow> wf_sig_struct s \<Longrightarrow> with_global_signature C u s t sk = Inr b \<Longrightarrow> wf_sig_box b"
  by (auto simp: with_global_signature_Inr wf_sig_box_def into_parts_def dest: sign_wf)

lemma with_global_signature_verifies:
  "ed_ok C \<Longrightarrow> with_global_signature C u s t sk = Inr b \<Longrightarrow>
     verify_global_signature C b (ed_public C sk) = Inr ()"
  by (auto simp: with_global_signature_Inr into_parts_def verify_global_signature_def
      dest: sign_verifies)

text \<open>The signed data determine both the signature and the trusted comment.\<close>

lemma global_data_inj:
  "wf_signature s \<Longrightarrow> wf_signature s' \<Longrightarrow> s @ as_bytes t = s' @ as_bytes t' \<Longrightarrow> s = s' \<and> t = t'"
  by (auto simp: wf_signature_def dest: as_bytes_inj)

end
