(* ===== verification/Keys.thy ===== *)
theory Keys
  imports SigFile
begin

text \<open>
  \<open>keys.rs\<close>: the 42-byte public key structure, the 158-byte secret key structure, their text
  files, and the encryption of a secret key under a password. Both structures are
  interpretations of \<open>key_file\<close>. Decryption undoes encryption, also through the file, and
  every way it can fail is characterised.
\<close>

section \<open>Layout constants\<close>

definition PUBKEY_STRUCT_SIZE :: nat where
  "PUBKEY_STRUCT_SIZE = 2 + KEYNUM_BYTES + PUBLIC_KEY_BYTES"
definition SECKEY_STRUCT_SIZE :: nat where
  "SECKEY_STRUCT_SIZE =
     2 + 2 + 2 + KDF_SALT_BYTES + 8 + 8 + KEYNUM_BYTES + SECRET_KEY_BYTES + CHECKSUM_BYTES"
definition ENCRYPTED_BLOB_SIZE :: nat where
  "ENCRYPTED_BLOB_SIZE = KEYNUM_BYTES + SECRET_KEY_BYTES + CHECKSUM_BYTES"

definition SIG_ALG :: bytes where "SIG_ALG = as_bytes ''Ed''"
definition KDF_ALG_SCRYPT :: bytes where "KDF_ALG_SCRYPT = as_bytes ''Sc''"
definition KDF_ALG_NONE :: bytes where "KDF_ALG_NONE = [0, 0]"
definition CHK_ALG :: bytes where "CHK_ALG = as_bytes ''B2''"

lemmas alg_defs = SIG_ALG_def KDF_ALG_SCRYPT_def KDF_ALG_NONE_def CHK_ALG_def

definition PUBKEY_SIG_ALG_OFFSET :: nat where "PUBKEY_SIG_ALG_OFFSET = 0"
definition PUBKEY_SIG_ALG_SIZE :: nat where "PUBKEY_SIG_ALG_SIZE = 2"
definition PUBKEY_KEYNUM_OFFSET :: nat where "PUBKEY_KEYNUM_OFFSET = 2"
definition PUBKEY_KEYNUM_SIZE :: nat where "PUBKEY_KEYNUM_SIZE = KEYNUM_BYTES"
definition PUBKEY_PK_OFFSET :: nat where "PUBKEY_PK_OFFSET = 10"
definition PUBKEY_PK_SIZE :: nat where "PUBKEY_PK_SIZE = PUBLIC_KEY_BYTES"

lemmas pubkey_layout = PUBKEY_SIG_ALG_OFFSET_def PUBKEY_SIG_ALG_SIZE_def PUBKEY_KEYNUM_OFFSET_def
  PUBKEY_KEYNUM_SIZE_def PUBKEY_PK_OFFSET_def PUBKEY_PK_SIZE_def

definition SECKEY_SIG_ALG_OFFSET :: nat where "SECKEY_SIG_ALG_OFFSET = 0"
definition SECKEY_SIG_ALG_SIZE :: nat where "SECKEY_SIG_ALG_SIZE = 2"
definition SECKEY_KDF_ALG_OFFSET :: nat where "SECKEY_KDF_ALG_OFFSET = 2"
definition SECKEY_KDF_ALG_SIZE :: nat where "SECKEY_KDF_ALG_SIZE = 2"
definition SECKEY_CHK_ALG_OFFSET :: nat where "SECKEY_CHK_ALG_OFFSET = 4"
definition SECKEY_CHK_ALG_SIZE :: nat where "SECKEY_CHK_ALG_SIZE = 2"
definition SECKEY_KDF_SALT_OFFSET :: nat where "SECKEY_KDF_SALT_OFFSET = 6"
definition SECKEY_KDF_SALT_SIZE :: nat where "SECKEY_KDF_SALT_SIZE = KDF_SALT_BYTES"
definition SECKEY_KDF_OPSLIMIT_OFFSET :: nat where "SECKEY_KDF_OPSLIMIT_OFFSET = 38"
definition SECKEY_KDF_OPSLIMIT_SIZE :: nat where "SECKEY_KDF_OPSLIMIT_SIZE = 8"
definition SECKEY_KDF_MEMLIMIT_OFFSET :: nat where "SECKEY_KDF_MEMLIMIT_OFFSET = 46"
definition SECKEY_KDF_MEMLIMIT_SIZE :: nat where "SECKEY_KDF_MEMLIMIT_SIZE = 8"
definition SECKEY_KEYNUM_OFFSET :: nat where "SECKEY_KEYNUM_OFFSET = 54"
definition SECKEY_KEYNUM_SIZE :: nat where "SECKEY_KEYNUM_SIZE = KEYNUM_BYTES"
definition SECKEY_SK_OFFSET :: nat where "SECKEY_SK_OFFSET = 62"
definition SECKEY_SK_SIZE :: nat where "SECKEY_SK_SIZE = SECRET_KEY_BYTES"
definition SECKEY_CHECKSUM_OFFSET :: nat where "SECKEY_CHECKSUM_OFFSET = 126"
definition SECKEY_CHECKSUM_SIZE :: nat where "SECKEY_CHECKSUM_SIZE = CHECKSUM_BYTES"

lemmas seckey_layout = SECKEY_SIG_ALG_OFFSET_def SECKEY_SIG_ALG_SIZE_def SECKEY_KDF_ALG_OFFSET_def
  SECKEY_KDF_ALG_SIZE_def SECKEY_CHK_ALG_OFFSET_def SECKEY_CHK_ALG_SIZE_def
  SECKEY_KDF_SALT_OFFSET_def SECKEY_KDF_SALT_SIZE_def SECKEY_KDF_OPSLIMIT_OFFSET_def
  SECKEY_KDF_OPSLIMIT_SIZE_def SECKEY_KDF_MEMLIMIT_OFFSET_def SECKEY_KDF_MEMLIMIT_SIZE_def
  SECKEY_KEYNUM_OFFSET_def SECKEY_KEYNUM_SIZE_def SECKEY_SK_OFFSET_def SECKEY_SK_SIZE_def
  SECKEY_CHECKSUM_OFFSET_def SECKEY_CHECKSUM_SIZE_def

section \<open>Public keys\<close>

record pubkey_struct =
  pk_keynum :: key_num
  pk_public_key :: public_key

definition wf_pubkey :: "pubkey_struct \<Rightarrow> bool" where
  "wf_pubkey p \<longleftrightarrow> wf_key_num (pk_keynum p) \<and> wf_public_key (pk_public_key p)"

definition pubkey_to_bytes :: "pubkey_struct \<Rightarrow> bytes" where
  "pubkey_to_bytes p =
     (let bs = replicate PUBKEY_STRUCT_SIZE 0;
          bs = copy_at PUBKEY_SIG_ALG_OFFSET SIG_ALG bs;
          bs = copy_at PUBKEY_KEYNUM_OFFSET (pk_keynum p) bs;
          bs = copy_at PUBKEY_PK_OFFSET (pk_public_key p) bs
      in bs)"

definition pubkey_from_bytes :: "bytes \<Rightarrow> error + pubkey_struct" where
  "pubkey_from_bytes bs =
     (if length bs \<noteq> PUBKEY_STRUCT_SIZE then
        Inl (InvalidPublicKey
          (''expected '' @ dec PUBKEY_STRUCT_SIZE @ '' bytes, got '' @ dec (length bs)))
      else
        let sig_end = PUBKEY_SIG_ALG_OFFSET + PUBKEY_SIG_ALG_SIZE;
            keynum_end = PUBKEY_KEYNUM_OFFSET + PUBKEY_KEYNUM_SIZE;
            pk_end = PUBKEY_PK_OFFSET + PUBKEY_PK_SIZE
        in if slice PUBKEY_SIG_ALG_OFFSET sig_end bs \<noteq> SIG_ALG then
             Inl (InvalidPublicKey ''invalid signature algorithm'')
           else
             let keynum_bytes = copy_at 0 (slice PUBKEY_KEYNUM_OFFSET keynum_end bs)
                                  (replicate KEYNUM_BYTES 0);
                 pk_bytes = copy_at 0 (slice PUBKEY_PK_OFFSET pk_end bs)
                              (replicate PUBLIC_KEY_BYTES 0)
             in Inr \<lparr>pk_keynum = keynum_bytes, pk_public_key = pk_bytes\<rparr>)"

definition pubkey_from_file_contents :: "crates \<Rightarrow> string \<Rightarrow> error + pubkey_struct" where
  "pubkey_from_file_contents C contents =
     (let ls = lines contents
      in if length ls < 2 then Inl (InvalidPublicKey ''missing comment or data line'')
         else and_then (decode_base64 C (ls ! 1)) pubkey_from_bytes)"

definition pubkey_from_base64 :: "crates \<Rightarrow> string \<Rightarrow> error + pubkey_struct" where
  "pubkey_from_base64 C s = and_then (decode_base64 C s) pubkey_from_bytes"

definition pubkey_to_file_contents :: "crates \<Rightarrow> pubkey_struct \<Rightarrow> string \<Rightarrow> error + string" where
  "pubkey_to_file_contents C p comment =
     and_then (validate_untrusted_comment comment) (\<lambda>_.
       let base64 = encode_base64 C (pubkey_to_bytes p)
       in Inr (UNTRUSTED_PREFIX @ comment @ [LF] @ base64 @ [LF]))"

lemma pubkey_to_bytes_append:
  "wf_pubkey p \<Longrightarrow> pubkey_to_bytes p = SIG_ALG @ pk_keynum p @ pk_public_key p"
  by (simp add: pubkey_to_bytes_def wf_pubkey_def wf_array_defs pubkey_layout size_defs
      PUBKEY_STRUCT_SIZE_def SIG_ALG_def copy_at_def)

lemma pubkey_ends:
  "PUBKEY_SIG_ALG_OFFSET + PUBKEY_SIG_ALG_SIZE = 2" "PUBKEY_KEYNUM_OFFSET + PUBKEY_KEYNUM_SIZE = 10"
  "PUBKEY_PK_OFFSET + PUBKEY_PK_SIZE = 42" "PUBKEY_SIG_ALG_OFFSET = 0"
  "PUBKEY_KEYNUM_OFFSET = 2" "PUBKEY_PK_OFFSET = 10" "PUBKEY_STRUCT_SIZE = 42"
  by (simp_all add: pubkey_layout size_defs PUBKEY_STRUCT_SIZE_def)

lemma pubkey_from_bytes_Inr:
  "pubkey_from_bytes bs = Inr p \<longleftrightarrow>
     length bs = 42 \<and> slice 0 2 bs = SIG_ALG \<and> pk_keynum p = slice 2 10 bs
     \<and> pk_public_key p = slice 10 42 bs"
proof (cases "length bs = 42")
  case True
  then have l: "length (slice 2 10 bs) = KEYNUM_BYTES" "length (slice 10 42 bs) = PUBLIC_KEY_BYTES"
    by (simp_all add: layout_simps)
  show ?thesis
    unfolding pubkey_from_bytes_def Let_def pubkey_ends(1-3) unfolding pubkey_ends(4-7)
    using True l by (cases p) (auto simp: copy_at_all)
qed (simp add: pubkey_from_bytes_def pubkey_ends)

lemma slices_42: "length bs = 42 \<Longrightarrow> slice 0 2 bs @ slice 2 10 bs @ slice 10 42 bs = bs"
  by (simp add: slice_full slice_split del: slice_0)

interpretation pubkey_codec: byte_codec PUBKEY_STRUCT_SIZE pubkey_to_bytes pubkey_from_bytes
  wf_pubkey
proof (unfold_locales)
  fix p :: pubkey_struct
  assume wf: "wf_pubkey p"
  then have l: "length SIG_ALG = 2" "length (pk_keynum p) = 8" "length (pk_public_key p) = 32"
    by (simp_all add: wf_pubkey_def wf_array_defs size_defs SIG_ALG_def)
  show "length (pubkey_to_bytes p) = PUBKEY_STRUCT_SIZE"
    using l by (simp add: pubkey_to_bytes_append [OF wf] pubkey_ends)
  show "pubkey_from_bytes (pubkey_to_bytes p) = Inr p"
    unfolding pubkey_to_bytes_append [OF wf] pubkey_from_bytes_Inr using l
    by (simp add: slice_def)
next
  fix bs and p :: pubkey_struct
  assume "pubkey_from_bytes bs = Inr p"
  then have p: "length bs = 42" "slice 0 2 bs = SIG_ALG" "pk_keynum p = slice 2 10 bs"
      "pk_public_key p = slice 10 42 bs"
    unfolding pubkey_from_bytes_Inr by blast+
  show wf: "wf_pubkey p"
    using p by (simp add: wf_pubkey_def wf_array_defs layout_simps)
  show "pubkey_to_bytes p = bs"
    using slices_42 [OF p(1)] unfolding pubkey_to_bytes_append [OF wf] p(2-4) .
qed

interpretation pubkey_file: key_file PUBKEY_STRUCT_SIZE pubkey_to_bytes pubkey_from_bytes wf_pubkey
  pubkey_to_file_contents pubkey_from_file_contents
  by unfold_locales
    (auto simp: pubkey_to_file_contents_def pubkey_from_file_contents_def Let_def result_simps)

section \<open>Secret keys\<close>

record seckey_struct =
  sk_encrypted :: bool
  sk_kdf_salt :: bytes
  sk_kdf_opslimit :: u64
  sk_kdf_memlimit :: u64
  sk_keynum :: key_num
  sk_encrypted_keynum :: bytes
  sk_secret_key_encrypted :: bytes
  sk_checksum :: bytes

definition wf_seckey_sizes :: "seckey_struct \<Rightarrow> bool" where
  "wf_seckey_sizes s \<longleftrightarrow>
     length (sk_kdf_salt s) = KDF_SALT_BYTES \<and> length (sk_keynum s) = KEYNUM_BYTES
     \<and> length (sk_encrypted_keynum s) = KEYNUM_BYTES
     \<and> length (sk_secret_key_encrypted s) = SECRET_KEY_BYTES
     \<and> length (sk_checksum s) = CHECKSUM_BYTES"

text \<open>What a structure read from a file satisfies: the key number of an encrypted key is not
  known, and an unencrypted key has no encrypted one.\<close>

definition wf_seckey :: "seckey_struct \<Rightarrow> bool" where
  "wf_seckey s \<longleftrightarrow>
     wf_seckey_sizes s
     \<and> (if sk_encrypted s then sk_keynum s = replicate KEYNUM_BYTES 0
        else sk_encrypted_keynum s = replicate KEYNUM_BYTES 0)"

definition new_unencrypted :: "key_num \<Rightarrow> secret_key \<Rightarrow> seckey_struct" where
  "new_unencrypted keynum sk =
     (let secret_key_encrypted = copy_at 0 sk (replicate SECRET_KEY_BYTES 0)
      in \<lparr>sk_encrypted = False, sk_kdf_salt = replicate KDF_SALT_BYTES 0,
          sk_kdf_opslimit = 0, sk_kdf_memlimit = 0, sk_keynum = keynum,
          sk_encrypted_keynum = replicate KEYNUM_BYTES 0,
          sk_secret_key_encrypted = secret_key_encrypted,
          sk_checksum = replicate CHECKSUM_BYTES 0\<rparr>)"

definition compute_checksum :: "crates \<Rightarrow> key_num \<Rightarrow> bytes \<Rightarrow> bytes" where
  "compute_checksum C keynum sk =
     (let data = replicate (2 + KEYNUM_BYTES + SECRET_KEY_BYTES) 0;
          data = copy_at 0 SIG_ALG data;
          data = copy_at 2 keynum data;
          data = copy_at (2 + KEYNUM_BYTES) sk data
      in blake2b_256 C data)"

text \<open>The loop \<open>for i in 0..ENCRYPTED_BLOB_SIZE { out[i] = a[i] ^ b[i] }\<close>.\<close>

primrec xor_loop :: "nat \<Rightarrow> bytes \<Rightarrow> bytes \<Rightarrow> bytes \<Rightarrow> bytes" where
  "xor_loop 0 a b out = out"
| "xor_loop (Suc n) a b out = (xor_loop n a b out)[n := a ! n XOR b ! n]"

definition blob_of :: "bytes \<Rightarrow> bytes \<Rightarrow> bytes \<Rightarrow> bytes" where
  "blob_of keynum sk checksum =
     (let blob = replicate ENCRYPTED_BLOB_SIZE 0;
          blob = copy_at 0 keynum blob;
          blob = copy_at KEYNUM_BYTES sk blob;
          blob = copy_at (KEYNUM_BYTES + SECRET_KEY_BYTES) checksum blob
      in blob)"

definition new_encrypted ::
  "crates \<Rightarrow> key_num \<Rightarrow> secret_key \<Rightarrow> bytes \<Rightarrow> bytes \<Rightarrow> u64 \<Rightarrow> u64 \<Rightarrow> bool
     \<Rightarrow> error + seckey_struct" where
  "new_encrypted C keynum sk password kdf_salt kdf_opslimit kdf_memlimit allow_fallback =
     (let computed_checksum = compute_checksum C keynum sk
      in and_then (opslimit_memlimit_to_params C kdf_opslimit kdf_memlimit) (\<lambda>(log_n, r, p).
         and_then (derive_key_with_params C password kdf_salt log_n r p ENCRYPTED_BLOB_SIZE)
         (\<lambda>derived_key.
           let blob = blob_of keynum sk computed_checksum;
               encrypted_blob = xor_loop ENCRYPTED_BLOB_SIZE blob derived_key
                                  (replicate ENCRYPTED_BLOB_SIZE 0);
               encrypted_keynum = copy_at 0 (slice 0 KEYNUM_BYTES encrypted_blob)
                                    (replicate KEYNUM_BYTES 0);
               secret_key_encrypted =
                 copy_at 0 (slice KEYNUM_BYTES (KEYNUM_BYTES + SECRET_KEY_BYTES) encrypted_blob)
                   (replicate SECRET_KEY_BYTES 0);
               checksum = copy_at 0 (drop (KEYNUM_BYTES + SECRET_KEY_BYTES) encrypted_blob)
                            (replicate CHECKSUM_BYTES 0)
           in Inr \<lparr>sk_encrypted = True, sk_kdf_salt = kdf_salt,
                   sk_kdf_opslimit = kdf_opslimit, sk_kdf_memlimit = kdf_memlimit,
                   sk_keynum = keynum, sk_encrypted_keynum = encrypted_keynum,
                   sk_secret_key_encrypted = secret_key_encrypted, sk_checksum = checksum\<rparr>)))"

definition is_weak_kdf :: "seckey_struct \<Rightarrow> bool" where
  "is_weak_kdf s =
     (if \<not> sk_encrypted s then False
      else sk_kdf_opslimit s < PRODUCTION_OPSLIMIT \<or> sk_kdf_memlimit s < PRODUCTION_MEMLIMIT)"

definition seckey_check_kdf_budget :: "seckey_struct \<Rightarrow> error + unit" where
  "seckey_check_kdf_budget s =
     (if sk_encrypted s then check_kdf_budget (sk_kdf_memlimit s) else Inr ())"

text \<open>\<open>SeckeyStruct::decrypt\<close>; the warning it prints for a weak key is not part of its result.\<close>

definition decrypt :: "crates \<Rightarrow> seckey_struct \<Rightarrow> bytes \<Rightarrow> error + secret_key \<times> key_num" where
  "decrypt C s password =
     (if \<not> sk_encrypted s then Inl (Other ''key is not encrypted'')
      else and_then (check_kdf_budget (sk_kdf_memlimit s)) (\<lambda>_.
        and_then (opslimit_memlimit_to_params C (sk_kdf_opslimit s) (sk_kdf_memlimit s))
        (\<lambda>(log_n, r, p).
        and_then (derive_key_with_params C password (sk_kdf_salt s) log_n r p ENCRYPTED_BLOB_SIZE)
        (\<lambda>derived_key.
          let encrypted_blob = blob_of (sk_encrypted_keynum s) (sk_secret_key_encrypted s)
                                 (sk_checksum s);
              decrypted_blob = xor_loop ENCRYPTED_BLOB_SIZE encrypted_blob derived_key
                                 (replicate ENCRYPTED_BLOB_SIZE 0);
              decrypted_keynum = copy_at 0 (slice 0 KEYNUM_BYTES decrypted_blob)
                                   (replicate KEYNUM_BYTES 0);
              secret_key_bytes =
                copy_at 0 (slice KEYNUM_BYTES (KEYNUM_BYTES + SECRET_KEY_BYTES) decrypted_blob)
                  (replicate SECRET_KEY_BYTES 0);
              decrypted_checksum = copy_at 0 (drop (KEYNUM_BYTES + SECRET_KEY_BYTES) decrypted_blob)
                                     (replicate CHECKSUM_BYTES 0);
              computed_checksum = compute_checksum C decrypted_keynum secret_key_bytes
          in if computed_checksum = decrypted_checksum then Inr (secret_key_bytes, decrypted_keynum)
             else Inl ChecksumFailed))))"

definition get_unencrypted_secret_key :: "seckey_struct \<Rightarrow> error + secret_key" where
  "get_unencrypted_secret_key s =
     (if sk_encrypted s then Inl PasswordRequired else Inr (sk_secret_key_encrypted s))"

definition extract_key ::
  "crates \<Rightarrow> seckey_struct \<Rightarrow> bytes option \<Rightarrow> error + secret_key \<times> key_num" where
  "extract_key C s password =
     (if sk_encrypted s then
        and_then (ok_or PasswordRequired password) (\<lambda>pwd. decrypt C s pwd)
      else and_then (get_unencrypted_secret_key s) (\<lambda>sk. Inr (sk, sk_keynum s)))"

definition credential_id :: "seckey_struct \<Rightarrow> string" where
  "credential_id s =
     (if sk_encrypted s then hex_upper 16 (unat (u64_from_le_bytes (sk_encrypted_keynum s)))
      else to_key_id (sk_keynum s))"

section \<open>The secret key structure as bytes and as a file\<close>

definition seckey_to_bytes :: "seckey_struct \<Rightarrow> bytes" where
  "seckey_to_bytes s =
     (let bs = replicate SECKEY_STRUCT_SIZE 0;
          bs = copy_at SECKEY_SIG_ALG_OFFSET SIG_ALG bs;
          bs = (if sk_encrypted s then copy_at SECKEY_KDF_ALG_OFFSET KDF_ALG_SCRYPT bs
                else copy_at SECKEY_KDF_ALG_OFFSET KDF_ALG_NONE bs);
          bs = copy_at SECKEY_CHK_ALG_OFFSET CHK_ALG bs;
          bs = copy_at SECKEY_KDF_SALT_OFFSET (sk_kdf_salt s) bs;
          bs = copy_at SECKEY_KDF_OPSLIMIT_OFFSET (u64_to_le_bytes (sk_kdf_opslimit s)) bs;
          bs = copy_at SECKEY_KDF_MEMLIMIT_OFFSET (u64_to_le_bytes (sk_kdf_memlimit s)) bs;
          bs = (if sk_encrypted s then copy_at SECKEY_KEYNUM_OFFSET (sk_encrypted_keynum s) bs
                else copy_at SECKEY_KEYNUM_OFFSET (sk_keynum s) bs);
          bs = copy_at SECKEY_SK_OFFSET (sk_secret_key_encrypted s) bs;
          bs = copy_at SECKEY_CHECKSUM_OFFSET (sk_checksum s) bs
      in bs)"

definition seckey_from_bytes :: "bytes \<Rightarrow> error + seckey_struct" where
  "seckey_from_bytes bs =
     (if length bs \<noteq> SECKEY_STRUCT_SIZE then
        Inl (InvalidSecretKey
          (''expected '' @ dec SECKEY_STRUCT_SIZE @ '' bytes, got '' @ dec (length bs)))
      else
        let sig_end = SECKEY_SIG_ALG_OFFSET + SECKEY_SIG_ALG_SIZE;
            kdf_end = SECKEY_KDF_ALG_OFFSET + SECKEY_KDF_ALG_SIZE;
            chk_end = SECKEY_CHK_ALG_OFFSET + SECKEY_CHK_ALG_SIZE;
            salt_end = SECKEY_KDF_SALT_OFFSET + SECKEY_KDF_SALT_SIZE;
            opslimit_end = SECKEY_KDF_OPSLIMIT_OFFSET + SECKEY_KDF_OPSLIMIT_SIZE;
            memlimit_end = SECKEY_KDF_MEMLIMIT_OFFSET + SECKEY_KDF_MEMLIMIT_SIZE;
            keynum_end = SECKEY_KEYNUM_OFFSET + SECKEY_KEYNUM_SIZE;
            sk_end = SECKEY_SK_OFFSET + SECKEY_SK_SIZE;
            checksum_end = SECKEY_CHECKSUM_OFFSET + SECKEY_CHECKSUM_SIZE
        in if slice SECKEY_SIG_ALG_OFFSET sig_end bs \<noteq> SIG_ALG then
             Inl (InvalidSecretKey ''invalid signature algorithm'')
           else and_then
             (if slice SECKEY_KDF_ALG_OFFSET kdf_end bs = KDF_ALG_SCRYPT then Inr True
              else if slice SECKEY_KDF_ALG_OFFSET kdf_end bs = KDF_ALG_NONE then Inr False
              else Inl (InvalidSecretKey ''invalid KDF algorithm''))
           (\<lambda>encrypted.
             if slice SECKEY_CHK_ALG_OFFSET chk_end bs \<noteq> CHK_ALG then
               Inl (InvalidSecretKey ''invalid checksum algorithm'')
             else
               let kdf_salt = copy_at 0 (slice SECKEY_KDF_SALT_OFFSET salt_end bs)
                                (replicate KDF_SALT_BYTES 0)
               in and_then (map_err (\<lambda>e. InvalidKeyFormat (''Invalid KDF opslimit: '' @ display_error id e))
                             (read_u64_le (slice SECKEY_KDF_OPSLIMIT_OFFSET opslimit_end bs)))
               (\<lambda>kdf_opslimit. and_then
                  (map_err (\<lambda>e. InvalidKeyFormat (''Invalid KDF memlimit: '' @ display_error id e))
                    (read_u64_le (slice SECKEY_KDF_MEMLIMIT_OFFSET memlimit_end bs)))
               (\<lambda>kdf_memlimit.
                  let keynum_bytes = copy_at 0 (slice SECKEY_KEYNUM_OFFSET keynum_end bs)
                                       (replicate KEYNUM_BYTES 0);
                      (keynum, encrypted_keynum) =
                        (if encrypted then (replicate KEYNUM_BYTES 0, keynum_bytes)
                         else (keynum_bytes, replicate KEYNUM_BYTES 0));
                      seckey = \<lparr>sk_encrypted = encrypted, sk_kdf_salt = kdf_salt,
                        sk_kdf_opslimit = kdf_opslimit, sk_kdf_memlimit = kdf_memlimit,
                        sk_keynum = keynum, sk_encrypted_keynum = encrypted_keynum,
                        sk_secret_key_encrypted = replicate SECRET_KEY_BYTES 0,
                        sk_checksum = replicate CHECKSUM_BYTES 0\<rparr>;
                      seckey = seckey\<lparr>sk_secret_key_encrypted :=
                        copy_at 0 (slice SECKEY_SK_OFFSET sk_end bs) (sk_secret_key_encrypted seckey)\<rparr>;
                      seckey = seckey\<lparr>sk_checksum :=
                        copy_at 0 (slice SECKEY_CHECKSUM_OFFSET checksum_end bs) (sk_checksum seckey)\<rparr>
                  in Inr seckey))))"

definition seckey_from_file_contents :: "crates \<Rightarrow> string \<Rightarrow> error + seckey_struct" where
  "seckey_from_file_contents C contents =
     (let ls = lines contents
      in if length ls < 2 then Inl (InvalidSecretKey ''missing comment or data line'')
         else and_then
           (map_err (\<lambda>e. case e of InvalidBase64 _ \<Rightarrow> e
                       | _ \<Rightarrow> InvalidSecretKey (''expected '' @ dec SECKEY_STRUCT_SIZE
                                @ '' bytes, got more''))
             (decode_base64_into C (ls ! 1) (replicate SECKEY_STRUCT_SIZE 0)))
           (\<lambda>(data, len). seckey_from_bytes (take len data)))"

definition seckey_to_file_contents :: "crates \<Rightarrow> seckey_struct \<Rightarrow> string \<Rightarrow> error + string" where
  "seckey_to_file_contents C s comment =
     and_then (validate_untrusted_comment comment) (\<lambda>_.
       let base64 = encode_base64 C (seckey_to_bytes s)
       in Inr (UNTRUSTED_PREFIX @ comment @ [LF] @ base64 @ [LF]))"

lemma seckey_ends:
  "SECKEY_SIG_ALG_OFFSET + SECKEY_SIG_ALG_SIZE = 2" "SECKEY_KDF_ALG_OFFSET + SECKEY_KDF_ALG_SIZE = 4"
  "SECKEY_CHK_ALG_OFFSET + SECKEY_CHK_ALG_SIZE = 6"
  "SECKEY_KDF_SALT_OFFSET + SECKEY_KDF_SALT_SIZE = 38"
  "SECKEY_KDF_OPSLIMIT_OFFSET + SECKEY_KDF_OPSLIMIT_SIZE = 46"
  "SECKEY_KDF_MEMLIMIT_OFFSET + SECKEY_KDF_MEMLIMIT_SIZE = 54"
  "SECKEY_KEYNUM_OFFSET + SECKEY_KEYNUM_SIZE = 62" "SECKEY_SK_OFFSET + SECKEY_SK_SIZE = 126"
  "SECKEY_CHECKSUM_OFFSET + SECKEY_CHECKSUM_SIZE = 158"
  by (simp_all add: seckey_layout size_defs)

lemma seckey_offsets:
  "SECKEY_SIG_ALG_OFFSET = 0" "SECKEY_KDF_ALG_OFFSET = 2" "SECKEY_CHK_ALG_OFFSET = 4"
  "SECKEY_KDF_SALT_OFFSET = 6" "SECKEY_KDF_OPSLIMIT_OFFSET = 38" "SECKEY_KDF_MEMLIMIT_OFFSET = 46"
  "SECKEY_KEYNUM_OFFSET = 54" "SECKEY_SK_OFFSET = 62" "SECKEY_CHECKSUM_OFFSET = 126"
  "SECKEY_STRUCT_SIZE = 158"
  by (simp_all add: seckey_layout size_defs SECKEY_STRUCT_SIZE_def)

lemma length_algs [simp, layout_simps]:
  "length SIG_ALG = 2" "length KDF_ALG_SCRYPT = 2" "length KDF_ALG_NONE = 2" "length CHK_ALG = 2"
  by (simp_all add: alg_defs)

lemma kdf_alg_distinct: "KDF_ALG_SCRYPT \<noteq> KDF_ALG_NONE"
  by (simp add: alg_defs)

text \<open>Writing the next field of a buffer that is written up to its offset.\<close>

lemma copy_at_start:
  "length src \<le> n \<Longrightarrow> copy_at 0 src (replicate n 0) = src @ replicate (n - length src) 0"
  by (simp add: copy_at_def)

lemma copy_at_append:
  "i = length pre \<Longrightarrow> length src \<le> n \<Longrightarrow>
     copy_at i src (pre @ replicate n 0) = (pre @ src) @ replicate (n - length src) 0"
  by (simp add: copy_at_def)

definition seckey_image :: "seckey_struct \<Rightarrow> bytes" where
  "seckey_image s = SIG_ALG @ (if sk_encrypted s then KDF_ALG_SCRYPT else KDF_ALG_NONE) @ CHK_ALG
     @ sk_kdf_salt s @ u64_to_le_bytes (sk_kdf_opslimit s) @ u64_to_le_bytes (sk_kdf_memlimit s)
     @ (if sk_encrypted s then sk_encrypted_keynum s else sk_keynum s)
     @ sk_secret_key_encrypted s @ sk_checksum s"

lemma seckey_to_bytes_image:
  assumes "wf_seckey_sizes s"
  shows "seckey_to_bytes s = seckey_image s"
proof -
  have l: "length (sk_kdf_salt s) = 32" "length (sk_keynum s) = 8"
    "length (sk_encrypted_keynum s) = 8" "length (sk_secret_key_encrypted s) = 64"
    "length (sk_checksum s) = 32"
    using assms by (simp_all add: wf_seckey_sizes_def size_defs)
  have "seckey_to_bytes s = (((((((((SIG_ALG @ (if sk_encrypted s then KDF_ALG_SCRYPT else KDF_ALG_NONE))
      @ CHK_ALG) @ sk_kdf_salt s) @ u64_to_le_bytes (sk_kdf_opslimit s))
      @ u64_to_le_bytes (sk_kdf_memlimit s))
      @ (if sk_encrypted s then sk_encrypted_keynum s else sk_keynum s))
      @ sk_secret_key_encrypted s) @ sk_checksum s) @ replicate 0 0)"
    by (cases "sk_encrypted s")
      (simp_all add: seckey_to_bytes_def seckey_offsets copy_at_start copy_at_append l
        del: append_assoc replicate.simps)
  then show ?thesis by (simp add: seckey_image_def)
qed

lemma length_seckey_image: "wf_seckey_sizes s \<Longrightarrow> length (seckey_image s) = 158"
  by (simp add: seckey_image_def wf_seckey_sizes_def size_defs)

lemma seckey_image_slices:
  assumes "wf_seckey_sizes s"
  shows "slice 0 2 (seckey_image s) = SIG_ALG"
    "slice 2 4 (seckey_image s) = (if sk_encrypted s then KDF_ALG_SCRYPT else KDF_ALG_NONE)"
    "slice 4 6 (seckey_image s) = CHK_ALG"
    "slice 6 38 (seckey_image s) = sk_kdf_salt s"
    "slice 38 46 (seckey_image s) = u64_to_le_bytes (sk_kdf_opslimit s)"
    "slice 46 54 (seckey_image s) = u64_to_le_bytes (sk_kdf_memlimit s)"
    "slice 54 62 (seckey_image s) = (if sk_encrypted s then sk_encrypted_keynum s else sk_keynum s)"
    "slice 62 126 (seckey_image s) = sk_secret_key_encrypted s"
    "slice 126 158 (seckey_image s) = sk_checksum s"
  using assms by (simp_all add: slice_def seckey_image_def wf_seckey_sizes_def size_defs)

lemma slices_158:
  "length bs = 158 \<Longrightarrow>
     slice 0 2 bs @ slice 2 4 bs @ slice 4 6 bs @ slice 6 38 bs @ slice 38 46 bs @ slice 46 54 bs
     @ slice 54 62 bs @ slice 62 126 bs @ slice 126 158 bs = bs"
  by (simp add: slice_full slice_split del: slice_0)

lemma seckey_from_bytes_Inr:
  "seckey_from_bytes bs = Inr s \<longleftrightarrow>
     length bs = 158 \<and> slice 0 2 bs = SIG_ALG \<and> slice 4 6 bs = CHK_ALG
     \<and> slice 2 4 bs = (if sk_encrypted s then KDF_ALG_SCRYPT else KDF_ALG_NONE)
     \<and> sk_kdf_salt s = slice 6 38 bs \<and> sk_kdf_opslimit s = u64_from_le_bytes (slice 38 46 bs)
     \<and> sk_kdf_memlimit s = u64_from_le_bytes (slice 46 54 bs)
     \<and> sk_keynum s = (if sk_encrypted s then replicate KEYNUM_BYTES 0 else slice 54 62 bs)
     \<and> sk_encrypted_keynum s = (if sk_encrypted s then slice 54 62 bs else replicate KEYNUM_BYTES 0)
     \<and> sk_secret_key_encrypted s = slice 62 126 bs \<and> sk_checksum s = slice 126 158 bs"
proof (cases "length bs = 158")
  case True
  then have l: "length (slice 6 38 bs) = KDF_SALT_BYTES" "length (slice 54 62 bs) = KEYNUM_BYTES"
    "length (slice 62 126 bs) = SECRET_KEY_BYTES" "length (slice 126 158 bs) = CHECKSUM_BYTES"
    "length (slice 38 46 bs) = 8" "length (slice 46 54 bs) = 8"
    by (simp_all add: layout_simps)
  have c: "copy_at 0 (slice 6 38 bs) (replicate KDF_SALT_BYTES 0) = slice 6 38 bs"
    "copy_at 0 (slice 54 62 bs) (replicate KEYNUM_BYTES 0) = slice 54 62 bs"
    "copy_at 0 (slice 62 126 bs) (replicate SECRET_KEY_BYTES 0) = slice 62 126 bs"
    "copy_at 0 (slice 126 158 bs) (replicate CHECKSUM_BYTES 0) = slice 126 158 bs"
    using l by (simp_all add: copy_at_all)
  show ?thesis
    unfolding seckey_from_bytes_def Let_def seckey_ends unfolding seckey_offsets
    using True kdf_alg_distinct
    by (cases s) (auto simp: c read_u64_le_exact [OF l(5)] read_u64_le_exact [OF l(6)]
        result_simps split: if_splits prod.splits)
qed (simp add: seckey_from_bytes_def seckey_offsets)

interpretation seckey_codec: byte_codec SECKEY_STRUCT_SIZE seckey_to_bytes seckey_from_bytes
  wf_seckey
proof (unfold_locales)
  fix s :: seckey_struct
  assume wf: "wf_seckey s"
  then have sz: "wf_seckey_sizes s" by (simp add: wf_seckey_def)
  show "length (seckey_to_bytes s) = SECKEY_STRUCT_SIZE"
    using sz by (simp add: seckey_to_bytes_image length_seckey_image seckey_offsets)
  show "seckey_from_bytes (seckey_to_bytes s) = Inr s"
    unfolding seckey_to_bytes_image [OF sz] seckey_from_bytes_Inr seckey_image_slices [OF sz]
    using wf by (simp add: length_seckey_image [OF sz] wf_seckey_def)
next
  fix bs and s :: seckey_struct
  assume "seckey_from_bytes bs = Inr s"
  note s = this [unfolded seckey_from_bytes_Inr]
  then have l: "length bs = 158" by blast
  show wf: "wf_seckey s"
    using s by (auto simp: wf_seckey_def wf_seckey_sizes_def layout_simps)
  then have sz: "wf_seckey_sizes s" by (simp add: wf_seckey_def)
  have u: "u64_to_le_bytes (u64_from_le_bytes (slice 38 46 bs)) = slice 38 46 bs"
    "u64_to_le_bytes (u64_from_le_bytes (slice 46 54 bs)) = slice 46 54 bs"
    using l by (simp_all add: u64_le_roundtrip_bytes length_slice)
  have "seckey_image s = slice 0 2 bs @ slice 2 4 bs @ slice 4 6 bs @ slice 6 38 bs
      @ slice 38 46 bs @ slice 46 54 bs @ slice 54 62 bs @ slice 62 126 bs @ slice 126 158 bs"
    unfolding seckey_image_def using s u by (simp del: slice_0)
  then show "seckey_to_bytes s = bs"
    unfolding seckey_to_bytes_image [OF sz] slices_158 [OF l] .
qed

text \<open>The fixed 158-byte buffer loses nothing: what does not fit is refused either way.\<close>

lemma seckey_from_file_contents_Inr:
  assumes "b64_ok C"
  shows "seckey_from_file_contents C t = Inr s \<longleftrightarrow>
     2 \<le> length (lines t)
     \<and> (\<exists>bs. decode_base64 C (lines t ! 1) = Inr bs \<and> seckey_from_bytes bs = Inr s)"
proof -
  let ?out = "replicate SECKEY_STRUCT_SIZE (0 :: u8)"
  have "(\<exists>data len. decode_base64_into C (lines t ! 1) ?out = Inr (data, len)
           \<and> seckey_from_bytes (take len data) = Inr s) \<longleftrightarrow>
        (\<exists>bs. decode_base64 C (lines t ! 1) = Inr bs \<and> seckey_from_bytes bs = Inr s)"
    (is "?L \<longleftrightarrow> ?R")
  proof
    assume ?L
    then show ?R using decode_base64_into_take [OF assms] by (auto simp: decode_base64_Inr)
  next
    assume ?R
    then obtain bs where bs: "b64_decode C (lines t ! 1) = Inr bs" "seckey_from_bytes bs = Inr s"
      by (auto simp: decode_base64_Inr)
    then have l: "length bs \<le> length ?out" using seckey_codec.dec_size [OF bs(2)] by simp
    have "decode_base64_into C (lines t ! 1) ?out = Inr (copy_at 0 bs ?out, length bs)"
      using bs(1) l by (simp add: decode_base64_into_Inr [OF assms])
    moreover have "take (length bs) (copy_at 0 bs ?out) = bs" by (simp add: copy_at_def)
    ultimately show ?L using bs(2) by auto
  qed
  then show ?thesis
    by (auto simp: seckey_from_file_contents_def Let_def result_simps)
qed

interpretation seckey_file: key_file SECKEY_STRUCT_SIZE seckey_to_bytes seckey_from_bytes wf_seckey
  seckey_to_file_contents seckey_from_file_contents
  by unfold_locales
    (auto simp: seckey_to_file_contents_def Let_def result_simps seckey_from_file_contents_Inr)

section \<open>Encryption and decryption\<close>

lemma xor_loop_prefix:
  "n \<le> length a \<Longrightarrow> n \<le> length b \<Longrightarrow> n \<le> length out \<Longrightarrow>
     xor_loop n a b out = xor_bytes (take n a) (take n b) @ drop n out"
proof (induction n)
  case 0
  then show ?case by (simp add: xor_bytes_def)
next
  case (Suc n)
  then have IH: "xor_loop n a b out = xor_bytes (take n a) (take n b) @ drop n out" by simp
  have t: "take (Suc n) a = take n a @ [a ! n]" "take (Suc n) b = take n b @ [b ! n]"
    "drop n out = out ! n # drop (Suc n) out"
    using Suc.prems by (simp_all add: take_Suc_conv_app_nth Cons_nth_drop_Suc)
  show ?case
    using Suc.prems by (simp add: IH t(1,2) xor_bytes_def list_update_append t(3))
qed

lemma blob_of_append:
  "length kn = 8 \<Longrightarrow> length sk = 64 \<Longrightarrow> length ck = 32 \<Longrightarrow> blob_of kn sk ck = kn @ sk @ ck"
  by (simp add: blob_of_def ENCRYPTED_BLOB_SIZE_def size_defs copy_at_start copy_at_append
      del: append_assoc replicate.simps) simp

lemma xor_loop_blob:
  "length a = 104 \<Longrightarrow> length k = 104 \<Longrightarrow>
     xor_loop ENCRYPTED_BLOB_SIZE a k (replicate ENCRYPTED_BLOB_SIZE 0) = xor_bytes a k"
  by (subst xor_loop_prefix) (simp_all add: ENCRYPTED_BLOB_SIZE_def size_defs)

lemma compute_checksum_eq:
  "length kn = 8 \<Longrightarrow> length sk = 64 \<Longrightarrow> compute_checksum C kn sk = blake2b C 32 [SIG_ALG @ kn @ sk]"
  by (simp add: compute_checksum_def blake2b_256_def size_defs copy_at_start copy_at_append
      del: append_assoc replicate.simps) simp

text \<open>What encryption stores: the three parts of the masked blob.\<close>

definition blob_parts :: "bytes \<Rightarrow> bytes \<times> bytes \<times> bytes" where
  "blob_parts b = (take 8 b, slice 8 72 b, drop 72 b)"

lemma blob_parts_append:
  "length kn = 8 \<Longrightarrow> length sk = 64 \<Longrightarrow> blob_parts (kn @ sk @ ck) = (kn, sk, ck)"
  by (simp add: blob_parts_def slice_def)

lemma blob_parts_join: "blob_parts b = (x, y, z) \<Longrightarrow> x @ y @ z = b"
  using slice_split [of 8 72 b] by (auto simp: blob_parts_def)

lemma blob_parts_lengths:
  "blob_parts b = (x, y, z) \<Longrightarrow> length b = 104 \<Longrightarrow> length x = 8 \<and> length y = 64 \<and> length z = 32"
  by (auto simp: blob_parts_def layout_simps)

lemma new_encrypted_Inr:
  assumes "blake2b_ok C" "scrypt_ok C" "wf_key_num kn" "wf_secret_key sk"
  shows "new_encrypted C kn sk pw salt ops mem fb = Inr s \<longleftrightarrow>
    (\<exists>l r p k. opslimit_memlimit_to_params C ops mem = Inr (l, r, p)
       \<and> derive_key_with_params C pw salt l r p 104 = Inr k
       \<and> sk_encrypted s \<and> sk_kdf_salt s = salt \<and> sk_kdf_opslimit s = ops
       \<and> sk_kdf_memlimit s = mem \<and> sk_keynum s = kn
       \<and> (sk_encrypted_keynum s, sk_secret_key_encrypted s, sk_checksum s)
           = blob_parts (xor_bytes (kn @ sk @ compute_checksum C kn sk) k))"
proof -
  have l: "length kn = 8" "length sk = 64" "length (compute_checksum C kn sk) = 32"
    using assms by (simp_all add: wf_array_defs size_defs compute_checksum_def blake2b_256_def blake2b_length)
  have b: "blob_of kn sk (compute_checksum C kn sk) = kn @ sk @ compute_checksum C kn sk"
    using l by (rule blob_of_append)
  have x: "xor_loop ENCRYPTED_BLOB_SIZE (kn @ sk @ compute_checksum C kn sk) k
      (replicate ENCRYPTED_BLOB_SIZE 0) = xor_bytes (kn @ sk @ compute_checksum C kn sk) k"
    and lx: "length (xor_bytes (kn @ sk @ compute_checksum C kn sk) k) = 104"
    if "derive_key_with_params C pw salt lg r p 104 = Inr k" for lg r p k
    using derive_key_length [OF assms(2) that] l by (simp_all add: xor_loop_blob)
  have c: "copy_at 0 (take 8 y) (replicate 8 0) = take 8 y"
    "copy_at 0 (slice 8 72 y) (replicate 64 0) = slice 8 72 y"
    "copy_at 0 (drop 72 y) (replicate 32 0) = drop 72 y" if "length y = 104" for y :: bytes
    using that by (simp_all add: copy_at_all layout_simps del: replicate.simps)
  have e: "ENCRYPTED_BLOB_SIZE = 104" by (simp add: ENCRYPTED_BLOB_SIZE_def size_defs)
  show ?thesis
    unfolding new_encrypted_def Let_def b size_defs
    using x lx
    by (cases s) (auto simp: result_simps e blob_parts_def c split: prod.splits)
qed

text \<open>What decryption computes once the key is derived.\<close>

definition open_blob :: "crates \<Rightarrow> bytes \<Rightarrow> error + secret_key \<times> key_num" where
  "open_blob C b =
     (case blob_parts b of (kn, sk, ck) \<Rightarrow>
        if compute_checksum C kn sk = ck then Inr (sk, kn) else Inl ChecksumFailed)"

definition sealed_blob :: "seckey_struct \<Rightarrow> bytes" where
  "sealed_blob s = sk_encrypted_keynum s @ sk_secret_key_encrypted s @ sk_checksum s"

lemma length_sealed_blob: "wf_seckey_sizes s \<Longrightarrow> length (sealed_blob s) = 104"
  by (simp add: sealed_blob_def wf_seckey_sizes_def size_defs)

lemma decrypt_eq:
  assumes "scrypt_ok C" "wf_seckey_sizes s" "sk_encrypted s"
  shows "decrypt C s pw =
    and_then (check_kdf_budget (sk_kdf_memlimit s)) (\<lambda>_.
    and_then (opslimit_memlimit_to_params C (sk_kdf_opslimit s) (sk_kdf_memlimit s)) (\<lambda>(l, r, p).
    and_then (derive_key_with_params C pw (sk_kdf_salt s) l r p 104) (\<lambda>k.
      open_blob C (xor_bytes (sealed_blob s) k))))"
proof -
  have b: "blob_of (sk_encrypted_keynum s) (sk_secret_key_encrypted s) (sk_checksum s) = sealed_blob s"
    using assms(2) unfolding sealed_blob_def
    by (intro blob_of_append) (simp_all add: wf_seckey_sizes_def size_defs)
  have e: "ENCRYPTED_BLOB_SIZE = 104" by (simp add: ENCRYPTED_BLOB_SIZE_def size_defs)
  have x: "xor_loop 104 (sealed_blob s) k (replicate 104 0) = xor_bytes (sealed_blob s) k"
    if "length k = 104" for k
    using xor_loop_blob [OF length_sealed_blob [OF assms(2)] that] by (simp only: e)
  have lx: "length (xor_bytes (sealed_blob s) k) = 104" if "length k = 104" for k
    using that length_sealed_blob [OF assms(2)] by simp
  have c: "copy_at 0 (take 8 (xor_bytes (sealed_blob s) k)) (replicate 8 0)
        = take 8 (xor_bytes (sealed_blob s) k)"
    "copy_at 0 (slice 8 72 (xor_bytes (sealed_blob s) k)) (replicate 64 0)
        = slice 8 72 (xor_bytes (sealed_blob s) k)"
    "copy_at 0 (drop 72 (xor_bytes (sealed_blob s) k)) (replicate 32 0)
        = drop 72 (xor_bytes (sealed_blob s) k)" if "length k = 104" for k
    using lx [OF that] by (simp_all add: copy_at_all layout_simps del: replicate.simps length_xor_bytes)
  have k: "length k = 104" if "derive_key_with_params C pw (sk_kdf_salt s) l r p 104 = Inr k"
    for l r p k
    using derive_key_length [OF assms(1) that] .
  show ?thesis
    unfolding decrypt_def Let_def b size_defs e using assms(3)
    by (auto simp: open_blob_def blob_parts_def c x dest!: k intro!: and_then_cong)
qed

lemma decrypt_Inr:
  assumes "scrypt_ok C" "wf_seckey_sizes s"
  shows "decrypt C s pw = Inr (sk, kn) \<longleftrightarrow>
    sk_encrypted s \<and>
    (\<exists>l r p k. opslimit_memlimit_to_params C (sk_kdf_opslimit s) (sk_kdf_memlimit s) = Inr (l, r, p)
       \<and> derive_key_with_params C pw (sk_kdf_salt s) l r p 104 = Inr k
       \<and> open_blob C (xor_bytes (sealed_blob s) k) = Inr (sk, kn))"
proof (cases "sk_encrypted s")
  case True
  have "opslimit_memlimit_to_params C (sk_kdf_opslimit s) (sk_kdf_memlimit s) = Inr (l, r, p) \<Longrightarrow>
      check_kdf_budget (sk_kdf_memlimit s) = Inr ()" for l r p
    by (simp add: opslimit_memlimit_to_params_exact check_kdf_budget_iff)
  then show ?thesis
    using True by (auto simp: decrypt_eq [OF assms True] result_simps)
qed (simp add: decrypt_def)

lemma open_sealed:
  "length kn = 8 \<Longrightarrow> length sk = 64 \<Longrightarrow> open_blob C (kn @ sk @ compute_checksum C kn sk) = Inr (sk, kn)"
  by (simp add: open_blob_def blob_parts_append)

lemma new_encrypted_sizes:
  assumes "blake2b_ok C" "scrypt_ok C" "wf_key_num kn" "wf_secret_key sk" "length salt = 32"
    and "new_encrypted C kn sk pw salt ops mem fb = Inr s"
  shows "wf_seckey_sizes s"
proof -
  obtain l r p k where k: "derive_key_with_params C pw salt l r p 104 = Inr k"
    and s: "(sk_encrypted_keynum s, sk_secret_key_encrypted s, sk_checksum s)
           = blob_parts (xor_bytes (kn @ sk @ compute_checksum C kn sk) k)"
      "sk_kdf_salt s = salt" "sk_keynum s = kn"
    using assms(6) unfolding new_encrypted_Inr [OF assms(1-4)] by blast
  have "length (xor_bytes (kn @ sk @ compute_checksum C kn sk) k) = 104"
    using derive_key_length [OF assms(2) k] assms(3,4)
    by (simp add: wf_array_defs size_defs compute_checksum_def blake2b_256_def blake2b_length [OF assms(1)])
  from blob_parts_lengths [OF s(1) [symmetric] this] show ?thesis
    using assms(3,5) s(2,3) by (simp add: wf_seckey_sizes_def wf_array_defs size_defs)
qed

text \<open>Decryption with the password of the encryption gives the key back.\<close>

lemma decrypt_new_encrypted_lemma:
  assumes "blake2b_ok C" "scrypt_ok C" "wf_key_num kn" "wf_secret_key sk" "length salt = 32"
    and "new_encrypted C kn sk pw salt ops mem fb = Inr s"
  shows "decrypt C s pw = Inr (sk, kn)"
proof -
  have sz: "wf_seckey_sizes s" using assms by (rule new_encrypted_sizes)
  obtain l r p k where par: "opslimit_memlimit_to_params C ops mem = Inr (l, r, p)"
    and k: "derive_key_with_params C pw salt l r p 104 = Inr k"
    and enc: "sk_encrypted s" and f: "sk_kdf_salt s = salt" "sk_kdf_opslimit s = ops" "sk_kdf_memlimit s = mem"
    and parts: "(sk_encrypted_keynum s, sk_secret_key_encrypted s, sk_checksum s)
           = blob_parts (xor_bytes (kn @ sk @ compute_checksum C kn sk) k)"
    using assms(6) unfolding new_encrypted_Inr [OF assms(1-4)] by blast
  have l: "length kn = 8" "length sk = 64" using assms(3,4) by (simp_all add: wf_array_defs size_defs)
  let ?b = "kn @ sk @ compute_checksum C kn sk"
  have "sealed_blob s = xor_bytes ?b k"
    unfolding sealed_blob_def by (rule blob_parts_join [OF parts [symmetric]])
  moreover have "length ?b \<le> length k"
    using derive_key_length [OF assms(2) k] l
    by (simp add: compute_checksum_def blake2b_256_def blake2b_length [OF assms(1)])
  ultimately have "xor_bytes (sealed_blob s) k = ?b" by (simp only: xor_bytes_twice)
  then have "open_blob C (xor_bytes (sealed_blob s) k) = Inr (sk, kn)"
    using open_sealed [OF l] by simp
  then show ?thesis
    unfolding decrypt_Inr [OF assms(2) sz] using enc par k f by blast
qed

text \<open>The file does not hold the key number of an encrypted key; nothing needs it.\<close>

definition as_loaded :: "seckey_struct \<Rightarrow> seckey_struct" where
  "as_loaded s = (if sk_encrypted s then s\<lparr>sk_keynum := replicate KEYNUM_BYTES 0\<rparr>
                  else s\<lparr>sk_encrypted_keynum := replicate KEYNUM_BYTES 0\<rparr>)"

lemma as_loaded_wf: "wf_seckey_sizes s \<Longrightarrow> wf_seckey (as_loaded s)"
  by (simp add: as_loaded_def wf_seckey_def wf_seckey_sizes_def)

lemma as_loaded_id: "wf_seckey s \<Longrightarrow> as_loaded s = s"
  by (auto simp: as_loaded_def wf_seckey_def split: if_splits)

lemma seckey_to_bytes_as_loaded: "wf_seckey_sizes s \<Longrightarrow> seckey_to_bytes (as_loaded s) = seckey_to_bytes s"
  using as_loaded_wf [of s]
  by (simp add: seckey_to_bytes_image wf_seckey_def) (simp add: seckey_image_def as_loaded_def)

lemma decrypt_as_loaded: "decrypt C (as_loaded s) pw = decrypt C s pw"
  by (cases "sk_encrypted s") (simp_all add: decrypt_def as_loaded_def)

lemma credential_id_as_loaded: "credential_id (as_loaded s) = credential_id s"
  by (simp add: credential_id_def as_loaded_def)

lemma seckey_file_roundtrip:
  assumes "b64_ok C" "wf_seckey_sizes s" "seckey_to_file_contents C s c = Inr t"
  shows "seckey_from_file_contents C t = Inr (as_loaded s)"
proof -
  have "seckey_to_file_contents C (as_loaded s) c = Inr t"
    using assms(3) seckey_to_bytes_as_loaded [OF assms(2)]
    by (simp add: seckey_to_file_contents_def)
  then show ?thesis
    using seckey_file.parse_render [OF assms(1) as_loaded_wf [OF assms(2)]] by simp
qed

lemma new_unencrypted_wf:
  "wf_key_num kn \<Longrightarrow> wf_secret_key sk \<Longrightarrow> wf_seckey (new_unencrypted kn sk)"
  by (simp add: new_unencrypted_def wf_seckey_def wf_seckey_sizes_def wf_array_defs copy_at_all)

lemma extract_key_unencrypted:
  "wf_secret_key sk \<Longrightarrow> extract_key C (new_unencrypted kn sk) pw = Inr (sk, kn)"
  by (simp add: extract_key_def new_unencrypted_def get_unencrypted_secret_key_def wf_secret_key_def
      copy_at_all)

lemma credential_id_eq:
  "credential_id s = to_key_id (if sk_encrypted s then sk_encrypted_keynum s else sk_keynum s)"
  by (simp add: credential_id_def to_key_id_def)

lemma is_weak_kdf_iff:
  "is_weak_kdf s \<longleftrightarrow> sk_encrypted s
     \<and> (unat (sk_kdf_opslimit s) < 2 ^ 25 \<or> unat (sk_kdf_memlimit s) < 2 ^ 30)"
  by (simp add: is_weak_kdf_def word_less_nat_alt PRODUCTION_OPSLIMIT_def PRODUCTION_MEMLIMIT_def)

end
