(* ===== verification/Reference_Crates.thy ===== *)
theory Reference_Crates
  imports Keys
begin

text \<open>
  A small concrete value for the record of third-party functions that has every behaviour the
  development assumes of them. It is not cryptography: it shows that the assumptions can hold
  together, and gives the theorems that rest on them something to be evaluated on.
\<close>

definition ref_b64_encode :: "bytes \<Rightarrow> string" where
  "ref_b64_encode bs =
     concat (map (\<lambda>b. [char_of (0x41 + unat b div 16), char_of (0x41 + unat b mod 16)]) bs)"

definition ref_nibble :: "char \<Rightarrow> nat option" where
  "ref_nibble c = (if (0x41 :: nat) \<le> of_char c \<and> (of_char c :: nat) < 0x51
                   then Some (of_char c - 0x41) else None)"

fun ref_b64_decode :: "string \<Rightarrow> b64_error + bytes" where
  "ref_b64_decode [] = Inr []"
| "ref_b64_decode [c] = Inl (DecodeError ''Invalid padding'')"
| "ref_b64_decode (c # d # s) =
     (case (ref_nibble c, ref_nibble d) of
        (Some x, Some y) \<Rightarrow> and_then (ref_b64_decode s) (\<lambda>bs. Inr (word_of_nat (16 * x + y) # bs))
      | _ \<Rightarrow> Inl (DecodeError ''Invalid symbol''))"

definition ref_b64_slice :: "string \<Rightarrow> nat \<Rightarrow> b64_slice_error + bytes" where
  "ref_b64_slice s n =
     (case ref_b64_decode s of
        Inl e \<Rightarrow> Inl (SliceDecodeError e)
      | Inr bs \<Rightarrow> if length bs \<le> n then Inr bs else Inl OutputSliceTooSmall)"

definition ref_public :: "bytes \<Rightarrow> bytes" where
  "ref_public kp = 1 # take 31 (kp @ replicate 31 0)"

definition ref_sign :: "bytes \<Rightarrow> bytes \<Rightarrow> bytes" where
  "ref_sign pk m = pk @ take 32 (m @ replicate 32 0)"

definition ref_crates :: crates where
  "ref_crates = \<lparr>
     b64_encode = ref_b64_encode,
     b64_decode = ref_b64_decode,
     b64_decode_slice = ref_b64_slice,
     blake2b = (\<lambda>n us. take n (concat us @ replicate n 0)),
     scrypt_params = (\<lambda>l r p n. if l = 0 \<or> l \<ge> 64 then Some ''bad'' else None),
     scrypt_kdf = (\<lambda>pw salt l r p n. Inr (take n (pw @ salt @ replicate n 1))),
     ed_generate = (\<lambda>seed. take 64 (seed @ replicate 64 0)),
     ed_keypair = (\<lambda>kp. if length kp = 64 then None else Some ''bad length''),
     ed_public = ref_public,
     ed_sign = (\<lambda>kp m. ref_sign (ref_public kp) m),
     ed_point = (\<lambda>pk. length pk = 32 \<and> hd pk \<le> 1),
     ed_weak = (\<lambda>pk. hd pk = 0),
     ed_verify_strict = (\<lambda>pk m s. s = ref_sign pk m)\<rparr>"

lemma min_plus_diff: "min a n + (n - a) = (n :: nat)"
  by (simp add: min_def)

lemma ref_nibble_char: "n < 16 \<Longrightarrow> ref_nibble (char_of (0x41 + n)) = Some n"
  by (simp add: ref_nibble_def of_char_of)

lemma ref_b64_roundtrip: "ref_b64_decode (ref_b64_encode bs) = Inr bs"
proof (induction bs)
  case Nil
  then show ?case by (simp add: ref_b64_encode_def)
next
  case (Cons b bs)
  have d: "unat b div 16 < 16" using unat_u8_less [of b] by simp
  have "16 * (unat b div 16) + unat b mod 16 = unat b" by simp
  then have "word_of_nat (16 * (unat b div 16) + unat b mod 16) = b" by (simp only:) simp
  moreover have "ref_b64_encode (b # bs) =
      char_of (0x41 + unat b div 16) # char_of (0x41 + unat b mod 16) # ref_b64_encode bs"
    by (simp add: ref_b64_encode_def)
  ultimately show ?case
    using Cons.IH by (simp only: ref_b64_decode.simps ref_nibble_char [OF d]
        ref_nibble_char [of "unat b mod 16"]) simp
qed

lemma ref_b64_chars: "(n :: nat) < 16 \<Longrightarrow> b64_char (char_of (0x41 + n))"
proof -
  assume "n < 16"
  then have "n \<in> set [0..<16]" by simp
  moreover have "\<forall>n \<in> set [0..<16]. b64_char (char_of (0x41 + n :: nat))"
    by code_simp
  ultimately show ?thesis by blast
qed

lemma ref_b64_encode_chars: "c \<in> set (ref_b64_encode bs) \<Longrightarrow> b64_char c"
proof -
  assume "c \<in> set (ref_b64_encode bs)"
  then obtain b where "c = char_of (0x41 + unat (b :: u8) div 16) \<or> c = char_of (0x41 + unat b mod 16)"
    by (auto simp: ref_b64_encode_def)
  moreover have "unat b div 16 < 16" using unat_u8_less [of b] by simp
  ultimately show ?thesis using ref_b64_chars by (metis mod_less_divisor zero_less_numeral)
qed

lemma ref_b64_ok: "b64_ok ref_crates"
  unfolding b64_ok_def ref_crates_def
  by (auto simp: ref_b64_roundtrip ref_b64_slice_def dest: ref_b64_encode_chars split: sum.splits)

lemma ref_blake2b_ok: "blake2b_ok ref_crates"
  by (simp add: blake2b_ok_def ref_crates_def min_plus_diff)

lemma ref_scrypt_ok: "scrypt_ok ref_crates"
  by (auto simp: scrypt_ok_def ref_crates_def)

lemma ref_ed_lengths [simp]:
  "length (ref_public kp) = 32" "length (ref_sign (ref_public kp) m) = 64"
  by (simp_all add: ref_public_def ref_sign_def min_plus_diff)

lemma ref_public_hd [simp]: "hd (ref_public kp) = 1"
  by (simp add: ref_public_def)

lemma ref_ed_ok: "ed_ok ref_crates"
  by (simp add: ed_ok_def ref_crates_def min_plus_diff)

lemmas ref_ok = ref_b64_ok ref_blake2b_ok ref_scrypt_ok ref_ed_ok

end
