(* ===== verification/Wordlist.thy ===== *)
theory Wordlist
  imports Crypto
begin

text \<open>
  \<open>wordlist.rs\<close>: the two PGP word lists, one for the bytes at even and one for the bytes at
  odd positions, and the rendering of a byte string as words. The lemmas show that no two
  bytes share a word of a list, so the words name the bytes: splitting the
  rendering at its spaces gives the words back, and the words give back the bytes.
\<close>

definition EVEN_WORDS :: "string list" where
  "EVEN_WORDS = [
    ''aardvark'', ''absurd'', ''accrue'', ''acme'', ''adrift'', ''adult'', ''afflict'',
    ''ahead'', ''aimless'', ''algol'', ''allow'', ''alone'', ''ammo'', ''ancient'', ''apple'',
    ''artist'', ''assume'', ''athens'', ''atlas'', ''aztec'', ''baboon'', ''backfield'',
    ''backward'', ''basalt'', ''beaming'', ''bedlamp'', ''beehive'', ''beeswax'', ''befriend'',
    ''belfast'', ''berserk'', ''billiard'', ''bison'', ''blackjack'', ''blockade'',
    ''blowtorch'', ''bluebird'', ''bombast'', ''bookshelf'', ''brackish'', ''breadline'',
    ''breakup'', ''brickyard'', ''briefcase'', ''burbank'', ''button'', ''buzzard'', ''cement'',
    ''chairlift'', ''chatter'', ''checkup'', ''chisel'', ''choking'', ''chopper'',
    ''christmas'', ''clamshell'', ''classic'', ''classroom'', ''cleanup'', ''clockwork'',
    ''cobra'', ''commence'', ''concert'', ''cowbell'', ''crackdown'', ''cranky'', ''crowfoot'',
    ''crucial'', ''crumpled'', ''crusade'', ''cubic'', ''deadbolt'', ''deckhand'', ''dogsled'',
    ''dosage'', ''dragnet'', ''drainage'', ''dreadful'', ''drifter'', ''dropper'', ''drumbeat'',
    ''drunken'', ''dupont'', ''dwelling'', ''eating'', ''edict'', ''egghead'', ''eightball'',
    ''endorse'', ''endow'', ''enlist'', ''erase'', ''escape'', ''exceed'', ''eyeglass'',
    ''eyetooth'', ''facial'', ''fallout'', ''flagpole'', ''flatfoot'', ''flytrap'',
    ''fracture'', ''fragile'', ''framework'', ''freedom'', ''frighten'', ''gazelle'',
    ''geiger'', ''glasgow'', ''glitter'', ''glucose'', ''goggles'', ''goldfish'', ''gremlin'',
    ''guidance'', ''hamlet'', ''highchair'', ''hockey'', ''hotdog'', ''indoors'', ''indulge'',
    ''inverse'', ''involve'', ''island'', ''janus'', ''jawbone'', ''keyboard'', ''kickoff'',
    ''kiwi'', ''klaxon'', ''lockup'', ''merit'', ''minnow'', ''miser'', ''mohawk'', ''mural'',
    ''music'', ''neptune'', ''newborn'', ''nightbird'', ''obtuse'', ''offload'', ''oilfield'',
    ''optic'', ''orca'', ''payday'', ''peachy'', ''pheasant'', ''physique'', ''playhouse'',
    ''pluto'', ''preclude'', ''prefer'', ''preshrunk'', ''printer'', ''profile'', ''prowler'',
    ''pupil'', ''puppy'', ''python'', ''quadrant'', ''quiver'', ''quota'', ''ragtime'',
    ''ratchet'', ''rebirth'', ''reform'', ''regain'', ''reindeer'', ''rematch'', ''repay'',
    ''retouch'', ''revenge'', ''reward'', ''rhythm'', ''ringbolt'', ''robust'', ''rocker'',
    ''ruffled'', ''sawdust'', ''scallion'', ''scenic'', ''scorecard'', ''scotland'',
    ''seabird'', ''select'', ''sentence'', ''shadow'', ''showgirl'', ''skullcap'', ''skydive'',
    ''slingshot'', ''slothful'', ''slowdown'', ''snapline'', ''snapshot'', ''snowcap'',
    ''snowslide'', ''solo'', ''spaniel'', ''spearhead'', ''spellbind'', ''spheroid'',
    ''spigot'', ''spindle'', ''spoilage'', ''spyglass'', ''stagehand'', ''stagnate'',
    ''stairway'', ''standard'', ''stapler'', ''steamship'', ''stepchild'', ''sterling'',
    ''stockman'', ''stopwatch'', ''stormy'', ''sugar'', ''surmount'', ''suspense'', ''swelter'',
    ''tactics'', ''talon'', ''tapeworm'', ''tempest'', ''tiger'', ''tissue'', ''tonic'',
    ''tracker'', ''transit'', ''trauma'', ''treadmill'', ''trojan'', ''trouble'', ''tumor'',
    ''tunnel'', ''tycoon'', ''umpire'', ''uncut'', ''unearth'', ''unwind'', ''uproot'',
    ''upset'', ''upshot'', ''vapor'', ''village'', ''virus'', ''vulcan'', ''waffle'',
    ''wallet'', ''watchword'', ''wayside'', ''willow'', ''woodlark'', ''zulu'']"

definition ODD_WORDS :: "string list" where
  "ODD_WORDS = [
    ''adroitness'', ''adviser'', ''aggregate'', ''alkali'', ''almighty'', ''amulet'',
    ''amusement'', ''antenna'', ''applicant'', ''apollo'', ''armistice'', ''article'',
    ''asteroid'', ''atlantic'', ''atmosphere'', ''autopsy'', ''babylon'', ''backwater'',
    ''barbecue'', ''belowground'', ''bifocals'', ''bodyguard'', ''borderline'', ''bottomless'',
    ''bradbury'', ''brazilian'', ''breakaway'', ''burlington'', ''businessman'', ''butterfat'',
    ''camelot'', ''candidate'', ''cannonball'', ''capricorn'', ''caravan'', ''caretaker'',
    ''celebrate'', ''cellulose'', ''certify'', ''chambermaid'', ''cherokee'', ''chicago'',
    ''clergyman'', ''coherence'', ''combustion'', ''commando'', ''company'', ''component'',
    ''concurrent'', ''confidence'', ''conformist'', ''congregate'', ''consensus'',
    ''consulting'', ''corporate'', ''corrosion'', ''councilman'', ''crossover'', ''cumbersome'',
    ''customer'', ''dakota'', ''decadence'', ''december'', ''decimal'', ''designing'',
    ''detector'', ''detergent'', ''determine'', ''dictator'', ''dinosaur'', ''direction'',
    ''disable'', ''disbelief'', ''disruptive'', ''distortion'', ''divisive'', ''document'',
    ''embezzle'', ''enchanting'', ''enrollment'', ''enterprise'', ''equation'', ''equipment'',
    ''escapade'', ''eskimo'', ''everyday'', ''examine'', ''existence'', ''exodus'',
    ''fascinate'', ''filament'', ''finicky'', ''forever'', ''fortitude'', ''frequency'',
    ''gadgetry'', ''galveston'', ''getaway'', ''glossary'', ''gossamer'', ''graduate'',
    ''gravity'', ''guitarist'', ''hamburger'', ''hamilton'', ''handiwork'', ''hazardous'',
    ''headwaters'', ''hemisphere'', ''hesitate'', ''hideaway'', ''holiness'', ''hurricane'',
    ''hydraulic'', ''impartial'', ''impetus'', ''inception'', ''indigo'', ''inertia'',
    ''infancy'', ''inferno'', ''informant'', ''insincere'', ''insurgent'', ''integrate'',
    ''intention'', ''inventive'', ''istanbul'', ''jamaica'', ''jupiter'', ''leprosy'',
    ''letterhead'', ''liberty'', ''maritime'', ''matchmaker'', ''maverick'', ''medusa'',
    ''megaton'', ''microscope'', ''microwave'', ''midsummer'', ''millionaire'', ''miracle'',
    ''misnomer'', ''molasses'', ''molecule'', ''montana'', ''monument'', ''mosquito'',
    ''narrative'', ''nebula'', ''newsletter'', ''norwegian'', ''october'', ''ohio'',
    ''onlooker'', ''opulent'', ''orlando'', ''outfielder'', ''pacific'', ''pandemic'',
    ''pandora'', ''paperweight'', ''paragon'', ''paragraph'', ''paramount'', ''passenger'',
    ''pedigree'', ''pegasus'', ''penetrate'', ''perceptive'', ''performance'', ''pharmacy'',
    ''phonetic'', ''photograph'', ''pioneer'', ''pocketful'', ''politeness'', ''positive'',
    ''potato'', ''processor'', ''prophecy'', ''provincial'', ''proximate'', ''puberty'',
    ''publisher'', ''pyramid'', ''quantity'', ''racketeer'', ''rebellion'', ''recipe'',
    ''recover'', ''repellent'', ''replica'', ''reproduce'', ''resistor'', ''responsive'',
    ''retraction'', ''retrieval'', ''retrospect'', ''revenue'', ''revival'', ''revolver'',
    ''sahara'', ''sandalwood'', ''sardonic'', ''saturday'', ''savagery'', ''scavenger'',
    ''sensation'', ''sociable'', ''souvenir'', ''specialist'', ''speculate'', ''stethoscope'',
    ''stupendous'', ''supportive'', ''surrender'', ''suspicious'', ''sympathy'', ''tambourine'',
    ''telephone'', ''therapist'', ''tobacco'', ''tolerance'', ''tomorrow'', ''torpedo'',
    ''tradition'', ''travesty'', ''trombonist'', ''truncated'', ''typewriter'', ''ultimate'',
    ''undaunted'', ''underfoot'', ''unicorn'', ''unify'', ''universe'', ''unravel'',
    ''upcoming'', ''vacancy'', ''vagabond'', ''versatile'', ''vertigo'', ''virginia'',
    ''visitor'', ''vocalist'', ''voyager'', ''warranty'', ''waterloo'', ''whimsical'',
    ''wichita'', ''wilmington'', ''wyoming'', ''yesteryear'', ''yucatan'']"

text \<open>\<open>join_spaced\<close>: a space before every word, unless nothing has been written yet.\<close>

definition join_spaced :: "string list \<Rightarrow> string" where
  "join_spaced ws =
     foldl (\<lambda>acc word. (if acc \<noteq> [] then acc @ '' '' else acc) @ word) [] ws"

definition word_at :: "nat \<Rightarrow> u8 \<Rightarrow> string" where
  "word_at i byte =
     (if i mod 2 = 0 then EVEN_WORDS ! unat byte else ODD_WORDS ! unat byte)"

definition bytes_to_words :: "bytes \<Rightarrow> string" where
  "bytes_to_words bs = join_spaced (map (\<lambda>(i, byte). word_at i byte) (enumerate 0 bs))"

definition keynum_to_words :: "key_num \<Rightarrow> string" where
  "keynum_to_words keynum = bytes_to_words keynum"

section \<open>The tables\<close>

lemma length_EVEN_WORDS [simp]: "length EVEN_WORDS = 256"
  by (simp add: EVEN_WORDS_def)

lemma length_ODD_WORDS [simp]: "length ODD_WORDS = 256"
  by (simp add: ODD_WORDS_def)

fun str_less :: "string \<Rightarrow> string \<Rightarrow> bool" where
  "str_less s [] = False"
| "str_less [] (c # s) = True"
| "str_less (a # s) (b # t) = (if a = b then str_less s t else (of_char a :: nat) < of_char b)"

lemma str_less_irrefl: "\<not> str_less s s"
  by (induction s) auto

lemma str_less_trans: "str_less s t \<Longrightarrow> str_less t u \<Longrightarrow> str_less s u"
proof (induction s t arbitrary: u rule: str_less.induct)
  case (1 s)
  then show ?case by simp
next
  case (2 c s)
  then show ?case by (cases u) auto
next
  case (3 a s b t)
  then show ?case by (cases u) (auto split: if_splits)
qed

lemma str_less_distinct: "successively str_less ws \<Longrightarrow> distinct ws"
proof -
  assume "successively str_less ws"
  moreover have "transp str_less" by (rule transpI) (rule str_less_trans)
  ultimately have "sorted_wrt str_less ws" by (simp add: successively_conv_sorted_wrt)
  then show "distinct ws"
    by (induction ws) (auto simp: str_less_irrefl)
qed

lemma distinct_EVEN_WORDS: "distinct EVEN_WORDS"
proof (rule str_less_distinct)
  show "successively str_less EVEN_WORDS" by code_simp
qed

text \<open>The second list is in order but for one pair of neighbours.\<close>

lemma distinct_ODD_WORDS: "distinct ODD_WORDS"
proof -
  have "successively str_less (ODD_WORDS[8 := ODD_WORDS ! 9, 9 := ODD_WORDS ! 8])" by code_simp
  then have "distinct (ODD_WORDS[8 := ODD_WORDS ! 9, 9 := ODD_WORDS ! 8])"
    by (rule str_less_distinct)
  then show ?thesis by (simp add: distinct_swap)
qed

definition plain_word :: "string \<Rightarrow> bool" where
  "plain_word w \<longleftrightarrow> w \<noteq> [] \<and> list_all (\<lambda>c. c \<noteq> CHR '' '') w"

lemma plain_EVEN_WORDS: "list_all plain_word EVEN_WORDS"
  by code_simp

lemma plain_ODD_WORDS: "list_all plain_word ODD_WORDS"
  by code_simp

lemma word_at_plain: "plain_word (word_at i b)"
proof -
  have b: "unat b < 256" by (rule unat_u8_less)
  show ?thesis
    using plain_EVEN_WORDS plain_ODD_WORDS b by (auto simp: word_at_def list_all_length)
qed

lemma word_at_inj: "word_at i a = word_at i b \<Longrightarrow> a = b"
proof -
  assume eq: "word_at i a = word_at i b"
  have a: "unat a < 256" and b: "unat b < 256" by (rule unat_u8_less)+
  have "unat a = unat b"
  proof (cases "i mod 2 = 0")
    case True
    then show ?thesis using eq a b nth_eq_iff_index_eq [OF distinct_EVEN_WORDS, of "unat a" "unat b"]
      by (simp add: word_at_def)
  next
    case False
    then show ?thesis using eq a b nth_eq_iff_index_eq [OF distinct_ODD_WORDS, of "unat a" "unat b"]
      by (simp add: word_at_def)
  qed
  then show "a = b" by (simp add: word_unat_eq_iff)
qed

section \<open>The rendering can be read back\<close>

fun split_spaces :: "string \<Rightarrow> string list" where
  "split_spaces [] = [[]]"
| "split_spaces (c # s) =
     (if c = CHR '' '' then [] # split_spaces s
      else (case split_spaces s of [] \<Rightarrow> [[c]] | w # ws \<Rightarrow> (c # w) # ws))"

lemma split_spaces_ne [simp]: "split_spaces s \<noteq> []"
  by (cases s) (auto split: list.splits)

lemma split_spaces_word: "CHR '' '' \<notin> set w \<Longrightarrow> split_spaces w = [w]"
  by (induction w) auto

lemma split_spaces_append:
  "CHR '' '' \<notin> set w \<Longrightarrow> split_spaces (w @ CHR '' '' # s) = w # split_spaces s"
  by (induction w) auto

definition bytes_words :: "bytes \<Rightarrow> string list" where
  "bytes_words bs = map (\<lambda>(i, byte). word_at i byte) (enumerate 0 bs)"

lemma join_spaced_aux:
  "acc \<noteq> [] \<Longrightarrow>
     foldl (\<lambda>acc word. (if acc \<noteq> [] then acc @ '' '' else acc) @ word) acc ws =
       acc @ concat (map (\<lambda>w. CHR '' '' # w) ws)"
  by (induction ws arbitrary: acc) auto

lemma join_spaced_Cons:
  "w \<noteq> [] \<Longrightarrow> join_spaced (w # ws) = w @ concat (map (\<lambda>w. CHR '' '' # w) ws)"
  by (simp add: join_spaced_def join_spaced_aux)

lemma plain_word_no_space: "plain_word w \<Longrightarrow> CHR '' '' \<notin> set w"
  by (auto simp: plain_word_def list_all_iff)

lemma split_spaces_join:
  "\<forall>w \<in> set (w0 # ws). plain_word w \<Longrightarrow> split_spaces (join_spaced (w0 # ws)) = w0 # ws"
proof (induction ws arbitrary: w0)
  case Nil
  then have "plain_word w0" by simp
  moreover from this have "w0 \<noteq> []" by (simp add: plain_word_def)
  ultimately show ?case by (simp add: join_spaced_Cons split_spaces_word plain_word_no_space)
next
  case (Cons w ws)
  have w0: "w0 \<noteq> []" and w: "w \<noteq> []" using Cons.prems by (auto simp: plain_word_def)
  have "join_spaced (w0 # w # ws) = w0 @ CHR '' '' # join_spaced (w # ws)"
    using w0 w by (simp add: join_spaced_Cons)
  then show ?case
    using Cons plain_word_no_space [of w0] by (simp add: split_spaces_append)
qed

lemma bytes_words_plain: "w \<in> set (bytes_words bs) \<Longrightarrow> plain_word w"
  by (auto simp: bytes_words_def word_at_plain)

lemma split_spaces_bytes_to_words:
  "bs \<noteq> [] \<Longrightarrow> split_spaces (bytes_to_words bs) = bytes_words bs"
proof -
  assume "bs \<noteq> []"
  then have "length (bytes_words bs) \<noteq> 0" by (simp add: bytes_words_def)
  then obtain w ws where ws: "bytes_words bs = w # ws"
    by (cases "bytes_words bs") auto
  show ?thesis
    using split_spaces_join [of w ws] bytes_words_plain [of _ bs]
    by (simp add: bytes_to_words_def bytes_words_def [symmetric] ws)
qed

lemma bytes_words_inj: "bytes_words as = bytes_words bs \<Longrightarrow> as = bs"
proof (rule nth_equalityI)
  assume eq: "bytes_words as = bytes_words bs"
  show len: "length as = length bs"
    using arg_cong [OF eq, of length] by (simp add: bytes_words_def)
  fix i
  assume "i < length as"
  then have "word_at i (as ! i) = word_at i (bs ! i)"
    using arg_cong [OF eq, of "\<lambda>l. l ! i"] len by (simp add: bytes_words_def nth_enumerate_eq)
  then show "as ! i = bs ! i" by (rule word_at_inj)
qed

lemma bytes_to_words_Nil_iff: "bytes_to_words bs = [] \<longleftrightarrow> bs = []"
proof -
  have "bs \<noteq> [] \<Longrightarrow> bytes_to_words bs \<noteq> []"
  proof
    assume ne: "bs \<noteq> []" and e: "bytes_to_words bs = []"
    have "bytes_words bs = [[]]" using split_spaces_bytes_to_words [OF ne] e by simp
    then have "plain_word []" using bytes_words_plain [of "[]" bs] by simp
    then show False by (simp add: plain_word_def)
  qed
  then show ?thesis by (auto simp: bytes_to_words_def join_spaced_def)
qed

lemma bytes_to_words_inj: "bytes_to_words as = bytes_to_words bs \<Longrightarrow> as = bs"
  by (metis bytes_to_words_Nil_iff bytes_words_inj split_spaces_bytes_to_words)

lemma length_keynum_words:
  "wf_key_num k \<Longrightarrow> length (split_spaces (keynum_to_words k)) = 8"
  by (cases "k = []")
    (auto simp: keynum_to_words_def split_spaces_bytes_to_words bytes_words_def wf_key_num_def
      KEYNUM_BYTES_def)

end
