(* ===== verification/Key_Properties.thy ===== *)
theory Key_Properties
  imports Reference_Crates SigFile Wordlist
begin

text \<open>
  Properties of the parameters, the encodings and the key and signature files, with instances
  on the reference crates.
\<close>

lemma word_at_listed: "word_at i b \<in> set EVEN_WORDS \<union> set ODD_WORDS"
  using unat_u8_less [of b] by (simp add: word_at_def)

section \<open>Parameters\<close>

text \<open>The limits stored in a key and the scrypt parameters are exact inverses: a pair of
  limits is accepted exactly when it is the encoding of a \<open>log_n\<close> that scrypt supports.\<close>

theorem decode_kdf_params_iff:
  "decode_kdf_params C opslimit memlimit = Inr (l, r, p) \<longleftrightarrow>
     r = SCRYPT_R \<and> p = SCRYPT_P \<and> unat memlimit = 2 ^ (unat l + 10)
     \<and> unat opslimit = 2 ^ (unat l + 5) \<and> scrypt_params C l SCRYPT_R SCRYPT_P 64 = None"
  by (rule decode_kdf_params_exact)

text \<open>The limits calculated for a \<open>log_n\<close> decode to that \<open>log_n\<close> and to the fixed \<open>r\<close> and
  \<open>p\<close>, for every \<open>log_n\<close> that scrypt supports.\<close>

theorem calculate_decode_roundtrip:
  assumes "calculate_kdf_params dbg l False = Inr (opslimit, memlimit)"
    and "scrypt_params C l SCRYPT_R SCRYPT_P 64 = None"
  shows "decode_kdf_params C opslimit memlimit = Inr (l, SCRYPT_R, SCRYPT_P)"
  using assms by (simp add: calculate_kdf_params_iff decode_kdf_params_exact)

theorem calculate_decode_roundtrip_witness:
  "\<exists>opslimit memlimit. calculate_kdf_params True 10 False = Inr (opslimit, memlimit)
     \<and> decode_kdf_params ref_crates opslimit memlimit = Inr (10, SCRYPT_R, SCRYPT_P)"
proof -
  have "calculate_kdf_params True 10 False = Inr (32768, 1048576)"
    by (simp add: calculate_kdf_params_iff)
  moreover have "scrypt_params ref_crates 10 SCRYPT_R SCRYPT_P 64 = None"
    by (simp add: ref_crates_def)
  ultimately show ?thesis using calculate_decode_roundtrip by blast
qed

text \<open>C35: a key over the memory budget is refused before any key derivation: whatever the password
  and the scrypt implementation, the result is the same error. A key that is decrypted costs at
  most \<open>N = 2 ^ 20\<close>.\<close>

theorem decrypt_budget:
  "(\<forall>C s pw. sk_encrypted s \<and> 2 ^ 30 < unat (sk_kdf_memlimit s) \<longrightarrow>
      decrypt C s pw = Inl (KdfOverBudget (sk_kdf_memlimit s) MAX_KDF_MEMLIMIT))
   \<and> (\<forall>C s pw x. decrypt C s pw = Inr x \<longrightarrow>
      (\<exists>l r p. opslimit_memlimit_to_params C (sk_kdf_opslimit s) (sk_kdf_memlimit s) = Inr (l, r, p)
         \<and> unat l \<le> 20))"
proof (intro conjI allI impI)
  fix C pw and s :: seckey_struct
  assume "sk_encrypted s \<and> 2 ^ 30 < unat (sk_kdf_memlimit s)"
  then have "sk_kdf_memlimit s > MAX_KDF_MEMLIMIT" and e: "sk_encrypted s"
    by (simp_all add: word_less_nat_alt MAX_KDF_MEMLIMIT_def PRODUCTION_MEMLIMIT_def)
  then show "decrypt C s pw = Inl (KdfOverBudget (sk_kdf_memlimit s) MAX_KDF_MEMLIMIT)"
    by (simp add: decrypt_def check_kdf_budget_def)
next
  fix C pw and s :: seckey_struct and x :: "secret_key \<times> key_num"
  assume "decrypt C s pw = Inr x"
  then obtain l r p where
    "opslimit_memlimit_to_params C (sk_kdf_opslimit s) (sk_kdf_memlimit s) = Inr (l, r, p)"
    by (auto simp: decrypt_def result_simps split: if_splits)
  then show "\<exists>l r p. opslimit_memlimit_to_params C (sk_kdf_opslimit s) (sk_kdf_memlimit s) = Inr (l, r, p)
         \<and> unat l \<le> 20"
    using opslimit_memlimit_to_params_log_n by blast
qed

theorem decrypt_budget_witness:
  "decrypt ref_crates ((new_unencrypted (replicate 8 1) (replicate 64 2))
      \<lparr>sk_encrypted := True, sk_kdf_memlimit := 1099511627776\<rparr>) [] = Inl (KdfOverBudget (1099511627776) MAX_KDF_MEMLIMIT)"
  using decrypt_budget [THEN conjunct1, THEN spec, THEN spec, THEN spec,
      of "(new_unencrypted (replicate 8 1) (replicate 64 2))
      \<lparr>sk_encrypted := True, sk_kdf_memlimit := 1099511627776\<rparr>" ref_crates "[]"]
  by simp

section \<open>Hashes, key ids and words\<close>

text \<open>Hashing a file block by block is hashing it in one piece, however the blocks are cut.\<close>

theorem stream_is_one_shot:
  assumes "blake2b_ok C" "[] \<notin> set blocks"
  shows "blake2b_512_stream C (map Inr blocks) = Inr (blake2b_512 C (concat blocks))"
  using assms by (intro blake2b_512_stream_eq) auto

theorem stream_is_one_shot_witness:
  "blake2b_512_stream ref_crates (map Inr [[1, 2], [3]]) = Inr (blake2b_512 ref_crates [1, 2, 3])"
  using stream_is_one_shot [OF ref_blake2b_ok, of "[[1, 2], [3]]"] by simp

text \<open>The key id shown to the user is the hexadecimal form of the key number read from its
  last byte to its first, has sixteen digits, and tells any two key numbers apart.\<close>

theorem key_id_faithful:
  assumes "wf_key_num j" "wf_key_num k"
  shows "to_key_id k = to_hex (rev k) \<and> length (to_key_id k) = 16
         \<and> (to_key_id j = to_key_id k \<longleftrightarrow> j = k)"
  using assms to_key_id_inj by (auto simp: to_key_id_rev_to_hex [symmetric])

theorem key_id_faithful_witness:
  "to_key_id [1, 0, 0, 0, 0, 0, 0, 0] = to_hex [0, 0, 0, 0, 0, 0, 0, 1]"
  using key_id_faithful [of "[1, 0, 0, 0, 0, 0, 0, 0]" "[1, 0, 0, 0, 0, 0, 0, 0]"]
  by (simp add: wf_key_num_def KEYNUM_BYTES_def)

text \<open>The words shown for a byte string, and for a key number in particular, tell any two
  apart; a key number has eight of them, separated by single spaces.\<close>

theorem words_faithful:
  "(\<forall>as bs. bytes_to_words as = bytes_to_words bs \<longrightarrow> as = bs)
   \<and> (\<forall>k. wf_key_num k \<longrightarrow> length (split_spaces (keynum_to_words k)) = 8
        \<and> (\<forall>w \<in> set (split_spaces (keynum_to_words k)). w \<in> set EVEN_WORDS \<union> set ODD_WORDS))"
proof (intro conjI allI impI ballI)
  fix k w
  assume k: "wf_key_num k" and w: "w \<in> set (split_spaces (keynum_to_words k))"
  then have "k \<noteq> []" by (auto simp: wf_key_num_def KEYNUM_BYTES_def)
  then obtain i b where "w = word_at i b"
    using w by (auto simp: keynum_to_words_def split_spaces_bytes_to_words bytes_words_def)
  then show "w \<in> set EVEN_WORDS \<union> set ODD_WORDS" using word_at_listed by simp
qed (auto dest: bytes_to_words_inj simp: length_keynum_words)

theorem words_faithful_witness:
  "length (split_spaces (keynum_to_words [1, 2, 3, 4, 5, 6, 7, 8])) = 8
   \<and> keynum_to_words [1, 2, 3, 4, 5, 6, 7, 8] \<noteq> keynum_to_words [1, 2, 3, 4, 5, 6, 8, 7]"
  using words_faithful [THEN conjunct2, THEN spec, of "[1, 2, 3, 4, 5, 6, 7, 8]"]
    words_faithful [THEN conjunct1, THEN spec, THEN spec,
      of "[1, 2, 3, 4, 5, 6, 7, 8]" "[1, 2, 3, 4, 5, 6, 8, 7]"]
  by (auto simp: keynum_to_words_def wf_key_num_def KEYNUM_BYTES_def)

section \<open>Base64 and comments\<close>

text \<open>Decoding into a buffer agrees with decoding: it succeeds exactly when the text decodes
  to something that fits, and what it wrote is what decoding gives.\<close>

theorem decode_into_agrees:
  assumes "b64_ok C"
  shows "(\<exists>buf n. decode_base64_into C s out = Inr (buf, n) \<and> take n buf = bs) \<longleftrightarrow>
           decode_base64 C s = Inr bs \<and> length bs \<le> length out"
  using assms by (auto simp: decode_base64_into_Inr decode_base64_Inr copy_at_def)

theorem decode_into_agrees_witness:
  "\<exists>buf n. decode_base64_into ref_crates (encode_base64 ref_crates [1, 2]) [0, 0, 0] = Inr (buf, n)
     \<and> take n buf = [1, 2]"
  using decode_into_agrees [OF ref_b64_ok, of "encode_base64 ref_crates [1, 2]" "[0, 0, 0]" "[1, 2]"]
  by (simp add: ref_b64_ok)

text \<open>A comment of a key is accepted exactly when it is not empty, has at most 1003 bytes and
  none of its characters is a control character other than the tab.\<close>

theorem key_comment_iff:
  "validate_key_comment s = Inr () \<longleftrightarrow>
     s \<noteq> [] \<and> length s \<le> 1003 \<and> (\<forall>c \<in> set (chars s). is_control c \<longrightarrow> c = 0x09)"
  by (auto simp: validate_key_comment_def validate_untrusted_comment_iff validate_comment_def
      is_printable_iff)

theorem key_comment_iff_witness:
  "validate_key_comment ''my key'' = Inr () \<and> validate_key_comment [CHR 0x0A] \<noteq> Inr ()"
  using key_comment_iff [of "''my key''"] key_comment_iff [of "[CHR 0x0A]"]
  by (simp add: chars_is_ascii is_ascii_def is_control_def)

section \<open>Signatures\<close>

text \<open>The 74 bytes of a signature are decoded exactly when they are the encoding of a
  well-formed structure, which is then the result: no two structures share an encoding and no
  other bytes are accepted.\<close>

theorem sig_struct_decodes_iff:
  "sig_struct_from_bytes bs = Inr s \<longleftrightarrow> wf_sig_struct s \<and> bs = sig_struct_to_bytes s"
  by (rule sig_codec.dec_iff)

text \<open>A well-formed signature box written to a file is read back as the same box, comments,
  signature and global signature included.\<close>

theorem signature_file_roundtrip:
  assumes "b64_ok C" "wf_sig_box b"
  shows "sig_box_from_file_contents C (sig_box_to_file_contents C b) = Inr b"
  using assms by (rule sig_box_roundtrip)

definition example_box :: sig_box where
  "example_box = \<lparr>sb_untrusted_comment = ''made by hand'',
     sb_sig_struct = sig_struct_new (replicate 8 1) (replicate 64 2) True,
     sb_trusted_comment = ''timestamp:1'', sb_global_signature = replicate 64 3\<rparr>"

lemma example_box_wf: "wf_sig_box example_box"
  by (simp add: example_box_def wf_sig_box_def wf_sig_struct_def sig_struct_new_def wf_array_defs
      size_defs validate_comments_iff validate_untrusted_comment_iff validate_trusted_comment_iff
      validate_comment_ascii)

theorem signature_file_roundtrip_witness:
  "sig_box_from_file_contents ref_crates (sig_box_to_file_contents ref_crates example_box)
     = Inr example_box"
  using ref_b64_ok example_box_wf by (rule signature_file_roundtrip)

text \<open>C19: the parser of signature files accepts nothing but four lines with both prefixes, a
  signature structure and a 64-byte global signature, and comments that the writer would accept
  too: whatever is read can be written again and is then read as the same box.\<close>

theorem signature_file_strict:
  assumes "b64_ok C" "sig_box_from_file_contents C t = Inr b"
  shows "wf_sig_box b
    \<and> (\<exists>l2 l4. lines t = [UNTRUSTED_PREFIX @ sb_untrusted_comment b, l2,
                          TRUSTED_PREFIX @ sb_trusted_comment b, l4]
         \<and> b64_decode C l2 = Inr (sig_struct_to_bytes (sb_sig_struct b))
         \<and> b64_decode C l4 = Inr (sb_global_signature b))
    \<and> sig_box_from_file_contents C (sig_box_to_file_contents C b) = Inr b"
  using assms sig_box_from_file_contents_wf sig_box_from_file_contents_Inr sig_box_roundtrip
  by meson

theorem signature_file_strict_witness:
  "\<exists>l2 l4. lines (sig_box_to_file_contents ref_crates example_box)
     = [UNTRUSTED_PREFIX @ ''made by hand'', l2, TRUSTED_PREFIX @ ''timestamp:1'', l4]"
  using signature_file_strict [OF ref_b64_ok sig_box_roundtrip [OF ref_b64_ok example_box_wf]]
  by (auto simp: example_box_def)

text \<open>C20: the global signature covers the signature and the trusted comment: it is checked against
  their concatenation, and two boxes for which that is the same data have the same signature and
  the same trusted comment. The box made by signing is accepted under the signer's key.\<close>

theorem global_signature_binds:
  "(\<forall>C b pk. verify_global_signature C b pk = Inr () \<longleftrightarrow>
      verify C pk (ss_signature (sb_sig_struct b) @ as_bytes (sb_trusted_comment b))
        (sb_global_signature b) = Inr ())
   \<and> (\<forall>b b'. wf_sig_box b \<and> wf_sig_box b'
        \<and> ss_signature (sb_sig_struct b) @ as_bytes (sb_trusted_comment b)
            = ss_signature (sb_sig_struct b') @ as_bytes (sb_trusted_comment b')
        \<longrightarrow> ss_signature (sb_sig_struct b) = ss_signature (sb_sig_struct b')
            \<and> sb_trusted_comment b = sb_trusted_comment b')
   \<and> (\<forall>C u s t sk b. ed_ok C \<and> with_global_signature C u s t sk = Inr b \<longrightarrow>
        verify_global_signature C b (ed_public C sk) = Inr ())"
proof (intro conjI allI impI)
  fix b b' :: sig_box
  assume a: "wf_sig_box b \<and> wf_sig_box b'
    \<and> ss_signature (sb_sig_struct b) @ as_bytes (sb_trusted_comment b)
        = ss_signature (sb_sig_struct b') @ as_bytes (sb_trusted_comment b')"
  then have "wf_signature (ss_signature (sb_sig_struct b))"
    "wf_signature (ss_signature (sb_sig_struct b'))"
    by (simp_all add: wf_sig_box_def wf_sig_struct_def)
  then show "ss_signature (sb_sig_struct b) = ss_signature (sb_sig_struct b')"
    and "sb_trusted_comment b = sb_trusted_comment b'"
    using a global_data_inj by blast+
next
  fix C u s t sk b
  assume "ed_ok C \<and> with_global_signature C u s t sk = Inr b"
  then show "verify_global_signature C b (ed_public C sk) = Inr ()"
    using with_global_signature_verifies by blast
qed (simp add: verify_global_signature_def)

theorem global_signature_binds_witness:
  "\<exists>b. with_global_signature ref_crates ''c'' (sig_struct_new (replicate 8 1) (replicate 64 2) True)
         ''t'' (replicate 64 5) = Inr b
     \<and> verify_global_signature ref_crates b (ed_public ref_crates (replicate 64 5)) = Inr ()"
proof -
  have "validate_comments ''c'' ''t'' = Inr ()"
    by (simp add: validate_comments_iff validate_untrusted_comment_iff validate_trusted_comment_iff
        validate_comment_ascii)
  then obtain b where b: "with_global_signature ref_crates ''c''
      (sig_struct_new (replicate 8 1) (replicate 64 2) True) ''t'' (replicate 64 5) = Inr b"
    by (simp add: with_global_signature_def sign_def ref_crates_def)
  then show ?thesis using global_signature_binds ref_ed_ok by blast
qed

section \<open>Keys\<close>

text \<open>A public key written to a file, under any acceptable comment, is read back; the parser
  looks at the second line only, so the comment changes nothing.\<close>

theorem pubkey_file_roundtrip:
  assumes "b64_ok C" "wf_pubkey p" "pubkey_to_file_contents C p comment = Inr t"
  shows "pubkey_from_file_contents C t = Inr p
         \<and> pubkey_from_base64 C (lines t ! 1) = Inr p
         \<and> (\<forall>s. 2 \<le> length (lines s) \<and> lines s ! 1 = lines t ! 1 \<longrightarrow>
               pubkey_from_file_contents C s = Inr p)"
proof -
  have parsed: "pubkey_from_file_contents C t = Inr p"
    using assms by (rule pubkey_file.parse_render)
  have len: "length (lines t) = 2"
    using pubkey_file.render_lines [OF assms(1,3)] by simp
  have "pubkey_from_base64 C (lines t ! 1) = Inr p"
    using parsed len by (simp add: pubkey_from_file_contents_def pubkey_from_base64_def Let_def)
  moreover have "pubkey_from_file_contents C s = Inr p"
    if "2 \<le> length (lines s)" "lines s ! 1 = lines t ! 1" for s
    using pubkey_file.parse_ignores_comment [OF assms(1) that(2,1)] len parsed by simp
  ultimately show ?thesis using parsed by simp
qed

theorem pubkey_file_roundtrip_witness:
  "\<exists>t. pubkey_to_file_contents ref_crates
         \<lparr>pk_keynum = replicate 8 1, pk_public_key = replicate 32 2\<rparr> ''mine'' = Inr t
     \<and> pubkey_from_file_contents ref_crates t
         = Inr \<lparr>pk_keynum = replicate 8 1, pk_public_key = replicate 32 2\<rparr>"
proof -
  have "validate_untrusted_comment ''mine'' = Inr ()"
    by (simp add: validate_untrusted_comment_iff validate_comment_ascii)
  then obtain t where t: "pubkey_to_file_contents ref_crates
      \<lparr>pk_keynum = replicate 8 1, pk_public_key = replicate 32 2\<rparr> ''mine'' = Inr t"
    by (simp add: pubkey_to_file_contents_def)
  have "wf_pubkey \<lparr>pk_keynum = replicate 8 1, pk_public_key = replicate 32 2\<rparr>"
    by (simp add: wf_pubkey_def wf_array_defs size_defs)
  then show ?thesis using t pubkey_file_roundtrip [OF ref_b64_ok _ t] by blast
qed

text \<open>The 158 bytes of a secret key are decoded exactly when they are the encoding of a
  well-formed structure: the algorithm identifiers are checked, the key number of an encrypted
  key is left at zero, and nothing else is accepted.\<close>

theorem seckey_decodes_iff:
  "seckey_from_bytes bs = Inr s \<longleftrightarrow> wf_seckey s \<and> bs = seckey_to_bytes s"
  by (rule seckey_codec.dec_iff)

lemma ref_params: "opslimit_memlimit_to_params ref_crates 32768 1048576 = Inr (10, SCRYPT_R, SCRYPT_P)"
  by (simp add: opslimit_memlimit_to_params_exact decode_kdf_params_exact ref_crates_def)

lemma ref_derive:
  "derive_key_with_params ref_crates pw salt 10 SCRYPT_R SCRYPT_P 104
     = Inr (take 104 (pw @ salt @ replicate 104 1))" if "length pw + length salt \<le> 64"
proof -
  have "drop 64 (take 104 (pw @ salt @ replicate 104 (1 :: u8))) = replicate 40 1"
    using that by (simp add: drop_take take_replicate)
  then have "\<not> list_all (\<lambda>b. b = 0) (drop 64 (take 104 (pw @ salt @ replicate 104 (1 :: u8))))"
    by (simp only: list_all_iff set_replicate_conv_if) simp
  then show ?thesis
    by (simp add: derive_key_with_params_def MAX_KDF_OUTPUT_LEN_def ref_crates_def)
qed

lemma ref_new_encrypted:
  assumes "length pw + length salt \<le> 64"
  obtains s where "new_encrypted ref_crates kn sk pw salt 32768 1048576 fb = Inr s"
  using ref_derive [OF assms]
  by (simp add: new_encrypted_def ref_params ENCRYPTED_BLOB_SIZE_def size_defs Let_def)

text \<open>C17: a key encrypted under a password, written to a file and read back is opened by the same
  password and gives the same secret key and key number; without a password it asks for one; its
  credential id is the same before and after, so a saved password is found again.\<close>

theorem encrypted_key_survives_file:
  assumes "b64_ok C" "blake2b_ok C" "scrypt_ok C"
    and "wf_key_num kn" "wf_secret_key sk" "length salt = KDF_SALT_BYTES"
    and "new_encrypted C kn sk pw salt ops mem fb = Inr s"
    and "seckey_to_file_contents C s comment = Inr t"
  shows "\<exists>s'. seckey_from_file_contents C t = Inr s'
    \<and> extract_key C s' (Some pw) = Inr (sk, kn)
    \<and> extract_key C s' None = Inl PasswordRequired
    \<and> credential_id s' = credential_id s"
proof (intro exI conjI)
  have sizes: "wf_seckey_sizes s"
    using new_encrypted_sizes [OF assms(2-5) _ assms(7)] assms(6) by (simp add: size_defs)
  have enc: "sk_encrypted (as_loaded s)"
    using assms(7) by (auto simp: as_loaded_def new_encrypted_Inr [OF assms(2-5)])
  show "seckey_from_file_contents C t = Inr (as_loaded s)"
    using assms(1) sizes assms(8) by (rule seckey_file_roundtrip)
  show "extract_key C (as_loaded s) (Some pw) = Inr (sk, kn)"
    using decrypt_new_encrypted_lemma [OF assms(2-5) _ assms(7)] assms(6) enc
    by (simp add: extract_key_def decrypt_as_loaded size_defs)
  show "extract_key C (as_loaded s) None = Inl PasswordRequired"
    using enc by (simp add: extract_key_def)
  show "credential_id (as_loaded s) = credential_id s" by (rule credential_id_as_loaded)
qed

theorem encrypted_key_survives_file_witness:
  "\<exists>s t s'. new_encrypted ref_crates (replicate 8 1) (replicate 64 2) [3] (replicate 32 4)
         32768 1048576 False = Inr s
     \<and> seckey_to_file_contents ref_crates s ''key'' = Inr t
     \<and> seckey_from_file_contents ref_crates t = Inr s'
     \<and> extract_key ref_crates s' (Some [3]) = Inr (replicate 64 2, replicate 8 1)"
proof -
  obtain s where s: "new_encrypted ref_crates (replicate 8 1) (replicate 64 2) [3] (replicate 32 4)
      32768 1048576 False = Inr s"
    by (rule ref_new_encrypted [of "[3]" "replicate 32 4"]) simp_all
  have "validate_untrusted_comment ''key'' = Inr ()"
    by (simp add: validate_untrusted_comment_iff validate_comment_ascii)
  then obtain t where t: "seckey_to_file_contents ref_crates s ''key'' = Inr t"
    by (simp add: seckey_to_file_contents_def)
  have "wf_key_num (replicate 8 1)" "wf_secret_key (replicate 64 2)"
    "length (replicate 32 (4 :: u8)) = KDF_SALT_BYTES"
    by (simp_all add: wf_array_defs size_defs)
  then show ?thesis
    using encrypted_key_survives_file [OF ref_b64_ok ref_blake2b_ok ref_scrypt_ok _ _ _ s t] s t
    by blast
qed

text \<open>C21: when the parameters are acceptable and the key can be derived, decryption returns a key
  exactly when the checksum in the decrypted blob is that of the key number and the secret key in
  it; any other blob, from a wrong password or a changed file, is a checksum failure.\<close>

theorem decrypt_authenticated:
  assumes "scrypt_ok C" "wf_seckey_sizes s" "sk_encrypted s"
    and "opslimit_memlimit_to_params C (sk_kdf_opslimit s) (sk_kdf_memlimit s) = Inr (l, r, p)"
    and "derive_key_with_params C pw (sk_kdf_salt s) l r p 104 = Inr k"
    and "xor_bytes (sk_encrypted_keynum s @ sk_secret_key_encrypted s @ sk_checksum s) k
           = kn @ sk @ ck" "length kn = 8" "length sk = 64"
  shows "decrypt C s pw = (if ck = compute_checksum C kn sk then Inr (sk, kn) else Inl ChecksumFailed)"
proof -
  have "check_kdf_budget (sk_kdf_memlimit s) = Inr ()"
    using assms(4) by (auto simp: opslimit_memlimit_to_params_def result_simps)
  then show ?thesis
    using assms(4-8) decrypt_eq [OF assms(1-3)]
    by (auto simp: open_blob_def sealed_blob_def blob_parts_append)
qed

lemma ref_checksum_hd: "hd (compute_checksum ref_crates (replicate 8 0) (replicate 64 0)) = 0x45"
  by (simp add: compute_checksum_def blake2b_256_def ref_crates_def copy_at_def SIG_ALG_def
      size_defs)

theorem decrypt_authenticated_witness:
  "decrypt ref_crates \<lparr>sk_encrypted = True, sk_kdf_salt = replicate 32 1, sk_kdf_opslimit = 32768,
      sk_kdf_memlimit = 1048576, sk_keynum = replicate 8 0, sk_encrypted_keynum = replicate 8 1,
      sk_secret_key_encrypted = replicate 64 1, sk_checksum = replicate 32 1\<rparr> [] = Inl ChecksumFailed"
proof -
  let ?s = "\<lparr>sk_encrypted = True, sk_kdf_salt = replicate 32 1, sk_kdf_opslimit = 32768,
      sk_kdf_memlimit = 1048576, sk_keynum = replicate 8 0, sk_encrypted_keynum = replicate 8 1,
      sk_secret_key_encrypted = replicate 64 1, sk_checksum = replicate 32 1\<rparr> :: seckey_struct"
  have k: "derive_key_with_params ref_crates [] (replicate 32 1) 10 SCRYPT_R SCRYPT_P 104
      = Inr (replicate 104 1)"
    using ref_derive [of "[]" "replicate 32 1"] by (simp flip: replicate_add)
  have x: "xor_bytes (replicate 8 1 @ replicate 64 1 @ replicate 32 1) (replicate 104 (1 :: u8))
      = replicate 8 0 @ replicate 64 0 @ replicate 32 0"
    by (simp add: xor_bytes_def zip_replicate flip: replicate_add)
  have c: "replicate 32 0 \<noteq> compute_checksum ref_crates (replicate 8 0) (replicate 64 0)"
  proof
    assume "replicate 32 0 = compute_checksum ref_crates (replicate 8 0) (replicate 64 0)"
    then have "hd (replicate 32 (0 :: u8)) = 0x45" using ref_checksum_hd by (rule ssubst)
    then show False by simp
  qed
  show ?thesis
    using decrypt_authenticated [of ref_crates ?s 10 SCRYPT_R SCRYPT_P "[]" "replicate 104 1"
        "replicate 8 0" "replicate 64 0" "replicate 32 0"] k x c ref_params ref_scrypt_ok
    by (simp add: wf_seckey_sizes_def size_defs)
qed

text \<open>The keys a release build writes are never weak: the limits of the default \<open>log_n\<close> are
  the production limits, within the budget, and a key sealed with them does not trigger the
  warning. The reduced parameters exist in a debug build only, and the keys they give do.\<close>

theorem production_limits:
  "calculate_kdf_params dbg SCRYPT_LOG_N False = Inr (PRODUCTION_OPSLIMIT, PRODUCTION_MEMLIMIT)
   \<and> check_kdf_budget PRODUCTION_MEMLIMIT = Inr ()
   \<and> (is_weak_kdf s \<longleftrightarrow> sk_encrypted s
        \<and> (unat (sk_kdf_opslimit s) < 2 ^ 25 \<or> unat (sk_kdf_memlimit s) < 2 ^ 30))"
  by (simp add: calculate_kdf_params_iff check_kdf_budget_iff is_weak_kdf_iff SCRYPT_LOG_N_def
      PRODUCTION_OPSLIMIT_def PRODUCTION_MEMLIMIT_def)

end
