(* ===== verification/FileSys.thy ===== *)
theory FileSys
  imports Crypto
begin

text \<open>
  The part of \<open>std::path\<close>, \<open>std::fs\<close>, \<open>std::io\<close> and \<open>std::time\<close> that the program uses, for a
  Unix host: paths and their components, a file system of directories, symbolic links and
  inodes with hard links, path resolution, and one definition per system call. A \<open>world\<close>
  holds the file system, the random numbers, the clock, the console and, for each system
  call, the error the host may answer it with; every file system state the program passes
  through is kept in \<open>w_trace\<close>, so that what a crash can leave behind can be stated.
\<close>

section \<open>Paths\<close>

datatype component = RootDir | CurDir | ParentDir | NormalComp string

abbreviation SLASH :: char where "SLASH \<equiv> CHR ''/''"

fun split_slash :: "string \<Rightarrow> string list" where
  "split_slash [] = [[]]"
| "split_slash (c # s) =
     (if c = SLASH then [] # split_slash s
      else (case split_slash s of [] \<Rightarrow> [[c]] | w # ws \<Rightarrow> (c # w) # ws))"

definition component_of :: "string \<Rightarrow> component" where
  "component_of s = (if s = ''..'' then ParentDir else NormalComp s)"

definition body_components :: "string list \<Rightarrow> component list" where
  "body_components ws = map component_of (filter (\<lambda>w. w \<noteq> [] \<and> w \<noteq> ''.'') ws)"

text \<open>\<open>Path::components\<close>: repeated separators and inner \<open>.\<close> are dropped.\<close>

definition components :: "path \<Rightarrow> component list" where
  "components p =
     (case p of
        [] \<Rightarrow> []
      | c # s \<Rightarrow>
          if c = SLASH then RootDir # body_components (split_slash s)
          else (case split_slash p of
                  [] \<Rightarrow> []
                | w # ws \<Rightarrow> if w = ''.'' then CurDir # body_components ws
                            else body_components (w # ws)))"

primrec component_text :: "component \<Rightarrow> string" where
  "component_text RootDir = ''/''"
| "component_text CurDir = ''.''"
| "component_text ParentDir = ''..''"
| "component_text (NormalComp n) = n"

fun join_slash :: "string list \<Rightarrow> string" where
  "join_slash [] = []"
| "join_slash [w] = w"
| "join_slash (w # ws) = w @ SLASH # join_slash ws"

definition render_path :: "component list \<Rightarrow> path" where
  "render_path cs =
     (case cs of RootDir # r \<Rightarrow> SLASH # join_slash (map component_text r)
      | _ \<Rightarrow> join_slash (map component_text cs))"

text \<open>\<open>parent\<close>, \<open>file_name\<close>, \<open>join\<close> (\<open>PathBuf::push\<close>) and \<open>with_file_name\<close>. A parent is
  written with its components only, which is how paths compare.\<close>

definition path_parent :: "path \<Rightarrow> path option" where
  "path_parent p =
     (let cs = components p
      in if cs = [] \<or> last cs = RootDir then None else Some (render_path (butlast cs)))"

definition file_name :: "path \<Rightarrow> string option" where
  "file_name p =
     (let cs = components p
      in if cs = [] then None else (case last cs of NormalComp n \<Rightarrow> Some n | _ \<Rightarrow> None))"

definition path_join :: "path \<Rightarrow> path \<Rightarrow> path" where
  "path_join p q =
     (if q \<noteq> [] \<and> hd q = SLASH then q
      else if p = [] then q
      else if last p = SLASH then p @ q
      else p @ SLASH # q)"

definition with_file_name :: "path \<Rightarrow> string \<Rightarrow> path" where
  "with_file_name p n =
     (case file_name p of
        None \<Rightarrow> path_join p n
      | Some _ \<Rightarrow> path_join (case path_parent p of None \<Rightarrow> [] | Some d \<Rightarrow> d) n)"

section \<open>The file system\<close>

type_synonym loc = "string list"

text \<open>A location is the list of names from the root to a directory entry.\<close>

datatype entry = FileAt nat | LinkTo path | DirAt

record inode =
  i_bytes :: bytes
  i_mode :: nat
  i_mtime :: nat

record fs =
  fs_entries :: "loc \<Rightarrow> entry option"
  fs_inodes :: "nat \<Rightarrow> inode option"
  fs_next :: nat
  fs_cwd :: loc
  fs_dir_modes :: "loc \<Rightarrow> nat"

definition lookup :: "fs \<Rightarrow> loc \<Rightarrow> entry option" where
  "lookup s l = (if l = [] then Some DirAt else fs_entries s l)"

definition ENOENT :: io_error where
  "ENOENT = IoError NotFound ''No such file or directory (os error 2)''"
definition EEXIST :: io_error where
  "EEXIST = IoError AlreadyExists ''File exists (os error 17)''"
definition ENOTDIR :: io_error where
  "ENOTDIR = IoError OtherKind ''Not a directory (os error 20)''"
definition EISDIR :: io_error where
  "EISDIR = IoError OtherKind ''Is a directory (os error 21)''"
definition ENOTEMPTY :: io_error where
  "ENOTEMPTY = IoError OtherKind ''Directory not empty (os error 39)''"
definition EPERM :: io_error where
  "EPERM = IoError OtherKind ''Operation not permitted (os error 1)''"
definition EINVAL :: io_error where
  "EINVAL = IoError OtherKind ''Invalid argument (os error 22)''"
definition ELOOP :: io_error where
  "ELOOP = IoError OtherKind ''Too many levels of symbolic links (os error 40)''"
definition EMPTY_PATH :: io_error where
  "EMPTY_PATH = IoError OtherKind ''cannot make an empty path absolute''"

text \<open>Resolution follows symbolic links, at most \<open>k\<close> of them; every component but the last has
  to be a directory, and the last may be missing.\<close>

function walk :: "fs \<Rightarrow> nat \<Rightarrow> loc \<Rightarrow> component list \<Rightarrow> io_error + loc" where
  "walk s k here [] = Inr here"
| "walk s k here (RootDir # cs) = walk s k [] cs"
| "walk s k here (CurDir # cs) = walk s k here cs"
| "walk s k here (ParentDir # cs) = walk s k (butlast here) cs"
| "walk s k here (NormalComp n # cs) =
     (case lookup s (here @ [n]) of
        Some (LinkTo t) \<Rightarrow> if k = 0 then Inl ELOOP else walk s (k - 1) here (components t @ cs)
      | Some DirAt \<Rightarrow> walk s k (here @ [n]) cs
      | Some (FileAt i) \<Rightarrow> if cs = [] then Inr (here @ [n]) else Inl ENOTDIR
      | None \<Rightarrow> if cs = [] then Inr (here @ [n]) else Inl ENOENT)"
  by pat_completeness auto
termination
  by (relation "measures [\<lambda>(s, k, here, cs). k, \<lambda>(s, k, here, cs). length cs]") auto

definition MAX_LINKS :: nat where "MAX_LINKS = 40"

text \<open>With the final symbolic link followed, and without.\<close>

definition resolve :: "fs \<Rightarrow> path \<Rightarrow> io_error + loc" where
  "resolve s p = (if p = [] then Inl ENOENT else walk s MAX_LINKS (fs_cwd s) (components p))"

definition as_directory :: "fs \<Rightarrow> loc \<Rightarrow> io_error + loc" where
  "as_directory s d =
     (case lookup s d of Some DirAt \<Rightarrow> Inr d | None \<Rightarrow> Inl ENOENT | _ \<Rightarrow> Inl ENOTDIR)"

definition resolve_entry :: "fs \<Rightarrow> path \<Rightarrow> io_error + loc" where
  "resolve_entry s p =
     (case file_name p of
        Some n \<Rightarrow>
          and_then (walk s MAX_LINKS (fs_cwd s) (butlast (components p))) (\<lambda>d.
          and_then (as_directory s d) (\<lambda>d. Inr (d @ [n])))
      | None \<Rightarrow> resolve s p)"

section \<open>System calls on the file system\<close>

datatype handle = FileHandle nat | DirHandle loc

definition sys_open :: "path \<Rightarrow> fs \<Rightarrow> io_error + handle" where
  "sys_open p s =
     and_then (resolve s p) (\<lambda>l.
       case lookup s l of
         None \<Rightarrow> Inl ENOENT
       | Some (FileAt i) \<Rightarrow> Inr (FileHandle i)
       | Some DirAt \<Rightarrow> Inr (DirHandle l)
       | Some (LinkTo t) \<Rightarrow> Inl ELOOP)"

record stat =
  st_len :: nat
  st_mode :: nat
  st_mtime :: nat
  st_is_dir :: bool

definition handle_stat :: "fs \<Rightarrow> handle \<Rightarrow> io_error + stat" where
  "handle_stat s h =
     (case h of
        DirHandle l \<Rightarrow> Inr \<lparr>st_len = 0, st_mode = fs_dir_modes s l, st_mtime = 0, st_is_dir = True\<rparr>
      | FileHandle i \<Rightarrow>
          (case fs_inodes s i of
             None \<Rightarrow> Inl ENOENT
           | Some n \<Rightarrow> 
               Inr \<lparr>st_len = length (i_bytes n), st_mode = i_mode n, st_mtime = i_mtime n,
                    st_is_dir = False\<rparr>))"

definition sys_metadata :: "path \<Rightarrow> fs \<Rightarrow> io_error + stat" where
  "sys_metadata p s = and_then (sys_open p s) (handle_stat s)"

text \<open>\<open>Path::exists\<close>: any error counts as absent, a dangling link too.\<close>

definition sys_exists :: "path \<Rightarrow> fs \<Rightarrow> bool" where
  "sys_exists p s = is_ok (sys_metadata p s)"

definition sys_symlink_metadata :: "path \<Rightarrow> fs \<Rightarrow> io_error + entry" where
  "sys_symlink_metadata p s =
     and_then (resolve_entry s p) (\<lambda>l. ok_or ENOENT (lookup s l))"

definition sys_canonicalize :: "path \<Rightarrow> fs \<Rightarrow> io_error + path" where
  "sys_canonicalize p s =
     and_then (resolve s p) (\<lambda>l.
       case lookup s l of None \<Rightarrow> Inl ENOENT | Some _ \<Rightarrow> Inr (render_path (RootDir # map NormalComp l)))"

text \<open>\<open>std::path::absolute\<close> does not look at the file system beyond the working directory.\<close>

definition path_absolute :: "path \<Rightarrow> fs \<Rightarrow> io_error + path" where
  "path_absolute p s =
     (if p = [] then Inl EMPTY_PATH
      else Inr (render_path
        (case components p of
           RootDir # cs \<Rightarrow> RootDir # cs
         | CurDir # cs \<Rightarrow> RootDir # map NormalComp (fs_cwd s) @ cs
         | cs \<Rightarrow> RootDir # map NormalComp (fs_cwd s) @ cs)))"

definition add_file :: "loc \<Rightarrow> nat \<Rightarrow> nat \<Rightarrow> fs \<Rightarrow> nat \<times> fs" where
  "add_file l mode now s =
     (let i = fs_next s
      in (i, s\<lparr>fs_entries := (fs_entries s)(l \<mapsto> FileAt i),
              fs_inodes := (fs_inodes s)(i \<mapsto> \<lparr>i_bytes = [], i_mode = mode, i_mtime = now\<rparr>),
              fs_next := Suc i\<rparr>))"

text \<open>\<open>open\<close> with \<open>O_CREAT | O_EXCL\<close>: any existing entry, a dangling link too, is refused.\<close>

definition sys_create_new :: "path \<Rightarrow> nat \<Rightarrow> nat \<Rightarrow> fs \<Rightarrow> (io_error + nat) \<times> fs" where
  "sys_create_new p mode now s =
     (case resolve_entry s p of
        Inl e \<Rightarrow> (Inl e, s)
      | Inr l \<Rightarrow>
          (case lookup s l of
             Some _ \<Rightarrow> (Inl EEXIST, s)
           | None \<Rightarrow> (let (i, s') = add_file l mode now s in (Inr i, s'))))"

definition append_inode :: "nat \<Rightarrow> bytes \<Rightarrow> fs \<Rightarrow> fs" where
  "append_inode i bs s =
     (case fs_inodes s i of
        None \<Rightarrow> s
      | Some n \<Rightarrow> s\<lparr>fs_inodes := (fs_inodes s)(i \<mapsto> n\<lparr>i_bytes := i_bytes n @ bs\<rparr>)\<rparr>)"

definition chmod_inode :: "nat \<Rightarrow> nat \<Rightarrow> fs \<Rightarrow> fs" where
  "chmod_inode i mode s =
     (case fs_inodes s i of
        None \<Rightarrow> s
      | Some n \<Rightarrow> s\<lparr>fs_inodes := (fs_inodes s)(i \<mapsto> n\<lparr>i_mode := mode\<rparr>)\<rparr>)"

fun strip_loc :: "loc \<Rightarrow> loc \<Rightarrow> loc option" where
  "strip_loc [] l = Some l"
| "strip_loc (x # xs) [] = None"
| "strip_loc (x # xs) (y # ys) = (if x = y then strip_loc xs ys else None)"

text \<open>A directory moves with everything below it.\<close>

definition move_tree :: "loc \<Rightarrow> loc \<Rightarrow> (loc \<Rightarrow> entry option) \<Rightarrow> loc \<Rightarrow> entry option" where
  "move_tree a b es l =
     (case strip_loc b l of
        Some r \<Rightarrow> es (a @ r)
      | None \<Rightarrow> (case strip_loc a l of Some r \<Rightarrow> None | None \<Rightarrow> es l))"

primrec is_file :: "entry \<Rightarrow> bool" where
  "is_file (FileAt i) = True"
| "is_file (LinkTo t) = False"
| "is_file DirAt = False"

text \<open>\<open>rename\<close>. Replacing a directory is answered with an error: an empty target directory,
  which the host would let another directory replace, does not arise in the program.\<close>

definition rename_entry :: "loc \<Rightarrow> loc \<Rightarrow> fs \<Rightarrow> (io_error + unit) \<times> fs" where
  "rename_entry a b s =
     (case lookup s a of
        None \<Rightarrow> (Inl ENOENT, s)
      | Some DirAt \<Rightarrow>
          (if a = b then (Inr (), s)
           else if strip_loc a b \<noteq> None then (Inl EINVAL, s)
           else (case lookup s b of
                   None \<Rightarrow> (Inr (), s\<lparr>fs_entries := move_tree a b (fs_entries s)\<rparr>)
                 | Some DirAt \<Rightarrow> (Inl ENOTEMPTY, s)
                 | Some _ \<Rightarrow> (Inl ENOTDIR, s)))
      | Some e \<Rightarrow>
          (if lookup s b = Some DirAt then (Inl EISDIR, s)
           else if is_file e \<and> lookup s b = Some e then (Inr (), s)
           else (Inr (), s\<lparr>fs_entries := (fs_entries s)(a := None, b \<mapsto> e)\<rparr>)))"

definition sys_rename :: "path \<Rightarrow> path \<Rightarrow> fs \<Rightarrow> (io_error + unit) \<times> fs" where
  "sys_rename p q s =
     (case and_then (resolve_entry s p) (\<lambda>a. and_then (resolve_entry s q) (\<lambda>b. Inr (a, b))) of
        Inl e \<Rightarrow> (Inl e, s)
      | Inr (a, b) \<Rightarrow> rename_entry a b s)"

definition sys_hard_link :: "path \<Rightarrow> path \<Rightarrow> fs \<Rightarrow> (io_error + unit) \<times> fs" where
  "sys_hard_link p q s =
     (case and_then (resolve_entry s p) (\<lambda>a. and_then (resolve_entry s q) (\<lambda>b. Inr (a, b))) of
        Inl e \<Rightarrow> (Inl e, s)
      | Inr (a, b) \<Rightarrow>
          (case lookup s a of
             None \<Rightarrow> (Inl ENOENT, s)
           | Some e \<Rightarrow>
               (if lookup s b \<noteq> None then (Inl EEXIST, s)
                else if e = DirAt then (Inl EPERM, s)
                else (Inr (), s\<lparr>fs_entries := (fs_entries s)(b \<mapsto> e)\<rparr>))))"

definition sys_remove_file :: "path \<Rightarrow> fs \<Rightarrow> (io_error + unit) \<times> fs" where
  "sys_remove_file p s =
     (case resolve_entry s p of
        Inl e \<Rightarrow> (Inl e, s)
      | Inr a \<Rightarrow>
          (case lookup s a of
             None \<Rightarrow> (Inl ENOENT, s)
           | Some DirAt \<Rightarrow> (Inl EISDIR, s)
           | Some e \<Rightarrow> (Inr (), s\<lparr>fs_entries := (fs_entries s)(a := None)\<rparr>)))"

definition sys_mkdir :: "path \<Rightarrow> nat \<Rightarrow> fs \<Rightarrow> (io_error + unit) \<times> fs" where
  "sys_mkdir p mode s =
     (case resolve_entry s p of
        Inl e \<Rightarrow> (Inl e, s)
      | Inr a \<Rightarrow>
          (case lookup s a of
             None \<Rightarrow> (Inr (), s\<lparr>fs_entries := (fs_entries s)(a \<mapsto> DirAt),
                                fs_dir_modes := (fs_dir_modes s)(a := mode)\<rparr>)
           | Some _ \<Rightarrow> (Inl EEXIST, s)))"

end
