(* ===== verification/World.thy ===== *)
theory World
  imports FileSys
begin

text \<open>
  The world the program runs in and its effects: a state monad with errors whose combinators
  follow the source (\<open>?\<close> is \<open>bind_io\<close>, \<open>map_err\<close> is \<open>map_err_io\<close>, a \<open>match\<close> on a result goes
  through \<open>attempt\<close>), one effect per system call, and the weakest preconditions and
  invariants the components are verified with.

  Each system call takes the next number. Whether it fails, and how, what the clocks say and
  how the host cuts a file into reads are functions of that number, so a statement about
  every world is a statement about every behaviour of the host. \<open>w_schedule\<close> says which thread the
  host lets take the next step where there are several. Between two calls nothing but time passes:
  other processes do not touch the files the program works on.
\<close>

record world =
  w_fs :: fs
  w_calls :: nat
  w_faults :: "nat \<Rightarrow> io_error option"
  w_partial :: "nat \<Rightarrow> nat"
  w_clock :: "nat \<Rightarrow> int"
  w_reads :: "nat \<Rightarrow> bytes \<Rightarrow> reader"
  w_umask :: nat
  w_rng :: rng
  w_out :: "string list"
  w_err :: "string list"
  w_trace :: "fs list"
  w_instant :: nat
  w_elapsed :: "nat \<Rightarrow> nat"
  w_keyring :: "string \<Rightarrow> bytes option"
  w_keyring_faults :: "nat \<Rightarrow> string option"
  w_keyring_keeps :: "nat \<Rightarrow> bytes \<Rightarrow> bytes option"
  w_keyring_asked :: "string list"
  w_schedule :: "nat list"

type_synonym ('e, 'a) io = "world \<Rightarrow> ('e + 'a) \<times> world"

section \<open>Combinators\<close>

definition ret :: "'a \<Rightarrow> ('e, 'a) io" where "ret x w = (Inr x, w)"

definition throw :: "'e \<Rightarrow> ('e, 'a) io" where "throw e w = (Inl e, w)"

definition lift_res :: "'e + 'a \<Rightarrow> ('e, 'a) io" where "lift_res r w = (r, w)"

definition bind_io :: "('e, 'a) io \<Rightarrow> ('a \<Rightarrow> ('e, 'b) io) \<Rightarrow> ('e, 'b) io" where
  "bind_io m f w = (case m w of (Inl e, w') \<Rightarrow> (Inl e, w') | (Inr x, w') \<Rightarrow> f x w')"

definition map_err_io :: "('e \<Rightarrow> 'f) \<Rightarrow> ('e, 'a) io \<Rightarrow> ('f, 'a) io" where
  "map_err_io g m w = (case m w of (r, w') \<Rightarrow> (map_err g r, w'))"

definition attempt :: "('e, 'a) io \<Rightarrow> ('f, 'e + 'a) io" where
  "attempt m w = (case m w of (r, w') \<Rightarrow> (Inr r, w'))"

text \<open>What \<open>print!\<close> and \<open>eprint!\<close> write, piece by piece; \<open>println!\<close> adds a line feed.\<close>

definition print_out :: "string \<Rightarrow> ('e, unit) io" where
  "print_out s w = (Inr (), w\<lparr>w_out := w_out w @ [s]\<rparr>)"

definition print_err :: "string \<Rightarrow> ('e, unit) io" where
  "print_err s w = (Inr (), w\<lparr>w_err := w_err w @ [s]\<rparr>)"

definition println :: "string \<Rightarrow> ('e, unit) io" where
  "println s = print_out (s @ [LF])"

definition eprintln :: "string \<Rightarrow> ('e, unit) io" where
  "eprintln s = print_err (s @ [LF])"

definition random_bytes :: "nat \<Rightarrow> ('e, bytes) io" where
  "random_bytes n w = (let (bs, g) = fill_bytes n (w_rng w) in (Inr bs, w\<lparr>w_rng := g\<rparr>))"

section \<open>System calls\<close>

definition commit :: "fs \<Rightarrow> world \<Rightarrow> world" where
  "commit s w = w\<lparr>w_fs := s, w_trace := w_trace w @ [s]\<rparr>"

text \<open>A call that only looks, and a call that may change the file system.\<close>

definition query :: "(world \<Rightarrow> io_error + 'a) \<Rightarrow> (io_error, 'a) io" where
  "query f w =
     (let w1 = w\<lparr>w_calls := Suc (w_calls w)\<rparr>
      in case w_faults w (w_calls w) of
           Some e \<Rightarrow> (Inl e, w1)
         | None \<Rightarrow> (f w, w1))"

definition update :: "(world \<Rightarrow> (io_error + 'a) \<times> fs) \<Rightarrow> (io_error, 'a) io" where
  "update f w =
     (let w1 = w\<lparr>w_calls := Suc (w_calls w)\<rparr>
      in case w_faults w (w_calls w) of
           Some e \<Rightarrow> (Inl e, w1)
         | None \<Rightarrow> (case f w of (r, s) \<Rightarrow> (r, commit s w1)))"

text \<open>\<open>SystemTime::now\<close>, in milliseconds since the epoch, may be anything. \<open>Instant::now\<close> never
  goes back: any time may pass before it answers, and \<open>sleep\<close> lets at least the time asked for
  pass.\<close>

definition now :: "('e, int) io" where
  "now w = (Inr (w_clock w (w_calls w)), w\<lparr>w_calls := Suc (w_calls w)\<rparr>)"

definition instant_now :: "('e, nat) io" where
  "instant_now w =
     (let t = w_instant w + w_elapsed w (w_calls w)
      in (Inr t, w\<lparr>w_instant := t, w_calls := Suc (w_calls w)\<rparr>))"

definition sleep :: "nat \<Rightarrow> ('e, unit) io" where
  "sleep ms w =
     (Inr (), w\<lparr>w_instant := w_instant w + ms + w_elapsed w (w_calls w), w_calls := Suc (w_calls w)\<rparr>)"

definition open_file :: "path \<Rightarrow> (io_error, handle) io" where
  "open_file p = query (\<lambda>w. sys_open p (w_fs w))"

definition fstat :: "handle \<Rightarrow> (io_error, stat) io" where
  "fstat h = query (\<lambda>w. handle_stat (w_fs w) h)"

definition metadata :: "path \<Rightarrow> (io_error, stat) io" where
  "metadata p = query (\<lambda>w. sys_metadata p (w_fs w))"

definition symlink_metadata :: "path \<Rightarrow> (io_error, entry) io" where
  "symlink_metadata p = query (\<lambda>w. sys_symlink_metadata p (w_fs w))"

definition canonicalize :: "path \<Rightarrow> (io_error, path) io" where
  "canonicalize p = query (\<lambda>w. sys_canonicalize p (w_fs w))"

definition absolute :: "path \<Rightarrow> (io_error, path) io" where
  "absolute p = query (\<lambda>w. path_absolute p (w_fs w))"

text \<open>\<open>Path::exists\<close> turns any error into \<open>false\<close>.\<close>

definition path_exists :: "path \<Rightarrow> ('e, bool) io" where
  "path_exists p = bind_io (attempt (metadata p)) (\<lambda>r. ret (is_ok r))"

text \<open>The reads that follow one another on an open file; reading a directory fails.\<close>

definition file_reads :: "handle \<Rightarrow> (io_error, reader) io" where
  "file_reads h = query (\<lambda>w.
     case h of
       DirHandle l \<Rightarrow> Inr [Inl EISDIR]
     | FileHandle i \<Rightarrow>
         (case fs_inodes (w_fs w) i of
            None \<Rightarrow> Inr []
          | Some n \<Rightarrow> Inr (w_reads w (w_calls w) (i_bytes n))))"

text \<open>The mode a file or directory is created with, less the bits of the umask.\<close>

definition masked :: "nat \<Rightarrow> world \<Rightarrow> nat" where
  "masked mode w = nat (int mode AND NOT (int (w_umask w)))"

definition create_new :: "path \<Rightarrow> nat \<Rightarrow> (io_error, nat) io" where
  "create_new p mode = update (\<lambda>w.
     sys_create_new p (masked mode w)
       (nat (w_clock w (w_calls w))) (w_fs w))"

text \<open>\<open>write_all\<close>: a state with only a part of the bytes is passed through, and is what is left
  when the call fails.\<close>

definition write_all :: "nat \<Rightarrow> bytes \<Rightarrow> (io_error, unit) io" where
  "write_all i bs w =
     (let n = w_calls w;
          w1 = commit (append_inode i (take (w_partial w n) bs) (w_fs w)) (w\<lparr>w_calls := Suc n\<rparr>)
      in case w_faults w n of
           Some e \<Rightarrow> (Inl e, w1)
         | None \<Rightarrow> (Inr (), commit (append_inode i bs (w_fs w)) w1))"

definition fchmod :: "nat \<Rightarrow> nat \<Rightarrow> (io_error, unit) io" where
  "fchmod i mode = update (\<lambda>w. (Inr (), chmod_inode i mode (w_fs w)))"

definition sync_all :: "(io_error, unit) io" where
  "sync_all = query (\<lambda>w. Inr ())"

definition rename_file :: "path \<Rightarrow> path \<Rightarrow> (io_error, unit) io" where
  "rename_file p q = update (\<lambda>w. sys_rename p q (w_fs w))"

definition hard_link :: "path \<Rightarrow> path \<Rightarrow> (io_error, unit) io" where
  "hard_link p q = update (\<lambda>w. sys_hard_link p q (w_fs w))"

definition remove_file :: "path \<Rightarrow> (io_error, unit) io" where
  "remove_file p = update (\<lambda>w. sys_remove_file p (w_fs w))"

definition mkdir :: "path \<Rightarrow> nat \<Rightarrow> (io_error, unit) io" where
  "mkdir p mode = update (\<lambda>w. sys_mkdir p (masked mode w) (w_fs w))"

section \<open>Weakest preconditions\<close>

named_theorems wp_simps
named_theorems wp_calls

definition wp :: "('e, 'a) io \<Rightarrow> ('e + 'a \<Rightarrow> world \<Rightarrow> bool) \<Rightarrow> world \<Rightarrow> bool" where
  "wp m Q w = (case m w of (r, w') \<Rightarrow> Q r w')"

lemma wpI: "(\<And>r w'. m w = (r, w') \<Longrightarrow> Q r w') \<Longrightarrow> wp m Q w"
  by (auto simp: wp_def split: prod.splits)

lemma wpD: "wp m Q w \<Longrightarrow> m w = (r, w') \<Longrightarrow> Q r w'"
  by (simp add: wp_def)

lemma wp_mono: "wp m P w \<Longrightarrow> (\<And>r w'. P r w' \<Longrightarrow> Q r w') \<Longrightarrow> wp m Q w"
  by (auto simp: wp_def split: prod.splits)

lemma wp_conj: "wp m (\<lambda>r w'. P r w' \<and> Q r w') w \<longleftrightarrow> wp m P w \<and> wp m Q w"
  by (auto simp: wp_def split: prod.splits)

lemma wp_combinators [wp_simps]:
  "wp (ret x) Q w \<longleftrightarrow> Q (Inr x) w"
  "wp (throw e) Q' w \<longleftrightarrow> Q' (Inl e) w"
  "wp (lift_res r) Q'' w \<longleftrightarrow> Q'' r w"
  by (simp_all add: wp_def ret_def throw_def lift_res_def)

lemma wp_bind [wp_simps]:
  "wp (bind_io m f) Q w \<longleftrightarrow>
     wp m (\<lambda>r w'. case r of Inl e \<Rightarrow> Q (Inl e) w' | Inr x \<Rightarrow> wp (f x) Q w') w"
  by (auto simp: wp_def bind_io_def split: prod.splits sum.splits)

lemma wp_map_err [wp_simps]: "wp (map_err_io g m) Q w \<longleftrightarrow> wp m (\<lambda>r. Q (map_err g r)) w"
  by (auto simp: wp_def map_err_io_def split: prod.splits)

lemma wp_attempt [wp_simps]: "wp (attempt m) Q w \<longleftrightarrow> wp m (\<lambda>r. Q (Inr r)) w"
  by (auto simp: wp_def attempt_def split: prod.splits)

lemma wp_print [wp_simps]:
  "wp (print_out s) Q w \<longleftrightarrow> Q (Inr ()) (w\<lparr>w_out := w_out w @ [s]\<rparr>)"
  "wp (print_err s) Q w \<longleftrightarrow> Q (Inr ()) (w\<lparr>w_err := w_err w @ [s]\<rparr>)"
  by (simp_all add: wp_def print_out_def print_err_def)

lemmas wp_println [wp_simps] = wp_print [of "s @ [LF]" for s, folded println_def eprintln_def]

lemma bind_io_run: "m w = (Inr x, w') \<Longrightarrow> bind_io m f w = f x w'"
  by (simp add: bind_io_def)

lemma bind_io_failed: "m w = (Inl e, w') \<Longrightarrow> bind_io m f w = (Inl e, w')"
  by (simp add: bind_io_def)

lemma bind_io_assoc: "bind_io (bind_io m f) g = bind_io m (\<lambda>x. bind_io (f x) g)"
  by (rule ext) (simp add: bind_io_def split: prod.splits sum.splits)

lemma map_err_io_Inr: "map_err_io g m w = (Inr x, w') \<longleftrightarrow> m w = (Inr x, w')"
  by (auto simp: map_err_io_def result_simps split: prod.splits)

lemma bind_io_Inr:
  "bind_io m f w = (Inr y, w'') \<longleftrightarrow> (\<exists>x w'. m w = (Inr x, w') \<and> f x w' = (Inr y, w''))"
  by (auto simp: bind_io_def split: prod.splits sum.splits)

section \<open>What a computation leaves alone\<close>

text \<open>\<open>keeps I m\<close>: the invariant holds after \<open>m\<close>, whatever it returns.\<close>

definition keeps :: "(world \<Rightarrow> bool) \<Rightarrow> ('e, 'a) io \<Rightarrow> bool" where
  "keeps I m \<longleftrightarrow> (\<forall>w. I w \<longrightarrow> I (snd (m w)))"

named_theorems keeps_intros

lemma keepsD: "keeps I m \<Longrightarrow> I w \<Longrightarrow> m w = (r, w') \<Longrightarrow> I w'"
  unfolding keeps_def by (metis snd_conv)

lemma keeps_basic [keeps_intros]:
  "keeps I (ret x)" "keeps I (throw e)" "keeps I (lift_res r)"
  by (simp_all add: keeps_def ret_def throw_def lift_res_def)

lemma keeps_bind [keeps_intros]:
  "keeps I m \<Longrightarrow> (\<And>x. keeps I (f x)) \<Longrightarrow> keeps I (bind_io m f)"
  unfolding keeps_def bind_io_def by (auto split: prod.splits sum.splits)

lemma keeps_map_err [keeps_intros]: "keeps I m \<Longrightarrow> keeps I (map_err_io g m)"
  unfolding keeps_def map_err_io_def by (auto split: prod.splits)

lemma keeps_attempt [keeps_intros]: "keeps I m \<Longrightarrow> keeps I (attempt m)"
  unfolding keeps_def attempt_def by (auto split: prod.splits)

lemma keeps_if [keeps_intros]: "(b \<Longrightarrow> keeps I m) \<Longrightarrow> (\<not> b \<Longrightarrow> keeps I n) \<Longrightarrow> keeps I (if b then m else n)"
  by simp

lemma keeps_option [keeps_intros]:
  "(x = None \<Longrightarrow> keeps I m) \<Longrightarrow> (\<And>y. x = Some y \<Longrightarrow> keeps I (f y)) \<Longrightarrow>
     keeps I (case x of None \<Rightarrow> m | Some y \<Rightarrow> f y)"
  by (cases x) auto

lemma keeps_sum [keeps_intros]:
  "(\<And>e. x = Inl e \<Longrightarrow> keeps I (f e)) \<Longrightarrow> (\<And>y. x = Inr y \<Longrightarrow> keeps I (g y)) \<Longrightarrow>
     keeps I (case x of Inl e \<Rightarrow> f e | Inr y \<Rightarrow> g y)"
  by (cases x) auto

lemma keeps_prod [keeps_intros]:
  "(\<And>a b. x = (a, b) \<Longrightarrow> keeps I (f a b)) \<Longrightarrow> keeps I (case x of (a, b) \<Rightarrow> f a b)"
  by (cases x) auto

lemma keeps_let [keeps_intros]: "keeps I (f x) \<Longrightarrow> keeps I (let y = x in f y)"
  by (simp add: Let_def)

lemma keeps_print [keeps_intros]:
  "(\<And>w. I w \<Longrightarrow> I (w\<lparr>w_out := w_out w @ [s]\<rparr>)) \<Longrightarrow> keeps I (print_out s)"
  "(\<And>w. I w \<Longrightarrow> I (w\<lparr>w_err := w_err w @ [s]\<rparr>)) \<Longrightarrow> keeps I (print_err s)"
  by (simp_all add: keeps_def print_out_def print_err_def)

lemma wp_keeps: "keeps I m \<Longrightarrow> I w \<Longrightarrow> wp m (\<lambda>r. I) w"
  by (auto simp: wp_def keeps_def split: prod.splits)

text \<open>The file system and its history are untouched.\<close>

definition fs_is :: "fs \<Rightarrow> fs list \<Rightarrow> world \<Rightarrow> bool" where
  "fs_is s t w \<longleftrightarrow> w_fs w = s \<and> w_trace w = t"

definition reads_only :: "('e, 'a) io \<Rightarrow> bool" where
  "reads_only m \<longleftrightarrow> (\<forall>s t. keeps (fs_is s t) m)"

lemma reads_onlyI: "(\<And>s t. keeps (fs_is s t) m) \<Longrightarrow> reads_only m"
  by (simp add: reads_only_def)

lemma reads_onlyD: "reads_only m \<Longrightarrow> m w = (r, w') \<Longrightarrow> w_fs w' = w_fs w \<and> w_trace w' = w_trace w"
  unfolding reads_only_def keeps_def fs_is_def by (metis snd_conv)

lemma keeps_reads_only [keeps_intros]: "reads_only m \<Longrightarrow> keeps (fs_is s t) m"
  by (simp add: reads_only_def)

lemma reads_only_query: "reads_only (query f)"
  by (auto simp: reads_only_def keeps_def fs_is_def query_def Let_def split: option.splits)

lemma reads_only_calls [simp]:
  "reads_only (open_file p)" "reads_only (fstat h)" "reads_only (metadata p)"
  "reads_only (symlink_metadata p)" "reads_only (canonicalize p)" "reads_only (absolute p)"
  "reads_only (file_reads h)" "reads_only sync_all"
  by (simp_all add: open_file_def fstat_def metadata_def symlink_metadata_def canonicalize_def
      absolute_def file_reads_def sync_all_def reads_only_query)

lemma reads_only_pure [simp]:
  "reads_only now" "reads_only instant_now" "reads_only (sleep n)" "reads_only (random_bytes k)"
  "reads_only (print_out a)" "reads_only (print_err b)" "reads_only (println c)"
  "reads_only (eprintln d)"
  by (simp_all add: reads_only_def keeps_def fs_is_def now_def instant_now_def sleep_def random_bytes_def
      println_def eprintln_def print_out_def print_err_def fill_bytes_def Let_def)

lemma reads_only_ret [simp]:
  "reads_only (ret x)" "reads_only (throw e)" "reads_only (lift_res r)"
  by (simp_all add: reads_only_def keeps_def ret_def throw_def lift_res_def)

lemma reads_only_bind [simp]:
  "reads_only m \<Longrightarrow> (\<And>x. reads_only (f x)) \<Longrightarrow> reads_only (bind_io m f)"
  by (rule reads_onlyI, rule keeps_bind) (rule keeps_reads_only, simp)+

lemma reads_only_map_err [simp]: "reads_only m \<Longrightarrow> reads_only (map_err_io g m)"
  by (rule reads_onlyI, rule keeps_map_err, rule keeps_reads_only)

lemma reads_only_attempt [simp]: "reads_only m \<Longrightarrow> reads_only (attempt m)"
  by (rule reads_onlyI, rule keeps_attempt, rule keeps_reads_only)

lemma reads_only_exists [simp]: "reads_only (path_exists p)"
  by (simp add: path_exists_def)

section \<open>Rules for the calls\<close>

text \<open>A computation that only reads may return anything, as far as the file system goes.\<close>

lemma wp_reads_only:
  assumes "reads_only m"
    and "\<And>r w'. m w = (r, w') \<Longrightarrow> w_fs w' = w_fs w \<Longrightarrow> w_trace w' = w_trace w \<Longrightarrow> Q r w'"
  shows "wp m Q w"
  by (rule wpI) (use assms reads_onlyD [OF assms(1)] in blast)

lemma wp_query:
  assumes "\<And>r w'. w_fs w' = w_fs w \<Longrightarrow> w_trace w' = w_trace w \<Longrightarrow> r = f w \<or> (\<exists>e. r = Inl e) \<Longrightarrow> Q r w'"
  shows "wp (query f) Q w"
  unfolding wp_def query_def Let_def by (cases "w_faults w (w_calls w)") (auto intro!: assms)

lemma wp_update:
  assumes "\<And>e w'. w_fs w' = w_fs w \<Longrightarrow> w_trace w' = w_trace w \<Longrightarrow> Q (Inl e) w'"
    and "\<And>r s w'. f w = (r, s) \<Longrightarrow> w_fs w' = s \<Longrightarrow> w_trace w' = w_trace w @ [s] \<Longrightarrow> Q r w'"
  shows "wp (update f) Q w"
  unfolding wp_def update_def Let_def
  by (cases "w_faults w (w_calls w)") (auto simp: commit_def intro!: assms split: prod.splits)

lemma wp_write_all:
  assumes "\<And>n e w'. w_fs w' = append_inode i (take n bs) (w_fs w) \<Longrightarrow>
      w_trace w' = w_trace w @ [append_inode i (take n bs) (w_fs w)] \<Longrightarrow> Q (Inl e) w'"
    and "\<And>n w'. w_fs w' = append_inode i bs (w_fs w) \<Longrightarrow>
      w_trace w' = w_trace w @ [append_inode i (take n bs) (w_fs w), append_inode i bs (w_fs w)] \<Longrightarrow>
      Q (Inr ()) w'"
  shows "wp (write_all i bs) Q w"
  unfolding wp_def write_all_def Let_def
  by (cases "w_faults w (w_calls w)") (auto simp: commit_def intro!: assms)

lemma wp_bindI:
  assumes "wp m R w" "\<And>e w'. R (Inl e) w' \<Longrightarrow> Q (Inl e) w'" "\<And>x w'. R (Inr x) w' \<Longrightarrow> wp (f x) Q w'"
  shows "wp (bind_io m f) Q w"
  unfolding wp_bind by (rule wp_mono [OF assms(1)]) (auto intro: assms(2,3) split: sum.splits)

lemma wp_map_errI:
  assumes "wp m R w" "\<And>e w'. R (Inl e) w' \<Longrightarrow> Q (Inl (g e)) w'" "\<And>x w'. R (Inr x) w' \<Longrightarrow> Q (Inr x) w'"
  shows "wp (map_err_io g m) Q w"
  unfolding wp_map_err
proof (rule wp_mono [OF assms(1)])
  fix r w'
  assume "R r w'"
  then show "Q (map_err g r) w'" using assms(2,3) by (cases r) auto
qed

lemma wp_bind_map_errI:
  assumes "wp m R w" "\<And>e w'. R (Inl e) w' \<Longrightarrow> Q (Inl (g e)) w'"
    and "\<And>x w'. R (Inr x) w' \<Longrightarrow> wp (f x) Q w'"
  shows "wp (bind_io (map_err_io g m) f) Q w"
  unfolding wp_bind wp_map_err
proof (rule wp_mono [OF assms(1)])
  fix r w'
  assume "R r w'"
  then show "case map_err g r of Inl e \<Rightarrow> Q (Inl e) w' | Inr x \<Rightarrow> wp (f x) Q w'"
    using assms(2,3) by (cases r) auto
qed

lemma wp_bind_attemptI:
  assumes "wp m R w" "\<And>r w'. R r w' \<Longrightarrow> wp (f r) Q w'"
  shows "wp (bind_io (attempt m) f) Q w"
  unfolding wp_bind wp_attempt sum.case by (rule wp_mono [OF assms(1)]) (rule assms(2))

section \<open>The states passed through\<close>

definition passes :: "(fs \<Rightarrow> bool) \<Rightarrow> world \<Rightarrow> world \<Rightarrow> bool" where
  "passes P w w' \<longleftrightarrow> (\<exists>ss. w_trace w' = w_trace w @ ss \<and> (\<forall>s \<in> set ss. P s))"

lemma passes_refl: "w_trace w' = w_trace w \<Longrightarrow> passes P w w'"
  by (auto simp: passes_def)

lemma passes_snoc: "w_trace w' = w_trace w @ [s] \<Longrightarrow> P s \<Longrightarrow> passes P w w'"
  by (auto simp: passes_def)

lemma passes_trans: "passes P w w' \<Longrightarrow> passes P w' w'' \<Longrightarrow> passes P w w''"
  unfolding passes_def by (metis append.assoc set_append Un_iff)

lemma passes_mono: "passes P w w' \<Longrightarrow> (\<And>s. P s \<Longrightarrow> Q s) \<Longrightarrow> passes Q w w'"
  unfolding passes_def by blast

end
