(* ===== verification/KeyUse.thy ===== *)
theory KeyUse
  imports World Keys
begin

text \<open>
  The use of a secret key as the operations see it: \<open>SeckeyStruct::decrypt\<close> and
  \<open>extract_key\<close> with the warning they print for a key with weak parameters, key generation
  on the random generator of the world, and the two switches of \<open>ops/mod.rs\<close>.
\<close>

datatype overwrite_policy = Preserve | Overwrite

datatype encryption_mode = Protected | Unprotected

datatype test_commit_failure = BeforePublicRename | BeforeSecretRename

text \<open>What the source selects at compile time, \<open>debug_assertions\<close> and the features
  \<open>credential_store\<close> and \<open>parallel\<close>, and the two thread locals of \<open>ops/generate.rs\<close> that tests of a debug
  build may set.\<close>

record build =
  b_debug :: bool
  b_credential_store :: bool
  b_parallel :: bool
  b_commit_failure :: "test_commit_failure option"
  b_lock_timeout :: "nat option"

section \<open>Decryption\<close>

definition warn_weak_key :: "('e, unit) io" where
  "warn_weak_key =
     bind_io (eprintln (LF # ''*** WARNING: WEAK KEY DETECTED ***'')) (\<lambda>_.
     bind_io (eprintln ''This key was created with reduced security parameters.'') (\<lambda>_.
     bind_io (eprintln ''It is easier to brute-force than a production-strength key.'') (\<lambda>_.
     bind_io (eprintln ''Consider regenerating this key on a system with more memory.'') (\<lambda>_.
       eprintln (''See rs/docs/kdf-fallback-security-analysis.md for details.'' @ [LF])))))"

text \<open>The warning comes after the two guards and before the key is derived.\<close>

definition decrypt_op :: "crates \<Rightarrow> seckey_struct \<Rightarrow> bytes \<Rightarrow> (error, secret_key \<times> key_num) io" where
  "decrypt_op C s password =
     bind_io (if sk_encrypted s \<and> is_ok (check_kdf_budget (sk_kdf_memlimit s)) \<and> is_weak_kdf s
              then warn_weak_key else ret ()) (\<lambda>_.
       lift_res (decrypt C s password))"

definition extract_key_op ::
  "crates \<Rightarrow> seckey_struct \<Rightarrow> bytes option \<Rightarrow> (error, secret_key \<times> key_num) io" where
  "extract_key_op C s password =
     (if sk_encrypted s then
        (case password of None \<Rightarrow> throw PasswordRequired | Some pwd \<Rightarrow> decrypt_op C s pwd)
      else
        bind_io (lift_res (get_unencrypted_secret_key s)) (\<lambda>sk. ret (sk, sk_keynum s)))"

lemma reads_only_warn_weak_key [simp]: "reads_only warn_weak_key"
  by (simp add: warn_weak_key_def)

lemma reads_only_extract_key_op [simp]: "reads_only (extract_key_op C s pw)"
  by (auto simp: extract_key_op_def decrypt_op_def split: option.split)

lemma fst_decrypt_op: "fst (decrypt_op C s pw w) = decrypt C s pw"
  by (simp add: decrypt_op_def bind_io_def ret_def lift_res_def warn_weak_key_def eprintln_def
      print_err_def)

lemma fst_extract_key_op: "fst (extract_key_op C s pw w) = extract_key C s pw"
  by (auto simp: extract_key_op_def extract_key_def fst_decrypt_op bind_io_def ret_def
      lift_res_def throw_def split: option.split sum.split)

lemma wp_extract_key_op:
  assumes "\<And>w'. w_fs w' = w_fs w \<Longrightarrow> w_trace w' = w_trace w \<Longrightarrow> Q (extract_key C s pw) w'"
  shows "wp (extract_key_op C s pw) Q w"
proof (rule wpI)
  fix r w' assume "extract_key_op C s pw w = (r, w')"
  then show "Q r w'"
    using assms [of w'] reads_onlyD [OF reads_only_extract_key_op] fst_extract_key_op
    by (metis fst_conv)
qed

section \<open>Generation\<close>

definition generate_keypair_op :: "crates \<Rightarrow> ('e, secret_key \<times> public_key \<times> key_num) io" where
  "generate_keypair_op C w =
     (let (keys, g) = generate_keypair C (w_rng w) in (Inr keys, w\<lparr>w_rng := g\<rparr>))"

text \<open>The two comments of a secret key file.\<close>

definition seckey_comment :: "encryption_mode \<Rightarrow> string" where
  "seckey_comment m =
     (if m = Unprotected then ''minisign secret key'' else ''minisign encrypted secret key'')"

text \<open>The new secret key of \<open>generate\<close> and \<open>change\<close>: encrypted under a fresh salt with the
  limits of \<open>log_n\<close>, or plain. The arguments are those of the build, the new password among
  them.\<close>

definition seal_key ::
  "crates \<Rightarrow> build \<Rightarrow> encryption_mode \<Rightarrow> bool \<Rightarrow> u8 \<Rightarrow> secret_key \<Rightarrow> key_num \<Rightarrow> bytes option
     \<Rightarrow> (error, seckey_struct) io" where
  "seal_key C B mode force_weak_kdf log_n sk keynum password =
     (if mode = Unprotected then ret (new_unencrypted keynum sk)
      else
        (case password of
           None \<Rightarrow> throw PasswordRequired
         | Some pwd \<Rightarrow>
             bind_io (random_bytes 32) (\<lambda>kdf_salt.
             bind_io (lift_res (calculate_kdf_params (b_debug B) log_n force_weak_kdf))
             (\<lambda>(kdf_opslimit, kdf_memlimit).
               lift_res (new_encrypted C keynum sk pwd kdf_salt kdf_opslimit kdf_memlimit False)))))"

end
