(* ===== verification/Cli.thy ===== *)
theory Cli
  imports KeyUse
begin

text \<open>
  \<open>cli.rs\<close>: the command line. The crate \<open>pico-args\<close>, which picks flags and options out of the
  arguments, is a parameter, of which nothing is assumed. What the process is given besides its
  files (arguments, environment, terminal) is the record \<open>host\<close>, with the crates \<open>dirs\<close> and
  \<open>rpassword\<close> in it.
\<close>

section \<open>The surroundings of the process\<close>

record host =
  h_args :: "string list"
  h_config_dir :: "string option"
  h_home :: "path option"
  h_terminal :: bool
  h_typed :: "nat \<Rightarrow> io_error + string"
  h_version :: string
  h_git_describe :: string

text \<open>
  \<^item> \<open>h_args\<close>: \<open>args_os().skip(1)\<close>; \<open>h_config_dir\<close>: the variable \<open>MINISIGN_CONFIG_DIR\<close>;
    \<open>h_home\<close>: \<open>dirs::home_dir\<close>; \<open>h_terminal\<close>: standard input is a terminal;
  \<^item> \<open>h_typed n\<close>: what \<open>rpassword::read_password\<close> returns when it is the call of number \<open>n\<close>;
  \<^item> \<open>h_version\<close> and \<open>h_git_describe\<close>: the two variables of the build.
\<close>

record 'a pico =
  pa_from_vec :: "string list \<Rightarrow> 'a"
  pa_contains :: "string list \<Rightarrow> 'a \<Rightarrow> bool \<times> 'a"
  pa_opt_value :: "string list \<Rightarrow> 'a \<Rightarrow> (string + string option) \<times> 'a"
  pa_finish :: "'a \<Rightarrow> string list"

text \<open>\<open>Arguments::from_vec\<close>, \<open>contains\<close>, \<open>opt_value_from_str\<close> for \<open>String\<close> and \<open>PathBuf\<close> (its error
  is the text it displays) and \<open>finish\<close>.\<close>

section \<open>The parsed command line\<close>

datatype action = Generate | Sign | Verify | Recreate | Change | Inspect

record cli =
  cli_action :: "action option"
  cli_force :: bool
  cli_no_decrypt :: bool
  cli_prehashed :: bool
  cli_legacy :: bool
  cli_output :: bool
  cli_quiet :: bool
  cli_pretty_quiet :: bool
  cli_no_password :: bool
  cli_allow_kdf_fallback :: bool
  cli_save_password :: bool
  cli_forget_password :: bool
  cli_message_file :: "path option"
  cli_extra_files :: "path list"
  cli_public_key_file :: "path option"
  cli_public_key_base64 :: "string option"
  cli_secret_key_file :: "path option"
  cli_trusted_comment :: "string option"
  cli_untrusted_comment :: "string option"
  cli_signature_file :: "path option"
  cli_password_file :: "path option"
  cli_new_password_file :: "path option"
  cli_sequential :: bool
  cli_force_weak_kdf :: bool

definition HELP :: string where
  "HELP = concat (map (\<lambda>l. l @ [LF])
     [''minisign_rs - A dead simple Rust tool to sign files and verify signatures'',
      '''',
      ''Usage: minisign_rs -G [-f] [-p pubkey] [-s seckey] [-W] [-c comment]'',
      ''       minisign_rs -S [-H | -l] [-x sigfile] [-s seckey] [-c comment] [-t comment] -m file [files...]'',
      ''       minisign_rs -V [-x sigfile] [-p pubkey | -P key] [-o] [-q|-Q] -m file [files...]'',
      ''       minisign_rs -R [-s seckey] [-p pubkey]'',
      ''       minisign_rs -K [-s seckey] [-W] [--password-file file] [--new-password-file file]'',
      ''       minisign_rs -I [-s seckey | -p pubkey | -P key | -x sigfile]'',
      '''',
      ''ACTIONS:'',
      ''    -G, --generate          Generate a new keypair'',
      ''    -S, --sign              Sign files'',
      ''    -V, --verify            Verify a signature'',
      ''    -R, --recreate          Recreate a public key from a secret key'',
      ''    -K, --change-password   Change or remove password from a secret key'',
      ''    -I, --inspect           Inspect a key file'',
      '''',
      ''OPTIONS:'',
      ''    -c, --untrusted-comment <COMMENT>   Untrusted comment'',
      ''    -f, --force                         Force overwrite existing files'',
      ''    -h, --help                          Show this help'',
      ''    -H, --prehashed                     Sign or verify a prehashed file'',
      ''    -l, --legacy                        Legacy mode (sign only); forces sequential execution'',
      ''                                        to bound memory (non-prehashed buffers up to 1 GB per file)'',
      ''    -m, --input <FILE>                  Message file'',
      ''    -o, --output                        Output verification result to stdout'',
      ''    -p, --publickey-path <FILE>         Public key file'',
      ''    -P, --publickey <KEY>               Public key as base64 string'',
      ''    -q, --quiet                         Quiet mode (minimal output)'',
      ''    -Q, --pretty-quiet                  Pretty quiet mode (trusted comment only)'',
      ''    -s, --secretkey-path <FILE>         Secret key file'',
      ''    -t, --trusted-comment <COMMENT>     Trusted comment'',
      ''    -v, --version                       Show version'',
      ''    -W, --no-password                   Do not use password (generate and change only)'',
      ''    -x, --signature <FILE>              Signature file'',
      ''        --allow-kdf-fallback            Deprecated; has no effect'',
      ''        --forget-password, --fp         Remove saved password from credential store'',
      ''        --no-decrypt                    Skip decryption of encrypted keys'',
      ''        --password-file <FILE>          Read password from file (testing only - insecure);'',
      ''                                        with -K, the current password only'',
      ''        --new-password-file <FILE>      Read the new password for -K from file (testing only - insecure)'',
      ''        --save-password, --sp           Save password to OS credential store''])"

section \<open>Combined flags\<close>

definition VALUE_FLAGS :: "nat list" where
  "VALUE_FLAGS = map of_char ''mpPstcx''"

text \<open>The loop over the characters after the dash.\<close>

fun expand_chars :: "nat list \<Rightarrow> string list" where
  "expand_chars [] = []"
| "expand_chars (c # cs) =
     (CHR ''-'' # utf8_encode c)
     # (if c \<in> set VALUE_FLAGS
        then (if cs \<noteq> [] then [concat (map utf8_encode cs)] else [])
        else expand_chars cs)"

definition is_combined :: "string \<Rightarrow> bool" where
  "is_combined s \<longleftrightarrow> starts_with ''-'' s \<and> \<not> starts_with ''--'' s \<and> length s > 2"

definition expand_arg :: "string \<Rightarrow> string list" where
  "expand_arg arg =
     (if \<not> is_utf8 arg then [arg]
      else if \<not> is_combined arg then [arg]
      else expand_chars (chars (tl arg)))"

definition expand_combined_flags :: "string list \<Rightarrow> string list" where
  "expand_combined_flags args = concat (map expand_arg args)"

section \<open>Picking the arguments\<close>

type_synonym ('a, 'b) parse = "'a \<Rightarrow> (error + 'b) \<times> 'a"

definition bind_parse :: "('a, 'b) parse \<Rightarrow> ('b \<Rightarrow> ('a, 'c) parse) \<Rightarrow> ('a, 'c) parse" where
  "bind_parse m f a = (case m a of (Inl e, a') \<Rightarrow> (Inl e, a') | (Inr x, a') \<Rightarrow> f x a')"

definition return_parse :: "'b \<Rightarrow> ('a, 'b) parse" where "return_parse x a = (Inr x, a)"

definition flag :: "'a pico \<Rightarrow> string list \<Rightarrow> ('a, bool) parse" where
  "flag P keys a = (case pa_contains P keys a of (b, a') \<Rightarrow> (Inr b, a'))"

text \<open>\<open>args.contains(k) || args.contains(l)\<close>: the second is not asked when the first is there.\<close>

definition either_flag :: "'a pico \<Rightarrow> string \<Rightarrow> string \<Rightarrow> ('a, bool) parse" where
  "either_flag P k l =
     bind_parse (flag P [k]) (\<lambda>b. if b then return_parse True else flag P [l])"

definition opt_value :: "'a pico \<Rightarrow> string list \<Rightarrow> ('a, string option) parse" where
  "opt_value P keys a = (case pa_opt_value P keys a of (r, a') \<Rightarrow> (map_err Usage r, a'))"

definition ACTION_FLAGS :: "(string list \<times> action) list" where
  "ACTION_FLAGS =
     [([''-G'', ''--generate''], Generate), ([''-S'', ''--sign''], Sign),
      ([''-V'', ''--verify''], Verify), ([''-R'', ''--recreate''], Recreate),
      ([''-K'', ''--change-password''], Change), ([''-I'', ''--inspect''], Inspect)]"

primrec present_actions :: "'a pico \<Rightarrow> (string list \<times> action) list \<Rightarrow> ('a, action list) parse" where
  "present_actions P [] = return_parse []"
| "present_actions P (x # xs) =
     bind_parse (flag P (fst x)) (\<lambda>present.
     bind_parse (present_actions P xs) (\<lambda>rest.
       return_parse (if present then snd x # rest else rest)))"

definition parse_action :: "'a pico \<Rightarrow> ('a, action option) parse" where
  "parse_action P =
     bind_parse (present_actions P ACTION_FLAGS) (\<lambda>found a.
       case found of
         [] \<Rightarrow> (Inr None, a)
       | [x] \<Rightarrow> (Inr (Some x), a)
       | _ \<Rightarrow> (Inl (Usage ''only one action flag (-G, -S, -V, -R, -K, -I) may be specified''), a))"

text \<open>The fields in the order of the source, flags first.\<close>

definition parse_fields :: "'a pico \<Rightarrow> build \<Rightarrow> action option \<Rightarrow> ('a, cli) parse" where
  "parse_fields P B act =
     bind_parse (flag P [''-f'', ''--force'']) (\<lambda>force.
     bind_parse (flag P [''--no-decrypt'']) (\<lambda>no_decrypt.
     bind_parse (flag P [''-H'', ''--prehashed'']) (\<lambda>prehashed.
     bind_parse (flag P [''-l'', ''--legacy'']) (\<lambda>legacy.
     bind_parse (flag P [''-o'', ''--output'']) (\<lambda>out.
     bind_parse (flag P [''-q'', ''--quiet'']) (\<lambda>quiet.
     bind_parse (flag P [''-Q'', ''--pretty-quiet'']) (\<lambda>pretty_quiet.
     bind_parse (flag P [''-W'', ''--no-password'']) (\<lambda>no_password.
     bind_parse (flag P [''--allow-kdf-fallback'']) (\<lambda>allow_kdf_fallback.
     bind_parse (either_flag P ''--save-password'' ''--sp'') (\<lambda>save_pw.
     bind_parse (either_flag P ''--forget-password'' ''--fp'') (\<lambda>forget_pw.
     bind_parse (opt_value P [''-m'', ''--input'']) (\<lambda>message_file.
     bind_parse (opt_value P [''-p'', ''--publickey-path'']) (\<lambda>public_key_file.
     bind_parse (opt_value P [''-P'', ''--publickey'']) (\<lambda>public_key_base64.
     bind_parse (opt_value P [''-s'', ''--secretkey-path'']) (\<lambda>secret_key_file.
     bind_parse (opt_value P [''-t'', ''--trusted-comment'']) (\<lambda>trusted_comment.
     bind_parse (opt_value P [''-c'', ''--untrusted-comment'']) (\<lambda>untrusted_comment.
     bind_parse (opt_value P [''-x'', ''--signature'']) (\<lambda>signature_file.
     bind_parse (opt_value P [''--password-file'']) (\<lambda>password_file.
     bind_parse (opt_value P [''--new-password-file'']) (\<lambda>new_password_file.
     bind_parse (if b_parallel B then flag P [''--sequential''] else return_parse False) (\<lambda>sequential.
     bind_parse (if b_debug B then flag P [''--force-weak-kdf''] else return_parse False) (\<lambda>force_weak_kdf.
       return_parse
         \<lparr>cli_action = act, cli_force = force, cli_no_decrypt = no_decrypt,
          cli_prehashed = prehashed, cli_legacy = legacy, cli_output = out, cli_quiet = quiet,
          cli_pretty_quiet = pretty_quiet, cli_no_password = no_password,
          cli_allow_kdf_fallback = allow_kdf_fallback, cli_save_password = save_pw,
          cli_forget_password = forget_pw, cli_message_file = message_file,
          cli_extra_files = [], cli_public_key_file = public_key_file,
          cli_public_key_base64 = public_key_base64, cli_secret_key_file = secret_key_file,
          cli_trusted_comment = trusted_comment, cli_untrusted_comment = untrusted_comment,
          cli_signature_file = signature_file, cli_password_file = password_file,
          cli_new_password_file = new_password_file, cli_sequential = sequential,
          cli_force_weak_kdf = force_weak_kdf\<rparr>))))))))))))))))))))))"

definition reject_conflicts :: "build \<Rightarrow> cli \<Rightarrow> error + unit" where
  "reject_conflicts B cli =
     (if cli_quiet cli \<and> cli_pretty_quiet cli then Inl (Usage ''-q and -Q are mutually exclusive'')
      else if cli_new_password_file cli \<noteq> None \<and> cli_action cli \<noteq> Some Change then
        Inl (Usage ''--new-password-file is only valid with -K'')
      else if cli_new_password_file cli \<noteq> None \<and> cli_no_password cli then
        Inl (Usage ''--new-password-file and -W are mutually exclusive'')
      else if \<not> b_credential_store B \<and> cli_save_password cli then
        Inl (Usage (''--save-password requires the credential_store feature ''
          @ ''(recompile with default features)''))
      else Inr ())"

text \<open>What is left over are further files, unless one of them looks like a flag.\<close>

definition take_remaining :: "string list \<Rightarrow> cli \<Rightarrow> error + cli" where
  "take_remaining remaining cli =
     (case filter (\<lambda>a. starts_with ''-'' (to_string_lossy a)) remaining of
        arg # _ \<Rightarrow> Inl (Usage (''Unknown argument: '' @ to_string_lossy arg))
      | [] \<Rightarrow> if remaining = [] then Inr cli else Inr (cli\<lparr>cli_extra_files := remaining\<rparr>))"

definition parse_args :: "'a pico \<Rightarrow> build \<Rightarrow> 'a \<Rightarrow> error + cli" where
  "parse_args P B args =
     (case bind_parse (parse_action P) (parse_fields P B) args of
        (Inl e, _) \<Rightarrow> Inl e
      | (Inr cli, args') \<Rightarrow>
          and_then (reject_conflicts B cli) (\<lambda>_. take_remaining (pa_finish P args') cli))"

text \<open>\<open>Cli::parse\<close> ends the process itself after the help or the version.\<close>

datatype parsed = Exit nat | Parsed cli

definition parse_cli :: "'a pico \<Rightarrow> build \<Rightarrow> host \<Rightarrow> (error, parsed) io" where
  "parse_cli P B H =
     (let raw = expand_combined_flags (h_args H);
          (help, args) = pa_contains P [''-h'', ''--help''] (pa_from_vec P raw)
      in if help then bind_io (print_out HELP) (\<lambda>_. ret (Exit 0))
         else
           let (version, args) = pa_contains P [''-v'', ''--version''] args
           in if version then
                bind_io (println (''minisign_rs '' @ h_version H @ '' ('' @ h_git_describe H @ '')''))
                  (\<lambda>_. ret (Exit 0))
              else bind_io (lift_res (parse_args P B args)) (\<lambda>cli. ret (Parsed cli)))"

definition parse_from :: "'a pico \<Rightarrow> build \<Rightarrow> string list \<Rightarrow> error + cli" where
  "parse_from P B iter =
     (let raw = expand_combined_flags (drop 1 iter) in parse_args P B (pa_from_vec P raw))"

section \<open>Files named by the command line\<close>

definition all_message_files :: "cli \<Rightarrow> path list" where
  "all_message_files cli =
     (case cli_message_file cli of
        Some f \<Rightarrow> f # cli_extra_files cli
      | None \<Rightarrow> cli_extra_files cli)"

definition default_secret_key_path :: "host \<Rightarrow> error + path" where
  "default_secret_key_path H =
     (case h_config_dir H of
        Some val \<Rightarrow>
          (if val = [] then
             Inl (Other ''MINISIGN_CONFIG_DIR is set but empty; unset it or provide a directory path'')
           else Inr (path_join val ''minisign.key''))
      | None \<Rightarrow>
          (case h_home H of
             Some home \<Rightarrow> Inr (path_join (path_join home ''.minisign'') ''minisign.key'')
           | None \<Rightarrow> Inr ''.minisign.key''))"

definition default_public_key_path :: path where
  "default_public_key_path = ''./minisign.pub''"

definition default_signature_path :: "path \<Rightarrow> error + path" where
  "default_signature_path message_file =
     and_then (ok_or (InvalidPath message_file) (file_name message_file)) (\<lambda>name.
       Inr (with_file_name message_file (name @ ''.minisig'')))"

end
