(* ===== verification/CredStore.thy ===== *)
theory CredStore
  imports KeyUse
begin

text \<open>
  \<open>credential_store.rs\<close>: passwords kept by the operating system under the service name
  \<open>minisign\<close>, and the stubs of a build without the feature. The store of that service is a map
  from accounts to secrets in the world; any call on it may fail, and a call that stores a secret may
  succeed without keeping it.
\<close>

datatype credential_status = Saved | NotSaved | Unavailable string

datatype keyring_error = NoEntry | KeyringFailure string

primrec keyring_text :: "keyring_error \<Rightarrow> string" where
  "keyring_text NoEntry = ''No matching entry found in secure storage''"
| "keyring_text (KeyringFailure m) = m"

section \<open>Calls on the store\<close>

definition keyring_call ::
  "string \<Rightarrow> ((string \<Rightarrow> bytes option) \<Rightarrow> (keyring_error + 'a) \<times> (string \<Rightarrow> bytes option))
     \<Rightarrow> (keyring_error, 'a) io" where
  "keyring_call account f w =
     (let n = w_calls w;
          w1 = w\<lparr>w_calls := Suc n, w_keyring_asked := w_keyring_asked w @ [account]\<rparr>
      in case w_keyring_faults w n of
           Some m \<Rightarrow> (Inl (KeyringFailure m), w1)
         | None \<Rightarrow> (case f (w_keyring w) of (r, k) \<Rightarrow> (r, w1\<lparr>w_keyring := k\<rparr>)))"

definition entry_new :: "string \<Rightarrow> (keyring_error, string) io" where
  "entry_new account = keyring_call account (\<lambda>k. (Inr account, k))"

text \<open>A backend may report success and have kept something else than the secret, or nothing: what
  is kept by the call with number \<open>n\<close> is \<open>w_keyring_keeps w n\<close>.\<close>

definition set_password :: "string \<Rightarrow> string \<Rightarrow> (keyring_error, unit) io" where
  "set_password entry password w =
     (let kept = w_keyring_keeps w (w_calls w) (as_bytes password)
      in keyring_call entry (\<lambda>k. (Inr (), case kept of None \<Rightarrow> k | Some s \<Rightarrow> k(entry \<mapsto> s))) w)"

definition get_secret :: "string \<Rightarrow> (keyring_error, bytes) io" where
  "get_secret entry = keyring_call entry (\<lambda>k. (ok_or NoEntry (k entry), k))"

definition delete_credential :: "string \<Rightarrow> (keyring_error, unit) io" where
  "delete_credential entry =
     keyring_call entry (\<lambda>k. (case k entry of None \<Rightarrow> (Inl NoEntry, k) | Some _ \<Rightarrow> (Inr (), k(entry := None))))"

section \<open>The operations\<close>

definition open_entry :: "string \<Rightarrow> (error, string) io" where
  "open_entry cred_id =
     map_err_io (\<lambda>e. CredentialStoreError (''failed to create entry: '' @ keyring_text e))
       (entry_new cred_id)"

definition save_password :: "build \<Rightarrow> string \<Rightarrow> string \<Rightarrow> (error, unit) io" where
  "save_password B cred_id password =
     (if b_credential_store B then
        bind_io (open_entry cred_id) (\<lambda>entry.
          map_err_io (\<lambda>e. CredentialStoreError (''failed to save password: '' @ keyring_text e))
            (set_password entry password))
      else ret ())"

definition get_password :: "build \<Rightarrow> string \<Rightarrow> (error, string option) io" where
  "get_password B cred_id =
     (if b_credential_store B then
        bind_io (open_entry cred_id) (\<lambda>entry.
        bind_io (attempt (get_secret entry)) (\<lambda>r.
          case r of
            Inr raw \<Rightarrow>
              (case from_utf8 raw of
                 Inr password \<Rightarrow> ret (Some password)
               | Inl reason \<Rightarrow>
                   throw (CredentialStoreError (''stored secret is not valid UTF-8: ''
                     @ utf8_error_text reason)))
          | Inl e \<Rightarrow>
              (case e of
                 NoEntry \<Rightarrow> ret None
               | _ \<Rightarrow> throw (CredentialStoreError (''failed to get password: '' @ keyring_text e)))))
      else ret None)"

definition forget_password :: "build \<Rightarrow> string \<Rightarrow> (error, unit) io" where
  "forget_password B cred_id =
     (if b_credential_store B then
        bind_io (open_entry cred_id) (\<lambda>entry.
        bind_io (attempt (delete_credential entry)) (\<lambda>r.
          case r of
            Inr _ \<Rightarrow> ret ()
          | Inl e \<Rightarrow>
              (case e of
                 NoEntry \<Rightarrow> ret ()
               | _ \<Rightarrow> throw (CredentialStoreError (''failed to delete password: '' @ keyring_text e)))))
      else ret ())"

text \<open>\<open>dbg\<close> is \<open>Debug\<close> of a path, which the text of an error may use.\<close>

definition has_password :: "(path \<Rightarrow> string) \<Rightarrow> build \<Rightarrow> string \<Rightarrow> ('e, credential_status) io" where
  "has_password dbg B cred_id =
     (if b_credential_store B then
        bind_io (attempt (get_password B cred_id)) (\<lambda>r.
          ret (case r of
                 Inr (Some _) \<Rightarrow> Saved
               | Inr None \<Rightarrow> NotSaved
               | Inl e \<Rightarrow> Unavailable (display_error dbg e)))
      else ret NotSaved)"

end
