(* ===== verification/FileUtils.thy ===== *)
theory FileUtils
  imports World Keys
begin

text \<open>
  \<open>ops/file_utils.rs\<close> on a Unix host: bounded reads, the three ways a file is written
  (\<open>write_file\<close>, \<open>atomic_replace_file\<close>, \<open>atomic_create_secret_key\<close>), the resolution of a
  destination and the refusal of aliases, and the printable form of a path.
\<close>

definition MAX_KEY_FILE_BYTES :: nat where "MAX_KEY_FILE_BYTES = 4096"
definition MAX_SIGNATURE_FILE_BYTES :: nat where "MAX_SIGNATURE_FILE_BYTES = 16384"
definition MAX_PASSWORD_FILE_BYTES :: nat where "MAX_PASSWORD_FILE_BYTES = 1024"
definition MAX_MESSAGE_SIZE_BYTES :: nat where "MAX_MESSAGE_SIZE_BYTES = 1024 * 1024 * 1024"
definition SECRET_KEY_FILE_PERMISSIONS :: nat where "SECRET_KEY_FILE_PERMISSIONS = 384"
definition DEFAULT_FILE_MODE :: nat where "DEFAULT_FILE_MODE = 438"

text \<open>\<open>0o600\<close> is 384, \<open>0o077\<close> is 63; a file that is opened without a mode asks for \<open>0o666\<close>,
  which is 438. \<open>Path::display\<close> is lossy.\<close>

definition display :: "path \<Rightarrow> string" where
  "display p = to_string_lossy p"

section \<open>Permissions and directories\<close>

definition has_lax_permissions :: "path \<Rightarrow> ('e, bool) io" where
  "has_lax_permissions p =
     bind_io (attempt (metadata p)) (\<lambda>r.
       ret (case r of Inl e \<Rightarrow> False | Inr m \<Rightarrow> st_mode m AND 63 \<noteq> 0))"

definition check_secret_key_permissions :: "path \<Rightarrow> ('e, unit) io" where
  "check_secret_key_permissions p =
     bind_io (attempt (metadata p)) (\<lambda>r.
       case r of
         Inr m \<Rightarrow>
           (if st_mode m AND 63 \<noteq> 0 then
              bind_io (eprintln (''Warning: '' @ display p @ '' is accessible to other users (mode ''
                         @ oct_str (st_mode m) @ '')'')) (\<lambda>_.
              eprintln (''Consider running: chmod 600 '' @ display p))
            else ret ())
       | Inl e \<Rightarrow>
           eprintln (''Warning: could not check permissions for '' @ [CHR 0x27] @ display p
             @ [CHR 0x27] @ '': '' @ io_text e))"

definition sync_parent_directory :: "path \<Rightarrow> (error, unit) io" where
  "sync_parent_directory p =
     (case path_parent p of
        None \<Rightarrow> ret ()
      | Some parent \<Rightarrow>
          (if parent = [] then ret ()
           else bind_io (map_err_io (FileWrite parent) (open_file parent)) (\<lambda>dir.
                map_err_io (FileWrite parent) sync_all)))"

definition parent_or_dot :: "path \<Rightarrow> path" where
  "parent_or_dot p =
     (case path_parent p of None \<Rightarrow> ''.'' | Some d \<Rightarrow> if d = [] then ''.'' else d)"

definition temp_name :: "string \<Rightarrow> u64 \<Rightarrow> string \<Rightarrow> string" where
  "temp_name name nonce suffix =
     ''.'' @ to_string_lossy name @ ''.'' @ hex_lower 16 (unat nonce) @ ''.'' @ suffix"

definition sibling_temp_path :: "path \<Rightarrow> string \<Rightarrow> ('e, path) io" where
  "sibling_temp_path p suffix =
     bind_io (random_bytes 8) (\<lambda>nonce_bytes.
       let nonce = u64_from_le_bytes nonce_bytes;
           name = (case file_name p of None \<Rightarrow> ''key'' | Some n \<Rightarrow> n)
       in ret (path_join (parent_or_dot p) (temp_name name nonce suffix)))"

section \<open>Bounded reads\<close>

definition too_large :: "nat \<Rightarrow> nat \<Rightarrow> error" where
  "too_large sz max_bytes =
     Other (''File too large: '' @ dec sz @ '' bytes exceeds maximum '' @ dec max_bytes @ '' bytes'')"

text \<open>\<open>take(cap)\<close> and \<open>read_to_end\<close>: interrupted reads are repeated, the reader is not asked
  again once the cap is reached.\<close>

fun read_to_end :: "nat \<Rightarrow> bytes \<Rightarrow> reader \<Rightarrow> io_error + bytes" where
  "read_to_end cap buf [] = Inr buf"
| "read_to_end cap buf (r # rs) =
     (if length buf \<ge> cap then Inr buf
      else case r of
        Inl e \<Rightarrow> if io_kind_of e = InterruptedIo then read_to_end cap buf rs else Inl e
      | Inr b \<Rightarrow> if b = [] then Inr buf
                 else read_to_end cap (buf @ take (cap - length buf) b) rs)"

definition read_bounded_string_from_reader :: "reader \<Rightarrow> path \<Rightarrow> nat \<Rightarrow> error + string" where
  "read_bounded_string_from_reader reader p max_bytes =
     and_then (map_err (FileRead p) (read_to_end (max_bytes + 1) [] reader)) (\<lambda>buf.
       if length buf > max_bytes then Inl (too_large (length buf) max_bytes)
       else map_err (InvalidUtf8 (display p)) (from_utf8 buf))"

definition read_file_bounded :: "path \<Rightarrow> nat \<Rightarrow> (error, string) io" where
  "read_file_bounded p max_bytes =
     bind_io (map_err_io (FileRead p) (open_file p)) (\<lambda>file.
     bind_io (map_err_io (FileRead p) (fstat file)) (\<lambda>m.
       if st_len m > max_bytes then throw (too_large (st_len m) max_bytes)
       else bind_io (map_err_io (FileRead p) (file_reads file)) (\<lambda>reader.
            lift_res (read_bounded_string_from_reader reader p max_bytes))))"

text \<open>The loop that fills a fixed buffer of \<open>max + 1\<close> bytes; \<open>buf\<close> and \<open>len\<close> as in the source.\<close>

fun read_secret_loop :: "bytes \<Rightarrow> nat \<Rightarrow> reader \<Rightarrow> io_error + bytes \<times> nat" where
  "read_secret_loop buf len [] = Inr (buf, len)"
| "read_secret_loop buf len (r # rs) =
     (if len < length buf then
        (case r of
           Inr b \<Rightarrow>
             (let n = min (length b) (length buf - len)
              in if n = 0 then Inr (buf, len)
                 else read_secret_loop (copy_at len (take n b) buf) (len + n) rs)
         | Inl e \<Rightarrow>
             if io_kind_of e = InterruptedIo then read_secret_loop buf len rs else Inl e)
      else Inr (buf, len))"

definition read_secret_file_bounded :: "path \<Rightarrow> nat \<Rightarrow> (error, bytes) io" where
  "read_secret_file_bounded p max_bytes =
     bind_io (map_err_io (FileRead p) (open_file p)) (\<lambda>file.
     bind_io (map_err_io (FileRead p) (fstat file)) (\<lambda>m.
       if st_len m > max_bytes then throw (too_large (st_len m) max_bytes)
       else
         let buf = replicate (max_bytes + 1) 0
         in bind_io (map_err_io (FileRead p) (file_reads file)) (\<lambda>reader.
            bind_io (lift_res (map_err (FileRead p) (read_secret_loop buf 0 reader))) (\<lambda>(buf, len).
              if len > max_bytes then throw (too_large len max_bytes)
              else ret (take len buf)))))"

definition utf8_text :: "bytes \<Rightarrow> path \<Rightarrow> error + string" where
  "utf8_text bs p = map_err (InvalidUtf8 (display p)) (from_utf8 bs)"

definition load_secret_key :: "crates \<Rightarrow> path \<Rightarrow> (error, seckey_struct) io" where
  "load_secret_key C p =
     bind_io (check_secret_key_permissions p) (\<lambda>_.
     bind_io (read_secret_file_bounded p MAX_KEY_FILE_BYTES) (\<lambda>bs.
       lift_res (and_then (utf8_text bs p) (seckey_from_file_contents C))))"

definition message_too_large :: "nat \<Rightarrow> error" where
  "message_too_large sz =
     Other (''File too large for non-prehashed mode: '' @ dec sz @ '' bytes (max: ''
       @ dec MAX_MESSAGE_SIZE_BYTES @ '' bytes). Use --prehashed (-H) for files larger than 1 GB.'')"

definition check_file_size_limit :: "path \<Rightarrow> (error, unit) io" where
  "check_file_size_limit p =
     bind_io (map_err_io (FileRead p) (metadata p)) (\<lambda>m.
       if st_len m > MAX_MESSAGE_SIZE_BYTES then throw (message_too_large (st_len m)) else ret ())"

definition read_message_file :: "path \<Rightarrow> (error, bytes) io" where
  "read_message_file p =
     bind_io (map_err_io (FileRead p) (open_file p)) (\<lambda>file.
     bind_io (map_err_io (FileRead p) (fstat file)) (\<lambda>m.
       if st_len m > MAX_MESSAGE_SIZE_BYTES then throw (message_too_large (st_len m))
       else bind_io (map_err_io (FileRead p) (file_reads file)) (\<lambda>reader.
            bind_io (lift_res (map_err (FileRead p)
              (read_to_end (MAX_MESSAGE_SIZE_BYTES + 1) [] reader))) (\<lambda>buf.
              if length buf > MAX_MESSAGE_SIZE_BYTES then throw (message_too_large (length buf))
              else ret buf))))"

section \<open>Writing files\<close>

definition warn_could_not_remove :: "path \<Rightarrow> io_error \<Rightarrow> ('e, unit) io" where
  "warn_could_not_remove p e =
     eprintln (''Warning: could not remove '' @ [CHR 0x27] @ display p @ [CHR 0x27] @ '': ''
       @ io_text e @ ''; delete manually'')"

definition reject_symlink :: "path \<Rightarrow> (error, unit) io" where
  "reject_symlink p =
     bind_io (attempt (symlink_metadata p)) (\<lambda>r.
       case r of
         Inr e \<Rightarrow> (case e of LinkTo t \<Rightarrow> throw (OutputIsSymlink p) | _ \<Rightarrow> ret ())
       | Inl e \<Rightarrow> if io_kind_of e = NotFound then ret () else throw (FileWrite p e))"

definition stage_replacement :: "path \<Rightarrow> path \<Rightarrow> bytes \<Rightarrow> nat option \<Rightarrow> (error, unit) io" where
  "stage_replacement p tmp contents unix_mode =
     bind_io (map_err_io (FileWrite tmp)
       (create_new tmp (case unix_mode of None \<Rightarrow> DEFAULT_FILE_MODE | Some m \<Rightarrow> m))) (\<lambda>file.
     bind_io (case unix_mode of
                None \<Rightarrow> ret ()
              | Some mode \<Rightarrow> map_err_io (FileWrite tmp) (fchmod file mode)) (\<lambda>_.
     bind_io (map_err_io (FileWrite tmp) (write_all file contents)) (\<lambda>_.
     bind_io (map_err_io (FileWrite tmp) sync_all) (\<lambda>_.
       map_err_io (FileWrite p) (rename_file tmp p)))))"

definition discard_failed :: "path \<Rightarrow> error + unit \<Rightarrow> (error, unit) io" where
  "discard_failed tmp result =
     (if is_ok result then ret ()
      else bind_io (attempt (remove_file tmp)) (\<lambda>r.
             case r of
               Inl e \<Rightarrow> if io_kind_of e = NotFound then ret () else warn_could_not_remove tmp e
             | Inr _ \<Rightarrow> ret ()))"

definition atomic_replace_file :: "path \<Rightarrow> bytes \<Rightarrow> nat option \<Rightarrow> (error, unit) io" where
  "atomic_replace_file p contents unix_mode =
     bind_io (lift_res (validate_windows_path p)) (\<lambda>_.
     bind_io (sibling_temp_path p ''tmp'') (\<lambda>tmp.
     bind_io (attempt (stage_replacement p tmp contents unix_mode)) (\<lambda>result.
     bind_io (discard_failed tmp result) (\<lambda>_.
     bind_io (lift_res result) (\<lambda>_. sync_parent_directory p)))))"

definition write_file :: "path \<Rightarrow> bytes \<Rightarrow> bool \<Rightarrow> (error, unit) io" where
  "write_file p contents force =
     bind_io (lift_res (validate_windows_path p)) (\<lambda>_.
       if force then bind_io (reject_symlink p) (\<lambda>_. atomic_replace_file p contents None)
       else
         bind_io (map_err_io (\<lambda>e. if io_kind_of e = AlreadyExists then FileExists p else FileWrite p e)
           (create_new p DEFAULT_FILE_MODE)) (\<lambda>file.
         bind_io (map_err_io (FileWrite p) (write_all file contents)) (\<lambda>_. ret ())))"

definition stage_new_secret_key :: "path \<Rightarrow> path \<Rightarrow> bytes \<Rightarrow> nat \<Rightarrow> (error, unit) io" where
  "stage_new_secret_key p tmp contents mode =
     bind_io (map_err_io (FileWrite tmp) (create_new tmp mode)) (\<lambda>file.
     bind_io (map_err_io (FileWrite p) (fchmod file mode)) (\<lambda>_.
     bind_io (map_err_io (FileWrite tmp) (write_all file contents)) (\<lambda>_.
     bind_io (map_err_io (FileWrite tmp) sync_all) (\<lambda>_.
     bind_io (map_err_io (\<lambda>e. if io_kind_of e = AlreadyExists then FileExists p else FileWrite p e)
       (hard_link tmp p)) (\<lambda>_.
       sync_parent_directory p)))))"

definition atomic_create_secret_key :: "path \<Rightarrow> bytes \<Rightarrow> nat \<Rightarrow> (error, unit) io" where
  "atomic_create_secret_key p contents mode =
     bind_io (lift_res (validate_windows_path p)) (\<lambda>_.
     bind_io (sibling_temp_path p ''tmp'') (\<lambda>tmp.
     bind_io (attempt (stage_new_secret_key p tmp contents mode)) (\<lambda>result.
     bind_io (attempt (remove_file tmp)) (\<lambda>r.
     bind_io (case r of Inl e \<Rightarrow> warn_could_not_remove tmp e | Inr _ \<Rightarrow> ret ()) (\<lambda>_.
       lift_res result)))))"

definition write_secret_key_file :: "path \<Rightarrow> bytes \<Rightarrow> bool \<Rightarrow> (error, unit) io" where
  "write_secret_key_file p contents force =
     (if force then atomic_replace_file p contents (Some SECRET_KEY_FILE_PERMISSIONS)
      else atomic_create_secret_key p contents SECRET_KEY_FILE_PERMISSIONS)"

definition write_public_key_file :: "path \<Rightarrow> string \<Rightarrow> bool \<Rightarrow> (error, unit) io" where
  "write_public_key_file p contents force = write_file p (as_bytes contents) force"

definition write_signature_file :: "path \<Rightarrow> string \<Rightarrow> bool \<Rightarrow> (error, unit) io" where
  "write_signature_file p contents force = write_file p (as_bytes contents) force"

section \<open>Destinations\<close>

text \<open>The inner function of \<open>resolve_destination\<close>, on the components of the absolute path.\<close>

function resolve_components :: "component list \<Rightarrow> (io_error, path) io" where
  "resolve_components cs =
     (if cs = [] \<or> last cs = RootDir then ret (render_path cs)
      else
        bind_io (attempt (canonicalize (render_path (butlast cs)))) (\<lambda>r.
        bind_io (case r of
                   Inr canonical \<Rightarrow> ret canonical
                 | Inl e \<Rightarrow> if io_kind_of e = NotFound then resolve_components (butlast cs) else throw e)
        (\<lambda>parent.
          ret (case last cs of
                 ParentDir \<Rightarrow> (case path_parent parent of None \<Rightarrow> parent | Some d \<Rightarrow> d)
               | CurDir \<Rightarrow> parent
               | RootDir \<Rightarrow> parent
               | NormalComp n \<Rightarrow> path_join parent n))))"
  by pat_completeness auto
termination
  by (relation "measure length") auto

declare resolve_components.simps [simp del]

definition resolve_destination :: "path \<Rightarrow> (error, path) io" where
  "resolve_destination p =
     map_err_io (FileWrite p) (bind_io (absolute p) (\<lambda>a. resolve_components (components a)))"

fun alias_loop :: "path \<Rightarrow> path \<Rightarrow> path list \<Rightarrow> (error, unit) io" where
  "alias_loop output destination [] = ret ()"
| "alias_loop output destination (other # others) =
     bind_io (attempt (canonicalize other)) (\<lambda>r.
     bind_io (case r of
                Inr canonical \<Rightarrow> ret canonical
              | Inl e \<Rightarrow> if io_kind_of e = NotFound then resolve_destination other
                         else throw (FileWrite other e)) (\<lambda>resolved.
       if components resolved = components destination then throw (OutputAlias output other)
       else alias_loop output destination others))"

definition reject_output_alias :: "path \<Rightarrow> path list \<Rightarrow> (error, unit) io" where
  "reject_output_alias output others =
     bind_io (resolve_destination output) (\<lambda>destination. alias_loop output destination others)"

section \<open>Printing a path\<close>

definition sanitise_char :: "nat \<Rightarrow> string" where
  "sanitise_char code =
     (if code < 0x20 \<or> code = 0x7F \<or> (0x80 \<le> code \<and> code \<le> 0x9F)
      then [CHR 0x5C, CHR ''x''] @ hex_upper 2 code else utf8_encode code)"

definition sanitised_path_display :: "path \<Rightarrow> string" where
  "sanitised_path_display p =
     (let raw = to_string_lossy p
      in foldl (\<lambda>out c. out @ sanitise_char c) [] (chars raw))"

end
