(* ===== verification/Passwords.thy ===== *)
theory Passwords
  imports Cli CredStore FileUtils
begin

text \<open>
  The part of \<open>main.rs\<close> that deals with passwords: asking for one at the terminal or reading it
  from a file, and the credential store with the messages about it.
\<close>

definition MIN_RECOMMENDED_PASSWORD_LEN :: nat where "MIN_RECOMMENDED_PASSWORD_LEN = 8"

section \<open>Console\<close>

definition flush :: "(io_error, unit) io" where
  "flush = query (\<lambda>w. Inr ())"

definition flush_stderr :: "(error, unit) io" where
  "flush_stderr = map_err_io (\<lambda>e. Io (''Failed to flush stderr: '' @ io_text e)) flush"

definition read_password :: "host \<Rightarrow> (io_error, string) io" where
  "read_password H w = (h_typed H (w_calls w), w\<lparr>w_calls := Suc (w_calls w)\<rparr>)"

definition is_interactive :: "host \<Rightarrow> bool" where
  "is_interactive H = h_terminal H"

text \<open>\<open>char::is_whitespace\<close> and \<open>str::trim_end\<close>.\<close>

definition is_whitespace :: "nat \<Rightarrow> bool" where
  "is_whitespace c \<longleftrightarrow>
     0x09 \<le> c \<and> c \<le> 0x0D \<or> c \<in> {0x20, 0x85, 0xA0, 0x1680, 0x2028, 0x2029, 0x202F, 0x205F, 0x3000}
     \<or> 0x2000 \<le> c \<and> c \<le> 0x200A"

definition trim_end :: "string \<Rightarrow> string" where
  "trim_end s = concat (map utf8_encode (rev (dropWhile is_whitespace (rev (chars s)))))"

section \<open>Asking for a password\<close>

definition open_password_file :: "path \<Rightarrow> (io_error, handle) io" where
  "open_password_file p = open_file p"

definition read_password_file :: "path \<Rightarrow> (error, string) io" where
  "read_password_file p =
     bind_io (eprintln ''Warning: --password-file is insecure and should only be used for testing purposes.'')
     (\<lambda>_.
     bind_io (map_err_io (\<lambda>e. Io (''Failed to open password file: '' @ io_text e)) (open_password_file p))
     (\<lambda>file.
     bind_io (map_err_io (\<lambda>e. Io (''Failed to stat password file: '' @ io_text e)) (fstat file)) (\<lambda>m.
       if st_is_dir m then
         throw (Io (''Password file '' @ [CHR 0x27] @ sanitised_path_display p @ [CHR 0x27]
           @ '' is not a regular file''))
       else if st_len m > MAX_PASSWORD_FILE_BYTES then
         throw (Io (''Password file too large: '' @ dec (st_len m) @ '' bytes exceeds maximum ''
           @ dec MAX_PASSWORD_FILE_BYTES @ '' bytes''))
       else
         let failed = (\<lambda>e. Io (''Failed to read password file: '' @ io_text e))
         in bind_io (map_err_io failed (file_reads file)) (\<lambda>reader.
            bind_io (lift_res (map_err failed (read_to_end (MAX_PASSWORD_FILE_BYTES + 1) [] reader))) (\<lambda>buf.
              if length buf > MAX_PASSWORD_FILE_BYTES then
                throw (Io (''Password file too large: exceeds maximum ''
                  @ dec MAX_PASSWORD_FILE_BYTES @ '' bytes''))
              else
                bind_io (lift_res (map_err (\<lambda>_. Io ''Password file contains invalid UTF-8'') (from_utf8 buf)))
                  (\<lambda>t. ret (trim_end t)))))))"

definition prompt_password :: "host \<Rightarrow> string \<Rightarrow> path option \<Rightarrow> (error, string) io" where
  "prompt_password H prompt password_file =
     (case password_file of
        Some p \<Rightarrow> read_password_file p
      | None \<Rightarrow>
          (if \<not> is_interactive H then
             throw (Usage (''Cannot prompt for password in non-interactive mode. ''
               @ ''Use -W flag to skip password or --password-file.''))
           else
             bind_io (print_out prompt) (\<lambda>_.
             bind_io (map_err_io (\<lambda>e. Io (''Failed to flush stdout: '' @ io_text e)) flush) (\<lambda>_.
               map_err_io (\<lambda>e. if io_kind_of e = InterruptedIo then Interrupted
                               else Io (''Failed to read password: '' @ io_text e))
                 (read_password H)))))"

definition prompt_password_with_confirmation :: "host \<Rightarrow> path option \<Rightarrow> (error, string) io" where
  "prompt_password_with_confirmation H password_file =
     (if password_file \<noteq> None then prompt_password H ''Password: '' password_file
      else
        bind_io (prompt_password H ''Password: '' None) (\<lambda>password1.
        bind_io (prompt_password H ''Password (one more time): '' None) (\<lambda>password2.
          if as_bytes password1 \<noteq> as_bytes password2 then throw PasswordMismatch
          else
            bind_io (if length password1 < MIN_RECOMMENDED_PASSWORD_LEN then
                       eprintln (''Warning: short password. Consider using at least ''
                         @ dec MIN_RECOMMENDED_PASSWORD_LEN @ '' characters.'')
                     else ret ()) (\<lambda>_. ret password1))))"

section \<open>The credential store\<close>

definition get_password_with_credential_store ::
  "build \<Rightarrow> host \<Rightarrow> string \<Rightarrow> string \<Rightarrow> bool \<Rightarrow> path option \<Rightarrow> (error, string) io" where
  "get_password_with_credential_store B H key_id prompt quiet password_file =
     (if password_file \<noteq> None then prompt_password H prompt password_file
      else
        bind_io (get_password B key_id) (\<lambda>saved.
          case saved of
            Some saved_pwd \<Rightarrow>
              bind_io (if \<not> quiet then eprintln ''Using saved password from credential store'' else ret ())
                (\<lambda>_. ret saved_pwd)
          | None \<Rightarrow> prompt_password H prompt None))"

definition extra_line :: "string option \<Rightarrow> ('e, unit) io" where
  "extra_line msg = (case msg of None \<Rightarrow> ret () | Some m \<Rightarrow> eprintln m)"

definition complain :: "string \<Rightarrow> string option \<Rightarrow> ('e, unit) io" where
  "complain m extra_context_on_error = bind_io (eprintln m) (\<lambda>_. extra_line extra_context_on_error)"

text \<open>What was saved is read back before it is called saved.\<close>

definition check_saved_password ::
  "(path \<Rightarrow> string) \<Rightarrow> build \<Rightarrow> string \<Rightarrow> string \<Rightarrow> bool \<Rightarrow> string option \<Rightarrow> ('e, unit) io" where
  "check_saved_password dbg B key_id pwd quiet extra_context_on_error =
     bind_io (attempt (get_password B key_id)) (\<lambda>r.
       case r of
         Inr (Some retrieved) \<Rightarrow>
           (if as_bytes retrieved = as_bytes pwd then
              (if \<not> quiet then eprintln ''Password saved to OS credential store'' else ret ())
            else complain (''Error: credential store save appeared to succeed but the retrieved ''
                   @ ''password does not match; your password was NOT persisted.'') extra_context_on_error)
       | Inr None \<Rightarrow>
           complain (''Error: credential store save appeared to succeed but the entry cannot be ''
             @ ''retrieved; your password was NOT persisted.'') extra_context_on_error
       | Inl e \<Rightarrow>
           complain (''Error: credential store save appeared to succeed but verification failed: ''
             @ display_error dbg e @ ''; your password may NOT have been persisted.'')
             extra_context_on_error)"

definition save_password_to_credential_store ::
  "(path \<Rightarrow> string) \<Rightarrow> build \<Rightarrow> string \<Rightarrow> string option \<Rightarrow> bool \<Rightarrow> bool \<Rightarrow> string option
     \<Rightarrow> ('e, unit) io" where
  "save_password_to_credential_store dbg B key_id password save quiet extra_context_on_error =
     (if save then
        (case password of
           Some pwd \<Rightarrow>
             bind_io (attempt (save_password B key_id pwd)) (\<lambda>r.
               case r of
                 Inr _ \<Rightarrow> check_saved_password dbg B key_id pwd quiet extra_context_on_error
               | Inl e \<Rightarrow>
                   complain (''Warning: Failed to save password to credential store: ''
                     @ display_error dbg e) extra_context_on_error)
         | None \<Rightarrow> eprintln ''Warning: --save-password ignored (key has no password)'')
      else ret ())"

definition forget_password_with_feedback ::
  "(path \<Rightarrow> string) \<Rightarrow> build \<Rightarrow> string \<Rightarrow> bool \<Rightarrow> (error, unit) io" where
  "forget_password_with_feedback dbg B cred_id quiet =
     bind_io (map_err_io (\<lambda>e. CredentialStoreError (''Failed to remove password: '' @ display_error dbg e))
       (forget_password B cred_id)) (\<lambda>_.
       if \<not> quiet then println ''Password removed from credential store'' else ret ())"

end
