(* ===== verification/Utf8.thy ===== *)
theory Utf8
  imports Text
begin

text \<open>
  UTF-8 encoding and decoding fit together: decoding yields Unicode scalar values only, and
  what \<open>String::push\<close> writes decodes to the characters pushed. So the lossy rendering of
  any bytes is valid text with the same characters, and never shorter than the bytes.
\<close>

definition scalar_value :: "nat \<Rightarrow> bool" where
  "scalar_value c \<longleftrightarrow> c < 0xD800 \<or> 0xE000 \<le> c \<and> c < 0x110000"

section \<open>Decoding what was encoded\<close>

definition encode_nats :: "nat \<Rightarrow> nat list" where
  "encode_nats c =
     (if c < 0x80 then [c]
      else if c < 0x800 then [0xC0 + c div 64, 0x80 + c mod 64]
      else if c < 0x10000 then [0xE0 + c div 4096, 0x80 + c div 64 mod 64, 0x80 + c mod 64]
      else [0xF0 + c div 262144, 0x80 + c div 4096 mod 64, 0x80 + c div 64 mod 64,
            0x80 + c mod 64])"

lemma utf8_encode_nats: "utf8_encode c = map char_of (encode_nats c)"
  by (simp add: utf8_encode_def encode_nats_def)

lemma div_mod_64: "(c :: nat) div 64 * 64 + c mod 64 = c"
  by simp

lemma div_4096: "(c :: nat) div 4096 = c div 64 div 64"
  by (simp add: div_mult2_eq [symmetric])

lemma div_262144: "(c :: nat) div 262144 = c div 64 div 64 div 64"
  by (simp add: div_mult2_eq [symmetric])

lemma encode_nats_byte: "scalar_value c \<Longrightarrow> b \<in> set (encode_nats c) \<Longrightarrow> b < 256"
proof -
  assume c: "scalar_value c" and b: "b \<in> set (encode_nats c)"
  have m: "c mod 64 < 64" "c div 64 mod 64 < 64" "c div 4096 mod 64 < 64" by simp_all
  have d: "c < 0x800 \<Longrightarrow> c div 64 < 32" "c < 0x10000 \<Longrightarrow> c div 4096 < 16"
    "c < 0x110000 \<Longrightarrow> c div 262144 < 5"
    by (simp_all add: div_less_iff_less_mult)
  have "c < 0x110000" using c by (auto simp: scalar_value_def)
  with b m d show "b < 256" by (auto simp: encode_nats_def split: if_splits)
qed

lemma of_char_encode: "scalar_value c \<Longrightarrow> map of_char (utf8_encode c) = encode_nats c"
  using encode_nats_byte [of c] by (simp add: utf8_encode_nats of_char_of map_idI)

lemma units_2:
  "0x80 \<le> c \<Longrightarrow> c < 0x800 \<Longrightarrow>
     utf8_units ((0xC0 + c div 64) # (0x80 + c mod 64) # rest) = Scalar c 2 # utf8_units rest"
proof -
  assume c: "0x80 \<le> c" "c < 0x800"
  have q: "2 \<le> c div 64" "c div 64 < 32" using c by (auto simp: div_less_iff_less_mult less_eq_div_iff_mult_less_eq)
  have r: "c mod 64 < 64" by simp
  have v: "c div 64 * 64 + c mod 64 = c" by simp
  show ?thesis using q r v by (simp add: utf8_step_def utf8_step2_def cont_byte_def)
qed

lemma units_3:
  assumes "0x800 \<le> c" "c < 0x10000" "scalar_value c"
  shows "utf8_units ((0xE0 + c div 4096) # (0x80 + c div 64 mod 64) # (0x80 + c mod 64) # rest)
     = Scalar c 3 # utf8_units rest"
proof -
  define x y z where "x = c div 4096" and "y = c div 64 mod 64" and "z = c mod 64"
  have q: "c div 64 = x * 64 + y" unfolding x_def y_def div_4096 by simp
  have v: "(x * 64 + y) * 64 + z = c" unfolding q [symmetric] z_def by simp
  then have v': "4096 * x + 64 * y + z = c" by (simp add: algebra_simps)
  have r: "y < 64" "z < 64" "x < 16"
    using assms(2) by (auto simp: x_def y_def z_def div_less_iff_less_mult)
  have e0: "32 \<le> y" if "x = 0" using v' assms(1) r that by linarith
  have ed: "y < 32" if "x = 13" using v' assms(3) r that unfolding scalar_value_def by linarith
  have s: "second_byte (0xE0 + x) (0x80 + y)"
    using r e0 ed by (auto simp: second_byte_def cont_byte_def)
  show ?thesis
    unfolding x_def [symmetric] y_def [symmetric] z_def [symmetric]
    using r s v by (simp add: utf8_step_def utf8_step3_def cont_byte_def numeral_2_eq_2 numeral_3_eq_3)
qed

lemma units_4:
  assumes "0x10000 \<le> c" "c < 0x110000"
  shows "utf8_units ((0xF0 + c div 262144) # (0x80 + c div 4096 mod 64) # (0x80 + c div 64 mod 64)
      # (0x80 + c mod 64) # rest) = Scalar c 4 # utf8_units rest"
proof -
  define w x y z where "w = c div 262144" and "x = c div 4096 mod 64" and "y = c div 64 mod 64"
    and "z = c mod 64"
  have p: "c div 4096 = w * 64 + x" unfolding w_def x_def div_262144 div_4096 by simp
  have q: "c div 64 = (w * 64 + x) * 64 + y" unfolding p [symmetric] y_def div_4096 by simp
  have v: "((w * 64 + x) * 64 + y) * 64 + z = c" unfolding q [symmetric] z_def by simp
  then have v': "262144 * w + 4096 * x + 64 * y + z = c" by (simp add: algebra_simps)
  have r: "x < 64" "y < 64" "z < 64" "w < 5"
    using assms(2) by (auto simp: w_def x_def y_def z_def div_less_iff_less_mult)
  have f0: "16 \<le> x" if "w = 0" using v' assms(1) r that by linarith
  have f4: "x < 16" if "w = 4" using v assms(2) r that by presburger
  have s: "second_byte (0xF0 + w) (0x80 + x)"
    using r f0 f4 by (auto simp: second_byte_def cont_byte_def)
  have st: "utf8_step (0xF0 + w) ((0x80 + x) # (0x80 + y) # (0x80 + z) # rest) = Scalar c 4"
    using r s v by (simp add: utf8_step_def utf8_step4_def cont_byte_def)
  show ?thesis
    unfolding w_def [symmetric] x_def [symmetric] y_def [symmetric] z_def [symmetric]
    using st by (simp add: numeral_3_eq_3)
qed

lemma utf8_units_encode:
  "scalar_value c \<Longrightarrow>
     utf8_units (encode_nats c @ rest) = Scalar c (length (utf8_encode c)) # utf8_units rest"
proof -
  assume c: "scalar_value c"
  then have "c < 0x110000" by (auto simp: scalar_value_def)
  then show ?thesis
    using units_2 [of c rest] units_3 [of c rest] units_4 [of c rest] c
    by (auto simp: encode_nats_def utf8_encode_nats utf8_step_def simp del: utf8_units.simps(2))
      (simp add: utf8_step_def)
qed

definition push_all :: "nat list \<Rightarrow> string" where
  "push_all cs = concat (map utf8_encode cs)"

lemma utf8_units_push_all:
  "\<forall>c \<in> set cs. scalar_value c \<Longrightarrow>
     utf8_units (map of_char (push_all cs)) = map (\<lambda>c. Scalar c (length (utf8_encode c))) cs"
  by (induction cs) (auto simp: push_all_def of_char_encode utf8_units_encode)

lemma chars_push_all: "\<forall>c \<in> set cs. scalar_value c \<Longrightarrow> chars (push_all cs) = cs"
  by (simp add: chars_def utf8_units_push_all comp_def)

lemma is_utf8_push_all: "\<forall>c \<in> set cs. scalar_value c \<Longrightarrow> is_utf8 (push_all cs)"
  by (auto simp: is_utf8_def utf8_units_push_all intro!: utf8_scan_scalars)

section \<open>Decoding gives scalar values\<close>

lemma step2_scalar:
  "0xC2 \<le> a \<Longrightarrow> a \<le> 0xDF \<Longrightarrow> scalar_value (unit_char (utf8_step2 a r))"
  by (cases r) (auto simp: utf8_step2_def scalar_value_def cont_byte_def)

lemma step3_scalar:
  assumes "0xE0 \<le> a" "a \<le> 0xEF"
  shows "scalar_value (unit_char (utf8_step3 a r))"
proof (cases r)
  case (Cons b r')
  show ?thesis
  proof (cases r')
    case (Cons c r'')
    show ?thesis
      using assms \<open>r = b # r'\<close> Cons
      by (cases "a = 0xED")
        (auto simp: utf8_step3_def scalar_value_def second_byte_def cont_byte_def split: if_splits)
  qed (use assms \<open>r = b # r'\<close> in \<open>auto simp: utf8_step3_def scalar_value_def\<close>)
qed (auto simp: utf8_step3_def scalar_value_def)

lemma step4_scalar:
  assumes "0xF0 \<le> a" "a \<le> 0xF4"
  shows "scalar_value (unit_char (utf8_step4 a r))"
proof (cases "\<exists>b c d r'. r = b # c # d # r'")
  case True
  then obtain b c d r' where r: "r = b # c # d # r'" by blast
  have "scalar_value ((((a - 0xF0) * 64 + (b - 0x80)) * 64 + (c - 0x80)) * 64 + (d - 0x80))"
    if "second_byte a b" "cont_byte c" "cont_byte d"
  proof -
    note high = second_byte_high [OF that(1)] cont_byte_high [OF that(2)] cont_byte_high [OF that(3)]
    obtain w where w: "a = 0xF0 + w" using assms(1) le_Suc_ex by blast
    then have w4: "w \<le> 4" using assms(2) by simp
    obtain x where x: "b = 0x80 + x" using le_Suc_ex [OF high(1)] by blast
    obtain y where y: "c = 0x80 + y" using le_Suc_ex [OF high(2)] by blast
    obtain z where z: "d = 0x80 + z" using le_Suc_ex [OF high(3)] by blast
    have small: "x < 64" "y < 64" "z < 64" "w = 0 \<Longrightarrow> 16 \<le> x" "w = 4 \<Longrightarrow> x < 16"
      using that by (auto simp: w x y z second_byte_def cont_byte_def split: if_splits)
    have "0x10000 \<le> 262144 * w + 4096 * x + 64 * y + z"
      using small(4) by (cases "w = 0") linarith+
    moreover have "262144 * w + 4096 * x + 64 * y + z < 0x110000"
      using small w4 by (cases "w = 4") linarith+
    moreover have "(((a - 0xF0) * 64 + (b - 0x80)) * 64 + (c - 0x80)) * 64 + (d - 0x80)
        = 262144 * w + 4096 * x + 64 * y + z"
      by (simp add: w x y z algebra_simps)
    ultimately show ?thesis unfolding scalar_value_def by (simp only:) simp
  qed
  then show ?thesis by (simp add: r utf8_step4_def) (simp add: scalar_value_def)
next
  case False
  then show ?thesis
    by (auto simp: utf8_step4_def scalar_value_def split: list.splits)
qed

lemma unit_char_scalar: "a < 256 \<Longrightarrow> scalar_value (unit_char (utf8_step a r))"
  using step2_scalar [of a r] step3_scalar [of a r] step4_scalar [of a r]
  by (auto simp: utf8_step_def scalar_value_def)

lemma utf8_units_scalar:
  "\<forall>b \<in> set bs. b < 256 \<Longrightarrow> u \<in> set (utf8_units bs) \<Longrightarrow> scalar_value (unit_char u)"
proof (induction bs rule: utf8_units.induct)
  case 1
  then show ?case by simp
next
  case (2 a r)
  then show ?case using unit_char_scalar [of a r] by (auto dest: in_set_dropD)
qed

lemma chars_scalar: "c \<in> set (chars s) \<Longrightarrow> scalar_value c"
  using utf8_units_scalar [of "map of_char s"] of_char_less by (auto simp: chars_def)

lemma to_string_lossy_push_all: "to_string_lossy s = push_all (chars s)"
  by (simp add: to_string_lossy_def push_all_def)

text \<open>The lossy rendering is valid text with the characters of the original.\<close>

lemma chars_to_string_lossy: "chars (to_string_lossy s) = chars s"
  using chars_scalar by (simp add: to_string_lossy_push_all chars_push_all)

lemma is_utf8_to_string_lossy: "is_utf8 (to_string_lossy s)"
  using chars_scalar by (simp add: to_string_lossy_push_all is_utf8_push_all)

section \<open>The lossy rendering is never shorter\<close>

lemma unit_width_encode: "unit_width (utf8_step a r) \<le> length (utf8_encode (unit_char (utf8_step a r)))"
proof -
  have e: "length (utf8_encode 0xFFFD) = 3" by (simp add: utf8_encode_def)
  have 2: "0xC2 \<le> a \<Longrightarrow> unit_width (utf8_step2 a r) \<le> length (utf8_encode (unit_char (utf8_step2 a r)))"
    by (cases r) (auto simp: utf8_step2_def e cont_byte_def utf8_encode_def)
  have 3: "unit_width (utf8_step3 a r) \<le> length (utf8_encode (unit_char (utf8_step3 a r)))"
    if "0xE0 \<le> a"
  proof (cases "\<exists>b c r'. r = b # c # r'")
    case True
    then obtain b c r' where r: "r = b # c # r'" by blast
    have "0x20 \<le> (a - 0xE0) * 64 + (b - 0x80)" if "second_byte a b"
      using that \<open>0xE0 \<le> a\<close> by (cases "a = 0xE0") (auto simp: second_byte_def)
    then show ?thesis by (auto simp: r utf8_step3_def e utf8_encode_def)
  next
    case False
    then show ?thesis by (auto simp: utf8_step3_def e split: list.splits)
  qed
  have 4: "unit_width (utf8_step4 a r) \<le> length (utf8_encode (unit_char (utf8_step4 a r)))"
    if "0xF0 \<le> a"
  proof (cases "\<exists>b c d r'. r = b # c # d # r'")
    case True
    then obtain b c d r' where r: "r = b # c # d # r'" by blast
    have "0x10 \<le> (a - 0xF0) * 64 + (b - 0x80)" if "second_byte a b"
      using that \<open>0xF0 \<le> a\<close> by (cases "a = 0xF0") (auto simp: second_byte_def)
    then show ?thesis by (auto simp: r utf8_step4_def e utf8_encode_def)
  next
    case False
    then show ?thesis by (auto simp: utf8_step4_def e split: list.splits)
  qed
  show ?thesis
    using 2 3 4 by (auto simp: utf8_step_def e) (simp add: utf8_encode_def)
qed

lemma length_units: "length bs \<le> length (push_all (map unit_char (utf8_units bs)))"
proof (induction bs rule: utf8_units.induct)
  case 1
  then show ?case by simp
next
  case (2 a r)
  let ?w = "unit_width (utf8_step a r)"
  have "length (a # r) \<le> ?w + length (drop (?w - 1) r)"
    using unit_width_pos [of a r] by simp
  also have "\<dots> \<le> length (utf8_encode (unit_char (utf8_step a r)))
      + length (push_all (map unit_char (utf8_units (drop (?w - 1) r))))"
    using 2 unit_width_encode [of a r] by (rule add_mono [rotated])
  finally show ?case by (simp add: push_all_def)
qed

lemma length_to_string_lossy: "length s \<le> length (to_string_lossy s)"
  using length_units [of "map of_char s"] by (simp add: to_string_lossy_push_all chars_def)

section \<open>ASCII bytes of the rendering\<close>

lemma utf8_step_small: "unit_char (utf8_step a r) < 0x80 \<Longrightarrow> unit_char (utf8_step a r) = a"
proof -
  assume small: "unit_char (utf8_step a r) < 0x80"
  then have w: "unit_width (utf8_step a r) \<le> 1"
    using unit_width_encode [of a r] by (simp add: utf8_encode_def)
  have "unit_char (utf8_step2 a r) < 0x80 \<Longrightarrow> unit_width (utf8_step2 a r) = 2"
    "unit_char (utf8_step3 a r) < 0x80 \<Longrightarrow> unit_width (utf8_step3 a r) = 3"
    "unit_char (utf8_step4 a r) < 0x80 \<Longrightarrow> unit_width (utf8_step4 a r) = 4"
    by (auto simp: utf8_step2_def utf8_step3_def utf8_step4_def split: list.splits if_splits)
  then show ?thesis using small w by (auto simp: utf8_step_def split: if_splits)
qed

lemma utf8_units_small:
  "u \<in> set (utf8_units bs) \<Longrightarrow> unit_char u < 0x80 \<Longrightarrow> unit_char u \<in> set bs"
proof (induction bs rule: utf8_units.induct)
  case (2 a r)
  then show ?case using utf8_step_small [of a r] by (auto dest: in_set_dropD)
qed simp

lemma chars_small: "c \<in> set (chars s) \<Longrightarrow> c < 0x80 \<Longrightarrow> char_of c \<in> set s"
proof -
  assume "c \<in> set (chars s)" "c < 0x80"
  then have "c \<in> of_char ` set s"
    using utf8_units_small [of _ "map of_char s"] by (auto simp: chars_def)
  then show "char_of c \<in> set s" by auto
qed

lemma encode_nats_high: "0x80 \<le> c \<Longrightarrow> b \<in> set (encode_nats c) \<Longrightarrow> 0x80 \<le> b"
  by (auto simp: encode_nats_def split: if_splits)

lemma utf8_encode_ascii:
  "scalar_value c \<Longrightarrow> x \<in> set (utf8_encode c) \<Longrightarrow> of_char x < (0x80 :: nat) \<Longrightarrow> x = char_of c \<and> c < 0x80"
proof -
  assume c: "scalar_value c" and x: "x \<in> set (utf8_encode c)" "of_char x < (0x80 :: nat)"
  have "of_char x \<in> set (encode_nats c)"
    unfolding of_char_encode [OF c, symmetric] using x(1) by simp
  then have "\<not> 0x80 \<le> c" using encode_nats_high [of c "of_char x"] x(2) by auto
  then have "c < 0x80" by simp
  then show ?thesis using x(1) by (simp add: utf8_encode_def)
qed

lemma to_string_lossy_ascii:
  "x \<in> set (to_string_lossy s) \<Longrightarrow> of_char x < (0x80 :: nat) \<Longrightarrow> x \<in> set s"
  using chars_scalar utf8_encode_ascii chars_small
  by (fastforce simp: to_string_lossy_def)

section \<open>Concatenation\<close>

text \<open>A complete sequence is read the same whatever follows it.\<close>

lemma utf8_step2_append:
  "utf8_step2 a r = Scalar c n \<Longrightarrow> utf8_step2 a (r @ s) = Scalar c n \<and> n - 1 \<le> length r"
  by (cases r) (auto simp: utf8_step2_def split: if_splits)

lemma utf8_step3_append:
  "utf8_step3 a r = Scalar c n \<Longrightarrow> utf8_step3 a (r @ s) = Scalar c n \<and> n - 1 \<le> length r"
  by (auto simp: utf8_step3_def split: if_splits list.splits)

lemma utf8_step4_append:
  "utf8_step4 a r = Scalar c n \<Longrightarrow> utf8_step4 a (r @ s) = Scalar c n \<and> n - 1 \<le> length r"
  by (auto simp: utf8_step4_def split: if_splits list.splits)

lemma utf8_step_append:
  "utf8_step a r = Scalar c n \<Longrightarrow> utf8_step a (r @ s) = Scalar c n \<and> n - 1 \<le> length r"
  using utf8_step2_append utf8_step3_append utf8_step4_append
  by (auto simp: utf8_step_def split: if_splits)

lemma utf8_scan_None: "utf8_scan pos us = None \<Longrightarrow> \<forall>u \<in> set us. \<exists>c n. u = Scalar c n"
  by (induction pos us rule: utf8_scan.induct) auto

lemma utf8_units_append:
  "\<forall>u \<in> set (utf8_units bs). \<exists>c n. u = Scalar c n \<Longrightarrow>
     utf8_units (bs @ cs) = utf8_units bs @ utf8_units cs"
proof (induction bs rule: utf8_units.induct)
  case (2 a r)
  then obtain c n where s: "utf8_step a r = Scalar c n" by auto
  note step = utf8_step_append [OF s, of cs]
  have "n - 1 - length r = 0" using step by auto
  then have "drop (n - 1) (r @ cs) = drop (n - 1) r @ cs" by (simp only: drop_append drop_0)
  then show ?case using 2 s step by simp
qed simp

lemma is_utf8_append: "is_utf8 s \<Longrightarrow> is_utf8 t \<Longrightarrow> is_utf8 (s @ t)"
  unfolding is_utf8_def map_append
  by (rule utf8_scan_scalars) (use utf8_scan_None utf8_units_append in \<open>fastforce\<close>)

end
