(* ===== verification/Keypair.thy ===== *)
theory Keypair
  imports FileUtils PathLemmas KeyUse
begin

text \<open>
  The file half of \<open>ops/generate.rs\<close> on a Unix host: directories made on the way, temporary
  files, the pair of key files created without overwriting, the lock of a forced overwrite, and
  the overwrite itself with its backups, its commit in stages and its rollback.
\<close>

section \<open>Directories\<close>

definition SECRET_KEY_DIR_MODE :: nat where "SECRET_KEY_DIR_MODE = 448"
definition DEFAULT_DIR_MODE :: nat where "DEFAULT_DIR_MODE = 511"

text \<open>\<open>0o700\<close> is 448, and \<open>create_dir_all\<close> asks for \<open>0o777\<close>, which is 511.\<close>

definition is_directory :: "path \<Rightarrow> ('e, bool) io" where
  "is_directory p =
     bind_io (attempt (metadata p)) (\<lambda>r. ret (case r of Inl e \<Rightarrow> False | Inr m \<Rightarrow> st_is_dir m))"

lemma path_parent_components:
  "path_parent p = Some q \<Longrightarrow> components q = butlast (components p)"
  using wf_components_butlast [OF wf_components_components [of p]]
  by (auto simp: path_parent_def Let_def components_render split: if_splits)

lemma path_parent_shorter:
  "path_parent p = Some q \<Longrightarrow> length (components q) < length (components p)"
  using path_parent_components [of p q] by (auto simp: path_parent_def Let_def split: if_splits)

text \<open>\<open>DirBuilder::create\<close> with \<open>recursive\<close>: the ancestors that are missing, then the path.\<close>

definition mkdir_unless_dir :: "path \<Rightarrow> nat \<Rightarrow> (io_error, unit) io" where
  "mkdir_unless_dir p mode =
     bind_io (attempt (mkdir p mode)) (\<lambda>r.
       case r of
         Inr _ \<Rightarrow> ret ()
       | Inl e \<Rightarrow>
           (if io_kind_of e = AlreadyExists then
              bind_io (is_directory p) (\<lambda>d. if d then ret () else throw e)
            else throw e))"

function create_dir_all :: "path \<Rightarrow> nat \<Rightarrow> (io_error, unit) io" where
  "create_dir_all p mode =
     (case path_parent p of
        None \<Rightarrow> ret ()
      | Some q \<Rightarrow>
          bind_io (attempt (mkdir_unless_dir p mode)) (\<lambda>r.
            case r of
              Inr _ \<Rightarrow> ret ()
            | Inl e \<Rightarrow>
                (if io_kind_of e = NotFound then
                   bind_io (create_dir_all q mode) (\<lambda>_. mkdir_unless_dir p mode)
                 else throw e)))"
  by pat_completeness auto
termination
  by (relation "measure (\<lambda>(p, mode). length (components p))") (auto dest: path_parent_shorter)

declare create_dir_all.simps [simp del]

definition ensure_directory :: "nat \<Rightarrow> path \<Rightarrow> (error, unit) io" where
  "ensure_directory mode p =
     (case path_parent p of
        None \<Rightarrow> ret ()
      | Some parent \<Rightarrow>
          bind_io (path_exists parent) (\<lambda>present.
            if present then ret ()
            else map_err_io (FileWrite parent) (create_dir_all parent mode)))"

definition ensure_parent_directory :: "path \<Rightarrow> (error, unit) io" where
  "ensure_parent_directory p = ensure_directory DEFAULT_DIR_MODE p"

definition ensure_secret_key_directory :: "path \<Rightarrow> (error, unit) io" where
  "ensure_secret_key_directory p = ensure_directory SECRET_KEY_DIR_MODE p"

section \<open>Temporary files\<close>

definition warn_cleanup_failure :: "path \<Rightarrow> io_error + unit \<Rightarrow> ('e, unit) io" where
  "warn_cleanup_failure p result =
     (case result of Inl e \<Rightarrow> warn_could_not_remove p e | Inr _ \<Rightarrow> ret ())"

text \<open>\<open>warn_cleanup_failure(path, remove_file(path))\<close>.\<close>

definition discard_file :: "path \<Rightarrow> ('e, unit) io" where
  "discard_file p = bind_io (attempt (remove_file p)) (warn_cleanup_failure p)"

definition discard_files :: "path list \<Rightarrow> ('e, unit) io" where
  "discard_files ps = foldr (\<lambda>p m. bind_io (discard_file p) (\<lambda>_. m)) ps (ret ())"

definition write_temp_file :: "path \<Rightarrow> bytes \<Rightarrow> nat option \<Rightarrow> (error, path) io" where
  "write_temp_file p contents unix_mode =
     bind_io (sibling_temp_path p ''tmp'') (\<lambda>tmp_path.
     bind_io (map_err_io (FileWrite tmp_path)
       (create_new tmp_path (case unix_mode of None \<Rightarrow> DEFAULT_FILE_MODE | Some m \<Rightarrow> m))) (\<lambda>file.
     bind_io (map_err_io (FileWrite tmp_path) (write_all file contents)) (\<lambda>_.
     bind_io (map_err_io (FileWrite tmp_path) sync_all) (\<lambda>_.
       ret tmp_path))))"

text \<open>When \<open>m\<close> fails, the files \<open>ps\<close> are removed in order and its error is returned.\<close>

definition or_discard :: "(error, 'a) io \<Rightarrow> path list \<Rightarrow> (error, 'a) io" where
  "or_discard m ps =
     bind_io (attempt m) (\<lambda>r.
       case r of
         Inl e \<Rightarrow> bind_io (discard_files ps) (\<lambda>_. throw e)
       | Inr x \<Rightarrow> ret x)"

text \<open>The two temporary files of both writers: \<open>0o600\<close> for the secret key.\<close>

definition stage_keypair :: "path \<Rightarrow> path \<Rightarrow> bytes \<Rightarrow> bytes \<Rightarrow> (error, path \<times> path) io" where
  "stage_keypair secret_path public_path secret_contents public_contents =
     bind_io (write_temp_file secret_path secret_contents (Some SECRET_KEY_FILE_PERMISSIONS))
     (\<lambda>secret_tmp.
     bind_io (or_discard (write_temp_file public_path public_contents None) [secret_tmp])
     (\<lambda>public_tmp. ret (secret_tmp, public_tmp)))"

section \<open>Creating a pair\<close>

text \<open>Both files get their names by \<open>hard_link\<close>, which fails when the name is taken. A failure
  removes the names that were given, the last one first, and the temporary files.\<close>

definition link_keypair :: "path \<Rightarrow> path \<Rightarrow> path \<Rightarrow> path \<Rightarrow> (error, unit) io" where
  "link_keypair secret_path public_path secret_tmp public_tmp =
     bind_io (or_discard (map_err_io (FileWrite secret_path) (hard_link secret_tmp secret_path))
                [secret_tmp, public_tmp]) (\<lambda>_.
     bind_io (or_discard (sync_parent_directory secret_path)
                [secret_path, secret_tmp, public_tmp]) (\<lambda>_.
     bind_io (or_discard (map_err_io (FileWrite public_path) (hard_link public_tmp public_path))
                [secret_path, secret_tmp, public_tmp]) (\<lambda>_.
     bind_io (or_discard (sync_parent_directory public_path)
                [public_path, secret_path, secret_tmp, public_tmp]) (\<lambda>_.
       discard_files [secret_tmp, public_tmp]))))"

definition write_keypair_files_create_new :: "path \<Rightarrow> path \<Rightarrow> bytes \<Rightarrow> bytes \<Rightarrow> (error, unit) io" where
  "write_keypair_files_create_new secret_path public_path secret_contents public_contents =
     bind_io (path_exists secret_path) (\<lambda>secret_exists.
     if secret_exists then throw (FileExists secret_path)
     else bind_io (path_exists public_path) (\<lambda>public_exists.
     if public_exists then throw (FileExists public_path)
     else bind_io (stage_keypair secret_path public_path secret_contents public_contents)
     (\<lambda>(secret_tmp, public_tmp). link_keypair secret_path public_path secret_tmp public_tmp)))"

section \<open>The lock\<close>

definition FORCE_OVERWRITE_LOCK_POLL_INTERVAL :: nat where
  "FORCE_OVERWRITE_LOCK_POLL_INTERVAL = 10"
definition FORCE_OVERWRITE_LOCK_TIMEOUT :: nat where
  "FORCE_OVERWRITE_LOCK_TIMEOUT = 30000"

text \<open>Durations are in milliseconds.\<close>

definition force_overwrite_lock_timeout :: "build \<Rightarrow> nat" where
  "force_overwrite_lock_timeout B =
     (if b_debug B then (case b_lock_timeout B of None \<Rightarrow> FORCE_OVERWRITE_LOCK_TIMEOUT | Some t \<Rightarrow> t)
      else FORCE_OVERWRITE_LOCK_TIMEOUT)"

definition set_force_overwrite_lock_timeout_for_tests :: "nat \<Rightarrow> build \<Rightarrow> build" where
  "set_force_overwrite_lock_timeout_for_tests timeout B = B\<lparr>b_lock_timeout := Some timeout\<rparr>"

definition drop_lock_timeout_guard :: "build \<Rightarrow> build" where
  "drop_lock_timeout_guard B = B\<lparr>b_lock_timeout := None\<rparr>"

definition lock_is_stale :: "path \<Rightarrow> nat \<Rightarrow> (error, bool) io" where
  "lock_is_stale p stale_age =
     bind_io (attempt (metadata p)) (\<lambda>r.
       case r of
         Inl e \<Rightarrow> ret False
       | Inr m \<Rightarrow> bind_io now (\<lambda>t. ret (max 0 (t - int (st_mtime m)) \<ge> int stale_age)))"

definition lock_path_of :: "path \<Rightarrow> path" where
  "lock_path_of secret_path =
     with_file_name secret_path
       (''.'' @ to_string_lossy (case file_name secret_path of None \<Rightarrow> ''key'' | Some n \<Rightarrow> n)
        @ ''.force.lock'')"

text \<open>A stale lock is removed with a warning; \<open>True\<close> when the removal succeeded.\<close>

definition clear_stale_lock :: "path \<Rightarrow> nat \<Rightarrow> (error, bool) io" where
  "clear_stale_lock lock_path timeout =
     bind_io (lock_is_stale lock_path (2 * timeout)) (\<lambda>stale.
       if stale then
         bind_io (eprintln (''Warning: removing stale force-overwrite lock ''
                    @ [CHR 0x27] @ display lock_path @ [CHR 0x27] @ '' (older than ''
                    @ dec (2 * timeout div 1000) @ ''s); ''
                    @ ''if another --force is running concurrently this may cause conflicts''))
         (\<lambda>_. bind_io (attempt (remove_file lock_path)) (\<lambda>r. ret (is_ok r)))
       else ret False)"

definition wait_for_lock :: "path \<Rightarrow> nat \<Rightarrow> nat \<Rightarrow> (error, unit) io" where
  "wait_for_lock lock_path timeout started_at =
     bind_io instant_now (\<lambda>t.
       if t - started_at \<ge> timeout then
         throw (Other (''Timed out waiting for force-overwrite lock: '' @ display lock_path))
       else sleep FORCE_OVERWRITE_LOCK_POLL_INTERVAL)"

text \<open>One pass of the loop: \<open>True\<close> holds the lock, \<open>False\<close> goes round again.\<close>

definition acquire_pass :: "path \<Rightarrow> nat \<Rightarrow> nat \<Rightarrow> (error, bool) io" where
  "acquire_pass lock_path timeout started_at =
     bind_io (attempt (create_new lock_path DEFAULT_FILE_MODE)) (\<lambda>r.
       case r of
         Inr _ \<Rightarrow> ret True
       | Inl e \<Rightarrow>
           (if io_kind_of e = AlreadyExists then
              bind_io (clear_stale_lock lock_path timeout) (\<lambda>removed.
                if removed then ret False
                else bind_io (wait_for_lock lock_path timeout started_at) (\<lambda>_. ret False))
            else throw (FileWrite lock_path e)))"

text \<open>The loop ends because a pass that goes round again has either removed an entry at the lock
  path, which is then free, or let time pass below the timeout.\<close>

definition entry_exists :: "fs \<Rightarrow> path \<Rightarrow> bool" where
  "entry_exists s p =
     (case resolve_entry s p of Inl e \<Rightarrow> False | Inr l \<Rightarrow> lookup s l \<noteq> None)"

lemma walk_removed:
  assumes "lookup s' l = None" "\<And>k. k \<noteq> l \<Longrightarrow> lookup s' k = lookup s k"
  shows "walk s' k here cs \<in> {walk s k here cs, Inl ENOENT, Inr l}"
  using assms
proof (induction s' k here cs rule: walk.induct)
  case (5 s' k here n cs)
  show ?case
  proof (cases "here @ [n] = l")
    case True
    then show ?thesis using "5.prems"(1) by simp
  next
    case False
    then have "lookup s' (here @ [n]) = lookup s (here @ [n])" by (rule "5.prems"(2))
    then show ?thesis
      using "5.IH" "5.prems" by (cases "lookup s (here @ [n])") (auto split: entry.split)
  qed
qed auto

lemma remove_file_frees:
  assumes "sys_remove_file p s = (Inr u, s')"
  shows "\<not> entry_exists s' p"
proof -
  obtain l where l: "resolve_entry s p = Inr l" "lookup s l \<noteq> None" "lookup s l \<noteq> Some DirAt"
    "s' = s\<lparr>fs_entries := (fs_entries s)(l := None)\<rparr>"
    using assms by (auto simp: sys_remove_file_def split: sum.splits option.splits entry.splits)
  then have ne: "l \<noteq> []" by (auto simp: lookup_def)
  have gone: "lookup s' l = None" and cwd: "fs_cwd s' = fs_cwd s"
    and same: "\<And>k. k \<noteq> l \<Longrightarrow> lookup s' k = lookup s k"
    using l(4) ne by (auto simp: lookup_def)
  note walk = walk_removed [OF gone same]
  have "lookup s' k = None" if r: "resolve_entry s' p = Inr k" for k
  proof (cases "file_name p")
    case None
    then show ?thesis
      using r l(1) gone walk [of MAX_LINKS "fs_cwd s" "components p"]
      by (auto simp: resolve_entry_def resolve_def cwd split: if_splits)
  next
    case (Some n)
    obtain d where d: "walk s' MAX_LINKS (fs_cwd s) (butlast (components p)) = Inr d"
      "lookup s' d = Some DirAt" "k = d @ [n]"
      using r resolve_entry_Inr [OF Some, of s' k] cwd by auto
    then have "d \<noteq> l" using gone by auto
    then have "walk s MAX_LINKS (fs_cwd s) (butlast (components p)) = Inr d"
      using d(1) walk [of MAX_LINKS "fs_cwd s" "butlast (components p)"] by auto
    moreover have "lookup s d = Some DirAt" using d(2) same [OF \<open>d \<noteq> l\<close>] by simp
    ultimately have "resolve_entry s p = Inr k"
      using resolve_entry_Inr [OF Some, of s k] d(3) by auto
    then show ?thesis using l(1) gone by simp
  qed
  then show ?thesis by (auto simp: entry_exists_def split: sum.split)
qed

lemma create_new_failed:
  "sys_create_new p m t s = (Inl e, s') \<Longrightarrow> s' = s"
  by (auto simp: sys_create_new_def split: sum.splits option.splits prod.splits)

text \<open>What the calls of a pass do to the files and to the clock.\<close>

definition calm :: "world \<Rightarrow> world \<Rightarrow> bool" where
  "calm w w' \<longleftrightarrow> w_fs w' = w_fs w \<and> w_instant w' = w_instant w \<and> w_clock w' = w_clock w"

lemma create_new_calm: "create_new p m w = (Inl e, w') \<Longrightarrow> calm w w'"
  by (auto simp: create_new_def update_def Let_def commit_def calm_def dest: create_new_failed
      split: option.splits prod.splits)

lemma lock_is_stale_calm: "lock_is_stale p a w = (r, w') \<Longrightarrow> calm w w' \<and> (\<exists>b. r = Inr b)"
  by (auto simp: lock_is_stale_def bind_io_def attempt_def metadata_def query_def now_def ret_def
      Let_def calm_def split: option.splits prod.splits sum.splits)

lemma remove_file_failed:
  "sys_remove_file p s = (Inl e, s') \<Longrightarrow> s' = s"
  by (auto simp: sys_remove_file_def split: sum.splits option.splits entry.splits)

lemma remove_file_calm: "remove_file p w = (Inl e, w') \<Longrightarrow> calm w w'"
  by (auto simp: remove_file_def update_def Let_def commit_def calm_def dest: remove_file_failed
      split: option.splits prod.splits)

lemma remove_file_gone:
  "remove_file p w = (Inr u, w') \<Longrightarrow>
     entry_exists (w_fs w) p \<and> \<not> entry_exists (w_fs w') p"
  by (auto simp: remove_file_def update_def Let_def commit_def dest: remove_file_frees
      split: option.splits prod.splits)
    (auto simp: sys_remove_file_def entry_exists_def split: sum.splits option.splits)

lemma eprintln_calm: "eprintln s w = (r, w') \<Longrightarrow> calm w w' \<and> r = Inr ()"
  by (auto simp: eprintln_def print_err_def calm_def)

lemma calm_trans: "calm w w' \<Longrightarrow> calm w' w'' \<Longrightarrow> calm w w''"
  by (simp add: calm_def)

definition again :: "nat \<Rightarrow> path \<Rightarrow> world \<Rightarrow> world \<Rightarrow> bool" where
  "again deadline p w w' \<longleftrightarrow>
     entry_exists (w_fs w) p \<and> \<not> entry_exists (w_fs w') p
     \<or> w_fs w' = w_fs w \<and> w_instant w < w_instant w' \<and> w_instant w < deadline"

lemma clear_stale_lock_cases:
  assumes "clear_stale_lock p timeout w = (r, w')"
  shows "r = Inr True \<and> entry_exists (w_fs w) p \<and> \<not> entry_exists (w_fs w') p
         \<or> r = Inr False \<and> calm w w'"
proof -
  obtain stale w1 where l: "lock_is_stale p (2 * timeout) w = (Inr stale, w1)" and c1: "calm w w1"
    using lock_is_stale_calm by (metis surj_pair)
  show ?thesis
  proof (cases stale)
    case False
    then show ?thesis using assms l c1 by (auto simp: clear_stale_lock_def bind_io_def ret_def)
  next
    case True
    have "\<exists>s. clear_stale_lock p timeout w
        = bind_io (eprintln s) (\<lambda>_. bind_io (attempt (remove_file p)) (\<lambda>r. ret (is_ok r))) w1"
      using True l unfolding clear_stale_lock_def by (auto simp: bind_io_def [of "lock_is_stale p (2 * timeout)"])
    then obtain s where "clear_stale_lock p timeout w
        = bind_io (eprintln s) (\<lambda>_. bind_io (attempt (remove_file p)) (\<lambda>r. ret (is_ok r))) w1" ..
    moreover define w2 where "w2 = w1\<lparr>w_err := w_err w1 @ [s @ [LF]]\<rparr>"
    ultimately have m: "bind_io (attempt (remove_file p)) (\<lambda>r. ret (is_ok r)) w2 = (r, w')"
      using assms by (simp add: bind_io_def [of "print_err (s @ [LF])"] eprintln_def print_err_def)
    have c2: "calm w1 w2" by (simp add: calm_def w2_def)
    obtain q where q: "remove_file p w2 = (q, w')" "r = Inr (is_ok q)"
      using m by (auto simp: bind_io_def attempt_def ret_def split: prod.splits)
    have c: "calm w w2" using c1 c2 by (rule calm_trans)
    then show ?thesis
      using q remove_file_gone [of p w2 _ w'] remove_file_calm [of p w2 _ w']
      by (cases q) (auto simp: calm_def)
  qed
qed

lemma wait_for_lock_cases:
  "wait_for_lock p timeout started_at w = (Inr u, w') \<Longrightarrow>
     w_fs w' = w_fs w \<and> w_instant w < w_instant w' \<and> w_instant w < started_at + timeout"
  by (auto simp: wait_for_lock_def bind_io_def instant_now_def sleep_def throw_def Let_def
      FORCE_OVERWRITE_LOCK_POLL_INTERVAL_def split: if_splits)

lemma acquire_pass_again:
  assumes "acquire_pass lock_path timeout started_at w = (Inr False, w')"
  shows "again (started_at + timeout) lock_path w w'"
proof -
  obtain e w1 where c: "create_new lock_path DEFAULT_FILE_MODE w = (Inl e, w1)"
    "io_kind_of e = AlreadyExists"
    using assms unfolding acquire_pass_def bind_io_def attempt_def ret_def throw_def
    by (auto split: prod.splits sum.splits if_splits)
  obtain r w2 where r: "clear_stale_lock lock_path timeout w1 = (r, w2)" by (rule prod.exhaust)
  have calm: "calm w w1" using c(1) by (rule create_new_calm)
  consider "r = Inr True" "entry_exists (w_fs w1) lock_path" "\<not> entry_exists (w_fs w2) lock_path"
    | "r = Inr False" "calm w1 w2"
    using clear_stale_lock_cases [OF r] by blast
  then show ?thesis
  proof cases
    case 1
    then have "w' = w2"
      using assms c r by (simp add: acquire_pass_def bind_io_def attempt_def ret_def)
    then show ?thesis using 1 calm by (simp add: again_def calm_def)
  next
    case 2
    then obtain u where "wait_for_lock lock_path timeout started_at w2 = (Inr u, w')"
      using assms c r
      by (auto simp: acquire_pass_def bind_io_def attempt_def ret_def split: prod.splits sum.splits)
    then show ?thesis
      using wait_for_lock_cases 2(2) calm by (fastforce simp: again_def calm_def)
  qed
qed

function acquire_loop :: "path \<Rightarrow> nat \<Rightarrow> nat \<Rightarrow> (error, unit) io" where
  "acquire_loop lock_path timeout started_at w =
     (case acquire_pass lock_path timeout started_at w of
        (Inl e, w') \<Rightarrow> (Inl e, w')
      | (Inr held, w') \<Rightarrow>
          if held then (Inr (), w') else acquire_loop lock_path timeout started_at w')"
  by pat_completeness auto
termination
  by (relation "measures
        [\<lambda>(p, timeout, started_at, w). if entry_exists (w_fs w) p then 1 else 0,
         \<lambda>(p, timeout, started_at, w). started_at + timeout - w_instant w]")
    (auto dest!: acquire_pass_again [OF sym] simp: again_def)

declare acquire_loop.simps [simp del]

definition acquire_force_overwrite_lock :: "build \<Rightarrow> path \<Rightarrow> (error, path) io" where
  "acquire_force_overwrite_lock B secret_path =
     (let lock_path = lock_path_of secret_path
      in bind_io instant_now (\<lambda>started_at.
         bind_io (acquire_loop lock_path (force_overwrite_lock_timeout B) started_at) (\<lambda>_.
           ret lock_path)))"

text \<open>The guard removes the lock whatever the body returns.\<close>

definition with_force_overwrite_lock :: "build \<Rightarrow> path \<Rightarrow> (error, unit) io \<Rightarrow> (error, unit) io" where
  "with_force_overwrite_lock B secret_path body =
     bind_io (acquire_force_overwrite_lock B secret_path) (\<lambda>lock_path.
     bind_io (attempt body) (\<lambda>r.
     bind_io (discard_file lock_path) (\<lambda>_. lift_res r)))"

section \<open>The commit\<close>

datatype keypair_commit_stage = Started | PublicRenamed | SecretRenamed

text \<open>The stages are ordered as the commit passes through them.\<close>

instantiation keypair_commit_stage :: linorder
begin

primrec stage_rank :: "keypair_commit_stage \<Rightarrow> nat" where
  "stage_rank Started = 0"
| "stage_rank PublicRenamed = 1"
| "stage_rank SecretRenamed = 2"

definition less_eq_stage_def: "s \<le> t \<longleftrightarrow> stage_rank s \<le> stage_rank t"

definition less_stage_def: "s < t \<longleftrightarrow> stage_rank s < stage_rank t"

lemma stage_rank_inj: "stage_rank s = stage_rank t \<Longrightarrow> s = t"
  by (cases s; cases t) simp_all

instance
  by standard (auto simp: less_eq_stage_def less_stage_def dest: stage_rank_inj)

end

definition test_commit_failure :: "build \<Rightarrow> test_commit_failure option" where
  "test_commit_failure B = (if b_debug B then b_commit_failure B else None)"

definition inject_commit_failure_before_public_rename :: "build \<Rightarrow> build" where
  "inject_commit_failure_before_public_rename B = B\<lparr>b_commit_failure := Some BeforePublicRename\<rparr>"

definition inject_commit_failure_before_secret_rename :: "build \<Rightarrow> build" where
  "inject_commit_failure_before_secret_rename B = B\<lparr>b_commit_failure := Some BeforeSecretRename\<rparr>"

definition drop_commit_failure_guard :: "build \<Rightarrow> build" where
  "drop_commit_failure_guard B = B\<lparr>b_commit_failure := None\<rparr>"

text \<open>An error carries the stage that was reached.\<close>

definition at_stage :: "keypair_commit_stage \<Rightarrow> (error, 'a) io \<Rightarrow> (error \<times> keypair_commit_stage, 'a) io" where
  "at_stage s m = map_err_io (\<lambda>e. (e, s)) m"

definition commit_keypair_files ::
  "build \<Rightarrow> path \<Rightarrow> path \<Rightarrow> path \<Rightarrow> path \<Rightarrow> (error \<times> keypair_commit_stage, unit) io" where
  "commit_keypair_files B secret_path public_path secret_tmp public_tmp =
     bind_io (if test_commit_failure B = Some BeforePublicRename then
                throw (Other ''injected public key commit failure'', Started)
              else ret ()) (\<lambda>_.
     bind_io (at_stage Started (map_err_io (FileWrite public_path) (rename_file public_tmp public_path)))
     (\<lambda>_.
     bind_io (at_stage PublicRenamed (sync_parent_directory public_path)) (\<lambda>_.
     bind_io (if test_commit_failure B = Some BeforeSecretRename then
                throw (Other ''injected secret key commit failure'', PublicRenamed)
              else ret ()) (\<lambda>_.
     bind_io (at_stage PublicRenamed
       (map_err_io (FileWrite secret_path) (rename_file secret_tmp secret_path))) (\<lambda>_.
       at_stage SecretRenamed (sync_parent_directory secret_path))))))"

section \<open>The rollback\<close>

definition QUOTE :: string where "QUOTE = [CHR 0x27]"

definition EM_DASH :: string where "EM_DASH = map char_of [0xE2 :: nat, 0x80, 0x94]"

text \<open>\<open>what\<close> is \<open>secret key\<close> or \<open>public key\<close>.\<close>

definition remove_partial :: "string \<Rightarrow> path \<Rightarrow> ('e, unit) io" where
  "remove_partial what p =
     bind_io (attempt (remove_file p)) (\<lambda>r.
       case r of
         Inr _ \<Rightarrow> ret ()
       | Inl e \<Rightarrow>
           eprintln (''CRITICAL: could not remove partially-written '' @ what @ '' '' @ QUOTE
             @ display p @ QUOTE @ '': '' @ io_text e @ ''; delete manually''))"

definition restore_backup :: "path option \<Rightarrow> path \<Rightarrow> ('e, unit) io" where
  "restore_backup backup p =
     (case backup of
        None \<Rightarrow> ret ()
      | Some b \<Rightarrow>
          bind_io (attempt (rename_file b p)) (\<lambda>r.
            case r of
              Inr _ \<Rightarrow> ret ()
            | Inl e \<Rightarrow>
                eprintln (''CRITICAL: rollback failed '' @ EM_DASH @ '' could not restore '' @ QUOTE
                  @ display p @ QUOTE @ '' from backup '' @ QUOTE @ display b @ QUOTE @ '': ''
                  @ io_text e @ ''; recover manually'')))"

definition rollback_keypair_commit ::
  "path \<Rightarrow> path \<Rightarrow> path option \<Rightarrow> path option \<Rightarrow> keypair_commit_stage \<Rightarrow> ('e, unit) io" where
  "rollback_keypair_commit secret_path public_path secret_backup public_backup stage =
     bind_io (if stage = SecretRenamed then remove_partial ''secret key'' secret_path else ret ()) (\<lambda>_.
     bind_io (if stage \<in> {PublicRenamed, SecretRenamed} then remove_partial ''public key'' public_path
              else ret ()) (\<lambda>_.
     bind_io (restore_backup secret_backup secret_path) (\<lambda>_.
       restore_backup public_backup public_path)))"

section \<open>The overwrite\<close>

primrec restore_all :: "(path option \<times> path) list \<Rightarrow> ('e, unit) io" where
  "restore_all [] = ret ()"
| "restore_all (b # bs) = bind_io (restore_backup (fst b) (snd b)) (\<lambda>_. restore_all bs)"

text \<open>A file that exists is moved aside to a backup name. When that or the flush of its
  directory fails, the temporary files are removed and what was moved is moved back; \<open>earlier\<close>
  are the backups taken before.\<close>

definition backup_existing ::
  "path \<Rightarrow> path list \<Rightarrow> (path option \<times> path) list \<Rightarrow> (error, path option) io" where
  "backup_existing p tmps earlier =
     bind_io (path_exists p) (\<lambda>present.
       if present then
         bind_io (sibling_temp_path p ''bak'') (\<lambda>backup.
         bind_io (attempt (map_err_io (FileWrite p) (rename_file p backup))) (\<lambda>r.
           case r of
             Inl e \<Rightarrow>
               bind_io (discard_files tmps) (\<lambda>_.
               bind_io (restore_all earlier) (\<lambda>_. throw e))
           | Inr _ \<Rightarrow>
               bind_io (attempt (sync_parent_directory p)) (\<lambda>r.
                 case r of
                   Inl e \<Rightarrow>
                     bind_io (discard_files tmps) (\<lambda>_.
                     bind_io (restore_all ((Some backup, p) # earlier)) (\<lambda>_. throw e))
                 | Inr _ \<Rightarrow> ret (Some backup))))
       else ret None)"

definition discard_backup :: "path option \<Rightarrow> ('e, unit) io" where
  "discard_backup backup = (case backup of None \<Rightarrow> ret () | Some b \<Rightarrow> discard_file b)"

definition replace_keypair :: "build \<Rightarrow> path \<Rightarrow> path \<Rightarrow> bytes \<Rightarrow> bytes \<Rightarrow> (error, unit) io" where
  "replace_keypair B secret_path public_path secret_contents public_contents =
     bind_io (stage_keypair secret_path public_path secret_contents public_contents)
     (\<lambda>(secret_tmp, public_tmp).
     bind_io (backup_existing secret_path [secret_tmp, public_tmp] []) (\<lambda>secret_backup.
     bind_io (backup_existing public_path [secret_tmp, public_tmp] [(secret_backup, secret_path)])
     (\<lambda>public_backup.
     bind_io (attempt (commit_keypair_files B secret_path public_path secret_tmp public_tmp)) (\<lambda>r.
       case r of
         Inr _ \<Rightarrow>
           bind_io (discard_backup secret_backup) (\<lambda>_. discard_backup public_backup)
       | Inl (e, stage) \<Rightarrow>
           bind_io (discard_files [secret_tmp, public_tmp]) (\<lambda>_.
           bind_io (rollback_keypair_commit secret_path public_path secret_backup public_backup stage)
           (\<lambda>_. throw e))))))"

definition write_keypair_files_with_overwrite ::
  "build \<Rightarrow> path \<Rightarrow> path \<Rightarrow> bytes \<Rightarrow> bytes \<Rightarrow> (error, unit) io" where
  "write_keypair_files_with_overwrite B secret_path public_path secret_contents public_contents =
     with_force_overwrite_lock B secret_path
       (replace_keypair B secret_path public_path secret_contents public_contents)"

end
