(* ===== verification/Recreate.thy ===== *)
theory Recreate
  imports FileUtils KeyUse
begin

text \<open>
  \<open>ops/recreate.rs\<close>: the public key file made again from the secret key file.
\<close>

record recreate_options =
  ro_secret_key_file :: path
  ro_public_key_file :: path
  ro_comment :: "string option"
  ro_force :: bool

record recreate_result =
  rr_public_key_file :: path
  rr_keynum_hex :: string

definition extract_public_key_from_secret :: "crates \<Rightarrow> secret_key \<Rightarrow> error + public_key" where
  "extract_public_key_from_secret C sk =
     (case ed_keypair C sk of
        Some e \<Rightarrow> Inl (InvalidSecretKey (''public key does not match scalar: '' @ e))
      | None \<Rightarrow> Inr (ed_public C sk))"

definition default_key_comment :: "string \<Rightarrow> string" where
  "default_key_comment keynum_hex = ''minisign public key '' @ keynum_hex"

definition recreate_with_key ::
  "crates \<Rightarrow> seckey_struct \<Rightarrow> recreate_options \<Rightarrow> bytes option \<Rightarrow> (error, recreate_result) io" where
  "recreate_with_key C seckey opts password =
     bind_io (case ro_comment opts of
                None \<Rightarrow> ret ()
              | Some comment \<Rightarrow> lift_res (validate_key_comment comment)) (\<lambda>_.
     bind_io (reject_output_alias (ro_public_key_file opts) [ro_secret_key_file opts]) (\<lambda>_.
     bind_io (extract_key_op C seckey password) (\<lambda>(sk, keynum).
     bind_io (lift_res (extract_public_key_from_secret C sk)) (\<lambda>public_key.
       let pubkey = \<lparr>pk_keynum = keynum, pk_public_key = public_key\<rparr>;
           keynum_hex = to_key_id keynum;
           comment = (case ro_comment opts of None \<Rightarrow> default_key_comment keynum_hex | Some c \<Rightarrow> c)
       in bind_io (lift_res (pubkey_to_file_contents C pubkey comment)) (\<lambda>pubkey_contents.
          bind_io (write_public_key_file (ro_public_key_file opts) pubkey_contents (ro_force opts))
          (\<lambda>_.
            ret \<lparr>rr_public_key_file = ro_public_key_file opts, rr_keynum_hex = keynum_hex\<rparr>))))))"

definition recreate :: "crates \<Rightarrow> recreate_options \<Rightarrow> bytes option \<Rightarrow> (error, recreate_result) io" where
  "recreate C opts password =
     bind_io (load_secret_key C (ro_secret_key_file opts)) (\<lambda>seckey.
       recreate_with_key C seckey opts password)"

end
