(* ===== verification/Generate.thy ===== *)
theory Generate
  imports Keypair Wordlist Recreate
begin

text \<open>
  \<open>ops/generate.rs\<close>: the options and the order of \<open>generate\<close> on a Unix host; its files are
  written by \<open>Keypair\<close>.
\<close>

record generate_options =
  go_secret_key_file :: path
  go_public_key_file :: path
  go_comment :: "string option"
  go_overwrite :: overwrite_policy
  go_encryption :: encryption_mode
  go_force_weak_kdf :: bool

definition generate_builder :: "path \<Rightarrow> path \<Rightarrow> generate_options" where
  "generate_builder secret_key_file public_key_file =
     \<lparr>go_secret_key_file = secret_key_file, go_public_key_file = public_key_file,
      go_comment = None, go_overwrite = Preserve, go_encryption = Protected,
      go_force_weak_kdf = False\<rparr>"

definition generate_set_comment :: "generate_options \<Rightarrow> string \<Rightarrow> generate_options" where
  "generate_set_comment opts comment = opts\<lparr>go_comment := Some comment\<rparr>"

definition generate_set_force :: "generate_options \<Rightarrow> bool \<Rightarrow> generate_options" where
  "generate_set_force opts force = opts\<lparr>go_overwrite := if force then Overwrite else Preserve\<rparr>"

definition generate_set_no_password :: "generate_options \<Rightarrow> bool \<Rightarrow> generate_options" where
  "generate_set_no_password opts no_password =
     opts\<lparr>go_encryption := if no_password then Unprotected else Protected\<rparr>"

text \<open>The assertion of a release build is \<open>None\<close>: the call panics.\<close>

definition generate_set_force_weak_kdf :: "build \<Rightarrow> generate_options \<Rightarrow> bool \<Rightarrow> generate_options option" where
  "generate_set_force_weak_kdf B opts force =
     (if \<not> b_debug B \<and> force then None else Some (opts\<lparr>go_force_weak_kdf := force\<rparr>))"

record generate_result =
  gr_secret_key_file :: path
  gr_public_key_file :: path
  gr_keynum_hex :: string
  gr_keynum_words :: string
  gr_public_key_base64 :: string
  gr_credential_id :: string
  gr_kdf_fallback_used :: bool

text \<open>The last part of \<open>generate_with_log_n\<close>, once both structures exist: directories, contents,
  files.\<close>

definition write_generated ::
  "crates \<Rightarrow> build \<Rightarrow> generate_options \<Rightarrow> seckey_struct \<Rightarrow> pubkey_struct \<Rightarrow> string \<Rightarrow> (error, unit) io" where
  "write_generated C B opts seckey pubkey comment =
     bind_io (ensure_secret_key_directory (go_secret_key_file opts)) (\<lambda>_.
     bind_io (ensure_parent_directory (go_public_key_file opts)) (\<lambda>_.
     bind_io (lift_res (seckey_to_file_contents C seckey (seckey_comment (go_encryption opts))))
     (\<lambda>seckey_contents.
     bind_io (lift_res (pubkey_to_file_contents C pubkey comment)) (\<lambda>pubkey_contents.
       if go_overwrite opts = Overwrite then
         write_keypair_files_with_overwrite B (go_secret_key_file opts) (go_public_key_file opts)
           (as_bytes seckey_contents) (as_bytes pubkey_contents)
       else
         write_keypair_files_create_new (go_secret_key_file opts) (go_public_key_file opts)
           (as_bytes seckey_contents) (as_bytes pubkey_contents)))))"

definition generate_with_log_n ::
  "crates \<Rightarrow> build \<Rightarrow> generate_options \<Rightarrow> bytes option \<Rightarrow> u8 \<Rightarrow> (error, generate_result) io" where
  "generate_with_log_n C B opts password log_n =
     (if go_encryption opts = Protected \<and> password = None then throw PasswordRequired
      else
        bind_io (case go_comment opts of
                   None \<Rightarrow> ret ()
                 | Some comment \<Rightarrow> lift_res (validate_key_comment comment)) (\<lambda>_.
        bind_io (reject_output_alias (go_public_key_file opts) [go_secret_key_file opts]) (\<lambda>_.
        bind_io (generate_keypair_op C) (\<lambda>(sk, public_key, keynum).
        bind_io (seal_key C B (go_encryption opts) (go_force_weak_kdf opts) log_n sk keynum password)
        (\<lambda>seckey.
          let pubkey = \<lparr>pk_keynum = keynum, pk_public_key = public_key\<rparr>;
              keynum_hex = to_key_id keynum;
              comment = (case go_comment opts of
                           None \<Rightarrow> default_key_comment keynum_hex | Some c \<Rightarrow> c)
          in bind_io (write_generated C B opts seckey pubkey comment) (\<lambda>_.
               ret \<lparr>gr_secret_key_file = go_secret_key_file opts,
                    gr_public_key_file = go_public_key_file opts,
                    gr_keynum_hex = keynum_hex,
                    gr_keynum_words = keynum_to_words keynum,
                    gr_public_key_base64 = encode_base64 C (pubkey_to_bytes pubkey),
                    gr_credential_id = credential_id seckey,
                    gr_kdf_fallback_used = False\<rparr>))))))"

definition generate :: "crates \<Rightarrow> build \<Rightarrow> generate_options \<Rightarrow> bytes option \<Rightarrow> (error, generate_result) io" where
  "generate C B opts password = generate_with_log_n C B opts password SCRYPT_LOG_N"

end
