(* ===== verification/Change.thy ===== *)
theory Change
  imports FileUtils KeyUse
begin

text \<open>
  \<open>ops/change.rs\<close>: a secret key encrypted again under another password, or written without one.
\<close>

record change_options =
  co_secret_key_file :: path
  co_encryption :: encryption_mode
  co_force_weak_kdf :: bool

definition change_builder :: "path \<Rightarrow> change_options" where
  "change_builder secret_key_file =
     \<lparr>co_secret_key_file = secret_key_file, co_encryption = Protected, co_force_weak_kdf = False\<rparr>"

definition change_set_remove_password :: "change_options \<Rightarrow> bool \<Rightarrow> change_options" where
  "change_set_remove_password opts remove =
     opts\<lparr>co_encryption := if remove then Unprotected else Protected\<rparr>"

text \<open>The assertion of a release build is \<open>None\<close>: the call panics.\<close>

definition change_set_force_weak_kdf :: "build \<Rightarrow> change_options \<Rightarrow> bool \<Rightarrow> change_options option" where
  "change_set_force_weak_kdf B opts force =
     (if \<not> b_debug B \<and> force then None else Some (opts\<lparr>co_force_weak_kdf := force\<rparr>))"

record change_result =
  cr_secret_key_file :: path
  cr_encrypted :: bool
  cr_credential_id :: string
  cr_kdf_fallback_used :: bool

definition change_with_log_n ::
  "crates \<Rightarrow> build \<Rightarrow> change_options \<Rightarrow> bytes option \<Rightarrow> bytes option \<Rightarrow> u8
     \<Rightarrow> (error, change_result) io" where
  "change_with_log_n C B opts old_password new_password log_n =
     bind_io (load_secret_key C (co_secret_key_file opts)) (\<lambda>seckey.
     bind_io (extract_key_op C seckey old_password) (\<lambda>(sk, keynum).
     bind_io (seal_key C B (co_encryption opts) (co_force_weak_kdf opts) log_n sk keynum new_password)
     (\<lambda>new_seckey.
     bind_io (lift_res (seckey_to_file_contents C new_seckey (seckey_comment (co_encryption opts))))
     (\<lambda>seckey_contents.
     bind_io (write_secret_key_file (co_secret_key_file opts) (as_bytes seckey_contents) True) (\<lambda>_.
       ret \<lparr>cr_secret_key_file = co_secret_key_file opts,
            cr_encrypted = (co_encryption opts = Protected),
            cr_credential_id = credential_id new_seckey,
            cr_kdf_fallback_used = False\<rparr>)))))"

definition change ::
  "crates \<Rightarrow> build \<Rightarrow> change_options \<Rightarrow> bytes option \<Rightarrow> bytes option \<Rightarrow> (error, change_result) io" where
  "change C B opts old_password new_password =
     change_with_log_n C B opts old_password new_password SCRYPT_LOG_N"

end
