(* ===== verification/Inspect.thy ===== *)
theory Inspect
  imports CredStore FileUtils Wordlist
begin

text \<open>
  \<open>ops/inspect.rs\<close>: what a key file or a signature file says about itself, without the secret
  and, for \<open>inspect_private\<close>, with it.
\<close>

section \<open>Security levels\<close>

datatype security_level = High | Medium | Low | NoSecurity | Unsupported

definition from_kdf_params :: "u64 \<Rightarrow> bool \<Rightarrow> security_level" where
  "from_kdf_params memlimit is_fallback =
     (if \<not> is_ok (check_kdf_budget memlimit) then Unsupported
      else if \<not> is_fallback then High
      else if memlimit \<ge> 256000000 then Medium
      else Low)"

section \<open>Results\<close>

record inspect_options =
  io_key_file :: path
  io_check_credential_store :: bool

definition inspect_options_new :: "path \<Rightarrow> inspect_options" where
  "inspect_options_new file = \<lparr>io_key_file = file, io_check_credential_store = True\<rparr>"

definition skip_credential_store_check :: "inspect_options \<Rightarrow> inspect_options" where
  "skip_credential_store_check opts = opts\<lparr>io_check_credential_store := False\<rparr>"

datatype key_type = SecretEncrypted | SecretUnencrypted | Public

record kdf_info =
  ki_opslimit :: u64
  ki_memlimit :: u64
  ki_log_n :: u8
  ki_r :: u32
  ki_p :: u32
  ki_is_fallback :: bool
  ki_weakness_multiplier :: "u64 option"

record inspect_result =
  ir_key_id :: string
  ir_key_id_words :: string
  ir_key_type :: key_type
  ir_security_level :: "security_level option"
  ir_kdf_info :: "kdf_info option"
  ir_password_saved :: credential_status
  ir_credential_id :: "string option"

record signature_inspect_result =
  sir_key_id :: string
  sir_key_id_words :: string
  sir_algorithm :: signature_algorithm

section \<open>Reading a key file\<close>

datatype key_file_type = SecretFile | PublicFile

definition sniff_key_file_type :: "string \<Rightarrow> key_file_type option" where
  "sniff_key_file_type contents =
     (case lines contents of
        [] \<Rightarrow> None
      | first_line # _ \<Rightarrow>
          (case strip_prefix UNTRUSTED_PREFIX first_line of
             None \<Rightarrow> None
           | Some comment \<Rightarrow>
               (if contains_str ''secret key'' comment then Some SecretFile
                else if contains_str ''public key'' comment then Some PublicFile
                else None)))"

definition key_file_error :: "(path \<Rightarrow> string) \<Rightarrow> error \<Rightarrow> error" where
  "key_file_error dbg e = Io (''Failed to read key file: '' @ display_error dbg e)"

definition read_key_file :: "(path \<Rightarrow> string) \<Rightarrow> path \<Rightarrow> (error, bytes) io" where
  "read_key_file dbg p =
     map_err_io (key_file_error dbg) (read_secret_file_bounded p MAX_KEY_FILE_BYTES)"

definition decode_inspection_public_key :: "crates \<Rightarrow> string \<Rightarrow> error + bytes" where
  "decode_inspection_public_key C contents =
     (let ls = lines contents
      in if length ls < 2 then Inl (InvalidPublicKey ''missing comment or data line'')
         else
           let data_line = ls ! 1
           in and_then (decode_base64_into C data_line (replicate (length data_line) 0))
                (\<lambda>(decoded, len). Inr (take len decoded)))"

section \<open>Keys\<close>

definition inspect_public_key :: "pubkey_struct \<Rightarrow> inspect_result" where
  "inspect_public_key pubkey =
     \<lparr>ir_key_id = to_key_id (pk_keynum pubkey),
      ir_key_id_words = keynum_to_words (pk_keynum pubkey),
      ir_key_type = Public, ir_security_level = None, ir_kdf_info = None,
      ir_password_saved = NotSaved, ir_credential_id = None\<rparr>"

definition inspect_public_key_file :: "crates \<Rightarrow> string \<Rightarrow> error + inspect_result" where
  "inspect_public_key_file C contents =
     and_then (decode_inspection_public_key C contents) (\<lambda>decoded.
     and_then (pubkey_from_bytes decoded) (\<lambda>pubkey. Inr (inspect_public_key pubkey)))"

definition inspect_base64 :: "crates \<Rightarrow> string \<Rightarrow> error + inspect_result" where
  "inspect_base64 C s = and_then (pubkey_from_base64 C s) (\<lambda>pubkey. Inr (inspect_public_key pubkey))"

text \<open>\<open>credential_status\<close> is the closure that asks the credential store. A division by zero would
  panic; a key whose parameters decode has a memory limit of at least \<open>2 ^ 10\<close>.\<close>

definition kdf_info_of :: "crates \<Rightarrow> u64 \<Rightarrow> u64 \<Rightarrow> error + kdf_info" where
  "kdf_info_of C opslimit memlimit =
     and_then (decode_kdf_params C opslimit memlimit) (\<lambda>(log_n, r, p).
       let is_fallback = (opslimit < PRODUCTION_OPSLIMIT \<or> memlimit < PRODUCTION_MEMLIMIT);
           weakness_multiplier = (if is_fallback then Some (PRODUCTION_MEMLIMIT div memlimit) else None)
       in Inr \<lparr>ki_opslimit = opslimit, ki_memlimit = memlimit, ki_log_n = log_n, ki_r = r,
               ki_p = p, ki_is_fallback = is_fallback,
               ki_weakness_multiplier = weakness_multiplier\<rparr>)"

definition inspect_secret_key_with_credentials ::
  "crates \<Rightarrow> seckey_struct \<Rightarrow> bool \<Rightarrow> (string \<Rightarrow> (error, credential_status) io)
     \<Rightarrow> (error, inspect_result) io" where
  "inspect_secret_key_with_credentials C seckey check_credential_store credential_status =
     (let key_id = to_key_id (sk_keynum seckey);
          key_id_words = keynum_to_words (sk_keynum seckey);
          cred_id = credential_id seckey
      in if \<not> sk_encrypted seckey then
           bind_io (if check_credential_store then credential_status cred_id else ret NotSaved)
           (\<lambda>password_saved.
             ret \<lparr>ir_key_id = key_id, ir_key_id_words = key_id_words,
                  ir_key_type = SecretUnencrypted, ir_security_level = Some NoSecurity,
                  ir_kdf_info = None, ir_password_saved = password_saved,
                  ir_credential_id = Some cred_id\<rparr>)
         else
           bind_io (lift_res (kdf_info_of C (sk_kdf_opslimit seckey) (sk_kdf_memlimit seckey))) (\<lambda>info.
             let level = from_kdf_params (ki_memlimit info) (ki_is_fallback info)
             in bind_io (if check_credential_store \<and> level \<noteq> Unsupported then credential_status cred_id
                         else ret NotSaved) (\<lambda>password_saved.
                ret \<lparr>ir_key_id = key_id, ir_key_id_words = key_id_words,
                     ir_key_type = SecretEncrypted, ir_security_level = Some level,
                     ir_kdf_info = Some info, ir_password_saved = password_saved,
                     ir_credential_id = Some cred_id\<rparr>)))"

definition inspect_secret_key ::
  "crates \<Rightarrow> (path \<Rightarrow> string) \<Rightarrow> build \<Rightarrow> seckey_struct \<Rightarrow> bool \<Rightarrow> (error, inspect_result) io" where
  "inspect_secret_key C dbg B seckey check_credential_store =
     inspect_secret_key_with_credentials C seckey check_credential_store (has_password dbg B)"

definition inspect_with_key ::
  "crates \<Rightarrow> (path \<Rightarrow> string) \<Rightarrow> build \<Rightarrow> seckey_struct \<Rightarrow> (error, inspect_result) io" where
  "inspect_with_key C dbg B seckey = inspect_secret_key C dbg B seckey True"

definition inspect_private_with_key ::
  "crates \<Rightarrow> (path \<Rightarrow> string) \<Rightarrow> build \<Rightarrow> seckey_struct \<Rightarrow> bytes \<Rightarrow> (error, inspect_result) io" where
  "inspect_private_with_key C dbg B seckey password =
     (if \<not> sk_encrypted seckey then inspect_secret_key C dbg B seckey True
      else
        bind_io (decrypt_op C seckey password) (\<lambda>(_, decrypted_keynum).
        bind_io (inspect_secret_key C dbg B seckey True) (\<lambda>result.
          ret (result\<lparr>ir_key_id := to_key_id decrypted_keynum,
                      ir_key_id_words := keynum_to_words decrypted_keynum\<rparr>))))"

section \<open>Files\<close>

text \<open>\<open>inspect\<close> and \<open>inspect_private\<close> share how a file is read and which parser it goes to: the
  comment decides, and a comment that says nothing lets both be tried.\<close>

definition dispatch_key_file ::
  "crates \<Rightarrow> string \<Rightarrow> (seckey_struct \<Rightarrow> (error, inspect_result) io) \<Rightarrow> (error, inspect_result) io" where
  "dispatch_key_file C contents secret =
     (case sniff_key_file_type contents of
        Some SecretFile \<Rightarrow> bind_io (lift_res (seckey_from_file_contents C contents)) secret
      | Some PublicFile \<Rightarrow> lift_res (inspect_public_key_file C contents)
      | None \<Rightarrow>
          (case seckey_from_file_contents C contents of
             Inr seckey \<Rightarrow> secret seckey
           | Inl _ \<Rightarrow>
               (case inspect_public_key_file C contents of
                  Inr result \<Rightarrow> ret result
                | Inl _ \<Rightarrow> throw (InvalidKeyFormat ''File is not a valid minisign key''))))"

definition inspect_file ::
  "crates \<Rightarrow> (path \<Rightarrow> string) \<Rightarrow> path \<Rightarrow> (seckey_struct \<Rightarrow> (error, inspect_result) io)
     \<Rightarrow> (error, inspect_result) io" where
  "inspect_file C dbg file secret =
     bind_io (read_key_file dbg file) (\<lambda>bs.
     bind_io (lift_res (map_err (key_file_error dbg) (utf8_text bs file))) (\<lambda>contents.
       dispatch_key_file C contents secret))"

definition inspect :: "crates \<Rightarrow> (path \<Rightarrow> string) \<Rightarrow> build \<Rightarrow> inspect_options \<Rightarrow> (error, inspect_result) io" where
  "inspect C dbg B opts =
     inspect_file C dbg (io_key_file opts)
       (\<lambda>seckey. inspect_secret_key C dbg B seckey (io_check_credential_store opts))"

definition inspect_private ::
  "crates \<Rightarrow> (path \<Rightarrow> string) \<Rightarrow> build \<Rightarrow> path \<Rightarrow> bytes \<Rightarrow> (error, inspect_result) io" where
  "inspect_private C dbg B file password =
     inspect_file C dbg file (\<lambda>seckey. inspect_private_with_key C dbg B seckey password)"

definition inspect_signature :: "crates \<Rightarrow> (path \<Rightarrow> string) \<Rightarrow> path \<Rightarrow> (error, signature_inspect_result) io" where
  "inspect_signature C dbg signature_file =
     bind_io (map_err_io (\<lambda>e. Io (''Failed to read signature file: '' @ display_error dbg e))
       (read_file_bounded signature_file MAX_SIGNATURE_FILE_BYTES)) (\<lambda>contents.
     bind_io (lift_res (sig_box_from_file_contents C contents)) (\<lambda>b.
       let s = sb_sig_struct b
       in ret \<lparr>sir_key_id = to_key_id (ss_keynum s), sir_key_id_words = keynum_to_words (ss_keynum s),
               sir_algorithm = sig_algorithm s\<rparr>))"

end
