(* ===== verification/Tasks.thy ===== *)
theory Tasks
  imports World
begin

text \<open>
  Work that other work may interrupt: a task is a tree whose steps are the effects of \<open>World\<close>,
  one system call, one line of output or one draw of random numbers each. A pool of tasks
  shares one world; a schedule says which task takes the next step. \<open>run_task\<close> runs a task
  without interruption and gives back the computation of \<open>World\<close> it stands for.

  Tasks are verified by what every single step does: \<open>behaves\<close> is the judgement for one task, the
  locale \<open>pool\<close> puts the tasks of a pool together. A task carries a ghost, what is known of it
  that its result does not say yet: the output it still owes, or the files it has made.
\<close>

datatype 'a task = Done 'a | Step "world \<Rightarrow> 'a task \<times> world"

lemma task_induct [case_names Done Step, induct type: task]:
  assumes "\<And>x. P (Done x)" "\<And>f :: world \<Rightarrow> 'a task \<times> world. (\<And>w t w'. f w = (t, w') \<Longrightarrow> P t) \<Longrightarrow> P (Step f)"
  shows "P t"
proof (rule task.induct [of P])
  fix f :: "world \<Rightarrow> 'a task \<times> world"
  assume IH: "\<And>p t. p \<in> range f \<Longrightarrow> t \<in> Basic_BNFs.fsts p \<Longrightarrow> P t"
  show "P (Step f)"
  proof (rule assms(2))
    fix w t w'
    assume "f w = (t, w')"
    then have "(t, w') \<in> range f" by (metis rangeI)
    then show "P t" by (rule IH) simp
  qed
qed (rule assms(1))

primrec run_task :: "'a task \<Rightarrow> world \<Rightarrow> 'a \<times> world" where
  "run_task (Done x) = (\<lambda>w. (x, w))"
| "run_task (Step f) = (\<lambda>w. case map_prod run_task id (f w) of (go, w') \<Rightarrow> go w')"

primrec followed_by :: "'a task \<Rightarrow> ('a \<Rightarrow> 'b task) \<Rightarrow> 'b task" where
  "followed_by (Done x) k = k x"
| "followed_by (Step f) k = Step (\<lambda>w. map_prod (\<lambda>t. followed_by t k) id (f w))"

section \<open>The combinators of the effects\<close>

type_synonym ('e, 'a) job = "('e + 'a) task"

definition call_task :: "('e, 'a) io \<Rightarrow> ('e, 'a) job" where
  "call_task m = Step (\<lambda>w. map_prod Done id (m w))"

definition ret_task :: "'a \<Rightarrow> ('e, 'a) job" where "ret_task x = Done (Inr x)"

definition throw_task :: "'e \<Rightarrow> ('e, 'a) job" where "throw_task e = Done (Inl e)"

definition lift_task :: "'e + 'a \<Rightarrow> ('e, 'a) job" where "lift_task r = Done r"

definition bind_task :: "('e, 'a) job \<Rightarrow> ('a \<Rightarrow> ('e, 'b) job) \<Rightarrow> ('e, 'b) job" where
  "bind_task t k = followed_by t (\<lambda>r. case r of Inl e \<Rightarrow> Done (Inl e) | Inr x \<Rightarrow> k x)"

definition map_err_task :: "('e \<Rightarrow> 'f) \<Rightarrow> ('e, 'a) job \<Rightarrow> ('f, 'a) job" where
  "map_err_task g t = followed_by t (\<lambda>r. Done (map_err g r))"

definition attempt_task :: "('e, 'a) job \<Rightarrow> ('f, 'e + 'a) job" where
  "attempt_task t = followed_by t (\<lambda>r. Done (Inr r))"

named_theorems run_tasks

lemma run_followed_by: "run_task (followed_by t k) w = (case run_task t w of (x, w') \<Rightarrow> run_task (k x) w')"
  by (induction t arbitrary: w) (auto simp: map_prod_def split: prod.splits)

lemma run_combinators [run_tasks]:
  "run_task (call_task m) = m" "run_task (ret_task x) = ret x" "run_task (throw_task e) = throw e"
  "run_task (lift_task r) = lift_res r"
  "run_task (bind_task t k) = bind_io (run_task t) (\<lambda>x. run_task (k x))"
  "run_task (map_err_task g t) = map_err_io g (run_task t)"
  "run_task (attempt_task t) = attempt (run_task t)"
  by (auto simp: fun_eq_iff call_task_def ret_task_def throw_task_def lift_task_def bind_task_def
      map_err_task_def attempt_task_def ret_def throw_def lift_res_def bind_io_def map_err_io_def
      attempt_def run_followed_by map_prod_def split: prod.splits sum.splits)

lemma run_cases [run_tasks]:
  "run_task (if b then t else u) = (if b then run_task t else run_task u)"
  "run_task (case x of None \<Rightarrow> t | Some y \<Rightarrow> k y) = (case x of None \<Rightarrow> run_task t | Some y \<Rightarrow> run_task (k y))"
  "run_task (case r of Inl e \<Rightarrow> g e | Inr y \<Rightarrow> h y) = (case r of Inl e \<Rightarrow> run_task (g e) | Inr y \<Rightarrow> run_task (h y))"
  "run_task (case p of (a, b) \<Rightarrow> l a b) = (case p of (a, b) \<Rightarrow> run_task (l a b))"
  by (simp_all split: option.split sum.split prod.split)

section \<open>Pools\<close>

type_synonym 'a pool = "'a task list \<times> world"

definition pool_step :: "nat \<Rightarrow> 'a pool \<Rightarrow> 'a pool" where
  "pool_step i p =
     (case p of (ts, w) \<Rightarrow>
        if i < length ts then
          (case ts ! i of
             Done x \<Rightarrow> (ts, w)
           | Step f \<Rightarrow> (case f w of (t, w') \<Rightarrow> (ts[i := t], w')))
        else (ts, w))"

primrec pool_run :: "nat list \<Rightarrow> 'a pool \<Rightarrow> 'a pool" where
  "pool_run [] p = p"
| "pool_run (i # schedule) p = pool_run schedule (pool_step i p)"

primrec task_result :: "'a task \<Rightarrow> 'a option" where
  "task_result (Done x) = Some x"
| "task_result (Step f) = None"

primrec all_results :: "'a task list \<Rightarrow> 'a list option" where
  "all_results [] = Some []"
| "all_results (t # ts) =
     (case task_result t of
        None \<Rightarrow> None
      | Some x \<Rightarrow> map_option (\<lambda>xs. x # xs) (all_results ts))"

text \<open>The results in the order of the tasks, if the schedule lets all of them end.\<close>

definition run_pool :: "nat list \<Rightarrow> 'a pool \<Rightarrow> ('a list \<times> world) option" where
  "run_pool schedule p =
     (case pool_run schedule p of (ts, w) \<Rightarrow> map_option (\<lambda>xs. (xs, w)) (all_results ts))"

lemma all_results_Some: "all_results ts = Some xs \<longleftrightarrow> ts = map Done xs"
proof (induction ts arbitrary: xs)
  case (Cons t ts)
  then show ?case by (cases t; cases xs) (auto split: option.split)
qed auto

lemma run_pool_Some: "run_pool schedule p = Some (xs, w) \<longleftrightarrow> pool_run schedule p = (map Done xs, w)"
  by (auto simp: run_pool_def all_results_Some split: prod.split)

lemma pool_run_append: "pool_run (schedule @ further) p = pool_run further (pool_run schedule p)"
  by (induction schedule arbitrary: p) simp_all

lemma pool_step_length: "pool_step i (ts, w) = (ts', w') \<Longrightarrow> length ts' = length ts"
  by (auto simp: pool_step_def split: if_splits task.splits prod.splits)

lemma pool_run_length: "pool_run schedule (ts, w) = (ts', w') \<Longrightarrow> length ts' = length ts"
proof (induction schedule arbitrary: ts w)
  case (Cons i schedule)
  then show ?case using pool_step_length [of i ts w] by (cases "pool_step i (ts, w)") simp
qed simp

section \<open>Every task ends\<close>

text \<open>A task that is given turns for long enough ends with what it would give undisturbed from
  where it is.\<close>

lemma turns_end_task:
  "i < length ts \<Longrightarrow> ts ! i = t \<Longrightarrow>
     \<exists>n. pool_run (replicate n i) (ts, w) = (case run_task t w of (x, w') \<Rightarrow> (ts[i := Done x], w'))"
proof (induction t arbitrary: ts w)
  case (Done x)
  then have "ts[i := Done x] = ts" using list_update_id [of ts i] by simp
  then show ?case by (intro exI [of _ 0]) simp
next
  case (Step f)
  obtain t w' where f: "f w = (t, w')" by (rule prod.exhaust)
  obtain n where n: "pool_run (replicate n i) (ts[i := t], w')
      = (case run_task t w' of (x, v) \<Rightarrow> (ts[i := t, i := Done x], v))"
    using Step.IH [OF f, of "ts[i := t]" w'] Step.prems(1) by auto
  have "pool_run (replicate (Suc n) i) (ts, w) = pool_run (replicate n i) (ts[i := t], w')"
    using Step.prems f by (simp add: pool_step_def)
  then show ?case using n f by (intro exI [of _ "Suc n"]) simp
qed

text \<open>The tasks one after the other, as a build without threads runs them: one of the schedules.\<close>

primrec run_each :: "'a task list \<Rightarrow> world \<Rightarrow> 'a list \<times> world" where
  "run_each [] w = ([], w)"
| "run_each (t # ts) w =
     (case run_task t w of (x, w') \<Rightarrow> (case run_each ts w' of (xs, w'') \<Rightarrow> (x # xs, w'')))"

lemma one_after_the_other:
  "\<exists>schedule. pool_run schedule (map Done ys @ ts, w)
     = (case run_each ts w of (xs, w') \<Rightarrow> (map Done (ys @ xs), w'))"
proof (induction ts arbitrary: ys w)
  case Nil
  show ?case by (intro exI [of _ "[]"]) simp
next
  case (Cons t ts)
  obtain x v where x: "run_task t w = (x, v)" by (rule prod.exhaust)
  obtain n where n: "pool_run (replicate n (length ys)) (map Done ys @ t # ts, w)
      = (map Done (ys @ [x]) @ ts, v)"
    using turns_end_task [of "length ys" "map Done ys @ t # ts" t w] x
    by (auto simp: nth_append list_update_append)
  obtain schedule where s: "pool_run schedule (map Done (ys @ [x]) @ ts, v)
      = (case run_each ts v of (xs, w') \<Rightarrow> (map Done ((ys @ [x]) @ xs), w'))"
    using Cons.IH by blast
  have "pool_run (replicate n (length ys) @ schedule) (map Done ys @ t # ts, w)
      = (case run_each (t # ts) w of (xs, w') \<Rightarrow> (map Done (ys @ xs), w'))"
    using n s x by (simp add: pool_run_append split: prod.split)
  then show ?case by blast
qed

lemma sequential_schedule: "\<exists>schedule. run_pool schedule (ts, w) = Some (run_each ts w)"
  using one_after_the_other [of "[]" ts w] by (simp add: run_pool_Some split: prod.splits)

text \<open>Threads: the schedule of the host as far as it goes, then what is left in order.\<close>

definition run_threads :: "'a task list \<Rightarrow> world \<Rightarrow> 'a list \<times> world" where
  "run_threads ts w = (case pool_run (w_schedule w) (ts, w) of (ts', w') \<Rightarrow> run_each ts' w')"

lemma threads_schedule: "\<exists>schedule. run_pool schedule (ts, w) = Some (run_threads ts w)"
proof -
  obtain ts' w' where p: "pool_run (w_schedule w) (ts, w) = (ts', w')" by (rule prod.exhaust)
  obtain rest where "run_pool rest (ts', w') = Some (run_each ts' w')" using sequential_schedule by blast
  then have "run_pool (w_schedule w @ rest) (ts, w) = Some (run_threads ts w)"
    using p by (simp add: run_pool_def pool_run_append run_threads_def)
  then show ?thesis by blast
qed

text \<open>A task alone is not disturbed by any schedule.\<close>

lemma pool_run_alone: "\<exists>t' v. pool_run schedule ([t], w) = ([t'], v) \<and> run_task t' v = run_task t w"
proof (induction schedule arbitrary: t w)
  case Nil
  then show ?case by simp
next
  case (Cons i schedule)
  have "\<exists>t1 w1. pool_step i ([t], w) = ([t1], w1) \<and> run_task t1 w1 = run_task t w"
  proof (cases t)
    case (Step f)
    then show ?thesis by (cases i; cases "f w") (auto simp: pool_step_def)
  qed (simp add: pool_step_def)
  then obtain t1 w1 where "pool_step i ([t], w) = ([t1], w1)" "run_task t1 w1 = run_task t w" by blast
  then show ?case using Cons.IH [of t1 w1] by simp
qed

lemma run_threads_alone: "run_threads [t] w = run_each [t] w"
proof -
  obtain t' v where "pool_run (w_schedule w) ([t], w) = ([t'], v)" "run_task t' v = run_task t w"
    using pool_run_alone by blast
  then show ?thesis by (simp add: run_threads_def)
qed

section \<open>What a task does\<close>

text \<open>\<open>behaves K E Q g t\<close>: whenever the task with the ghost \<open>g\<close> takes a step in a world of which
  \<open>K\<close> is known, the step has the effect \<open>E\<close> and leaves a ghost with which the rest behaves again;
  when it is done, \<open>Q\<close> holds of its result. Between its steps others may act.\<close>

inductive behaves ::
  "('g \<Rightarrow> world \<Rightarrow> bool) \<Rightarrow> ('g \<Rightarrow> world \<Rightarrow> 'g \<Rightarrow> world \<Rightarrow> bool) \<Rightarrow> ('a \<Rightarrow> 'g \<Rightarrow> bool)
     \<Rightarrow> 'g \<Rightarrow> 'a task \<Rightarrow> bool"
  for K :: "'g \<Rightarrow> world \<Rightarrow> bool" and E :: "'g \<Rightarrow> world \<Rightarrow> 'g \<Rightarrow> world \<Rightarrow> bool"
    and Q :: "'a \<Rightarrow> 'g \<Rightarrow> bool" where
  ended: "Q x g \<Longrightarrow> behaves K E Q g (Done x)"
| steps: "(\<And>w t w'. K g w \<Longrightarrow> f w = (t, w') \<Longrightarrow> \<exists>g'. E g w g' w' \<and> behaves K E Q g' t) \<Longrightarrow>
    behaves K E Q g (Step f)"

inductive_simps behaves_Done [simp]: "behaves K E Q g (Done x)"
inductive_cases behaves_StepE: "behaves K E Q g (Step f)"

lemma behaves_mono:
  assumes "behaves K E R g t" "\<And>x h. R x h \<Longrightarrow> Q x h"
  shows "behaves K E Q g t"
  using assms(1)
proof induction
  case (ended x g)
  then show ?case using assms(2) by simp
next
  case (steps g f)
  show ?case by (rule behaves.steps) (use steps.IH in blast)
qed

lemma behaves_followed_by:
  assumes "behaves K E R g t" "\<And>x h. R x h \<Longrightarrow> behaves K E Q h (k x)"
  shows "behaves K E Q g (followed_by t k)"
  using assms(1)
proof induction
  case (ended x g)
  then show ?case using assms(2) by simp
next
  case (steps g f)
  show ?case unfolding followed_by.simps
  proof (rule behaves.steps)
    fix w t w'
    assume "K g w" "map_prod (\<lambda>t. followed_by t k) id (f w) = (t, w')"
    then show "\<exists>g'. E g w g' w' \<and> behaves K E Q g' t" using steps.IH [of w] by (cases "f w") auto
  qed
qed

lemma behaves_ret: "Q (Inr x) g \<Longrightarrow> behaves K E Q g (ret_task x)"
  by (simp add: ret_task_def)

lemma behaves_throw: "Q (Inl e) g \<Longrightarrow> behaves K E Q g (throw_task e)"
  by (simp add: throw_task_def)

lemma behaves_lift: "Q r g \<Longrightarrow> behaves K E Q g (lift_task r)"
  by (simp add: lift_task_def)

lemma behaves_call:
  assumes "\<And>w r w'. K g w \<Longrightarrow> m w = (r, w') \<Longrightarrow> \<exists>h. E g w h w' \<and> Q r h"
  shows "behaves K E Q g (call_task m)"
  unfolding call_task_def
proof (rule behaves.steps)
  fix w t w'
  assume "K g w" "map_prod Done id (m w) = (t, w')"
  then show "\<exists>h. E g w h w' \<and> behaves K E Q h t" using assms [of w] by (cases "m w") auto
qed

lemma behaves_bind:
  assumes "behaves K E R g t" "\<And>e h. R (Inl e) h \<Longrightarrow> Q (Inl e) h"
    and "\<And>x h. R (Inr x) h \<Longrightarrow> behaves K E Q h (k x)"
  shows "behaves K E Q g (bind_task t k)"
  unfolding bind_task_def
  by (rule behaves_followed_by [OF assms(1)]) (auto intro: assms(2,3) split: sum.split)

lemma behaves_map_err:
  "behaves K E (\<lambda>r. Q (map_err f r)) g t \<Longrightarrow> behaves K E Q g (map_err_task f t)"
  unfolding map_err_task_def by (rule behaves_followed_by) simp_all

lemma behaves_attempt: "behaves K E (\<lambda>r. Q (Inr r)) g t \<Longrightarrow> behaves K E Q g (attempt_task t)"
  unfolding attempt_task_def by (rule behaves_followed_by) simp_all

lemma behaves_if:
  "(b \<Longrightarrow> behaves K E Q g t) \<Longrightarrow> (\<not> b \<Longrightarrow> behaves K E Q g u) \<Longrightarrow> behaves K E Q g (if b then t else u)"
  by simp

section \<open>What a pool does\<close>

text \<open>\<open>J\<close> ties the ghosts of all tasks to the world. It gives each task what it may know, and a step
  of one task, with the effect it has, preserves it.\<close>

locale pool =
  fixes K :: "'g \<Rightarrow> world \<Rightarrow> bool" and E :: "'g \<Rightarrow> world \<Rightarrow> 'g \<Rightarrow> world \<Rightarrow> bool"
    and J :: "'g list \<Rightarrow> world \<Rightarrow> bool"
  assumes known: "J gs w \<Longrightarrow> i < length gs \<Longrightarrow> K (gs ! i) w"
    and preserved: "J gs w \<Longrightarrow> i < length gs \<Longrightarrow> E (gs ! i) w g w' \<Longrightarrow> J (gs[i := g]) w'"
begin

definition in_order :: "(nat \<Rightarrow> 'a \<Rightarrow> 'g \<Rightarrow> bool) \<Rightarrow> 'g list \<Rightarrow> 'a pool \<Rightarrow> bool" where
  "in_order Q gs p \<longleftrightarrow>
     (case p of (ts, w) \<Rightarrow> J gs w \<and> length gs = length ts
        \<and> (\<forall>i < length ts. behaves K E (Q i) (gs ! i) (ts ! i)))"

lemma step_in_order:
  assumes "in_order Q gs (ts, w)"
  shows "\<exists>gs'. in_order Q gs' (pool_step i (ts, w))"
proof (cases "i < length ts")
  case True
  show ?thesis
  proof (cases "ts ! i")
    case (Done x)
    then show ?thesis using assms by (auto simp: pool_step_def)
  next
    case (Step f)
    obtain t w' where f: "f w = (t, w')" by (rule prod.exhaust)
    have g: "J gs w" "i < length gs" "behaves K E (Q i) (gs ! i) (Step f)"
      using assms True Step by (auto simp: in_order_def)
    obtain g where "E (gs ! i) w g w'" "behaves K E (Q i) g t"
      using g(3) known [OF g(1,2)] f by (blast elim: behaves_StepE)
    then have "in_order Q (gs[i := g]) (ts[i := t], w')"
      using assms True preserved [OF g(1,2)] by (auto simp: in_order_def nth_list_update)
    then show ?thesis using True Step f by (auto simp: pool_step_def)
  qed
next
  case False
  then show ?thesis using assms by (auto simp: pool_step_def)
qed

lemma run_in_order: "in_order Q gs p \<Longrightarrow> \<exists>gs'. in_order Q gs' (pool_run schedule p)"
proof (induction schedule arbitrary: gs p)
  case Nil
  then show ?case by auto
next
  case (Cons i schedule)
  obtain gs' where "in_order Q gs' (pool_step i p)"
    using step_in_order [of Q gs "fst p" "snd p" i] Cons.prems by auto
  then show ?case using Cons.IH by simp
qed

lemma results_in_order:
  assumes "run_pool schedule (ts, w) = Some (xs, w')" "J gs w" "length gs = length ts"
    and "\<And>i. i < length ts \<Longrightarrow> behaves K E (Q i) (gs ! i) (ts ! i)"
  shows "\<exists>gs'. J gs' w' \<and> length gs' = length ts \<and> length xs = length ts
    \<and> (\<forall>i < length ts. Q i (xs ! i) (gs' ! i))"
proof -
  have ended: "pool_run schedule (ts, w) = (map Done xs, w')" using assms(1) by (simp add: run_pool_Some)
  have "in_order Q gs (ts, w)" using assms(2-4) by (simp add: in_order_def)
  then obtain gs' where "in_order Q gs' (map Done xs, w')" using run_in_order ended by metis
  moreover have "length xs = length ts" using pool_run_length [OF ended] by simp
  ultimately show ?thesis by (intro exI [of _ gs']) (simp add: in_order_def)
qed

end

end
