(* ===== verification/FileTasks.thy ===== *)
theory FileTasks
  imports FileUtils Tasks
begin

text \<open>
  The functions of \<open>ops/file_utils.rs\<close> that run on several threads at once, as tasks: bounded reads,
  the resolution of destinations and the refusal of aliases, and \<open>write_file\<close>. Each is the function of
  \<open>FileUtils\<close> of the same name, call by call; the lemmas \<open>run_tasks\<close> say that undisturbed it does what
  that function does.
\<close>

lemma run_case_entry [run_tasks]:
  "run_task (case e of FileAt i \<Rightarrow> f i | LinkTo t \<Rightarrow> g t | DirAt \<Rightarrow> h) =
     (case e of FileAt i \<Rightarrow> run_task (f i) | LinkTo t \<Rightarrow> run_task (g t) | DirAt \<Rightarrow> run_task h)"
  by (simp split: entry.split)

section \<open>Reading\<close>

definition read_file_bounded_task :: "path \<Rightarrow> nat \<Rightarrow> (error, string) job" where
  "read_file_bounded_task p max_bytes =
     bind_task (map_err_task (FileRead p) (call_task (open_file p))) (\<lambda>file.
     bind_task (map_err_task (FileRead p) (call_task (fstat file))) (\<lambda>m.
       if st_len m > max_bytes then throw_task (too_large (st_len m) max_bytes)
       else bind_task (map_err_task (FileRead p) (call_task (file_reads file))) (\<lambda>reader.
            lift_task (read_bounded_string_from_reader reader p max_bytes))))"

definition read_message_file_task :: "path \<Rightarrow> (error, bytes) job" where
  "read_message_file_task p =
     bind_task (map_err_task (FileRead p) (call_task (open_file p))) (\<lambda>file.
     bind_task (map_err_task (FileRead p) (call_task (fstat file))) (\<lambda>m.
       if st_len m > MAX_MESSAGE_SIZE_BYTES then throw_task (message_too_large (st_len m))
       else bind_task (map_err_task (FileRead p) (call_task (file_reads file))) (\<lambda>reader.
            bind_task (lift_task (map_err (FileRead p)
              (read_to_end (MAX_MESSAGE_SIZE_BYTES + 1) [] reader))) (\<lambda>buf.
              if length buf > MAX_MESSAGE_SIZE_BYTES then throw_task (message_too_large (length buf))
              else ret_task buf))))"

lemma run_reading [run_tasks]:
  "run_task (read_file_bounded_task p max_bytes) = read_file_bounded p max_bytes"
  "run_task (read_message_file_task p) = read_message_file p"
  by (simp_all add: run_tasks read_file_bounded_task_def read_file_bounded_def
      read_message_file_task_def read_message_file_def cong: if_cong)

section \<open>Destinations\<close>

function resolve_components_task :: "component list \<Rightarrow> (io_error, path) job" where
  "resolve_components_task cs =
     (if cs = [] \<or> last cs = RootDir then ret_task (render_path cs)
      else
        bind_task (attempt_task (call_task (canonicalize (render_path (butlast cs))))) (\<lambda>r.
        bind_task (case r of
                   Inr canonical \<Rightarrow> ret_task canonical
                 | Inl e \<Rightarrow> if io_kind_of e = NotFound then resolve_components_task (butlast cs)
                           else throw_task e)
        (\<lambda>parent.
          ret_task (case last cs of
                 ParentDir \<Rightarrow> (case path_parent parent of None \<Rightarrow> parent | Some d \<Rightarrow> d)
               | CurDir \<Rightarrow> parent
               | RootDir \<Rightarrow> parent
               | NormalComp n \<Rightarrow> path_join parent n))))"
  by pat_completeness auto
termination
  by (relation "measure length") auto

declare resolve_components_task.simps [simp del]

definition resolve_destination_task :: "path \<Rightarrow> (error, path) job" where
  "resolve_destination_task p =
     map_err_task (FileWrite p)
       (bind_task (call_task (absolute p)) (\<lambda>a. resolve_components_task (components a)))"

fun alias_loop_task :: "path \<Rightarrow> path \<Rightarrow> path list \<Rightarrow> (error, unit) job" where
  "alias_loop_task output destination [] = ret_task ()"
| "alias_loop_task output destination (other # others) =
     bind_task (attempt_task (call_task (canonicalize other))) (\<lambda>r.
     bind_task (case r of
                Inr canonical \<Rightarrow> ret_task canonical
              | Inl e \<Rightarrow> if io_kind_of e = NotFound then resolve_destination_task other
                         else throw_task (FileWrite other e)) (\<lambda>resolved.
       if components resolved = components destination then throw_task (OutputAlias output other)
       else alias_loop_task output destination others))"

definition reject_output_alias_task :: "path \<Rightarrow> path list \<Rightarrow> (error, unit) job" where
  "reject_output_alias_task output others =
     bind_task (resolve_destination_task output) (\<lambda>destination. alias_loop_task output destination others)"

lemma run_resolve_components [run_tasks]: "run_task (resolve_components_task cs) = resolve_components cs"
proof (induction cs rule: resolve_components_task.induct)
  case (1 cs)
  then show ?case
    by (subst resolve_components_task.simps, subst resolve_components.simps)
      (simp add: run_tasks cong: if_cong sum.case_cong)
qed

lemma run_resolving [run_tasks]:
  "run_task (resolve_destination_task p) = resolve_destination p"
  "run_task (alias_loop_task output destination others) = alias_loop output destination others"
  "run_task (reject_output_alias_task output others) = reject_output_alias output others"
proof -
  show dest: "run_task (resolve_destination_task p) = resolve_destination p" for p
    by (simp add: run_tasks resolve_destination_task_def resolve_destination_def)
  show "run_task (alias_loop_task output destination others) = alias_loop output destination others" for destination
    by (induction others) (simp_all add: run_tasks dest cong: if_cong sum.case_cong)
  then show "run_task (reject_output_alias_task output others) = reject_output_alias output others"
    by (simp add: run_tasks dest reject_output_alias_task_def reject_output_alias_def)
qed

section \<open>Writing\<close>

definition reject_symlink_task :: "path \<Rightarrow> (error, unit) job" where
  "reject_symlink_task p =
     bind_task (attempt_task (call_task (symlink_metadata p))) (\<lambda>r.
       case r of
         Inr e \<Rightarrow> (case e of FileAt i \<Rightarrow> ret_task () | LinkTo t \<Rightarrow> throw_task (OutputIsSymlink p) | DirAt \<Rightarrow> ret_task ())
       | Inl e \<Rightarrow> if io_kind_of e = NotFound then ret_task () else throw_task (FileWrite p e))"

definition sibling_temp_path_task :: "path \<Rightarrow> string \<Rightarrow> ('e, path) job" where
  "sibling_temp_path_task p suffix =
     bind_task (call_task (random_bytes 8)) (\<lambda>nonce_bytes.
       let nonce = u64_from_le_bytes nonce_bytes;
           name = (case file_name p of None \<Rightarrow> ''key'' | Some n \<Rightarrow> n)
       in ret_task (path_join (parent_or_dot p) (temp_name name nonce suffix)))"

definition sync_parent_directory_task :: "path \<Rightarrow> (error, unit) job" where
  "sync_parent_directory_task p =
     (case path_parent p of
        None \<Rightarrow> ret_task ()
      | Some parent \<Rightarrow>
          (if parent = [] then ret_task ()
           else bind_task (map_err_task (FileWrite parent) (call_task (open_file parent))) (\<lambda>dir.
                map_err_task (FileWrite parent) (call_task sync_all))))"

definition stage_replacement_task :: "path \<Rightarrow> path \<Rightarrow> bytes \<Rightarrow> nat option \<Rightarrow> (error, unit) job" where
  "stage_replacement_task p tmp contents unix_mode =
     bind_task (map_err_task (FileWrite tmp)
       (call_task (create_new tmp (case unix_mode of None \<Rightarrow> DEFAULT_FILE_MODE | Some m \<Rightarrow> m)))) (\<lambda>file.
     bind_task (case unix_mode of
                None \<Rightarrow> ret_task ()
              | Some mode \<Rightarrow> map_err_task (FileWrite tmp) (call_task (fchmod file mode))) (\<lambda>_.
     bind_task (map_err_task (FileWrite tmp) (call_task (write_all file contents))) (\<lambda>_.
     bind_task (map_err_task (FileWrite tmp) (call_task sync_all)) (\<lambda>_.
       map_err_task (FileWrite p) (call_task (rename_file tmp p))))))"

definition discard_failed_task :: "path \<Rightarrow> error + unit \<Rightarrow> (error, unit) job" where
  "discard_failed_task tmp result =
     (if is_ok result then ret_task ()
      else bind_task (attempt_task (call_task (remove_file tmp))) (\<lambda>r.
             case r of
               Inl e \<Rightarrow> if io_kind_of e = NotFound then ret_task ()
                         else call_task (warn_could_not_remove tmp e)
             | Inr _ \<Rightarrow> ret_task ()))"

definition atomic_replace_file_task :: "path \<Rightarrow> bytes \<Rightarrow> nat option \<Rightarrow> (error, unit) job" where
  "atomic_replace_file_task p contents unix_mode =
     bind_task (lift_task (validate_windows_path p)) (\<lambda>_.
     bind_task (sibling_temp_path_task p ''tmp'') (\<lambda>tmp.
     bind_task (attempt_task (stage_replacement_task p tmp contents unix_mode)) (\<lambda>result.
     bind_task (discard_failed_task tmp result) (\<lambda>_.
     bind_task (lift_task result) (\<lambda>_. sync_parent_directory_task p)))))"

definition write_file_task :: "path \<Rightarrow> bytes \<Rightarrow> bool \<Rightarrow> (error, unit) job" where
  "write_file_task p contents force =
     bind_task (lift_task (validate_windows_path p)) (\<lambda>_.
       if force then bind_task (reject_symlink_task p) (\<lambda>_. atomic_replace_file_task p contents None)
       else
         bind_task (map_err_task (\<lambda>e. if io_kind_of e = AlreadyExists then FileExists p else FileWrite p e)
           (call_task (create_new p DEFAULT_FILE_MODE))) (\<lambda>file.
         bind_task (map_err_task (FileWrite p) (call_task (write_all file contents))) (\<lambda>_. ret_task ())))"

lemma run_writing [run_tasks]:
  "run_task (reject_symlink_task p) = reject_symlink p"
  "run_task (sibling_temp_path_task p suffix) = sibling_temp_path p suffix"
  "run_task (sync_parent_directory_task p) = sync_parent_directory p"
  "run_task (stage_replacement_task p tmp contents unix_mode) = stage_replacement p tmp contents unix_mode"
  "run_task (discard_failed_task tmp result) = discard_failed tmp result"
  by (simp_all add: run_tasks reject_symlink_task_def reject_symlink_def sibling_temp_path_task_def
      sibling_temp_path_def sync_parent_directory_task_def sync_parent_directory_def
      stage_replacement_task_def stage_replacement_def discard_failed_task_def discard_failed_def Let_def
      cong: if_cong sum.case_cong option.case_cong entry.case_cong)

lemma run_write_file [run_tasks]:
  "run_task (atomic_replace_file_task p contents unix_mode) = atomic_replace_file p contents unix_mode"
  "run_task (write_file_task p contents force) = write_file p contents force"
  by (simp_all add: run_tasks atomic_replace_file_task_def atomic_replace_file_def write_file_task_def
      write_file_def cong: if_cong)

end
