(* ===== verification/Verify.thy ===== *)
theory Verify
  imports FileTasks KeyUse Wordlist
begin

text \<open>
  \<open>ops/verify.rs\<close>: loading the public key and the signature, the checks on a message in the
  order of the source, single files and batches. The work on a file of a batch is a task
  (\<open>Tasks\<close>): with the feature \<open>parallel\<close> the files are worked on by threads, in the interleaving
  the host chooses, without it one after the other.
\<close>

section \<open>Options\<close>

datatype public_key_source = SourceFile path | SourceBase64 string

record verify_options =
  vo_public_key :: public_key_source
  vo_signature_file :: path
  vo_message_file :: path
  vo_output :: bool
  vo_quiet :: bool
  vo_force_prehashed :: bool

definition verify_builder :: "public_key_source \<Rightarrow> path \<Rightarrow> path \<Rightarrow> verify_options" where
  "verify_builder public_key signature_file message_file =
     \<lparr>vo_public_key = public_key, vo_signature_file = signature_file,
      vo_message_file = message_file, vo_output = False, vo_quiet = False,
      vo_force_prehashed = False\<rparr>"

definition verify_set_output :: "verify_options \<Rightarrow> bool \<Rightarrow> verify_options" where
  "verify_set_output opts b = opts\<lparr>vo_output := b\<rparr>"

definition verify_set_quiet :: "verify_options \<Rightarrow> bool \<Rightarrow> verify_options" where
  "verify_set_quiet opts b = opts\<lparr>vo_quiet := b\<rparr>"

definition verify_set_force_prehashed :: "verify_options \<Rightarrow> bool \<Rightarrow> verify_options" where
  "verify_set_force_prehashed opts b = opts\<lparr>vo_force_prehashed := b\<rparr>"

record verify_result =
  vr_trusted_comment :: string
  vr_untrusted_comment :: string
  vr_key_id :: string
  vr_key_id_words :: string
  vr_message_output :: "bytes option"

definition take_message_output :: "verify_result \<Rightarrow> bytes option \<times> verify_result" where
  "take_message_output r = (vr_message_output r, r\<lparr>vr_message_output := None\<rparr>)"

section \<open>One message\<close>

definition load_public_key :: "crates \<Rightarrow> public_key_source \<Rightarrow> (error, pubkey_struct) io" where
  "load_public_key C source =
     (case source of
        SourceFile p \<Rightarrow>
          bind_io (read_file_bounded p MAX_KEY_FILE_BYTES) (\<lambda>contents.
            lift_res (pubkey_from_file_contents C contents))
      | SourceBase64 s \<Rightarrow> lift_res (pubkey_from_base64 C s))"

definition load_signature :: "crates \<Rightarrow> path \<Rightarrow> (error, sig_box) io" where
  "load_signature C p =
     bind_io (read_file_bounded p MAX_SIGNATURE_FILE_BYTES) (\<lambda>contents.
       lift_res (sig_box_from_file_contents C contents))"

definition too_large_for_output :: error where
  "too_large_for_output =
     Other (''cannot combine prehashed mode (-H) with output (-o) for files larger than ''
       @ dec MAX_MESSAGE_SIZE_BYTES @ '' bytes: the file must be buffered to ''
       @ ''eliminate the TOCTOU window between hash verification and output'')"

text \<open>A message opened and hashed block by block, without being kept.\<close>

definition hash_file :: "crates \<Rightarrow> path \<Rightarrow> (error, bytes) io" where
  "hash_file C p =
     bind_io (map_err_io (FileRead p) (open_file p)) (\<lambda>file.
     bind_io (map_err_io (\<lambda>e. Io (''failed to read data for hashing: '' @ io_text e)) (file_reads file))
       (\<lambda>reader. lift_res (blake2b_512_stream C reader)))"

definition verify_message_signature ::
  "crates \<Rightarrow> pubkey_struct \<Rightarrow> sig_box \<Rightarrow> path \<Rightarrow> bool \<Rightarrow> bool \<Rightarrow> (error, bytes option) io" where
  "verify_message_signature C pubkey b message_file force_prehashed capture_output =
     (if pk_keynum pubkey \<noteq> ss_keynum (sb_sig_struct b) then
        throw (KeyMismatch (to_key_id (ss_keynum (sb_sig_struct b))))
      else if force_prehashed \<and> \<not> ss_prehashed (sb_sig_struct b) then throw LegacySignatureRejected
      else if ss_prehashed (sb_sig_struct b) then
        (if capture_output then
           bind_io (map_err_io (FileRead message_file) (metadata message_file)) (\<lambda>m.
             if st_len m > MAX_MESSAGE_SIZE_BYTES then throw too_large_for_output
             else
               bind_io (read_message_file message_file) (\<lambda>file_buf.
               bind_io (lift_res (verify C (pk_public_key pubkey) (blake2b_512 C file_buf)
                          (ss_signature (sb_sig_struct b)))) (\<lambda>_.
                 ret (Some file_buf))))
         else
           bind_io (hash_file C message_file) (\<lambda>hash.
           bind_io (lift_res (verify C (pk_public_key pubkey) hash (ss_signature (sb_sig_struct b)))) (\<lambda>_.
             ret None)))
      else
        bind_io (read_message_file message_file) (\<lambda>file_buf.
        bind_io (lift_res (verify C (pk_public_key pubkey) file_buf (ss_signature (sb_sig_struct b)))) (\<lambda>_.
          ret (if capture_output then Some file_buf else None))))"

definition verify_result_of :: "pubkey_struct \<Rightarrow> sig_box \<Rightarrow> bytes option \<Rightarrow> verify_result" where
  "verify_result_of pubkey b message_output =
     (case into_parts b of (untrusted_comment, _, trusted_comment, _) \<Rightarrow>
        \<lparr>vr_trusted_comment = trusted_comment, vr_untrusted_comment = untrusted_comment,
         vr_key_id = to_key_id (pk_keynum pubkey),
         vr_key_id_words = keynum_to_words (pk_keynum pubkey),
         vr_message_output = message_output\<rparr>)"

definition verify_op :: "crates \<Rightarrow> verify_options \<Rightarrow> (error, verify_result) io" where
  "verify_op C opts =
     bind_io (load_public_key C (vo_public_key opts)) (\<lambda>pubkey.
     bind_io (load_signature C (vo_signature_file opts)) (\<lambda>b.
     bind_io (verify_message_signature C pubkey b (vo_message_file opts) (vo_force_prehashed opts)
                (vo_output opts)) (\<lambda>message_output.
     bind_io (lift_res (verify_global_signature C b (pk_public_key pubkey))) (\<lambda>_.
       ret (verify_result_of pubkey b message_output)))))"

section \<open>Batches\<close>

definition verify_file_with_key ::
  "crates \<Rightarrow> path \<Rightarrow> pubkey_struct \<Rightarrow> verify_options \<Rightarrow> (error, verify_result) io" where
  "verify_file_with_key C message_file pubkey opts =
     (let sig_file_path = message_file @ ''.minisig''
      in bind_io (load_signature C sig_file_path) (\<lambda>b.
         bind_io (verify_message_signature C pubkey b message_file (vo_force_prehashed opts) False) (\<lambda>_.
         bind_io (lift_res (verify_global_signature C b (pk_public_key pubkey))) (\<lambda>_.
           ret (verify_result_of pubkey b None)))))"

text \<open>\<open>Display\<close> of an error; paths in it are shown with \<open>Debug\<close>, which is left open here.\<close>

definition report_verify_result ::
  "(path \<Rightarrow> string) \<Rightarrow> path \<Rightarrow> error + verify_result \<Rightarrow> verify_options \<Rightarrow> ('e, unit) io" where
  "report_verify_result dbg file result opts =
     (case result of
        Inr r \<Rightarrow>
          (if \<not> vo_quiet opts then
             println (''Verified: '' @ sanitised_path_display file @ [LF] @ ''  Trusted comment: ''
               @ vr_trusted_comment r)
           else ret ())
      | Inl e \<Rightarrow>
          eprintln (''Failed: '' @ sanitised_path_display file @ '' ('' @ display_error dbg e @ '')''))"

text \<open>The results of a batch and its summary: verification and signing share their form, with
  another verb.\<close>

definition failed_files :: "(path \<times> (error + 'a)) list \<Rightarrow> path list" where
  "failed_files results = map fst (filter (\<lambda>(f, r). \<not> is_ok r) results)"

definition format_summary :: "string \<Rightarrow> (path \<times> (error + 'a)) list \<Rightarrow> string option" where
  "format_summary verb results =
     (let failures = failed_files results
      in if failures = [] then None
         else
           let success_count = length results - length failures;
               out = [LF] @ ''Summary: '' @ dec success_count @ '' '' @ verb @ '', ''
                     @ dec (length failures) @ '' failed'' @ [LF] @ ''Failed files:'' @ [LF]
           in Some (foldl (\<lambda>out file. out @ ''  - '' @ sanitised_path_display file @ [LF]) out failures))"

definition format_verify_summary :: "(path \<times> (error + verify_result)) list \<Rightarrow> string option" where
  "format_verify_summary results = format_summary ''verified'' results"

definition print_summary :: "string \<Rightarrow> (path \<times> (error + 'a)) list \<Rightarrow> (error, unit) io" where
  "print_summary verb results =
     (case format_summary verb results of
        None \<Rightarrow> ret ()
      | Some summary \<Rightarrow>
          bind_io (print_err summary) (\<lambda>_.
            if list_all (\<lambda>(f, r). \<not> is_ok r) results then throw TotalFailure
            else throw PartialFailure))"

definition print_verify_summary :: "(path \<times> (error + verify_result)) list \<Rightarrow> (error, unit) io" where
  "print_verify_summary results = print_summary ''verified'' results"

section \<open>The work on a file of a batch\<close>

text \<open>The functions above, step by step.\<close>

definition hash_file_task :: "crates \<Rightarrow> path \<Rightarrow> (error, bytes) job" where
  "hash_file_task C p =
     bind_task (map_err_task (FileRead p) (call_task (open_file p))) (\<lambda>file.
     bind_task (map_err_task (\<lambda>e. Io (''failed to read data for hashing: '' @ io_text e))
                  (call_task (file_reads file)))
       (\<lambda>reader. lift_task (blake2b_512_stream C reader)))"

definition load_signature_task :: "crates \<Rightarrow> path \<Rightarrow> (error, sig_box) job" where
  "load_signature_task C p =
     bind_task (read_file_bounded_task p MAX_SIGNATURE_FILE_BYTES) (\<lambda>contents.
       lift_task (sig_box_from_file_contents C contents))"

text \<open>A batch never asks for the message to be kept, so only the other branches are needed.\<close>

definition verify_message_signature_task ::
  "crates \<Rightarrow> pubkey_struct \<Rightarrow> sig_box \<Rightarrow> path \<Rightarrow> bool \<Rightarrow> (error, bytes option) job" where
  "verify_message_signature_task C pubkey b message_file force_prehashed =
     (if pk_keynum pubkey \<noteq> ss_keynum (sb_sig_struct b) then
        throw_task (KeyMismatch (to_key_id (ss_keynum (sb_sig_struct b))))
      else if force_prehashed \<and> \<not> ss_prehashed (sb_sig_struct b) then throw_task LegacySignatureRejected
      else if ss_prehashed (sb_sig_struct b) then
        bind_task (hash_file_task C message_file) (\<lambda>hash.
        bind_task (lift_task (verify C (pk_public_key pubkey) hash (ss_signature (sb_sig_struct b)))) (\<lambda>_.
          ret_task None))
      else
        bind_task (read_message_file_task message_file) (\<lambda>file_buf.
        bind_task (lift_task (verify C (pk_public_key pubkey) file_buf (ss_signature (sb_sig_struct b)))) (\<lambda>_.
          ret_task None)))"

definition verify_file_with_key_task ::
  "crates \<Rightarrow> path \<Rightarrow> pubkey_struct \<Rightarrow> verify_options \<Rightarrow> (error, verify_result) job" where
  "verify_file_with_key_task C message_file pubkey opts =
     (let sig_file_path = message_file @ ''.minisig''
      in bind_task (load_signature_task C sig_file_path) (\<lambda>b.
         bind_task (verify_message_signature_task C pubkey b message_file (vo_force_prehashed opts)) (\<lambda>_.
         bind_task (lift_task (verify_global_signature C b (pk_public_key pubkey))) (\<lambda>_.
           ret_task (verify_result_of pubkey b None)))))"

text \<open>A line is written as a whole: \<open>println!\<close> holds the lock of the stream.\<close>

definition report_verify_result_task ::
  "(path \<Rightarrow> string) \<Rightarrow> path \<Rightarrow> error + verify_result \<Rightarrow> verify_options \<Rightarrow> ('e, unit) job" where
  "report_verify_result_task dbg file result opts = call_task (report_verify_result dbg file result opts)"

definition verify_job ::
  "crates \<Rightarrow> (path \<Rightarrow> string) \<Rightarrow> pubkey_struct \<Rightarrow> verify_options \<Rightarrow> path
     \<Rightarrow> (path \<times> (error + verify_result)) task" where
  "verify_job C dbg pubkey opts file =
     followed_by (verify_file_with_key_task C file pubkey opts) (\<lambda>result.
     followed_by (report_verify_result_task dbg file result opts :: (error, unit) job) (\<lambda>_.
       Done (file, result)))"

lemma run_verifying [run_tasks]:
  "run_task (hash_file_task C p) = hash_file C p"
  "run_task (load_signature_task C p) = load_signature C p"
  "run_task (verify_message_signature_task C pubkey b f force_prehashed) =
     verify_message_signature C pubkey b f force_prehashed False"
  "run_task (verify_file_with_key_task C f pubkey opts) = verify_file_with_key C f pubkey opts"
  "run_task (report_verify_result_task dbg f result opts) = report_verify_result dbg f result opts"
  by (simp_all add: run_tasks hash_file_task_def hash_file_def load_signature_task_def load_signature_def verify_message_signature_task_def
      verify_message_signature_def verify_file_with_key_task_def verify_file_with_key_def
      report_verify_result_task_def Let_def cong: if_cong)

definition collect_verify_results ::
  "crates \<Rightarrow> (path \<Rightarrow> string) \<Rightarrow> build \<Rightarrow> path list \<Rightarrow> pubkey_struct \<Rightarrow> verify_options \<Rightarrow> bool
     \<Rightarrow> (error, (path \<times> (error + verify_result)) list) io" where
  "collect_verify_results C dbg B files pubkey opts sequential w =
     (let jobs = map (verify_job C dbg pubkey opts) files
      in case (if b_parallel B \<and> \<not> sequential then run_threads jobs w else run_each jobs w) of
           (results, w') \<Rightarrow> (Inr results, w'))"

definition verify_multiple_files ::
  "crates \<Rightarrow> (path \<Rightarrow> string) \<Rightarrow> build \<Rightarrow> path list \<Rightarrow> verify_options \<Rightarrow> bool \<Rightarrow> (error, unit) io" where
  "verify_multiple_files C dbg B files opts sequential =
     bind_io (load_public_key C (vo_public_key opts)) (\<lambda>pubkey.
     bind_io (if \<not> vo_quiet opts then
                println (''Verifying with key: '' @ to_key_id (pk_keynum pubkey) @ '' (''
                  @ keynum_to_words (pk_keynum pubkey) @ '')'')
              else ret ()) (\<lambda>_.
       if length files = 1 then
         bind_io (verify_file_with_key C (files ! 0) pubkey opts) (\<lambda>result.
           report_verify_result dbg (files ! 0) (Inr result) opts)
       else
         bind_io (collect_verify_results C dbg B files pubkey opts sequential) (\<lambda>results.
           print_verify_summary results)))"

end
