(* ===== verification/Sign.thy ===== *)
theory Sign
  imports Verify
begin

text \<open>
  \<open>ops/sign.rs\<close>: the default trusted comment, the construction of a signature with its
  self-verification, signing one file and a batch of them.
\<close>

section \<open>Options\<close>

definition DEFAULT_UNTRUSTED_COMMENT :: string where
  "DEFAULT_UNTRUSTED_COMMENT = ''signature from minisign secret key''"

record sign_options =
  so_secret_key_file :: path
  so_message_file :: path
  so_signature_file :: "path option"
  so_prehashed :: bool
  so_trusted_comment :: "string option"
  so_untrusted_comment :: "string option"
  so_force :: bool
  so_quiet :: bool

definition sign_builder :: "path \<Rightarrow> path \<Rightarrow> sign_options" where
  "sign_builder secret_key_file message_file =
     \<lparr>so_secret_key_file = secret_key_file, so_message_file = message_file,
      so_signature_file = None, so_prehashed = True, so_trusted_comment = None,
      so_untrusted_comment = None, so_force = False, so_quiet = False\<rparr>"

definition sign_set_signature_file :: "sign_options \<Rightarrow> path \<Rightarrow> sign_options" where
  "sign_set_signature_file opts p = opts\<lparr>so_signature_file := Some p\<rparr>"

definition sign_set_prehashed :: "sign_options \<Rightarrow> bool \<Rightarrow> sign_options" where
  "sign_set_prehashed opts b = opts\<lparr>so_prehashed := b\<rparr>"

definition sign_set_trusted_comment :: "sign_options \<Rightarrow> string \<Rightarrow> sign_options" where
  "sign_set_trusted_comment opts c = opts\<lparr>so_trusted_comment := Some c\<rparr>"

definition sign_set_untrusted_comment :: "sign_options \<Rightarrow> string \<Rightarrow> sign_options" where
  "sign_set_untrusted_comment opts c = opts\<lparr>so_untrusted_comment := Some c\<rparr>"

definition sign_set_force :: "sign_options \<Rightarrow> bool \<Rightarrow> sign_options" where
  "sign_set_force opts b = opts\<lparr>so_force := b\<rparr>"

definition sign_set_quiet :: "sign_options \<Rightarrow> bool \<Rightarrow> sign_options" where
  "sign_set_quiet opts b = opts\<lparr>so_quiet := b\<rparr>"

record sign_result =
  sr_signature_file :: path
  sr_trusted_comment :: string
  sr_key_id :: string
  sr_key_id_words :: string

section \<open>Creating a signature\<close>

definition TIMESTAMP_SANITY_FLOOR :: nat where "TIMESTAMP_SANITY_FLOOR = 1577836800"

text \<open>\<open>SystemTime::now\<close> in milliseconds; \<open>duration_since\<close> fails before the epoch.\<close>

definition generate_default_trusted_comment :: "path \<Rightarrow> bool \<Rightarrow> (error, string) io" where
  "generate_default_trusted_comment message_file prehashed =
     bind_io now (\<lambda>ms.
       if ms < 0 then throw (Other ''system clock is before the UNIX epoch; refusing to sign'')
       else
         let timestamp = nat ms div 1000
         in if timestamp < TIMESTAMP_SANITY_FLOOR then
              throw (Other (''system clock reports '' @ dec timestamp
                @ '' seconds since epoch, which is before 2020-01-01; ''
                @ ''refusing to sign with a bogus timestamp''))
            else
              let basename = (case file_name message_file of None \<Rightarrow> [] | Some n \<Rightarrow> to_string_lossy n)
              in if prehashed then
                   ret (''timestamp:'' @ dec timestamp @ [TAB] @ ''file:'' @ basename @ [TAB] @ ''hashed'')
                 else ret (''timestamp:'' @ dec timestamp @ [TAB] @ ''file:'' @ basename))"

definition create_global_signature_data :: "sig_struct \<Rightarrow> string \<Rightarrow> bytes" where
  "create_global_signature_data s trusted_comment = ss_signature s @ as_bytes trusted_comment"

definition data_to_sign :: "crates \<Rightarrow> path \<Rightarrow> bool \<Rightarrow> (error, bytes) io" where
  "data_to_sign C message_file prehashed =
     (if prehashed then hash_file C message_file else read_message_file message_file)"

text \<open>The cryptographic half of \<open>create_signature\<close>, from the data to the box: both signatures,
  then both of them verified under the public key derived from the secret one.\<close>

definition sign_and_check ::
  "crates \<Rightarrow> secret_key \<Rightarrow> key_num \<Rightarrow> bool \<Rightarrow> string \<Rightarrow> string \<Rightarrow> bytes \<Rightarrow> error + sig_box" where
  "sign_and_check C sk keynum prehashed trusted_comment untrusted_comment data =
     and_then (sign C sk data) (\<lambda>signature.
       let s = sig_struct_new keynum signature prehashed;
           global_sig_data = create_global_signature_data s trusted_comment
       in and_then (sign C sk global_sig_data) (\<lambda>global_signature.
          and_then (case ed_keypair C sk of
                      Some e \<Rightarrow> Inl (InvalidSecretKey (''key inconsistency detected: '' @ e))
                    | None \<Rightarrow> Inr (ed_public C sk)) (\<lambda>derived_pk.
          and_then (map_err (\<lambda>_. Other (''post-sign self-verification failed for message signature; ''
                       @ ''signing key may be corrupt''))
                     (verify C derived_pk data (ss_signature s))) (\<lambda>_.
          and_then (map_err (\<lambda>_. Other (''post-sign self-verification failed for global signature; ''
                       @ ''signing key may be corrupt''))
                     (verify C derived_pk global_sig_data global_signature)) (\<lambda>_.
            sig_box_new untrusted_comment s trusted_comment global_signature)))))"

definition create_signature ::
  "crates \<Rightarrow> secret_key \<Rightarrow> key_num \<Rightarrow> path \<Rightarrow> bool \<Rightarrow> string option \<Rightarrow> string option
     \<Rightarrow> (error, sig_box) io" where
  "create_signature C sk keynum message_file prehashed trusted_comment untrusted_comment =
     bind_io (case trusted_comment of
                Some c \<Rightarrow> ret c
              | None \<Rightarrow> generate_default_trusted_comment message_file prehashed) (\<lambda>trusted_comment.
       let untrusted_comment = (case untrusted_comment of None \<Rightarrow> DEFAULT_UNTRUSTED_COMMENT | Some c \<Rightarrow> c)
       in bind_io (lift_res (validate_comment_with_length untrusted_comment
                     (Some (COMMENTMAXBYTES - COMMENT_PREFIX_SIZE)) ''untrusted'')) (\<lambda>_.
          bind_io (lift_res (validate_comment_with_length trusted_comment
                     (Some (TRUSTEDCOMMENTMAXBYTES - TRUSTED_COMMENT_PREFIX_SIZE)) ''trusted'')) (\<lambda>_.
          bind_io (data_to_sign C message_file prehashed) (\<lambda>data.
            lift_res (sign_and_check C sk keynum prehashed trusted_comment untrusted_comment data)))))"

section \<open>Signing a file\<close>

definition load_and_decrypt_key ::
  "crates \<Rightarrow> path \<Rightarrow> bytes option \<Rightarrow> (error, secret_key \<times> key_num) io" where
  "load_and_decrypt_key C secret_key_file password =
     bind_io (load_secret_key C secret_key_file) (\<lambda>seckey. extract_key_op C seckey password)"

definition signature_path :: "path \<Rightarrow> sign_options \<Rightarrow> path" where
  "signature_path message_file opts =
     (case so_signature_file opts of None \<Rightarrow> message_file @ ''.minisig'' | Some p \<Rightarrow> p)"

definition sign_file_with_key ::
  "crates \<Rightarrow> path \<Rightarrow> secret_key \<Rightarrow> key_num \<Rightarrow> sign_options \<Rightarrow> (error, sign_result) io" where
  "sign_file_with_key C message_file sk keynum opts =
     (let sig_file_path = signature_path message_file opts
      in bind_io (reject_output_alias sig_file_path [message_file, so_secret_key_file opts]) (\<lambda>_.
         bind_io (create_signature C sk keynum message_file (so_prehashed opts)
                    (so_trusted_comment opts) (so_untrusted_comment opts)) (\<lambda>b.
         bind_io (write_signature_file sig_file_path (sig_box_to_file_contents C b) (so_force opts)) (\<lambda>_.
           ret (case into_parts b of (_, _, trusted_comment, _) \<Rightarrow>
             \<lparr>sr_signature_file = sig_file_path, sr_trusted_comment = trusted_comment,
              sr_key_id = to_key_id keynum, sr_key_id_words = keynum_to_words keynum\<rparr>)))))"

definition sign_single_file ::
  "crates \<Rightarrow> path \<Rightarrow> sign_options \<Rightarrow> bytes option \<Rightarrow> (error, sign_result) io" where
  "sign_single_file C message_file opts password =
     bind_io (load_and_decrypt_key C (so_secret_key_file opts) password) (\<lambda>(sk, keynum).
       sign_file_with_key C message_file sk keynum opts)"

definition sign_with_key ::
  "crates \<Rightarrow> path \<Rightarrow> seckey_struct \<Rightarrow> sign_options \<Rightarrow> bytes option \<Rightarrow> (error, sign_result) io" where
  "sign_with_key C message_file seckey opts password =
     bind_io (extract_key_op C seckey password) (\<lambda>(sk, keynum).
       sign_file_with_key C message_file sk keynum opts)"

definition sign_op :: "crates \<Rightarrow> sign_options \<Rightarrow> bytes option \<Rightarrow> (error, sign_result) io" where
  "sign_op C opts password = sign_single_file C (so_message_file opts) opts password"

section \<open>Batches\<close>

definition ARROW :: string where "ARROW = map char_of [0xE2 :: nat, 0x86, 0x92]"

definition signed_line :: "path \<Rightarrow> string" where
  "signed_line file =
     (let s = sanitised_path_display file in ''Signed: '' @ s @ '' '' @ ARROW @ '' '' @ s @ ''.minisig'')"

definition report_sign_result ::
  "(path \<Rightarrow> string) \<Rightarrow> path \<Rightarrow> error + sign_result \<Rightarrow> sign_options \<Rightarrow> ('e, unit) io" where
  "report_sign_result dbg file result opts =
     (case result of
        Inr _ \<Rightarrow> if \<not> so_quiet opts then println (signed_line file) else ret ()
      | Inl e \<Rightarrow>
          eprintln (''Failed: '' @ sanitised_path_display file @ '' ('' @ display_error dbg e @ '')''))"

text \<open>The work on a file of a batch, step by step.\<close>

definition default_trusted_comment_task :: "path \<Rightarrow> bool \<Rightarrow> (error, string) job" where
  "default_trusted_comment_task message_file prehashed =
     call_task (generate_default_trusted_comment message_file prehashed)"

definition data_to_sign_task :: "crates \<Rightarrow> path \<Rightarrow> bool \<Rightarrow> (error, bytes) job" where
  "data_to_sign_task C message_file prehashed =
     (if prehashed then hash_file_task C message_file else read_message_file_task message_file)"

definition create_signature_task ::
  "crates \<Rightarrow> secret_key \<Rightarrow> key_num \<Rightarrow> path \<Rightarrow> bool \<Rightarrow> string option \<Rightarrow> string option
     \<Rightarrow> (error, sig_box) job" where
  "create_signature_task C sk keynum message_file prehashed trusted_comment untrusted_comment =
     bind_task (case trusted_comment of
                Some c \<Rightarrow> ret_task c
              | None \<Rightarrow> default_trusted_comment_task message_file prehashed) (\<lambda>trusted_comment.
       let untrusted_comment = (case untrusted_comment of None \<Rightarrow> DEFAULT_UNTRUSTED_COMMENT | Some c \<Rightarrow> c)
       in bind_task (lift_task (validate_comment_with_length untrusted_comment
                     (Some (COMMENTMAXBYTES - COMMENT_PREFIX_SIZE)) ''untrusted'')) (\<lambda>_.
          bind_task (lift_task (validate_comment_with_length trusted_comment
                     (Some (TRUSTEDCOMMENTMAXBYTES - TRUSTED_COMMENT_PREFIX_SIZE)) ''trusted'')) (\<lambda>_.
          bind_task (data_to_sign_task C message_file prehashed) (\<lambda>data.
            lift_task (sign_and_check C sk keynum prehashed trusted_comment untrusted_comment data)))))"

definition sign_file_with_key_task ::
  "crates \<Rightarrow> path \<Rightarrow> secret_key \<Rightarrow> key_num \<Rightarrow> sign_options \<Rightarrow> (error, sign_result) job" where
  "sign_file_with_key_task C message_file sk keynum opts =
     (let sig_file_path = signature_path message_file opts
      in bind_task (reject_output_alias_task sig_file_path [message_file, so_secret_key_file opts]) (\<lambda>_.
         bind_task (create_signature_task C sk keynum message_file (so_prehashed opts)
                    (so_trusted_comment opts) (so_untrusted_comment opts)) (\<lambda>b.
         bind_task (write_file_task sig_file_path (as_bytes (sig_box_to_file_contents C b)) (so_force opts)) (\<lambda>_.
           ret_task (case into_parts b of (_, _, trusted_comment, _) \<Rightarrow>
             \<lparr>sr_signature_file = sig_file_path, sr_trusted_comment = trusted_comment,
              sr_key_id = to_key_id keynum, sr_key_id_words = keynum_to_words keynum\<rparr>)))))"

definition sign_job ::
  "crates \<Rightarrow> (path \<Rightarrow> string) \<Rightarrow> secret_key \<Rightarrow> key_num \<Rightarrow> sign_options \<Rightarrow> path
     \<Rightarrow> (path \<times> (error + sign_result)) task" where
  "sign_job C dbg sk keynum opts file =
     followed_by (sign_file_with_key_task C file sk keynum opts) (\<lambda>result.
     followed_by (call_task (report_sign_result dbg file result opts) :: (error, unit) job) (\<lambda>_.
       Done (file, result)))"

lemma run_signing [run_tasks]:
  "run_task (default_trusted_comment_task f prehashed) = generate_default_trusted_comment f prehashed"
  "run_task (data_to_sign_task C f prehashed) = data_to_sign C f prehashed"
  "run_task (create_signature_task C sk keynum f prehashed tc uc) = create_signature C sk keynum f prehashed tc uc"
  "run_task (sign_file_with_key_task C f sk keynum opts) = sign_file_with_key C f sk keynum opts"
  by (simp_all add: run_tasks default_trusted_comment_task_def data_to_sign_task_def data_to_sign_def
      create_signature_task_def create_signature_def sign_file_with_key_task_def sign_file_with_key_def
      write_signature_file_def Let_def cong: if_cong option.case_cong)

text \<open>Messages that are signed whole are read whole, so these batches are taken in order, to bound the
  memory in use.\<close>

definition collect_sign_results ::
  "crates \<Rightarrow> (path \<Rightarrow> string) \<Rightarrow> build \<Rightarrow> path list \<Rightarrow> secret_key \<Rightarrow> key_num \<Rightarrow> sign_options \<Rightarrow> bool
     \<Rightarrow> (error, (path \<times> (error + sign_result)) list) io" where
  "collect_sign_results C dbg B files sk keynum opts sequential w =
     (let jobs = map (sign_job C dbg sk keynum opts) files
      in case (if b_parallel B \<and> \<not> (sequential \<or> \<not> so_prehashed opts) then run_threads jobs w
               else run_each jobs w) of
           (results, w') \<Rightarrow> (Inr results, w'))"

definition format_sign_summary :: "(path \<times> (error + sign_result)) list \<Rightarrow> string option" where
  "format_sign_summary results = format_summary ''signed'' results"

definition print_sign_summary :: "(path \<times> (error + sign_result)) list \<Rightarrow> (error, unit) io" where
  "print_sign_summary results = print_summary ''signed'' results"

text \<open>The hash set of canonical paths; paths are equal when their components are.\<close>

fun dedup_files :: "component list list \<Rightarrow> path list \<Rightarrow> (error, path list) io" where
  "dedup_files seen [] = ret []"
| "dedup_files seen (file # files) =
     bind_io (map_err_io (FileRead file) (canonicalize file)) (\<lambda>canonical.
       if components canonical \<notin> set seen then
         bind_io (dedup_files (components canonical # seen) files) (\<lambda>rest. ret (file # rest))
       else dedup_files seen files)"

fun reject_batch_aliases :: "path list \<Rightarrow> path list \<Rightarrow> sign_options \<Rightarrow> (error, unit) io" where
  "reject_batch_aliases [] protected_inputs opts = ret ()"
| "reject_batch_aliases (file # files) protected_inputs opts =
     bind_io (reject_output_alias (signature_path file opts) protected_inputs) (\<lambda>_.
       reject_batch_aliases files protected_inputs opts)"

definition sign_multiple_files_with_key ::
  "crates \<Rightarrow> (path \<Rightarrow> string) \<Rightarrow> build \<Rightarrow> path list \<Rightarrow> seckey_struct \<Rightarrow> sign_options \<Rightarrow> bytes option \<Rightarrow> bool
     \<Rightarrow> (error, unit) io" where
  "sign_multiple_files_with_key C dbg B files seckey opts password sequential =
     bind_io (dedup_files [] files) (\<lambda>files.
       if length files > 1 \<and> so_signature_file opts \<noteq> None then
         throw (Usage ''Custom signature file (-x) not supported with multiple message files'')
       else
         bind_io (reject_batch_aliases files (files @ [so_secret_key_file opts]) opts) (\<lambda>_.
           if length files = 1 then
             bind_io (sign_with_key C (files ! 0) seckey opts password) (\<lambda>_.
               println (signed_line (files ! 0)))
           else
             bind_io (extract_key_op C seckey password) (\<lambda>(sk, keynum).
             bind_io (if \<not> so_quiet opts then
                        println (''Signing with key: '' @ to_key_id keynum @ '' (''
                          @ keynum_to_words keynum @ '')'')
                      else ret ()) (\<lambda>_.
             bind_io (collect_sign_results C dbg B files sk keynum opts sequential) (\<lambda>results.
               print_sign_summary results)))))"

definition sign_multiple_files ::
  "crates \<Rightarrow> (path \<Rightarrow> string) \<Rightarrow> build \<Rightarrow> path list \<Rightarrow> sign_options \<Rightarrow> bytes option \<Rightarrow> bool \<Rightarrow> (error, unit) io" where
  "sign_multiple_files C dbg B files opts password sequential =
     bind_io (load_secret_key C (so_secret_key_file opts)) (\<lambda>seckey.
       sign_multiple_files_with_key C dbg B files seckey opts password sequential)"

end
