(* ===== verification/Program.thy ===== *)
theory Program
  imports Passwords Generate Change Inspect Sign
begin

text \<open>
  The rest of \<open>main.rs\<close>: one handler per action, the dispatch on the command line and the exit
  code. A handler returns the exit code of its success; \<open>main\<close> maps errors to theirs.
\<close>

text \<open>\<open>cfg!(debug_assertions) && cli.force_weak_kdf\<close>.\<close>

definition resolve_force_weak_kdf :: "build \<Rightarrow> cli \<Rightarrow> bool" where
  "resolve_force_weak_kdf B cli \<longleftrightarrow> b_debug B \<and> cli_force_weak_kdf cli"

text \<open>The key file of an option or its default, and the line that says where a file went.\<close>

definition unwrap_or :: "'a option \<Rightarrow> 'a \<Rightarrow> 'a" where
  "unwrap_or x d = (case x of None \<Rightarrow> d | Some y \<Rightarrow> y)"

definition unless_quiet :: "cli \<Rightarrow> ('e, unit) io \<Rightarrow> ('e, unit) io" where
  "unless_quiet cli m = (if \<not> cli_quiet cli then m else ret ())"

section \<open>Generate\<close>

text \<open>Without \<open>force\<close> an existing file ends the action before a password is asked for.\<close>

definition reject_existing :: "cli \<Rightarrow> path \<Rightarrow> path \<Rightarrow> (error, unit) io" where
  "reject_existing cli secret_key_file public_key_file =
     (if cli_force cli then ret ()
      else
        bind_io (path_exists secret_key_file) (\<lambda>secret_exists.
        if secret_exists then throw (FileExists secret_key_file)
        else
          bind_io (path_exists public_key_file) (\<lambda>public_exists.
            if public_exists then throw (FileExists public_key_file) else ret ())))"

text \<open>The builder; \<open>force_weak_kdf\<close> of a release build is \<open>False\<close>, so its assertion never fails.\<close>

definition generate_cli_options :: "build \<Rightarrow> cli \<Rightarrow> path \<Rightarrow> path \<Rightarrow> generate_options" where
  "generate_cli_options B cli secret_key_file public_key_file =
     (let builder = generate_set_no_password
            (generate_set_force (generate_builder secret_key_file public_key_file) (cli_force cli))
            (cli_no_password cli);
          builder = unwrap_or (generate_set_force_weak_kdf B builder (resolve_force_weak_kdf B cli)) builder
      in case cli_untrusted_comment cli of
           None \<Rightarrow> builder
         | Some comment \<Rightarrow> generate_set_comment builder comment)"

definition print_generated :: "generate_result \<Rightarrow> (error, unit) io" where
  "print_generated result =
     bind_io (println (''Key ID: '' @ gr_keynum_hex result @ '' ('' @ gr_keynum_words result @ '')'')) (\<lambda>_.
     bind_io (println (''The secret key was saved as ''
       @ sanitised_path_display (gr_secret_key_file result) @ '' - Keep it secret!'')) (\<lambda>_.
     bind_io (println (''The public key was saved as ''
       @ sanitised_path_display (gr_public_key_file result) @ '' - That one can be public.'')) (\<lambda>_.
     bind_io (println []) (\<lambda>_.
     bind_io (println ''Files signed using this key pair can be verified with the following command:'')
     (\<lambda>_.
     bind_io (println []) (\<lambda>_.
       println (''minisign_rs -Vm <file> -P '' @ gr_public_key_base64 result)))))))"

definition handle_generate ::
  "crates \<Rightarrow> (path \<Rightarrow> string) \<Rightarrow> build \<Rightarrow> host \<Rightarrow> cli \<Rightarrow> (error, nat) io" where
  "handle_generate C dbg B H cli =
     bind_io (lift_res (default_secret_key_path H)) (\<lambda>default_secret_key.
     let secret_key_file = unwrap_or (cli_secret_key_file cli) default_secret_key;
         public_key_file = unwrap_or (cli_public_key_file cli) default_public_key_path
     in
     bind_io (reject_existing cli secret_key_file public_key_file) (\<lambda>_.
     bind_io (if cli_no_password cli then ret None
              else bind_io (prompt_password_with_confirmation H (cli_password_file cli))
                     (\<lambda>p. ret (Some p))) (\<lambda>password.
     bind_io (unless_quiet cli (bind_io (print_err ''Working...'') (\<lambda>_. flush_stderr))) (\<lambda>_.
     bind_io (generate C B (generate_cli_options B cli secret_key_file public_key_file)
                (map_option as_bytes password)) (\<lambda>result.
     bind_io (unless_quiet cli (bind_io (print_err ([CR, CHR 0x1B] @ ''[K'')) (\<lambda>_. flush_stderr))) (\<lambda>_.
     bind_io (save_password_to_credential_store dbg B (gr_credential_id result) password
                (cli_save_password cli) (cli_quiet cli)
                (Some ''The key was still created successfully.'')) (\<lambda>_.
     bind_io (unless_quiet cli (print_generated result)) (\<lambda>_. ret 0))))))))"

section \<open>Sign\<close>

definition apply_sign_options :: "sign_options \<Rightarrow> cli \<Rightarrow> sign_options" where
  "apply_sign_options builder cli =
     (let builder = (case cli_trusted_comment cli of
                       None \<Rightarrow> builder | Some c \<Rightarrow> sign_set_trusted_comment builder c);
          builder = (case cli_untrusted_comment cli of
                       None \<Rightarrow> builder | Some c \<Rightarrow> sign_set_untrusted_comment builder c)
      in sign_set_quiet (sign_set_force builder (cli_force cli)) (cli_quiet cli))"

definition handle_sign_single ::
  "crates \<Rightarrow> (path \<Rightarrow> string) \<Rightarrow> build \<Rightarrow> cli \<Rightarrow> path \<Rightarrow> path \<Rightarrow> bool \<Rightarrow> seckey_struct \<Rightarrow> string
     \<Rightarrow> string option \<Rightarrow> (error, unit) io" where
  "handle_sign_single C dbg B cli message_file secret_key_file prehashed seckey cred_id password =
     bind_io (lift_res (default_signature_path message_file)) (\<lambda>default_signature.
     let signature_file = unwrap_or (cli_signature_file cli) default_signature;
         options = apply_sign_options
           (sign_set_prehashed
             (sign_set_signature_file (sign_builder secret_key_file message_file) signature_file)
             prehashed) cli
     in
     bind_io (sign_with_key C message_file seckey options (map_option as_bytes password)) (\<lambda>result.
     bind_io (save_password_to_credential_store dbg B cred_id password (cli_save_password cli)
                (cli_quiet cli) None) (\<lambda>_.
       unless_quiet cli
         (bind_io (println (''Signing with key: '' @ sr_key_id result @ '' ('' @ sr_key_id_words result @ '')''))
         (\<lambda>_. println (''Signature written to '' @ sanitised_path_display (sr_signature_file result)))))))"

text \<open>\<open>cli.sequential\<close> with the feature \<open>parallel\<close>, \<open>true\<close> without.\<close>

definition run_sequentially :: "build \<Rightarrow> cli \<Rightarrow> bool" where
  "run_sequentially B cli \<longleftrightarrow> (if b_parallel B then cli_sequential cli else True)"

definition handle_sign_multiple ::
  "crates \<Rightarrow> (path \<Rightarrow> string) \<Rightarrow> build \<Rightarrow> cli \<Rightarrow> path list \<Rightarrow> path \<Rightarrow> bool \<Rightarrow> seckey_struct \<Rightarrow> string
     \<Rightarrow> string option \<Rightarrow> (error, unit) io" where
  "handle_sign_multiple C dbg B cli message_files secret_key_file prehashed seckey cred_id password =
     (if cli_signature_file cli \<noteq> None then
        throw (Usage ''Custom signature file (-x) not supported with multiple message files'')
      else
        let options = apply_sign_options
              (sign_set_prehashed (sign_builder secret_key_file []) prehashed) cli
        in
        bind_io (sign_multiple_files_with_key C dbg B message_files seckey options
                   (map_option as_bytes password) (run_sequentially B cli)) (\<lambda>_.
          save_password_to_credential_store dbg B cred_id password (cli_save_password cli)
            (cli_quiet cli) None))"

definition handle_sign ::
  "crates \<Rightarrow> (path \<Rightarrow> string) \<Rightarrow> build \<Rightarrow> host \<Rightarrow> cli \<Rightarrow> (error, nat) io" where
  "handle_sign C dbg B H cli =
     (let message_files = all_message_files cli
      in if message_files = [] then throw (Usage ''Message file (-m) is required for signing'')
      else if cli_prehashed cli \<and> cli_legacy cli then
        throw (Usage ''Cannot use both --prehashed (-H) and --legacy (-l) flags together'')
      else
        let prehashed = (cli_prehashed cli \<or> \<not> cli_legacy cli)
        in
        bind_io (lift_res (default_secret_key_path H)) (\<lambda>default_secret_key.
        let secret_key_file = unwrap_or (cli_secret_key_file cli) default_secret_key
        in
        bind_io (load_secret_key C secret_key_file) (\<lambda>seckey.
        bind_io (lift_res (seckey_check_kdf_budget seckey)) (\<lambda>_.
        let cred_id = credential_id seckey
        in
        bind_io (if cli_no_password cli then ret None
                 else bind_io (get_password_with_credential_store B H cred_id ''Password: ''
                                 (cli_quiet cli) (cli_password_file cli)) (\<lambda>p. ret (Some p))) (\<lambda>password.
        bind_io (unless_quiet cli (eprintln ''Working...'')) (\<lambda>_.
        bind_io (if length message_files = 1 then
                   handle_sign_single C dbg B cli (message_files ! 0) secret_key_file prehashed seckey
                     cred_id password
                 else
                   handle_sign_multiple C dbg B cli message_files secret_key_file prehashed seckey
                     cred_id password) (\<lambda>_.
        bind_io (if cli_forget_password cli then
                   forget_password_with_feedback dbg B cred_id (cli_quiet cli)
                 else ret ()) (\<lambda>_. ret 0))))))))"

section \<open>Verify\<close>

text \<open>\<open>MessageSource::write_to\<close> on standard output; a failing write leaves a beginning there.\<close>

definition write_to_stdout :: "bytes \<Rightarrow> (io_error, unit) io" where
  "write_to_stdout bs w =
     (let n = w_calls w; w1 = w\<lparr>w_calls := Suc n\<rparr>
      in case w_faults w n of
           Some e \<Rightarrow> (Inl e, w1\<lparr>w_out := w_out w @ [text_of (take (w_partial w n) bs)]\<rparr>)
         | None \<Rightarrow> (Inr (), w1\<lparr>w_out := w_out w @ [text_of bs]\<rparr>))"

definition public_key_of_cli :: "cli \<Rightarrow> (error, public_key_source) io" where
  "public_key_of_cli cli =
     (case cli_public_key_file cli of
        Some pk_file \<Rightarrow> ret (SourceFile pk_file)
      | None \<Rightarrow>
          (case cli_public_key_base64 cli of
             Some pk_base64 \<Rightarrow> ret (SourceBase64 pk_base64)
           | None \<Rightarrow>
               bind_io (path_exists default_public_key_path) (\<lambda>present.
                 if present then
                   bind_io (unless_quiet cli (eprintln (''Warning: no public key given (-p or -P); ''
                     @ ''using ./minisign.pub from the current directory''))) (\<lambda>_.
                     ret (SourceFile default_public_key_path))
                 else
                   throw (Usage ''Public key is required for verification. Use -p <file> or -P <key>''))))"

definition print_verified :: "cli \<Rightarrow> verify_result \<Rightarrow> (error, unit) io" where
  "print_verified cli result =
     (if cli_output cli then
        (case take_message_output result of (source, _) \<Rightarrow>
           (case source of
              None \<Rightarrow> ret ()
            | Some buf \<Rightarrow>
                map_err_io (\<lambda>e. Io (''failed to write to stdout: '' @ io_text e)) (write_to_stdout buf)))
      else if cli_pretty_quiet cli then println (vr_trusted_comment result)
      else if \<not> cli_quiet cli then
        bind_io (println (''Verified with key: '' @ vr_key_id result @ '' ('' @ vr_key_id_words result @ '')''))
        (\<lambda>_.
        bind_io (println ''Signature and comment signature verified'') (\<lambda>_.
          println (''Trusted comment: '' @ vr_trusted_comment result)))
      else ret ())"

definition verify_cli_options :: "cli \<Rightarrow> public_key_source \<Rightarrow> path \<Rightarrow> path \<Rightarrow> verify_options" where
  "verify_cli_options cli public_key signature_file message_file =
     verify_set_force_prehashed
       (verify_set_quiet
         (verify_set_output (verify_builder public_key signature_file message_file) (cli_output cli))
         (cli_quiet cli))
       (cli_prehashed cli)"

definition handle_verify :: "crates \<Rightarrow> (path \<Rightarrow> string) \<Rightarrow> build \<Rightarrow> cli \<Rightarrow> (error, nat) io" where
  "handle_verify C dbg B cli =
     (let message_files = all_message_files cli
      in if message_files = [] then throw (Usage ''Message file (-m) is required for verification'')
      else if cli_password_file cli \<noteq> None then
        throw (Usage ''--password-file is not applicable to verify operations'')
      else
        bind_io (public_key_of_cli cli) (\<lambda>public_key.
          if length message_files = 1 then
            let message_file = message_files ! 0
            in
            bind_io (lift_res (default_signature_path message_file)) (\<lambda>default_signature.
            let signature_file = unwrap_or (cli_signature_file cli) default_signature
            in
            bind_io (verify_op C (verify_cli_options cli public_key signature_file message_file)) (\<lambda>result.
            bind_io (print_verified cli result) (\<lambda>_. ret 0)))
          else if cli_signature_file cli \<noteq> None then
            throw (Usage ''Custom signature file (-x) not supported with multiple message files'')
          else if cli_output cli then
            throw (Usage ''Output flag (-o) not supported with multiple message files'')
          else
            bind_io (verify_multiple_files C dbg B message_files (verify_cli_options cli public_key [] [])
                       (run_sequentially B cli)) (\<lambda>_. ret 0)))"

section \<open>Recreate and change\<close>

definition handle_recreate ::
  "crates \<Rightarrow> (path \<Rightarrow> string) \<Rightarrow> build \<Rightarrow> host \<Rightarrow> cli \<Rightarrow> (error, nat) io" where
  "handle_recreate C dbg B H cli =
     (if cli_no_password cli then
        throw (Usage (''-W (--no-password) is not supported for recreate operation. ''
          @ ''Use -K (--change-password) with -W to remove password first.''))
      else
        bind_io (lift_res (default_secret_key_path H)) (\<lambda>default_secret_key.
        let secret_key_file = unwrap_or (cli_secret_key_file cli) default_secret_key;
            public_key_file = unwrap_or (cli_public_key_file cli) default_public_key_path
        in
        bind_io (load_secret_key C secret_key_file) (\<lambda>seckey.
        bind_io (lift_res (seckey_check_kdf_budget seckey)) (\<lambda>_.
        let cred_id = credential_id seckey
        in
        bind_io (if sk_encrypted seckey then
                   bind_io (get_password_with_credential_store B H cred_id ''Password: ''
                              (cli_quiet cli) (cli_password_file cli)) (\<lambda>p. ret (Some p))
                 else ret None) (\<lambda>password.
        let options = \<lparr>ro_secret_key_file = secret_key_file, ro_public_key_file = public_key_file,
                       ro_comment = cli_untrusted_comment cli, ro_force = cli_force cli\<rparr>
        in
        bind_io (recreate_with_key C seckey options (map_option as_bytes password)) (\<lambda>result.
        bind_io (unless_quiet cli (println (''Public key recreated as ''
                   @ sanitised_path_display (rr_public_key_file result)))) (\<lambda>_.
        bind_io (if cli_forget_password cli then
                   forget_password_with_feedback dbg B cred_id (cli_quiet cli)
                 else ret ()) (\<lambda>_. ret 0))))))))"

text \<open>The option \<open>--password-file\<close> names the current password only.\<close>

definition check_password_files :: "cli \<Rightarrow> seckey_struct \<Rightarrow> error + unit" where
  "check_password_files cli seckey =
     (if cli_password_file cli \<noteq> None \<and> \<not> sk_encrypted seckey then
        Inl (Usage (''the key is not encrypted, so -K takes no --password-file; ''
          @ ''use --new-password-file to set a password''))
      else if cli_password_file cli \<noteq> None \<and> \<not> cli_no_password cli \<and> cli_new_password_file cli = None then
        Inl (Usage (''--password-file supplies the current password only; ''
          @ ''pass --new-password-file for the new password, or -W to remove it''))
      else Inr ())"

definition change_cli_options :: "build \<Rightarrow> cli \<Rightarrow> path \<Rightarrow> change_options" where
  "change_cli_options B cli secret_key_file =
     (let builder = change_set_remove_password (change_builder secret_key_file) (cli_no_password cli)
      in unwrap_or (change_set_force_weak_kdf B builder (resolve_force_weak_kdf B cli)) builder)"

text \<open>The part of \<open>handle_change\<close> after the checks, with the passwords at hand.\<close>

definition finish_change ::
  "crates \<Rightarrow> (path \<Rightarrow> string) \<Rightarrow> build \<Rightarrow> cli \<Rightarrow> path \<Rightarrow> seckey_struct \<Rightarrow> string option
     \<Rightarrow> string option \<Rightarrow> (error, nat) io" where
  "finish_change C dbg B cli secret_key_file seckey current_password new_password =
     bind_io (change C B (change_cli_options B cli secret_key_file)
                (map_option as_bytes current_password) (map_option as_bytes new_password)) (\<lambda>result.
     bind_io (if sk_encrypted seckey \<and> credential_id seckey \<noteq> cr_credential_id result then
                bind_io (attempt (forget_password B (credential_id seckey))) (\<lambda>_. ret ())
              else ret ()) (\<lambda>_.
     bind_io (save_password_to_credential_store dbg B (cr_credential_id result) new_password
                (cli_save_password cli) (cli_quiet cli) None) (\<lambda>_.
     bind_io (unless_quiet cli (println (''Password changed for ''
                @ sanitised_path_display (cr_secret_key_file result)))) (\<lambda>_. ret 0))))"

definition handle_change ::
  "crates \<Rightarrow> (path \<Rightarrow> string) \<Rightarrow> build \<Rightarrow> host \<Rightarrow> cli \<Rightarrow> (error, nat) io" where
  "handle_change C dbg B H cli =
     bind_io (lift_res (default_secret_key_path H)) (\<lambda>default_secret_key.
     let secret_key_file = unwrap_or (cli_secret_key_file cli) default_secret_key
     in
     bind_io (load_secret_key C secret_key_file) (\<lambda>seckey.
     let old_credential_id = credential_id seckey
     in
     if cli_forget_password cli then
       bind_io (forget_password_with_feedback dbg B old_credential_id (cli_quiet cli)) (\<lambda>_. ret 0)
     else
       bind_io (lift_res (seckey_check_kdf_budget seckey)) (\<lambda>_.
       bind_io (lift_res (check_password_files cli seckey)) (\<lambda>_.
       bind_io (if sk_encrypted seckey then
                  bind_io (get_password_with_credential_store B H old_credential_id ''Current password: ''
                             (cli_quiet cli) (cli_password_file cli)) (\<lambda>p. ret (Some p))
                else ret None) (\<lambda>current_password.
       bind_io (if cli_no_password cli then ret None
                else bind_io (prompt_password_with_confirmation H (cli_new_password_file cli))
                       (\<lambda>p. ret (Some p))) (\<lambda>new_password.
         finish_change C dbg B cli secret_key_file seckey current_password new_password))))))"

section \<open>Inspect\<close>

text \<open>The box-drawing characters that start the lines.\<close>

definition TEE :: string where "TEE = map char_of [0xE2 :: nat, 0x94, 0x9C, 0xE2, 0x94, 0x80] @ '' ''"
definition ELBOW :: string where "ELBOW = map char_of [0xE2 :: nat, 0x94, 0x94, 0xE2, 0x94, 0x80] @ '' ''"

definition display_signature_inspect_result :: "signature_inspect_result \<Rightarrow> ('e, unit) io" where
  "display_signature_inspect_result result =
     bind_io (println ''Signature Information:'') (\<lambda>_.
     bind_io (println (TEE @ ''Key ID: '' @ sir_key_id result)) (\<lambda>_.
     bind_io (println (TEE @ ''Key ID (words): '' @ sir_key_id_words result)) (\<lambda>_.
       println (ELBOW @ ''Algorithm: ''
         @ (case sir_algorithm result of
              Normal \<Rightarrow> ''Normal (Ed25519)'' | Prehashed \<Rightarrow> ''Prehashed (Blake2b-512)'')))))"

fun format_credential_status :: "credential_status \<Rightarrow> string" where
  "format_credential_status Saved = ''Yes''"
| "format_credential_status NotSaved = ''No''"
| "format_credential_status (Unavailable m) = ''Unknown (credential store unavailable)''"

fun security_line :: "security_level \<Rightarrow> string" where
  "security_line High = ''Security Level: HIGH [OK]''"
| "security_line Medium = ''Security Level: MEDIUM [WARNING]''"
| "security_line Low = ''Security Level: LOW [CRITICAL]''"
| "security_line NoSecurity = ''Security Level: NONE (UNENCRYPTED) [WARNING]''"
| "security_line Unsupported = ''Security Level: UNSUPPORTED (exceeds KDF memory budget) [ERROR]''"

definition display_kdf_info :: "inspect_result \<Rightarrow> kdf_info \<Rightarrow> ('e, unit) io" where
  "display_kdf_info result kdf =
     bind_io (println (ELBOW @ ''KDF Parameters:'')) (\<lambda>_.
     bind_io (println (''   '' @ TEE @ ''opslimit: '' @ dec (unat (ki_opslimit kdf)) @ '' (N=2^''
       @ dec (unat (ki_log_n kdf)) @ '', r='' @ dec (unat (ki_r kdf)) @ '', p=''
       @ dec (unat (ki_p kdf)) @ '')'')) (\<lambda>_.
     bind_io (println (''   '' @ TEE @ ''memlimit: '' @ dec (unat (ki_memlimit kdf)) @ '' (''
       @ dec (unat (ki_memlimit kdf div 1048576)) @ '' MB)'')) (\<lambda>_.
     bind_io (if ir_security_level result = Some Unsupported then
                println (''   '' @ ELBOW @ ''Creation: Exceeds the supported KDF memory budget; ''
                  @ ''this key cannot be decrypted'')
              else if ki_is_fallback kdf then
                bind_io (println (''   '' @ TEE @ ''Creation: Fallback (reduced parameters)'')) (\<lambda>_.
                  case ki_weakness_multiplier kdf of
                    None \<Rightarrow> ret ()
                  | Some multiplier \<Rightarrow>
                      println (''   '' @ ELBOW @ ''Brute-force resistance: '' @ dec (unat multiplier)
                        @ ''x weaker than production strength''))
              else println (''   '' @ ELBOW @ ''Creation: Normal (production parameters)'')) (\<lambda>_.
       if ir_security_level result = Some Low then
         bind_io (println []) (\<lambda>_.
           println (''*** RECOMMENDATION: Regenerate this key on a system with >=2GB RAM ''
             @ ''for full security.''))
       else ret ()))))"

definition display_key_details :: "inspect_result \<Rightarrow> ('e, unit) io" where
  "display_key_details result =
     (case ir_key_type result of
        SecretEncrypted \<Rightarrow>
          bind_io (println (TEE @ ''Encrypted: Yes'')) (\<lambda>_.
          bind_io (println (TEE @ ''KDF Algorithm: Scrypt'')) (\<lambda>_.
          bind_io (println (TEE @ ''Password saved: ''
                     @ format_credential_status (ir_password_saved result))) (\<lambda>_.
            case ir_kdf_info result of
              None \<Rightarrow> ret ()
            | Some kdf \<Rightarrow> display_kdf_info result kdf)))
      | SecretUnencrypted \<Rightarrow>
          bind_io (println (TEE @ ''Encrypted: No'')) (\<lambda>_.
          bind_io (println (ELBOW @ ''Password saved: ''
                     @ format_credential_status (ir_password_saved result))) (\<lambda>_.
          bind_io (println []) (\<lambda>_.
          bind_io (println ''*** WARNING: This key is stored in plaintext.'') (\<lambda>_.
            println ''   Anyone with file access can use it without a password.''))))
      | Public \<Rightarrow> println (ELBOW @ ''Type: Ed25519 Public Key''))"

definition display_inspect_result :: "inspect_result \<Rightarrow> bool \<Rightarrow> ('e, unit) io" where
  "display_inspect_result result key_id_known =
     bind_io (case ir_security_level result of
                None \<Rightarrow> ret () | Some level \<Rightarrow> println (security_line level @ [LF])) (\<lambda>_.
     bind_io (println ''Key Information:'') (\<lambda>_.
     bind_io (if ir_key_type result = SecretEncrypted \<and> \<not> key_id_known then
                bind_io (println (TEE @ ''Key ID: [encrypted - password required]'')) (\<lambda>_.
                  println (TEE @ ''Key ID (words): [encrypted]''))
              else
                bind_io (println (TEE @ ''Key ID: '' @ ir_key_id result)) (\<lambda>_.
                  println (TEE @ ''Key ID (words): '' @ ir_key_id_words result))) (\<lambda>_.
     bind_io (case ir_credential_id result of
                None \<Rightarrow> ret () | Some i \<Rightarrow> println (TEE @ ''Credential ID: '' @ i)) (\<lambda>_.
       display_key_details result))))"

definition build_inspect_options :: "path \<Rightarrow> bool \<Rightarrow> inspect_options" where
  "build_inspect_options p no_decrypt =
     (let opts = inspect_options_new p
      in if no_decrypt then skip_credential_store_check opts else opts)"

text \<open>\<open>inspect\<close> of a key file, with the line that describes it and its path.\<close>

definition inspect_source ::
  "crates \<Rightarrow> (path \<Rightarrow> string) \<Rightarrow> build \<Rightarrow> cli \<Rightarrow> path \<Rightarrow> string
     \<Rightarrow> (error, inspect_result \<times> string \<times> path option) io" where
  "inspect_source C dbg B cli p suffix =
     bind_io (inspect C dbg B (build_inspect_options p (cli_no_decrypt cli))) (\<lambda>result.
       ret (result, ''Inspecting: '' @ sanitised_path_display p @ suffix, Some p))"

definition inspect_chosen ::
  "crates \<Rightarrow> (path \<Rightarrow> string) \<Rightarrow> build \<Rightarrow> cli \<Rightarrow> path
     \<Rightarrow> (error, inspect_result \<times> string \<times> path option) io" where
  "inspect_chosen C dbg B cli default_secret_key =
     (case cli_secret_key_file cli of
        Some sk_file \<Rightarrow> inspect_source C dbg B cli sk_file []
      | None \<Rightarrow>
     (case cli_public_key_file cli of
        Some pk_file \<Rightarrow> inspect_source C dbg B cli pk_file []
      | None \<Rightarrow>
     (case cli_public_key_base64 cli of
        Some pk_base64 \<Rightarrow>
          bind_io (lift_res (inspect_base64 C pk_base64)) (\<lambda>result.
            ret (result, ''Inspecting: public key from command line (-P)'', None))
      | None \<Rightarrow> inspect_source C dbg B cli default_secret_key '' (default)'')))"

definition inspect_key_path :: "cli \<Rightarrow> path \<Rightarrow> path option" where
  "inspect_key_path cli default_secret_key =
     (if cli_secret_key_file cli \<noteq> None then cli_secret_key_file cli
      else if cli_public_key_file cli \<noteq> None then cli_public_key_file cli
      else if cli_public_key_base64 cli = None then Some default_secret_key
      else None)"

text \<open>An encrypted key is opened, unless that is not wanted, to show its key number.\<close>

definition inspect_decrypted ::
  "crates \<Rightarrow> (path \<Rightarrow> string) \<Rightarrow> build \<Rightarrow> host \<Rightarrow> cli \<Rightarrow> path \<Rightarrow> (error, inspect_result) io" where
  "inspect_decrypted C dbg B H cli p =
     bind_io (load_secret_key C p) (\<lambda>seckey.
     bind_io (lift_res (seckey_check_kdf_budget seckey)) (\<lambda>_.
     let cred_id = credential_id seckey
     in
     bind_io (get_password_with_credential_store B H cred_id ''Password: '' (cli_quiet cli)
                (cli_password_file cli)) (\<lambda>password.
     bind_io (inspect_private_with_key C dbg B seckey (as_bytes password)) (\<lambda>result.
     bind_io (save_password_to_credential_store dbg B cred_id (Some password)
                (cli_save_password cli) (cli_quiet cli) None) (\<lambda>_.
       ret result)))))"

definition inspect_key_action ::
  "crates \<Rightarrow> (path \<Rightarrow> string) \<Rightarrow> build \<Rightarrow> host \<Rightarrow> cli \<Rightarrow> path \<Rightarrow> (error, nat) io" where
  "inspect_key_action C dbg B H cli default_secret_key =
     bind_io (inspect_chosen C dbg B cli default_secret_key) (\<lambda>(result, source_description, key_file_path).
     bind_io (if ir_key_type result = SecretEncrypted \<and> \<not> cli_no_decrypt cli then
                (case key_file_path of
                   Some p \<Rightarrow> bind_io (inspect_decrypted C dbg B H cli p) (\<lambda>r. ret (r, True))
                 | None \<Rightarrow> ret (result, False))
              else ret (result, False)) (\<lambda>(result, decrypted).
     bind_io (println (source_description @ (if decrypted then '' (decrypted)'' else []) @ [LF])) (\<lambda>_.
     bind_io (display_inspect_result result
                (decrypted \<or> ir_key_type result \<noteq> SecretEncrypted)) (\<lambda>_. ret 0))))"

definition handle_inspect ::
  "crates \<Rightarrow> (path \<Rightarrow> string) \<Rightarrow> build \<Rightarrow> host \<Rightarrow> cli \<Rightarrow> (error, nat) io" where
  "handle_inspect C dbg B H cli =
     (case cli_signature_file cli of
        Some sig_file \<Rightarrow>
          bind_io (inspect_signature C dbg sig_file) (\<lambda>result.
          bind_io (println (''Inspecting: '' @ sanitised_path_display sig_file @ [LF])) (\<lambda>_.
          bind_io (display_signature_inspect_result result) (\<lambda>_. ret 0)))
      | None \<Rightarrow>
          bind_io (lift_res (default_secret_key_path H)) (\<lambda>default_secret_key.
            case (if cli_forget_password cli then inspect_key_path cli default_secret_key else None) of
              Some p \<Rightarrow>
                bind_io (load_secret_key C p) (\<lambda>seckey.
                bind_io (forget_password_with_feedback dbg B (credential_id seckey) (cli_quiet cli))
                  (\<lambda>_. ret 0))
            | None \<Rightarrow> inspect_key_action C dbg B H cli default_secret_key))"

section \<open>The program\<close>

definition dispatch ::
  "crates \<Rightarrow> (path \<Rightarrow> string) \<Rightarrow> build \<Rightarrow> host \<Rightarrow> cli \<Rightarrow> action \<Rightarrow> (error, nat) io" where
  "dispatch C dbg B H cli act =
     (case act of
        Generate \<Rightarrow> handle_generate C dbg B H cli
      | Sign \<Rightarrow> handle_sign C dbg B H cli
      | Verify \<Rightarrow> handle_verify C dbg B cli
      | Recreate \<Rightarrow> handle_recreate C dbg B H cli
      | Change \<Rightarrow> handle_change C dbg B H cli
      | Inspect \<Rightarrow> handle_inspect C dbg B H cli)"

text \<open>\<open>run\<close> once the command line is parsed.\<close>

definition run_cli ::
  "crates \<Rightarrow> (path \<Rightarrow> string) \<Rightarrow> build \<Rightarrow> host \<Rightarrow> cli \<Rightarrow> (error, nat) io" where
  "run_cli C dbg B H cli =
     bind_io (if cli_allow_kdf_fallback cli then
                eprintln (''Warning: --allow-kdf-fallback is deprecated and has no effect: ''
                  @ ''scrypt cannot recover from a failed memory allocation.'')
              else ret ()) (\<lambda>_.
       case cli_action cli of
         None \<Rightarrow> throw (Usage ''No action specified. Use -G, -S, -V, -R, -K, or -I'')
       | Some act \<Rightarrow>
           bind_io (if act \<in> {Generate, Recreate} then
                      (case cli_untrusted_comment cli of
                         None \<Rightarrow> ret ()
                       | Some comment \<Rightarrow> lift_res (validate_key_comment comment))
                    else ret ()) (\<lambda>_.
             dispatch C dbg B H cli act))"

definition run ::
  "crates \<Rightarrow> 'a pico \<Rightarrow> (path \<Rightarrow> string) \<Rightarrow> build \<Rightarrow> host \<Rightarrow> (error, nat) io" where
  "run C P dbg B H =
     bind_io (parse_cli P B H) (\<lambda>r.
       case r of Exit n \<Rightarrow> ret n | Parsed cli \<Rightarrow> run_cli C dbg B H cli)"

definition exit_code :: "error \<Rightarrow> nat" where
  "exit_code e =
     (case e of Interrupted \<Rightarrow> 130 | Usage _ \<Rightarrow> 2 | MissingArgument _ \<Rightarrow> 2 | _ \<Rightarrow> 1)"

text \<open>The exit code and what the process leaves behind.\<close>

definition main ::
  "crates \<Rightarrow> 'a pico \<Rightarrow> (path \<Rightarrow> string) \<Rightarrow> build \<Rightarrow> host \<Rightarrow> world \<Rightarrow> nat \<times> world" where
  "main C P dbg B H w =
     (case run C P dbg B H w of
        (Inr code, w') \<Rightarrow> (code, w')
      | (Inl e, w') \<Rightarrow>
          (case eprintln (display_error dbg e) w' of (_ :: error + unit, w'') \<Rightarrow> (exit_code e, w'')))"

end
