(* ===== verification/Replays.thy ===== *)
theory Replays
  imports Verify
begin

text \<open>
  Work that only asks the host can be done again without the others. What a task finds out between the
  steps of other tasks, as long as nobody changes the files, it would have found out on its own, on a host
  with the same answers at other times: each result of a batch of verifications is one that
  \<open>verify_file_with_key\<close> has, whatever the schedule.
\<close>

section \<open>Tasks that ask\<close>

text \<open>The next step looks at the files and at what the host does to the call whose turn it is.\<close>

definition asking :: "(world \<Rightarrow> 'a task \<times> world) \<Rightarrow> bool" where
  "asking f \<longleftrightarrow>
     (\<forall>w. snd (f w) = w\<lparr>w_calls := Suc (w_calls w)\<rparr>)
     \<and> (\<forall>v w. w_fs v = w_fs w \<longrightarrow> w_faults v (w_calls v) = w_faults w (w_calls w)
           \<longrightarrow> w_reads v (w_calls v) = w_reads w (w_calls w) \<longrightarrow> fst (f v) = fst (f w))"

lemma askingI:
  assumes "\<And>w. snd (f w) = w\<lparr>w_calls := Suc (w_calls w)\<rparr>"
    and "\<And>v w. w_fs v = w_fs w \<Longrightarrow> w_faults v (w_calls v) = w_faults w (w_calls w) \<Longrightarrow>
      w_reads v (w_calls v) = w_reads w (w_calls w) \<Longrightarrow> fst (f v) = fst (f w)"
  shows "asking f"
  unfolding asking_def by (intro conjI allI impI) (fact assms)+

lemma asking_world: "asking f \<Longrightarrow> snd (f w) = w\<lparr>w_calls := Suc (w_calls w)\<rparr>"
  by (simp add: asking_def)

lemma asking_answer:
  "asking f \<Longrightarrow> w_fs v = w_fs w \<Longrightarrow> w_faults v (w_calls v) = w_faults w (w_calls w) \<Longrightarrow>
     w_reads v (w_calls v) = w_reads w (w_calls w) \<Longrightarrow> fst (f v) = fst (f w)"
  unfolding asking_def by (elim conjE allE impE)

inductive asker :: "'a task \<Rightarrow> bool" where
  answered: "asker (Done x)"
| asks_first: "asking f \<Longrightarrow> (\<And>w. asker (fst (f w))) \<Longrightarrow> asker (Step f)"

declare answered [simp]

inductive_cases asker_StepE: "asker (Step f)"

lemma asker_followed_by: "asker t \<Longrightarrow> (\<And>x. asker (k x)) \<Longrightarrow> asker (followed_by t k)"
proof (induction rule: asker.induct)
  case (asks_first f)
  have "asking (\<lambda>w. map_prod (\<lambda>t. followed_by t k) id (f w))"
  proof (rule askingI)
    fix v w :: world
    assume "w_fs v = w_fs w" "w_faults v (w_calls v) = w_faults w (w_calls w)"
      "w_reads v (w_calls v) = w_reads w (w_calls w)"
    from asking_answer [OF asks_first.hyps(1) this]
    show "fst (map_prod (\<lambda>t. followed_by t k) id (f v)) = fst (map_prod (\<lambda>t. followed_by t k) id (f w))"
      by simp
  qed (simp add: asking_world [OF asks_first.hyps(1)])
  then show ?case
    unfolding followed_by.simps by (rule asker.asks_first) (simp add: asks_first.IH asks_first.prems)
qed simp

lemma asker_query:
  assumes "\<And>v w. w_fs v = w_fs w \<Longrightarrow> w_reads v (w_calls v) = w_reads w (w_calls w) \<Longrightarrow> f v = f w"
  shows "asker (call_task (query f))"
  unfolding call_task_def
proof (rule asks_first)
  show "asking (\<lambda>w. map_prod Done id (query f w))"
  proof (rule askingI)
    fix v w :: world
    assume v: "w_fs v = w_fs w" "w_faults v (w_calls v) = w_faults w (w_calls w)"
      "w_reads v (w_calls v) = w_reads w (w_calls w)"
    show "fst (map_prod Done id (query f v)) = fst (map_prod Done id (query f w))"
      using assms [OF v(1,3)] v(2) by (cases "w_faults w (w_calls w)") (simp_all add: query_def Let_def)
  qed (simp add: query_def Let_def split: option.split)
qed (simp add: query_def Let_def split: option.split)

lemma asker_calls [simp]:
  "asker (call_task (open_file p))" "asker (call_task (fstat h))" "asker (call_task (file_reads h))"
  unfolding open_file_def fstat_def file_reads_def
  by (rule asker_query; simp split: handle.split option.split)+

lemma asker_combinators [simp]:
  "asker (ret_task x)" "asker (throw_task e)" "asker (lift_task r)"
  "asker t \<Longrightarrow> asker (map_err_task g t)"
  "asker u \<Longrightarrow> (\<And>x. asker (k x)) \<Longrightarrow> asker (bind_task u k)"
  by (auto simp: ret_task_def throw_task_def lift_task_def map_err_task_def bind_task_def
      intro!: asker_followed_by split: sum.split)

section \<open>Results that a host allows\<close>

text \<open>The same files, and a host that answers what this one answers, at other times.\<close>

definition retimed :: "world \<Rightarrow> world \<Rightarrow> bool" where
  "retimed w v \<longleftrightarrow> w_fs v = w_fs w
     \<and> (\<exists>at. \<forall>k. w_faults v k = w_faults w (at k) \<and> w_reads v k = w_reads w (at k))"

text \<open>From any call on, some times of the host \<open>u\<close> make the task end with this result.\<close>

definition possible :: "world \<Rightarrow> 'a task \<Rightarrow> 'a \<Rightarrow> bool" where
  "possible u t r \<longleftrightarrow>
     (\<forall>n. \<exists>at. \<forall>v. w_fs v = w_fs u \<longrightarrow> w_calls v = n \<longrightarrow>
        (\<forall>k \<ge> n. w_faults v k = w_faults u (at k) \<and> w_reads v k = w_reads u (at k)) \<longrightarrow>
        fst (run_task t v) = r)"

lemma possible_at:
  "possible u t r \<Longrightarrow> \<exists>at. \<forall>v. w_fs v = w_fs u \<longrightarrow> w_calls v = n \<longrightarrow>
     (\<forall>k \<ge> n. w_faults v k = w_faults u (at k) \<and> w_reads v k = w_reads u (at k)) \<longrightarrow>
     fst (run_task t v) = r"
  unfolding possible_def by (rule spec)

lemma possible_Done: "possible u (Done r) r"
  by (simp add: possible_def)

definition same_answers :: "world \<Rightarrow> world \<Rightarrow> bool" where
  "same_answers w w' \<longleftrightarrow> w_fs w' = w_fs w \<and> w_faults w' = w_faults w \<and> w_reads w' = w_reads w"

lemma possible_Step:
  assumes "asking f" "same_answers u w" "possible u (fst (f w)) r"
  shows "possible u (Step f) r"
  unfolding possible_def
proof
  fix n
  obtain at where at: "\<forall>v. w_fs v = w_fs u \<longrightarrow> w_calls v = Suc n \<longrightarrow>
      (\<forall>k \<ge> Suc n. w_faults v k = w_faults u (at k) \<and> w_reads v k = w_reads u (at k)) \<longrightarrow>
      fst (run_task (fst (f w)) v) = r"
    using possible_at [OF assms(3), of "Suc n"] by (elim exE)
  let ?at = "at(n := w_calls w)"
  have "fst (run_task (Step f) v) = r"
    if v: "w_fs v = w_fs u" "w_calls v = n"
      "\<forall>k \<ge> n. w_faults v k = w_faults u (?at k) \<and> w_reads v k = w_reads u (?at k)" for v
  proof -
    have "fst (f v) = fst (f w)"
      by (rule asking_answer [OF assms(1)]) (use v assms(2) in \<open>auto simp: same_answers_def\<close>)
    moreover have "snd (f v) = v\<lparr>w_calls := Suc n\<rparr>" using asking_world [OF assms(1), of v] v(2) by simp
    ultimately have "f v = (fst (f w), v\<lparr>w_calls := Suc n\<rparr>)" by (metis prod.collapse)
    moreover have "fst (run_task (fst (f w)) (v\<lparr>w_calls := Suc n\<rparr>)) = r"
      by (rule at [rule_format]) (use v in auto)
    ultimately show ?thesis by simp
  qed
  then show "\<exists>at. \<forall>v. w_fs v = w_fs u \<longrightarrow> w_calls v = n \<longrightarrow>
      (\<forall>k \<ge> n. w_faults v k = w_faults u (at k) \<and> w_reads v k = w_reads u (at k)) \<longrightarrow>
      fst (run_task (Step f) v) = r" by blast
qed

lemma possible_run:
  assumes "possible u t r"
  shows "\<exists>v. retimed u v \<and> r = fst (run_task t v)"
proof -
  obtain at where at: "\<forall>v. w_fs v = w_fs u \<longrightarrow> w_calls v = 0 \<longrightarrow>
      (\<forall>k \<ge> 0. w_faults v k = w_faults u (at k) \<and> w_reads v k = w_reads u (at k)) \<longrightarrow>
      fst (run_task t v) = r"
    using possible_at [OF assms, of 0] by (elim exE)
  let ?v = "u\<lparr>w_calls := 0, w_faults := \<lambda>k. w_faults u (at k), w_reads := \<lambda>k. w_reads u (at k)\<rparr>"
  have "fst (run_task t ?v) = r" by (rule at [rule_format]) simp_all
  moreover have "retimed u ?v" by (auto simp: retimed_def)
  ultimately show ?thesis by metis
qed

section \<open>Tasks of a pool\<close>

interpretation askers: pool "\<lambda>_. same_answers u" "\<lambda>_ w _. same_answers w" "\<lambda>_. same_answers u" for u
  by unfold_locales (simp_all add: same_answers_def)

abbreviation asks_alone :: "world \<Rightarrow> ('a \<Rightarrow> bool) \<Rightarrow> 'a task \<Rightarrow> bool" where
  "asks_alone u Q t \<equiv>
     behaves (\<lambda>_. same_answers u) (\<lambda>_ w _. same_answers w) (\<lambda>r _. Q r) () t"

lemma asker_possible: "asker t \<Longrightarrow> asks_alone u (possible u t) t"
proof (induction rule: asker.induct)
  case (answered x)
  then show ?case by (simp add: possible_Done)
next
  case (asks_first f)
  show ?case
  proof (rule behaves.steps)
    fix w t w'
    assume w: "same_answers u w" "f w = (t, w')"
    then have t: "t = fst (f w)" "same_answers w w'"
      using asking_world [OF asks_first.hyps(1), of w] by (simp_all add: same_answers_def)
    have "asks_alone u (possible u (Step f)) t"
      unfolding t(1)
      by (rule behaves_mono [OF asks_first.IH]) (rule possible_Step [OF asks_first.hyps(1) w(1)])
    then show "\<exists>g :: unit. same_answers w w' \<and>
        behaves (\<lambda>_. same_answers u) (\<lambda>_ w _. same_answers w) (\<lambda>r _. possible u (Step f) r) g t"
      using t(2) by (intro exI [of _ "()"] conjI)
  qed
qed

lemma verify_file_asker: "asker (verify_file_with_key_task C f pubkey opts)"
  by (simp add: verify_file_with_key_task_def load_signature_task_def verify_message_signature_task_def
      read_file_bounded_task_def read_message_file_task_def hash_file_task_def Let_def)

lemma report_verify_result_run:
  "\<exists>v. report_verify_result dbg f r opts w = (Inr () :: 'e + unit, v) \<and> same_answers w v"
  by (auto simp: same_answers_def report_verify_result_def println_def eprintln_def print_out_def print_err_def ret_def
      split: sum.split)

lemma verify_job_possible:
  "asks_alone u (\<lambda>x. fst x = f \<and> (\<exists>v. retimed u v \<and> snd x = fst (verify_file_with_key C f pubkey opts v)))
     (verify_job C dbg pubkey opts f)"
  unfolding verify_job_def
proof (rule behaves_followed_by [OF asker_possible [OF verify_file_asker]])
  fix x and h :: unit
  assume "possible u (verify_file_with_key_task C f pubkey opts) x"
  from possible_run [OF this]
  have x: "\<exists>v. retimed u v \<and> x = fst (verify_file_with_key C f pubkey opts v)"
    by (simp add: run_tasks)
  have "behaves (\<lambda>_. same_answers u) (\<lambda>_ w _. same_answers w) (\<lambda>_ _. True) h
      (report_verify_result_task dbg f x opts :: (error, unit) job)"
    unfolding report_verify_result_task_def
  proof (rule behaves_call)
    fix w and r :: "error + unit" and w'
    assume "report_verify_result dbg f x opts w = (r, w')"
    then show "\<exists>h'. same_answers w w' \<and> True"
      using report_verify_result_run [of dbg f x opts w, where 'e = error] by auto
  qed
  then show "behaves (\<lambda>_. same_answers u) (\<lambda>_ w _. same_answers w)
      (\<lambda>x _. fst x = f \<and> (\<exists>v. retimed u v \<and> snd x = fst (verify_file_with_key C f pubkey opts v))) h
      (followed_by (report_verify_result_task dbg f x opts :: (error, unit) job) (\<lambda>_. Done (f, x)))"
    by (rule behaves_followed_by) (use x in simp)
qed

section \<open>The batch\<close>

text \<open>In order or with threads, a batch is a schedule of its jobs.\<close>

lemma collect_verify_results_schedule:
  obtains schedule results w' where "collect_verify_results C dbg B files pubkey opts sequential w = (Inr results, w')"
    "run_pool schedule (map (verify_job C dbg pubkey opts) files, w) = Some (results, w')"
proof -
  let ?jobs = "map (verify_job C dbg pubkey opts) files"
  obtain results w' where r: "(if b_parallel B \<and> \<not> sequential then run_threads ?jobs w else run_each ?jobs w)
      = (results, w')" by (rule prod.exhaust)
  then have "\<exists>schedule. run_pool schedule (?jobs, w) = Some (results, w')"
    using threads_schedule [of ?jobs w] sequential_schedule [of ?jobs w] by (auto split: if_splits)
  then show thesis using that r by (auto simp: collect_verify_results_def)
qed

lemma collect_verify_results_run:
  "\<exists>results w'. collect_verify_results C dbg B files pubkey opts sequential w = (Inr results, w')
     \<and> map fst results = files
     \<and> (\<forall>(f, r) \<in> set results. \<exists>v. retimed w v \<and> r = fst (verify_file_with_key C f pubkey opts v))"
proof -
  let ?jobs = "map (verify_job C dbg pubkey opts) files"
  let ?Q = "\<lambda>f x. fst x = f \<and> (\<exists>v. retimed w v \<and> snd x = fst (verify_file_with_key C f pubkey opts v))"
  obtain schedule results w' where c: "collect_verify_results C dbg B files pubkey opts sequential w = (Inr results, w')"
    and run: "run_pool schedule (?jobs, w) = Some (results, w')"
    by (rule collect_verify_results_schedule)
  have "\<exists>gs' :: unit list. same_answers w w' \<and> length gs' = length ?jobs \<and> length results = length ?jobs
      \<and> (\<forall>i < length ?jobs. ?Q (files ! i) (results ! i))"
    by (rule askers.results_in_order [OF run, where gs = "replicate (length files) ()"
          and Q = "\<lambda>i x _. ?Q (files ! i) x" and u = w])
      (use verify_job_possible in \<open>simp_all add: same_answers_def\<close>)
  then have r: "length results = length files" and all: "\<forall>i < length files. ?Q (files ! i) (results ! i)"
    by auto
  have "map fst results = files" by (rule nth_equalityI) (use r all in auto)
  moreover have "\<forall>(f, r) \<in> set results. \<exists>v. retimed w v \<and> r = fst (verify_file_with_key C f pubkey opts v)"
    using r all by (fastforce simp: in_set_conv_nth)
  ultimately show ?thesis using c by blast
qed

end
