(* ===== verification/AliasLemmas.thy ===== *)
theory AliasLemmas
  imports FileUtils PathLemmas
begin

text \<open>
  Runs in which no call fails for reasons of its own, and the check for aliases in such a run:
  what it lets pass does not lie where one of the protected files is.
\<close>

section \<open>Runs without faults\<close>

definition faultless :: "world \<Rightarrow> bool" where
  "faultless w \<longleftrightarrow> (\<forall>n. w_faults w n = None)"

definition ticked :: "world \<Rightarrow> world" where
  "ticked w = w\<lparr>w_calls := Suc (w_calls w)\<rparr>"

lemma ticked_simps [simp]:
  "w_fs (ticked w) = w_fs w" "w_faults (ticked w) = w_faults w" "w_reads (ticked w) = w_reads w"
  "w_clock (ticked w) = w_clock w" "w_trace (ticked w) = w_trace w"
  "faultless (ticked w) \<longleftrightarrow> faultless w"
  by (simp_all add: ticked_def faultless_def)

lemma query_run: "faultless w \<Longrightarrow> query f w = (f w, ticked w)"
  by (simp add: query_def faultless_def ticked_def)

lemma lookups_run:
  assumes "faultless w"
  shows "canonicalize p w = (sys_canonicalize p (w_fs w), ticked w)"
    and "absolute p w = (path_absolute p (w_fs w), ticked w)"
    and "metadata p w = (sys_metadata p (w_fs w), ticked w)"
    and "open_file p w = (sys_open p (w_fs w), ticked w)"
    and "fstat h w = (handle_stat (w_fs w) h, ticked w)"
    and "symlink_metadata p w = (sys_symlink_metadata p (w_fs w), ticked w)"
  using assms by (simp_all add: canonicalize_def absolute_def metadata_def open_file_def fstat_def
      symlink_metadata_def query_run)

text \<open>Looking does not change the files, and nothing makes calls fail later.\<close>

definition still :: "fs \<Rightarrow> world \<Rightarrow> bool" where
  "still s w \<longleftrightarrow> w_fs w = s \<and> faultless w"

lemma keeps_still_query: "keeps (still s) (query f)"
  by (auto simp: keeps_def query_def still_def faultless_def Let_def split: option.split)

lemma keeps_still_lookups [keeps_intros]:
  "keeps (still s) (canonicalize p)" "keeps (still s) (absolute p)" "keeps (still s) (metadata p)"
  "keeps (still s) (open_file p)" "keeps (still s) (fstat h)" "keeps (still s) (symlink_metadata p)"
  "keeps (still s) (file_reads h)" "keeps (still s) sync_all"
  by (simp_all only: canonicalize_def absolute_def metadata_def open_file_def fstat_def
      symlink_metadata_def file_reads_def sync_all_def keeps_still_query)

lemma keeps_resolve_components: "keeps (still s) (resolve_components cs)"
proof (induction cs rule: resolve_components.induct)
  case (1 cs)
  then show ?case
    by (subst resolve_components.simps) (auto intro!: keeps_intros)
qed

lemma keeps_resolve_destination [keeps_intros]: "keeps (still s) (resolve_destination p)"
  unfolding resolve_destination_def by (intro keeps_intros keeps_resolve_components)

section \<open>Locations as paths\<close>

lemma components_plain: "NormalComp n \<in> set (components p) \<Longrightarrow> plain_name n"
proof -
  assume a: "NormalComp n \<in> set (components p)"
  have "c \<in> set cs \<Longrightarrow> wf_components cs \<Longrightarrow> c = RootDir \<or> c = CurDir \<or> inner_component c" for c cs
    by (cases cs) (auto simp: list_all_iff)
  from this [OF a wf_components_components] show ?thesis by (simp add: inner_component_def)
qed

lemma walk_plain:
  "walk s k here cs = Inr l \<Longrightarrow> \<forall>n \<in> set here. plain_name n \<Longrightarrow>
     (\<And>n. NormalComp n \<in> set cs \<Longrightarrow> plain_name n) \<Longrightarrow> \<forall>n \<in> set l. plain_name n"
proof (induction s k here cs rule: walk.induct)
  case (4 s k here cs)
  then show ?case by (auto dest: in_set_butlastD)
next
  case (5 s k here n cs)
  have n: "plain_name n" using "5.prems"(3) by simp
  show ?case
  proof (cases "lookup s (here @ [n])")
    case None
    then show ?thesis using "5.prems"(1,2) n by (auto split: if_splits)
  next
    case (Some e)
    show ?thesis
    proof (cases e)
      case (LinkTo t)
      then have "k \<noteq> 0" "walk s (k - 1) here (components t @ cs) = Inr l"
        using "5.prems"(1) Some by (auto split: if_splits)
      then show ?thesis
        using "5.IH"(1) [OF Some LinkTo] "5.prems"(2,3) components_plain by auto
    next
      case DirAt
      then have "walk s k (here @ [n]) cs = Inr l" using "5.prems"(1) Some by simp
      then show ?thesis using "5.IH"(2) [OF Some DirAt] "5.prems"(2,3) n by auto
    next
      case (FileAt i)
      then show ?thesis using "5.prems"(1,2) Some n by (auto split: if_splits)
    qed
  qed
qed auto

definition loc_path :: "loc \<Rightarrow> path" where
  "loc_path l = render_path (RootDir # map NormalComp l)"

lemma components_loc_path:
  "\<forall>n \<in> set l. plain_name n \<Longrightarrow> components (loc_path l) = RootDir # map NormalComp l"
  unfolding loc_path_def
  by (rule components_render) (simp add: list_all_iff inner_component_def)

text \<open>The working directory: every name on the way is a plain name and a directory.\<close>

definition cwd_ok :: "fs \<Rightarrow> bool" where
  "cwd_ok s \<longleftrightarrow> (\<forall>n \<in> set (fs_cwd s). plain_name n)
     \<and> (\<forall>i < length (fs_cwd s). lookup s (take (Suc i) (fs_cwd s)) = Some DirAt)"

lemma walk_dirs:
  assumes "\<forall>i < length l. lookup s (here @ take (Suc i) l) = Some DirAt"
  shows "walk s k here (map NormalComp l @ cs) = walk s k (here @ l) cs"
  using assms
proof (induction l arbitrary: here)
  case (Cons n l)
  have "lookup s (here @ [n]) = Some DirAt" using Cons.prems [rule_format, of 0] by simp
  moreover have "\<forall>i < length l. lookup s ((here @ [n]) @ take (Suc i) l) = Some DirAt"
    using Cons.prems [rule_format, of "Suc _"] by auto
  ultimately show ?case using Cons.IH [of "here @ [n]"] by simp
qed simp

lemma walk_cwd: "cwd_ok s \<Longrightarrow> walk s k [] (map NormalComp (fs_cwd s) @ cs) = walk s k (fs_cwd s) cs"
  using walk_dirs [of "fs_cwd s" s "[]"] by (simp add: cwd_ok_def)


lemma canonical_path:
  assumes "cwd_ok s" "sys_canonicalize p s = Inr c"
  shows "\<exists>l. resolve s p = Inr l \<and> lookup s l \<noteq> None \<and> components c = RootDir # map NormalComp l"
proof -
  obtain l where l: "resolve s p = Inr l" "lookup s l \<noteq> None" "c = loc_path l"
    using assms(2) by (auto simp: sys_canonicalize_def result_simps loc_path_def split: option.splits)
  have "\<forall>n \<in> set l. plain_name n"
  proof (rule walk_plain)
    show "walk s MAX_LINKS (fs_cwd s) (components p) = Inr l"
      using l(1) by (simp add: resolve_def split: if_splits)
    show "\<forall>n \<in> set (fs_cwd s). plain_name n" using assms(1) by (simp add: cwd_ok_def)
  qed (rule components_plain)
  then show ?thesis using l components_loc_path by auto
qed

lemma canonicalize_existing:
  "resolve s p = Inr l \<Longrightarrow> lookup s l \<noteq> None \<Longrightarrow> sys_canonicalize p s = Inr (loc_path l)"
  by (auto simp: sys_canonicalize_def loc_path_def)

text \<open>The absolute form of a path that names an entry leads to the directory of that entry.\<close>

lemma absolute_components:
  assumes "cwd_ok s" "file_name p = Some n"
  obtains X where "path_absolute p s = Inr (render_path (RootDir # X))" "X \<noteq> []"
    "last X = NormalComp n" "list_all inner_component X"
    "\<And>k. walk s k [] (butlast X) = walk s k (fs_cwd s) (butlast (components p))"
proof -
  have p: "p \<noteq> []" using assms(2) by (auto simp: file_name_def components_def)
  obtain c cs where c: "components p = c # cs" and l: "last (c # cs) = NormalComp n"
    using assms(2) file_name_Some [of p n] by (cases "components p") auto
  have inner: "list_all inner_component cs" "c = RootDir \<or> c = CurDir \<or> inner_component c"
    using wf_components_components [of p] by (simp_all add: c)
  have cwd: "list_all inner_component (map NormalComp (fs_cwd s))"
    using assms(1) by (auto simp: cwd_ok_def list_all_iff inner_component_def)
  consider "c = RootDir" | "c = CurDir" | "inner_component c" using inner(2) by blast
  then show ?thesis
  proof cases
    case 1
    then have "cs \<noteq> []" using l by auto
    then show ?thesis using that [of cs] 1 c l p inner by (simp add: path_absolute_def)
  next
    case 2
    then have "cs \<noteq> []" using l by auto
    then show ?thesis
      using that [of "map NormalComp (fs_cwd s) @ cs"] 2 c l p inner cwd walk_cwd [OF assms(1)]
      by (simp add: path_absolute_def butlast_append)
  next
    case 3
    then have "c \<noteq> RootDir" "c \<noteq> CurDir" by (auto simp: inner_component_def)
    then have "path_absolute p s = Inr (render_path (RootDir # map NormalComp (fs_cwd s) @ c # cs))"
      using c p by (cases c) (simp_all add: path_absolute_def)
    then show ?thesis
      using that [of "map NormalComp (fs_cwd s) @ c # cs"] 3 c l inner cwd walk_cwd [OF assms(1)]
      by (simp add: butlast_append)
  qed
qed

lemma absolute_resolves:
  assumes "cwd_ok s" "file_name p = Some n" "resolve_entry s p = Inr l"
  obtains a d where "path_absolute p s = Inr a" "components a \<noteq> []" "last (components a) = NormalComp n"
    "sys_canonicalize (render_path (butlast (components a))) s = Inr (loc_path d)"
    "l = d @ [n]" "\<forall>m \<in> set l. plain_name m"
proof -
  obtain X where X: "path_absolute p s = Inr (render_path (RootDir # X))" "X \<noteq> []"
    "last X = NormalComp n" "list_all inner_component X"
    "\<And>k. walk s k [] (butlast X) = walk s k (fs_cwd s) (butlast (components p))"
    using absolute_components [OF assms(1,2)] by metis
  have comps: "components (render_path (RootDir # X)) = RootDir # X"
    by (rule components_render) (simp add: X(4))
  have "list_all inner_component (butlast X)"
    using X(4) by (auto simp: list_all_iff dest: in_set_butlastD)
  then have comps': "components (render_path (RootDir # butlast X)) = RootDir # butlast X"
    by (intro components_render) simp
  obtain d where d: "walk s MAX_LINKS (fs_cwd s) (butlast (components p)) = Inr d"
    "lookup s d = Some DirAt" "l = d @ [n]"
    using assms(3) resolve_entry_Inr [OF assms(2)] by blast
  have "\<forall>m \<in> set d. plain_name m"
  proof (rule walk_plain [OF d(1)])
    show "\<forall>n \<in> set (fs_cwd s). plain_name n" using assms(1) by (simp add: cwd_ok_def)
  qed (auto dest!: in_set_butlastD components_plain)
  then have plain: "\<forall>m \<in> set l. plain_name m" using d(3) file_name_plain [OF assms(2)] by simp
  have "resolve s (render_path (RootDir # butlast X)) = Inr d"
    using comps' X(5) d(1) by (auto simp: resolve_def components_def)
  then have "sys_canonicalize (render_path (RootDir # butlast X)) s = Inr (loc_path d)"
    using d(2) by (intro canonicalize_existing) auto
  then show ?thesis
    using that [of "render_path (RootDir # X)" d] X comps d(3) plain by simp
qed

section \<open>The check\<close>

lemma resolve_destination_run:
  assumes "faultless w" "cwd_ok (w_fs w)" "file_name p = Some n" "resolve_entry (w_fs w) p = Inr l"
  obtains c where "resolve_destination p w = (Inr c, ticked (ticked w))"
    "components c = RootDir # map NormalComp l"
proof -
  obtain a d where a: "path_absolute p (w_fs w) = Inr a" "components a \<noteq> []"
    "last (components a) = NormalComp n"
    "sys_canonicalize (render_path (butlast (components a))) (w_fs w) = Inr (loc_path d)"
    "l = d @ [n]" "\<forall>m \<in> set l. plain_name m"
    using absolute_resolves [OF assms(2-4)] by metis
  have "plain_name n" "\<forall>m \<in> set d. plain_name m" using a(5,6) by simp_all
  then have "path_join (loc_path d) n = loc_path l"
    unfolding loc_path_def a(5)
    by (subst path_join_render) (auto simp: list_all_iff inner_component_def)
  then have "resolve_destination p w = (Inr (loc_path l), ticked (ticked w))"
    using a(2-4) assms(1)
    by (simp add: resolve_destination_def map_err_io_def bind_io_def lookups_run a(1)
        resolve_components.simps [of "components a"] attempt_def ret_def)
  then show ?thesis using that components_loc_path [OF a(6)] by blast
qed

text \<open>Where a protected path lies: at its target when there is one, else where it would be made.\<close>

definition lies_at :: "fs \<Rightarrow> path \<Rightarrow> loc \<Rightarrow> bool" where
  "lies_at s p l \<longleftrightarrow>
     resolve s p = Inr l \<and> lookup s l \<noteq> None
     \<or> resolve s p = Inr l \<and> lookup s l = None \<and> resolve_entry s p = Inr l \<and> file_name p \<noteq> None"

definition resolve_other :: "path \<Rightarrow> (error, path) io" where
  "resolve_other other =
     bind_io (attempt (canonicalize other)) (\<lambda>r.
       case r of
         Inr canonical \<Rightarrow> ret canonical
       | Inl e \<Rightarrow> if io_kind_of e = NotFound then resolve_destination other
                  else throw (FileWrite other e))"

lemma resolve_other_lies_at:
  assumes "still s w" "cwd_ok s" "lies_at s other lo" "resolve_other other w = (Inr c, w')"
  shows "components c = RootDir # map NormalComp lo"
proof -
  have w: "w_fs w = s" "faultless w" using assms(1) by (simp_all add: still_def)
  note run = assms(4) [unfolded resolve_other_def bind_io_def attempt_def lookups_run(1) [OF w(2)] w(1)]
  show ?thesis
  proof (cases "lookup s lo")
    case (Some e)
    then have lo: "resolve s other = Inr lo" using assms(3) by (auto simp: lies_at_def)
    then have c: "sys_canonicalize other s = Inr (loc_path lo)"
      using Some by (intro canonicalize_existing) auto
    then obtain l where "resolve s other = Inr l" "components (loc_path lo) = RootDir # map NormalComp l"
      using canonical_path [OF assms(2)] by blast
    then show ?thesis using run c lo by (simp add: ret_def)
  next
    case None
    then have lo: "resolve s other = Inr lo" "resolve_entry s other = Inr lo" "file_name other \<noteq> None"
      using assms(3) by (auto simp: lies_at_def)
    then have c: "sys_canonicalize other s = Inl ENOENT"
      using None by (simp add: sys_canonicalize_def)
    obtain n where n: "file_name other = Some n" using lo(3) by blast
    obtain d where d: "resolve_destination other (ticked w) = (Inr d, ticked (ticked (ticked w)))"
      "components d = RootDir # map NormalComp lo"
      using resolve_destination_run [of "ticked w" other n lo] w assms(2) n lo(2)
      by (metis ticked_simps(1,6))
    then show ?thesis using run c by (simp add: ENOENT_def)
  qed
qed

lemma alias_loop_Inr:
  assumes "still s w" "cwd_ok s" "components dest = RootDir # map NormalComp l"
    and "alias_loop out dest others w = (Inr u, w')" "other \<in> set others" "lies_at s other lo"
  shows "lo \<noteq> l"
  using assms
proof (induction others arbitrary: w)
  case (Cons p ps)
  have "bind_io (resolve_other p) (\<lambda>resolved.
      if components resolved = components dest then throw (OutputAlias out p)
      else alias_loop out dest ps) w = (Inr u, w')"
    using Cons.prems(4) by (simp add: resolve_other_def bind_io_assoc)
  then obtain c w1 where r: "resolve_other p w = (Inr c, w1)" "components c \<noteq> components dest"
    "alias_loop out dest ps w1 = (Inr u, w')"
    unfolding bind_io_Inr by (auto simp: throw_def split: if_splits)
  have "keeps (still s) (resolve_other p)"
    unfolding resolve_other_def by (intro keeps_intros)
  then have "still s w1" using Cons.prems(1) r(1) by (rule keepsD)
  then show ?case
    using Cons.IH Cons.prems r resolve_other_lies_at [OF Cons.prems(1,2) _ r(1)]
    by (cases "other = p") auto
qed simp

text \<open>When every protected file exists elsewhere, the check passes.\<close>

lemma alias_loop_passes:
  assumes "cwd_ok s" "components dest = RootDir # map NormalComp l"
  shows "still s w \<Longrightarrow> \<forall>p \<in> set others. \<exists>lo. resolve s p = Inr lo \<and> lookup s lo \<noteq> None \<and> lo \<noteq> l \<Longrightarrow>
     fst (alias_loop out dest others w) = Inr ()"
proof (induction others arbitrary: w)
  case Nil
  then show ?case by (simp add: ret_def)
next
  case (Cons p ps)
  have w: "w_fs w = s" "faultless w" "still s (ticked w)" using Cons.prems(1) by (simp_all add: still_def)
  obtain lo where lo: "resolve s p = Inr lo" "lookup s lo \<noteq> None" "lo \<noteq> l" using Cons.prems(2) by auto
  have c: "sys_canonicalize p s = Inr (loc_path lo)" using lo(1,2) by (rule canonicalize_existing)
  then have "components (loc_path lo) = RootDir # map NormalComp lo"
    using canonical_path [OF assms(1) c] lo(1) by auto
  moreover have "map NormalComp lo \<noteq> map NormalComp l"
    using lo(3) inj_map_eq_map [of NormalComp lo l] by (auto simp: inj_on_def)
  ultimately have "fst (alias_loop out dest (p # ps) w) = fst (alias_loop out dest ps (ticked w))"
    using c w assms(2) by (simp add: bind_io_def attempt_def lookups_run ret_def)
  then show ?case using Cons.IH [OF w(3)] Cons.prems(2) by simp
qed

lemma reject_output_alias_passes:
  assumes "faultless w" "cwd_ok (w_fs w)" "file_name out = Some n" "resolve_entry (w_fs w) out = Inr l"
    and "\<forall>p \<in> set others. \<exists>lo. resolve (w_fs w) p = Inr lo \<and> lookup (w_fs w) lo \<noteq> None \<and> lo \<noteq> l"
  shows "fst (reject_output_alias out others w) = Inr ()"
proof -
  obtain c where c: "resolve_destination out w = (Inr c, ticked (ticked w))"
    "components c = RootDir # map NormalComp l"
    using resolve_destination_run [OF assms(1-4)] by blast
  have "still (w_fs w) (ticked (ticked w))" using assms(1) by (simp add: still_def)
  then have "fst (alias_loop out c others (ticked (ticked w))) = Inr ()"
    using alias_loop_passes [OF assms(2) c(2)] assms(5) by blast
  then show ?thesis using c(1) by (simp add: reject_output_alias_def bind_io_def)
qed

lemma reject_output_alias_Inr:
  assumes "faultless w" "cwd_ok (w_fs w)" "file_name out = Some n" "resolve_entry (w_fs w) out = Inr l"
    and "reject_output_alias out others w = (Inr u, w')" "other \<in> set others" "lies_at (w_fs w) other lo"
  shows "lo \<noteq> l"
proof -
  obtain c where c: "resolve_destination out w = (Inr c, ticked (ticked w))"
    "components c = RootDir # map NormalComp l"
    using resolve_destination_run [OF assms(1-4)] by blast
  have "alias_loop out c others (ticked (ticked w)) = (Inr u, w')"
    using assms(5) c(1) by (simp add: reject_output_alias_def bind_io_def)
  moreover have "still (w_fs w) (ticked (ticked w))" using assms(1) by (simp add: still_def)
  ultimately show ?thesis using alias_loop_Inr assms(2,6,7) c(2) by blast
qed

end
