(* ===== verification/Reads.thy ===== *)
theory Reads
  imports AliasLemmas Utf8
begin

text \<open>
  Bounded reads: the loop over a fixed buffer against \<open>read_to_end\<close>, and what a host that hands
  out a file in blocks of its choice, with interruptions, makes them return. At the end, the
  printable form of a path.
\<close>

section \<open>Readers\<close>

definition block_of :: "io_error + bytes \<Rightarrow> bytes" where
  "block_of r = (case r of Inl e \<Rightarrow> [] | Inr b \<Rightarrow> b)"

definition delivers :: "reader \<Rightarrow> bytes \<Rightarrow> bool" where
  "delivers rs bs \<longleftrightarrow>
     (\<forall>r \<in> set rs. case r of Inl e \<Rightarrow> io_kind_of e = InterruptedIo | Inr b \<Rightarrow> b \<noteq> [])
     \<and> concat (map block_of rs) = bs"

lemma delivers_Nil: "delivers [] bs \<longleftrightarrow> bs = []"
  by (auto simp: delivers_def)

lemma delivers_Cons:
  "delivers (r # rs) bs \<longleftrightarrow>
     (case r of
        Inl e \<Rightarrow> io_kind_of e = InterruptedIo \<and> delivers rs bs
      | Inr b \<Rightarrow> b \<noteq> [] \<and> (\<exists>cs. bs = b @ cs \<and> delivers rs cs))"
  by (auto simp: delivers_def block_of_def split: sum.splits)

lemma read_to_end_delivers:
  "delivers rs bs \<Longrightarrow> length buf \<le> cap \<Longrightarrow>
     read_to_end cap buf rs = Inr (buf @ take (cap - length buf) bs)"
proof (induction rs arbitrary: bs buf)
  case Nil
  then show ?case by (simp add: delivers_Nil)
next
  case (Cons r rs)
  show ?case
  proof (cases r)
    case (Inl e)
    then show ?thesis using Cons by (auto simp: delivers_Cons)
  next
    case (Inr b)
    then obtain cs where cs: "b \<noteq> []" "bs = b @ cs" "delivers rs cs"
      using Cons.prems(1) by (auto simp: delivers_Cons)
    show ?thesis
    proof (cases "length buf \<ge> cap")
      case False
      let ?buf = "buf @ take (cap - length buf) b"
      have "read_to_end cap ?buf rs = Inr (?buf @ take (cap - length ?buf) cs)"
        using cs(3) by (rule Cons.IH) (use Cons.prems(2) in simp)
      then show ?thesis using False Inr cs by (simp add: min_def)
    qed (use Cons.prems(2) in simp)
  qed
qed

definition filled :: "bytes \<times> nat \<Rightarrow> bytes" where
  "filled r = (case r of (buf, len) \<Rightarrow> take len buf)"

lemma read_secret_loop_reads:
  "len \<le> length buf \<Longrightarrow>
     map_sum id filled (read_secret_loop buf len rs) = read_to_end (length buf) (take len buf) rs"
proof (induction rs arbitrary: buf len)
  case Nil
  then show ?case by (simp add: filled_def)
next
  case (Cons r rs)
  show ?case
  proof (cases "len < length buf")
    case True
    show ?thesis
    proof (cases r)
      case (Inl e)
      then show ?thesis using Cons True by simp
    next
      case (Inr b)
      define n where "n = min (length b) (length buf - len)"
      have n: "n = 0 \<longleftrightarrow> b = []" using True by (cases b) (simp_all add: n_def)
      have t: "take n b = take (length buf - len) b" by (simp add: n_def min_def)
      have l: "length (copy_at len (take n b) buf) = length buf" "len + n \<le> length buf"
        using True by (auto simp: copy_at_def n_def)
      have "take (len + n) (copy_at len (take n b) buf) = take len buf @ take n b"
        using True by (simp add: copy_at_def n_def)
      then show ?thesis
        using Cons.IH [of "len + n" "copy_at len (take n b) buf"] l True Inr n t
        by (simp add: n_def [symmetric] filled_def Let_def)
    qed
  next
    case False
    then show ?thesis using Cons.prems by (simp add: filled_def)
  qed
qed

lemma read_secret_loop_len:
  "read_secret_loop buf len rs = Inr (buf', len') \<Longrightarrow> len \<le> length buf \<Longrightarrow>
     length buf' = length buf \<and> len' \<le> length buf"
proof (induction rs arbitrary: buf len)
  case (Cons r rs)
  show ?case
  proof (cases "len < length buf")
    case True
    show ?thesis
    proof (cases r)
      case (Inl e)
      then show ?thesis using Cons True by (auto split: if_splits)
    next
      case (Inr b)
      have l: "length (copy_at len (take n b) buf) = length buf" if "n \<le> length buf - len" for n
        using True that by (auto simp: copy_at_def)
      show ?thesis
        using Cons.prems(1) True Inr l [of "min (length b) (length buf - len)"]
          Cons.IH [of "copy_at len (take (min (length b) (length buf - len)) b) buf"
            "len + min (length b) (length buf - len)"]
        by (auto simp: Let_def split: if_splits)
    qed
  qed (use Cons.prems in auto)
qed simp

section \<open>Files on an honest host\<close>

definition honest :: "world \<Rightarrow> bool" where
  "honest w \<longleftrightarrow> faultless w \<and> (\<forall>n bs. delivers (w_reads w n bs) bs)"

lemma honest_ticked [simp]: "honest (ticked w) \<longleftrightarrow> honest w"
  by (simp add: honest_def)

text \<open>\<open>p\<close> leads to a regular file with the bytes \<open>bs\<close>.\<close>

definition regular :: "fs \<Rightarrow> path \<Rightarrow> bytes \<Rightarrow> bool" where
  "regular s p bs \<longleftrightarrow>
     (\<exists>i n. sys_open p s = Inr (FileHandle i) \<and> fs_inodes s i = Some n \<and> i_bytes n = bs)"

lemma file_reads_run:
  assumes "honest w" "fs_inodes (w_fs w) i = Some n"
  shows "\<exists>rs. file_reads (FileHandle i) w = (Inr rs, ticked w) \<and> delivers rs (i_bytes n)"
  using assms by (simp add: file_reads_def query_run honest_def)

lemma read_secret_file_run:
  assumes "honest w" "regular (w_fs w) p bs"
  shows "fst (read_secret_file_bounded p m w) = (if length bs \<le> m then Inr bs else Inl (too_large (length bs) m))"
proof -
  obtain i n where n: "sys_open p (w_fs w) = Inr (FileHandle i)" "fs_inodes (w_fs w) i = Some n"
    "i_bytes n = bs" using assms(2) by (auto simp: regular_def)
  have f: "faultless w" using assms(1) by (simp add: honest_def)
  obtain rs where rs: "file_reads (FileHandle i) (ticked (ticked w)) = (Inr rs, ticked (ticked (ticked w)))"
    "delivers rs bs"
    using file_reads_run [of "ticked (ticked w)" i n] assms(1) n by auto
  have "map_sum id filled (read_secret_loop (replicate (m + 1) 0) 0 rs) = Inr (take (m + 1) bs)"
    using read_secret_loop_reads [of 0 "replicate (m + 1) 0" rs] read_to_end_delivers [OF rs(2), of "[]" "m + 1"]
    by simp
  then obtain buf len where loop: "read_secret_loop (replicate (m + 1) 0) 0 rs = Inr (buf, len)"
    "take len buf = take (m + 1) bs"
    by (cases "read_secret_loop (replicate (m + 1) 0) 0 rs") (auto simp: filled_def)
  have "len = length (take len buf)"
    using read_secret_loop_len [OF loop(1)] by simp
  then have len: "len = min (m + 1) (length bs)" using loop(2) by simp
  show ?thesis
    using n f rs loop len
    by (auto simp: read_secret_file_bounded_def bind_io_def map_err_io_def lookups_run handle_stat_def
        throw_def ret_def lift_res_def)
qed

abbreviation ticked3 :: "world \<Rightarrow> world" where
  "ticked3 w \<equiv> ticked (ticked (ticked w))"

lemma opened_file:
  assumes "honest w" "regular (w_fs w) p bs"
  obtains i rs where "open_file p w = (Inr (FileHandle i), ticked w)"
    "\<exists>m. fstat (FileHandle i) (ticked w) = (Inr m, ticked (ticked w)) \<and> st_len m = length bs"
    "file_reads (FileHandle i) (ticked (ticked w)) = (Inr rs, ticked3 w)" "delivers rs bs"
proof -
  obtain i n where n: "sys_open p (w_fs w) = Inr (FileHandle i)" "fs_inodes (w_fs w) i = Some n"
    "i_bytes n = bs" using assms(2) by (auto simp: regular_def)
  have f: "faultless w" using assms(1) by (simp add: honest_def)
  obtain rs where rs: "file_reads (FileHandle i) (ticked (ticked w)) = (Inr rs, ticked3 w)"
    "delivers rs bs"
    using file_reads_run [of "ticked (ticked w)" i n] assms(1) n by auto
  show ?thesis
    by (rule that [of i rs]) (use n f rs in \<open>auto simp: lookups_run handle_stat_def\<close>)
qed

lemma read_file_bounded_run:
  assumes "honest w" "regular (w_fs w) p bs" "length bs \<le> m" "is_utf8 (text_of bs)"
  shows "read_file_bounded p m w = (Inr (text_of bs), ticked3 w)"
proof -
  obtain i rs where run: "open_file p w = (Inr (FileHandle i), ticked w)"
    "\<exists>m. fstat (FileHandle i) (ticked w) = (Inr m, ticked (ticked w)) \<and> st_len m = length bs"
    "file_reads (FileHandle i) (ticked (ticked w)) = (Inr rs, ticked3 w)" "delivers rs bs"
    using opened_file [OF assms(1,2)] by metis
  have "from_utf8 bs = Inr (text_of bs)" using assms(4) by (simp add: from_utf8_Inr)
  then have "read_bounded_string_from_reader rs p m = Inr (text_of bs)"
    using read_to_end_delivers [OF run(4), of "[]" "m + 1"] assms(3)
    by (simp add: read_bounded_string_from_reader_def)
  then show ?thesis
    using run assms(3)
    by (auto simp: read_file_bounded_def bind_io_def map_err_io_def lift_res_def)
qed

lemma read_message_file_run:
  assumes "honest w" "regular (w_fs w) p bs" "length bs \<le> MAX_MESSAGE_SIZE_BYTES"
  shows "read_message_file p w = (Inr bs, ticked3 w)"
proof -
  obtain i rs where run: "open_file p w = (Inr (FileHandle i), ticked w)"
    "\<exists>m. fstat (FileHandle i) (ticked w) = (Inr m, ticked (ticked w)) \<and> st_len m = length bs"
    "file_reads (FileHandle i) (ticked (ticked w)) = (Inr rs, ticked3 w)" "delivers rs bs"
    using opened_file [OF assms(1,2)] by metis
  then show ?thesis
    using run assms(3) read_to_end_delivers [OF run(4), of "[]" "MAX_MESSAGE_SIZE_BYTES + 1"]
    by (auto simp: read_message_file_def bind_io_def map_err_io_def lift_res_def ret_def)
qed

text \<open>What is over the limit is refused, with its size.\<close>

lemma read_file_bounded_outcome:
  assumes "honest w" "regular (w_fs w) p bs"
  shows "fst (read_file_bounded p m w) =
    (if length bs \<le> m then map_err (InvalidUtf8 (display p)) (from_utf8 bs) else Inl (too_large (length bs) m))"
proof -
  obtain i rs where run: "open_file p w = (Inr (FileHandle i), ticked w)"
    "\<exists>m. fstat (FileHandle i) (ticked w) = (Inr m, ticked (ticked w)) \<and> st_len m = length bs"
    "file_reads (FileHandle i) (ticked (ticked w)) = (Inr rs, ticked3 w)" "delivers rs bs"
    using opened_file [OF assms] by metis
  then show ?thesis
    using read_to_end_delivers [OF run(4), of "[]" "m + 1"]
    by (auto simp: read_file_bounded_def read_bounded_string_from_reader_def bind_io_def map_err_io_def lift_res_def
        throw_def)
qed

lemma read_message_file_outcome:
  assumes "honest w" "regular (w_fs w) p bs"
  shows "fst (read_message_file p w) =
    (if length bs \<le> MAX_MESSAGE_SIZE_BYTES then Inr bs else Inl (message_too_large (length bs)))"
proof -
  obtain i rs where run: "open_file p w = (Inr (FileHandle i), ticked w)"
    "\<exists>m. fstat (FileHandle i) (ticked w) = (Inr m, ticked (ticked w)) \<and> st_len m = length bs"
    "file_reads (FileHandle i) (ticked (ticked w)) = (Inr rs, ticked3 w)" "delivers rs bs"
    using opened_file [OF assms] by metis
  then show ?thesis
    using read_to_end_delivers [OF run(4), of "[]" "MAX_MESSAGE_SIZE_BYTES + 1"]
    by (auto simp: read_message_file_def bind_io_def map_err_io_def lift_res_def ret_def throw_def)
qed

text \<open>No host, not even one that lets the file grow while it is read, makes a reader return more.\<close>

lemma readers_bounded:
  "read_secret_file_bounded p m w = (Inr x, w') \<Longrightarrow> length x \<le> m"
  "read_file_bounded p m w = (Inr s, w') \<Longrightarrow> length s \<le> m"
  "read_message_file p w = (Inr x, w') \<Longrightarrow> length x \<le> MAX_MESSAGE_SIZE_BYTES"
  by (auto simp: read_secret_file_bounded_def read_file_bounded_def read_message_file_def
      read_bounded_string_from_reader_def bind_io_Inr map_err_io_Inr lift_res_def Let_def throw_def ret_def
      result_simps from_utf8_Inr split: if_splits)

section \<open>The printable form of a path\<close>

definition escape_control :: "nat \<Rightarrow> nat list" where
  "escape_control c =
     (if is_control c then [0x5C, 0x78] @ map of_char (hex_upper 2 c) else [c])"

lemma hex_upper_2_ascii: "c < 256 \<Longrightarrow> x \<in> set (hex_upper 2 c) \<Longrightarrow> x \<in> set ''0123456789ABCDEF''"
  using hex_upper_fixed [of c 1] hex_fixed_chars [of x 2 c] by (simp add: numeral_2_eq_2)

lemma push_all_ascii: "\<forall>x \<in> set s. of_char x < (0x80 :: nat) \<Longrightarrow> push_all (map of_char s) = s"
  by (induction s) (auto simp: push_all_def utf8_encode_def)

lemma escape_control_small:
  assumes "is_control c"
  shows "c < 256" "x \<in> set (hex_upper 2 c) \<Longrightarrow> 0x20 < (of_char x :: nat)"
    "x \<in> set (hex_upper 2 c) \<Longrightarrow> (of_char x :: nat) < 0x7F"
proof -
  show c: "c < 256" using assms by (auto simp: is_control_def)
  show "0x20 < (of_char x :: nat)" "(of_char x :: nat) < 0x7F" if "x \<in> set (hex_upper 2 c)"
    using hex_upper_2_ascii [OF c that] by auto
qed

lemma sanitise_char_push: "sanitise_char c = push_all (escape_control c)"
proof (cases "is_control c")
  case True
  have "of_char x < (0x80 :: nat)" if "x \<in> set (hex_upper 2 c)" for x
    using escape_control_small(3) [OF True that] by simp
  then have "push_all (map of_char ([CHR 0x5C, CHR ''x''] @ hex_upper 2 c)) = [CHR 0x5C, CHR ''x''] @ hex_upper 2 c"
    by (intro push_all_ascii) auto
  then show ?thesis
    using True by (auto simp: sanitise_char_def escape_control_def is_control_def)
next
  case False
  then show ?thesis
    by (auto simp: sanitise_char_def escape_control_def is_control_def push_all_def)
qed

lemma sanitised_push:
  "sanitised_path_display p = push_all (concat (map escape_control (chars p)))"
proof -
  have "foldl (\<lambda>out c. out @ sanitise_char c) acc cs = acc @ push_all (concat (map escape_control cs))" for acc cs
    by (induction cs arbitrary: acc) (simp_all add: sanitise_char_push push_all_def)
  then show ?thesis by (simp add: sanitised_path_display_def chars_to_string_lossy)
qed

lemma printable_ascii:
  "0x20 < x \<Longrightarrow> x < 0x7F \<Longrightarrow> scalar_value x \<and> \<not> is_control x"
  by (simp add: scalar_value_def is_control_def)

lemma escape_control_scalar:
  assumes "scalar_value c" "x \<in> set (escape_control c)"
  shows "scalar_value x \<and> \<not> is_control x"
proof (cases "is_control c")
  case True
  then consider "x = 0x5C" | "x = 0x78" | y where "y \<in> set (hex_upper 2 c)" "x = of_char y"
    using assms(2) by (auto simp: escape_control_def)
  then show ?thesis
  proof cases
    case 3
    then show ?thesis using escape_control_small(2,3) [OF True] printable_ascii by blast
  qed (simp_all add: printable_ascii)
next
  case False
  then show ?thesis using assms by (simp add: escape_control_def)
qed

lemma escaped_scalar:
  "x \<in> set (concat (map escape_control (chars p))) \<Longrightarrow> scalar_value x \<and> \<not> is_control x"
  using escape_control_scalar [OF chars_scalar [rule_format]] by auto

lemma chars_sanitised:
  "chars (sanitised_path_display p) = concat (map escape_control (chars p))"
  unfolding sanitised_push by (rule chars_push_all) (simp add: escaped_scalar del: set_concat set_map)

lemma is_utf8_sanitised: "is_utf8 (sanitised_path_display p)"
  unfolding sanitised_push by (rule is_utf8_push_all) (simp add: escaped_scalar del: set_concat set_map)

end
