(* ===== verification/FileSafety.thy ===== *)
theory FileSafety
  imports FileUtils PathLemmas
begin

text \<open>
  What the writers of \<open>file_utils.rs\<close> leave behind, in every state they pass through and
  whichever system call fails. The states are described relative to the one the writer
  started in: \<open>staged\<close> adds one file under a temporary name, \<open>replaced\<close> puts a complete
  file at the destination, \<open>view\<close> is everything one can see at a location.
\<close>

section \<open>Views of a file system\<close>

definition view :: "fs \<Rightarrow> loc \<Rightarrow> entry option \<times> inode option" where
  "view s l = (lookup s l, case lookup s l of Some (FileAt i) \<Rightarrow> fs_inodes s i | _ \<Rightarrow> None)"

definition contents_at :: "fs \<Rightarrow> loc \<Rightarrow> bytes option" where
  "contents_at s l = map_option i_bytes (snd (view s l))"

definition wf_fs :: "fs \<Rightarrow> bool" where
  "wf_fs s \<longleftrightarrow> (\<forall>l i. lookup s l = Some (FileAt i) \<longrightarrow> i < fs_next s)"

definition staged :: "fs \<Rightarrow> loc \<Rightarrow> bytes \<Rightarrow> fs \<Rightarrow> bool" where
  "staged s t c s' \<longleftrightarrow>
     fs_cwd s' = fs_cwd s \<and> t \<noteq> [] \<and> lookup s t = None
     \<and> fs_entries s' = (fs_entries s)(t \<mapsto> FileAt (fs_next s))
     \<and> (\<forall>i. i \<noteq> fs_next s \<longrightarrow> fs_inodes s' i = fs_inodes s i)
     \<and> map_option i_bytes (fs_inodes s' (fs_next s)) = Some c
     \<and> fs_next s' = Suc (fs_next s)"

definition replaced :: "fs \<Rightarrow> loc \<Rightarrow> bytes \<Rightarrow> fs \<Rightarrow> bool" where
  "replaced s l c s' \<longleftrightarrow>
     fs_cwd s' = fs_cwd s \<and> l \<noteq> []
     \<and> (\<forall>k. k \<noteq> l \<longrightarrow> fs_entries s' k = fs_entries s k)
     \<and> fs_entries s' l = Some (FileAt (fs_next s))
     \<and> (\<forall>i. i \<noteq> fs_next s \<longrightarrow> fs_inodes s' i = fs_inodes s i)
     \<and> map_option i_bytes (fs_inodes s' (fs_next s)) = Some c
     \<and> fs_next s' = Suc (fs_next s)"

lemma lookup_entries: "l \<noteq> [] \<Longrightarrow> lookup s l = fs_entries s l"
  by (simp add: lookup_def)

lemma lookup_eqI: "(l \<noteq> [] \<Longrightarrow> fs_entries s' l = fs_entries s l) \<Longrightarrow> lookup s' l = lookup s l"
  by (simp add: lookup_def)

lemma view_eqI:
  assumes "lookup s' l = lookup s l" "\<And>i. lookup s l = Some (FileAt i) \<Longrightarrow> fs_inodes s' i = fs_inodes s i"
  shows "view s' l = view s l"
  using assms by (auto simp: view_def split: option.splits entry.splits)

lemma staged_view:
  assumes "wf_fs s" "staged s t c s'" "l \<noteq> t"
  shows "view s' l = view s l"
proof (rule view_eqI)
  show "lookup s' l = lookup s l" using assms(2,3) by (auto simp: staged_def intro!: lookup_eqI)
  fix i
  assume "lookup s l = Some (FileAt i)"
  then have "i < fs_next s" using assms(1) by (simp add: wf_fs_def)
  then show "fs_inodes s' i = fs_inodes s i" using assms(2) by (auto simp: staged_def)
qed

lemma replaced_view:
  assumes "wf_fs s" "replaced s l c s'" "k \<noteq> l"
  shows "view s' k = view s k"
proof (rule view_eqI)
  show "lookup s' k = lookup s k" using assms(2,3) by (auto simp: replaced_def intro!: lookup_eqI)
  fix i
  assume "lookup s k = Some (FileAt i)"
  then have "i < fs_next s" using assms(1) by (simp add: wf_fs_def)
  then show "fs_inodes s' i = fs_inodes s i" using assms(2) by (auto simp: replaced_def)
qed

lemma replaced_contents: "replaced s l c s' \<Longrightarrow> contents_at s' l = Some c"
  by (auto simp: replaced_def contents_at_def view_def lookup_def)

lemma staged_contents: "staged s t c s' \<Longrightarrow> contents_at s' t = Some c"
  by (auto simp: staged_def contents_at_def view_def lookup_def)

lemma staged_same_dirs: "staged s t c s' \<Longrightarrow> same_dirs s s'"
  by (auto simp: staged_def same_dirs_def lookup_def split: if_splits)

lemma staged_wf: "wf_fs s \<Longrightarrow> staged s t c s' \<Longrightarrow> wf_fs s'"
  unfolding wf_fs_def staged_def lookup_def
  by (auto split: if_splits)

lemma replaced_wf: "wf_fs s \<Longrightarrow> replaced s l c s' \<Longrightarrow> wf_fs s'"
proof (unfold wf_fs_def, intro allI impI)
  fix k i
  assume wf: "\<forall>l i. lookup s l = Some (FileAt i) \<longrightarrow> i < fs_next s"
    and r: "replaced s l c s'" and k: "lookup s' k = Some (FileAt i)"
  show "i < fs_next s'"
  proof (cases "k = l")
    case True
    then show ?thesis using r k by (auto simp: replaced_def lookup_def split: if_splits)
  next
    case False
    then have "lookup s k = Some (FileAt i)" using r k by (auto simp: replaced_def lookup_def)
    then have "i < fs_next s" using wf by blast
    then show ?thesis using r by (simp add: replaced_def)
  qed
qed

section \<open>The calls, on staged states\<close>

lemma add_file_staged:
  "t \<noteq> [] \<Longrightarrow> lookup s t = None \<Longrightarrow> add_file t mode time s = (i, s') \<Longrightarrow>
     i = fs_next s \<and> staged s t [] s'"
  by (auto simp: add_file_def staged_def Let_def)

lemma append_staged:
  "staged s t c s' \<Longrightarrow> staged s t (c @ bs) (append_inode (fs_next s) bs s')"
  by (auto simp: staged_def append_inode_def)

lemma chmod_staged:
  "staged s t c s' \<Longrightarrow> staged s t c (chmod_inode (fs_next s) mode s')"
  by (auto simp: staged_def chmod_inode_def)

lemma rename_staged:
  assumes "wf_fs s" "staged s t c s'" "t \<noteq> l" "l \<noteq> []" "lookup s l \<noteq> Some DirAt"
  shows "\<exists>s''. rename_entry t l s' = (Inr (), s'') \<and> replaced s l c s''"
proof -
  have t: "lookup s' t = Some (FileAt (fs_next s))"
    using assms(2) by (simp add: staged_def lookup_def)
  have "lookup s' l = lookup s l" using assms(2,3) by (auto simp: staged_def intro!: lookup_eqI)
  moreover have "lookup s l \<noteq> Some (FileAt (fs_next s))" using assms(1) by (auto simp: wf_fs_def)
  ultimately have "rename_entry t l s' =
      (Inr (), s'\<lparr>fs_entries := (fs_entries s')(t := None, l \<mapsto> FileAt (fs_next s))\<rparr>)"
    using t assms(5) by (simp add: rename_entry_def)
  moreover have "replaced s l c (s'\<lparr>fs_entries := (fs_entries s')(t := None, l \<mapsto> FileAt (fs_next s))\<rparr>)"
    using assms(2,3,4) by (auto simp: staged_def replaced_def lookup_def)
  ultimately show ?thesis by blast
qed

lemma spec_create_new:
  assumes "w_fs w = s" "file_name tmp = Some m" "resolve_entry s tmp = Inr t"
  shows "wp (create_new tmp mode) (\<lambda>r w'.
     passes (\<lambda>s'. s' = s \<or> staged s t [] s') w w'
     \<and> (case r of Inl e \<Rightarrow> w_fs w' = s | Inr i \<Rightarrow> i = fs_next s \<and> staged s t [] (w_fs w'))) w"
  unfolding create_new_def
proof (rule wp_update)
  have t: "t \<noteq> []" using resolve_entry_last [OF assms(2,3)] by simp
  fix r s1 and w1 :: world
  assume f: "sys_create_new tmp (masked mode w)
      (nat (w_clock w (w_calls w))) (w_fs w) = (r, s1)"
    and w1: "w_fs w1 = s1" "w_trace w1 = w_trace w @ [s1]"
  have "r = Inl EEXIST \<and> s1 = s \<or> r = Inr (fs_next s) \<and> staged s t [] s1"
  proof (cases "lookup s t")
    case None
    obtain i s2 where a: "add_file t (masked mode w)
        (nat (w_clock w (w_calls w))) s = (i, s2)" by (rule prod.exhaust)
    then show ?thesis
      using f add_file_staged [OF t None a] None by (simp add: sys_create_new_def assms(1,3))
  next
    case (Some e)
    then show ?thesis using f by (simp add: sys_create_new_def assms(1,3))
  qed
  then show "passes (\<lambda>s'. s' = s \<or> staged s t [] s') w w1
     \<and> (case r of Inl e \<Rightarrow> w_fs w1 = s | Inr i \<Rightarrow> i = fs_next s \<and> staged s t [] (w_fs w1))"
    using w1 by (auto intro: passes_snoc)
qed (simp add: passes_refl assms(1))

lemma spec_write_all:
  assumes "staged s t c (w_fs w)"
  shows "wp (write_all (fs_next s) bs) (\<lambda>r w'.
     passes (\<lambda>s'. \<exists>d. staged s t d s') w w' \<and> (\<exists>d. staged s t d (w_fs w'))
     \<and> (r = Inr () \<longrightarrow> staged s t (c @ bs) (w_fs w'))) w"
  by (rule wp_write_all) (auto simp: passes_def intro: append_staged [OF assms])

lemma spec_fchmod:
  assumes "staged s t c (w_fs w)"
  shows "wp (fchmod (fs_next s) mode) (\<lambda>r w'.
     passes (staged s t c) w w' \<and> staged s t c (w_fs w')) w"
  unfolding fchmod_def
  by (rule wp_update) (auto simp: passes_def assms intro: chmod_staged [OF assms])

lemma spec_rename_staged:
  assumes "wf_fs s" "staged s t c (w_fs w)" "t \<noteq> l" "lookup s l \<noteq> Some DirAt"
    and "file_name tmp = Some m" "resolve_entry s tmp = Inr t"
    and "file_name p = Some n" "resolve_entry s p = Inr l"
  shows "wp (rename_file tmp p) (\<lambda>r w'. case r of
      Inl e \<Rightarrow> passes (staged s t c) w w' \<and> staged s t c (w_fs w')
    | Inr _ \<Rightarrow> passes (replaced s l c) w w' \<and> replaced s l c (w_fs w')) w"
  unfolding rename_file_def
proof (rule wp_update)
  fix r s1 and w1 :: world
  assume f: "sys_rename tmp p (w_fs w) = (r, s1)"
    and w1: "w_fs w1 = s1" "w_trace w1 = w_trace w @ [s1]"
  note sd = staged_same_dirs [OF assms(2)]
  have l: "l \<noteq> []" using resolve_entry_last [OF assms(7,8)] by simp
  obtain s2 where s2: "rename_entry t l (w_fs w) = (Inr (), s2)" "replaced s l c s2"
    using rename_staged [OF assms(1,2,3) l assms(4)] by blast
  have "sys_rename tmp p (w_fs w) = rename_entry t l (w_fs w)"
    by (simp add: sys_rename_def resolve_entry_same_dirs [OF assms(5,6) sd]
        resolve_entry_same_dirs [OF assms(7,8) sd])
  then show "case r of Inl e \<Rightarrow> passes (staged s t c) w w1 \<and> staged s t c (w_fs w1)
    | Inr _ \<Rightarrow> passes (replaced s l c) w w1 \<and> replaced s l c (w_fs w1)"
    using f s2 w1 by (auto intro: passes_snoc)
qed (simp add: passes_refl assms(2))

section \<open>Temporary names\<close>

lemma digits_of_less: "2 \<le> b \<Longrightarrow> d \<in> set (digits_of b n) \<Longrightarrow> d < b"
proof (induction b n arbitrary: d rule: digits_of.induct)
  case (1 b n)
  then show ?case by (subst (asm) digits_of.simps) (auto split: if_splits)
qed

lemma digits_of_ne: "digits_of b n \<noteq> []"
  by (subst digits_of.simps) simp

lemma digit_char_lower_plain: "d < 16 \<Longrightarrow> digit_char_lower d \<in> set ''0123456789abcdef''"
  unfolding digit_char_lower_def by (rule nth_mem) simp

lemma hex_lower_plain: "x \<in> set (hex_lower w n) \<Longrightarrow> x \<in> set ''0123456789abcdef''"
proof -
  assume x: "x \<in> set (hex_lower w n)"
  have "digit_char_lower d \<in> set ''0123456789abcdef''" if "d \<in> set (digits_of 16 n)" for d
    by (rule digit_char_lower_plain) (use digits_of_less [of 16 d n] that in simp)
  then show ?thesis using x by (auto simp: hex_lower_def pad_zero_def)
qed

lemma temp_name_plain:
  assumes "SLASH \<notin> set name" "SLASH \<notin> set suffix"
  shows "plain_name (temp_name name nonce suffix)"
proof -
  have "SLASH \<notin> set (to_string_lossy name)"
    using assms(1) to_string_lossy_ascii [of SLASH name] by auto
  moreover have "SLASH \<notin> set (hex_lower 16 (unat nonce))"
    using hex_lower_plain [of SLASH 16 "unat nonce"] by auto
  moreover have "hex_lower 16 (unat nonce) \<noteq> []"
    using digits_of_ne [of 16 "unat nonce"] by (simp add: hex_lower_def pad_zero_def)
  ultimately show ?thesis
    using assms(2) by (auto simp: plain_name_def temp_name_def Cons_eq_append_conv)
qed

lemma temp_name_longer: "length name < length (temp_name name nonce suffix)"
  using length_to_string_lossy [of name] by (simp add: temp_name_def)

lemma spec_sibling_temp_path:
  assumes "file_name p = Some n"
  shows "wp (sibling_temp_path p suffix) (\<lambda>r w'.
     \<exists>nonce. r = Inr (sibling_path p (temp_name n nonce suffix))
       \<and> w_fs w' = w_fs w \<and> w_trace w' = w_trace w) w"
  unfolding sibling_temp_path_def wp_simps
  by (auto simp: wp_def ret_def random_bytes_def fill_bytes_def assms sibling_path_def parent_or_dot_def)

text \<open>The location of the temporary file of \<open>p\<close>, next to where \<open>p\<close> is.\<close>

lemma temp_location:
  assumes "file_name p = Some n" "SLASH \<notin> set suffix" "resolve_entry s p = Inr l"
  shows "resolve_entry s (sibling_path p (temp_name n nonce suffix))
        = Inr (butlast l @ [temp_name n nonce suffix])"
    and "butlast l @ [temp_name n nonce suffix] \<noteq> l"
    and "file_name (sibling_path p (temp_name n nonce suffix)) = Some (temp_name n nonce suffix)"
proof -
  have n: "SLASH \<notin> set n" using file_name_plain [OF assms(1)] by (simp add: plain_name_def)
  note pl = temp_name_plain [OF n assms(2), of nonce]
  show "resolve_entry s (sibling_path p (temp_name n nonce suffix))
        = Inr (butlast l @ [temp_name n nonce suffix])"
    by (rule resolve_sibling [OF assms(1) pl assms(3)])
  show "file_name (sibling_path p (temp_name n nonce suffix)) = Some (temp_name n nonce suffix)"
    by (rule file_name_sibling [OF assms(1) pl])
  have "last l = n" using resolve_entry_last [OF assms(1,3)] by simp
  then show "butlast l @ [temp_name n nonce suffix] \<noteq> l"
    using temp_name_longer [of n nonce suffix] by (metis less_irrefl snoc_eq_iff_butlast)
qed

section \<open>Replacing a file\<close>

text \<open>The states a replacement of \<open>l\<close> passes through.\<close>

definition replacing :: "fs \<Rightarrow> loc \<Rightarrow> loc \<Rightarrow> bytes \<Rightarrow> fs \<Rightarrow> bool" where
  "replacing s t l c s' \<longleftrightarrow> s' = s \<or> (\<exists>d. staged s t d s') \<or> replaced s l c s'"

lemma passes_replacing:
  "passes (\<lambda>s'. s' = s \<or> staged s t [] s') w w' \<Longrightarrow> passes (replacing s t l c) w w'"
  "passes (\<lambda>s'. \<exists>d. staged s t d s') w w' \<Longrightarrow> passes (replacing s t l c) w w'"
  "passes (staged s t d) w w' \<Longrightarrow> passes (replacing s t l c) w w'"
  "passes (replaced s l c) w w' \<Longrightarrow> passes (replacing s t l c) w w'"
  by (auto elim!: passes_mono simp: replacing_def)

text \<open>In the middle of a replacement that started in \<open>w\<close>, with \<open>c\<close> written so far.\<close>

definition mid :: "world \<Rightarrow> loc \<Rightarrow> loc \<Rightarrow> bytes \<Rightarrow> bytes \<Rightarrow> world \<Rightarrow> bool" where
  "mid w t l bs c w' \<longleftrightarrow> passes (replacing (w_fs w) t l bs) w w' \<and> staged (w_fs w) t c (w_fs w')"

lemma mid_create:
  assumes "file_name tmp = Some m" "resolve_entry (w_fs w) tmp = Inr t"
  shows "wp (create_new tmp mode) (\<lambda>r w'. case r of
      Inl e \<Rightarrow> passes (replacing (w_fs w) t l bs) w w' \<and> w_fs w' = w_fs w
    | Inr i \<Rightarrow> i = fs_next (w_fs w) \<and> mid w t l bs [] w') w"
  by (rule wp_mono [OF spec_create_new [OF refl assms]])
    (auto simp: mid_def intro: passes_replacing(1) split: sum.splits)

lemma mid_write:
  assumes "mid w t l bs c w1"
  shows "wp (write_all (fs_next (w_fs w)) d) (\<lambda>r w'.
     (\<exists>e. mid w t l bs e w') \<and> (r = Inr () \<longrightarrow> mid w t l bs (c @ d) w')) w1"
  by (rule wp_mono [OF spec_write_all [OF conjunct2 [OF assms [unfolded mid_def]], of d]])
    (use assms in \<open>auto simp: mid_def intro: passes_trans passes_replacing(2)\<close>)

lemma mid_fchmod:
  assumes "mid w t l bs c w1"
  shows "wp (fchmod (fs_next (w_fs w)) mode) (\<lambda>r. mid w t l bs c) w1"
  by (rule wp_mono [OF spec_fchmod [OF conjunct2 [OF assms [unfolded mid_def]], of mode]])
    (use assms in \<open>auto simp: mid_def intro: passes_trans passes_replacing(3)\<close>)

lemma mid_mode:
  assumes "mid w t l bs c w1"
  shows "wp (case mode of None \<Rightarrow> ret ()
      | Some mode \<Rightarrow> map_err_io (FileWrite tmp) (fchmod (fs_next (w_fs w)) mode))
     (\<lambda>r. mid w t l bs c) w1"
  using assms mid_fchmod [OF assms] by (cases mode) (simp_all add: wp_simps)

lemma mid_reads:
  assumes "mid w t l bs c w1" "reads_only m"
  shows "wp m (\<lambda>r. mid w t l bs c) w1"
  by (rule wp_reads_only [OF assms(2)])
    (use assms(1) in \<open>auto simp: mid_def passes_def\<close>)

lemma mid_rename:
  assumes "mid w t l bs c w1" "wf_fs (w_fs w)" "t \<noteq> l" "lookup (w_fs w) l \<noteq> Some DirAt"
    and "file_name tmp = Some m" "resolve_entry (w_fs w) tmp = Inr t"
    and "file_name p = Some n" "resolve_entry (w_fs w) p = Inr l" "bs = c"
  shows "wp (rename_file tmp p) (\<lambda>r w'. case r of
      Inl e \<Rightarrow> mid w t l bs c w'
    | Inr _ \<Rightarrow> passes (replacing (w_fs w) t l bs) w w' \<and> replaced (w_fs w) l bs (w_fs w')) w1"
proof (rule wp_mono [OF spec_rename_staged [OF assms(2) conjunct2 [OF assms(1) [unfolded mid_def]]
        assms(3-8)]])
  fix r and w' :: world
  assume "case r of
      Inl e \<Rightarrow> passes (staged (w_fs w) t c) w1 w' \<and> staged (w_fs w) t c (w_fs w')
    | Inr _ \<Rightarrow> passes (replaced (w_fs w) l c) w1 w' \<and> replaced (w_fs w) l c (w_fs w')"
  then show "case r of
      Inl e \<Rightarrow> mid w t l bs c w'
    | Inr _ \<Rightarrow> passes (replacing (w_fs w) t l bs) w w' \<and> replaced (w_fs w) l bs (w_fs w')"
    using assms(1,9)
    by (auto simp: mid_def intro: passes_trans passes_replacing(3,4) split: sum.splits)
qed

definition staging_done :: "world \<Rightarrow> loc \<Rightarrow> loc \<Rightarrow> bytes \<Rightarrow> error + unit \<Rightarrow> world \<Rightarrow> bool" where
  "staging_done w t l bs r w' \<longleftrightarrow>
     passes (replacing (w_fs w) t l bs) w w'
     \<and> (case r of Inl e \<Rightarrow> w_fs w' = w_fs w \<or> (\<exists>d. staged (w_fs w) t d (w_fs w'))
        | Inr _ \<Rightarrow> replaced (w_fs w) l bs (w_fs w'))"

lemma mid_failed: "mid w t l bs c w' \<Longrightarrow> staging_done w t l bs (Inl e) w'"
  by (auto simp: mid_def staging_done_def)

lemma spec_stage_replacement:
  assumes "wf_fs (w_fs w)" "t \<noteq> l" "lookup (w_fs w) l \<noteq> Some DirAt"
    and tmp: "file_name tmp = Some m" "resolve_entry (w_fs w) tmp = Inr t"
    and p: "file_name p = Some n" "resolve_entry (w_fs w) p = Inr l"
  shows "wp (stage_replacement p tmp bs mode) (staging_done w t l bs) w"
  unfolding stage_replacement_def
proof (rule wp_bind_map_errI [OF mid_create [OF tmp, of _ l bs]], goal_cases)
  case (1 e w1)
  then show ?case by (simp add: staging_done_def)
next
  case (2 i w1)
  then have i: "i = fs_next (w_fs w)" and m1: "mid w t l bs [] w1" by auto
  show ?case unfolding i
  proof (rule wp_bindI [OF mid_mode [OF m1]], goal_cases)
    case (2 u w2)
    show ?case
    proof (rule wp_bind_map_errI [OF mid_write [OF 2, of bs]], goal_cases)
      case (2 v w3)
      then have m3: "mid w t l bs bs w3" by simp
      show ?case
      proof (rule wp_bind_map_errI [OF mid_reads [OF m3, of sync_all]], goal_cases)
        case (3 x w4)
        show ?case
          by (rule wp_map_errI [OF mid_rename [OF 3 assms(1-3) tmp p refl]])
            (simp add: mid_failed, simp add: staging_done_def)
      qed (simp_all add: mid_failed)
    qed (auto intro: mid_failed)
  qed (rule mid_failed)
qed

lemma remove_entry_view:
  assumes "resolve_entry s p = Inr t" "l \<noteq> t"
  shows "view (snd (sys_remove_file p s)) l = view s l"
  using assms
  by (auto simp: sys_remove_file_def view_def lookup_def split: option.splits entry.splits)

text \<open>What one may find at a location other than the temporary one, whenever the machine stops.\<close>

definition old_or_new :: "fs \<Rightarrow> loc \<Rightarrow> loc \<Rightarrow> bytes \<Rightarrow> fs \<Rightarrow> bool" where
  "old_or_new s t l c s' \<longleftrightarrow>
     (\<forall>k. k \<noteq> t \<longrightarrow> view s' k = view s k \<or> k = l \<and> contents_at s' l = Some c)"

lemma replacing_old_or_new: "wf_fs s \<Longrightarrow> replacing s t l c s' \<Longrightarrow> old_or_new s t l c s'"
  unfolding replacing_def old_or_new_def
  using staged_view replaced_view replaced_contents by blast

lemma spec_cleanup:
  assumes "wf_fs s" "w_fs w = s \<or> (\<exists>d. staged s t d (w_fs w))"
    and tmp: "file_name tmp = Some m" "resolve_entry s tmp = Inr t"
  shows "wp (remove_file tmp) (\<lambda>r w'.
     passes (old_or_new s t l c) w w' \<and> (\<forall>k. k \<noteq> t \<longrightarrow> view (w_fs w') k = view s k)) w"
  unfolding remove_file_def
proof (rule wp_update)
  have same: "same_dirs s (w_fs w)" using assms(2) staged_same_dirs by auto
  have v: "k \<noteq> t \<Longrightarrow> view (w_fs w) k = view s k" for k
    using assms(2) staged_view [OF assms(1)] by auto
  {
    fix e :: io_error and w1 :: world
    assume "w_fs w1 = w_fs w" "w_trace w1 = w_trace w"
    then show "passes (old_or_new s t l c) w w1 \<and> (\<forall>k. k \<noteq> t \<longrightarrow> view (w_fs w1) k = view s k)"
      using v by (simp add: passes_refl)
  next
    fix r s1 and w1 :: world
    assume f: "sys_remove_file tmp (w_fs w) = (r, s1)"
      and w1: "w_fs w1 = s1" "w_trace w1 = w_trace w @ [s1]"
    have "k \<noteq> t \<Longrightarrow> view s1 k = view s k" for k
      using remove_entry_view [OF resolve_entry_same_dirs [OF tmp same], of k] v f by simp
    then show "passes (old_or_new s t l c) w w1 \<and> (\<forall>k. k \<noteq> t \<longrightarrow> view (w_fs w1) k = view s k)"
      using w1 by (auto simp: old_or_new_def intro: passes_snoc)
  }
qed

lemma reads_only_sync_parent [simp]: "reads_only (sync_parent_directory p)"
  by (simp add: sync_parent_directory_def split: option.splits)

definition replace_post :: "fs \<Rightarrow> loc \<Rightarrow> loc \<Rightarrow> bytes \<Rightarrow> error + unit \<Rightarrow> fs \<Rightarrow> bool" where
  "replace_post s t l bs r s' \<longleftrightarrow>
     (\<forall>k. k \<noteq> t \<longrightarrow> k \<noteq> l \<longrightarrow> view s' k = view s k)
     \<and> (view s' l = view s l \<or> contents_at s' l = Some bs)
     \<and> (r = Inr () \<longrightarrow> contents_at s' l = Some bs \<and> view s' t = view s t)"

lemma spec_replace_tail:
  assumes "wf_fs (w_fs w)" and ne: "t \<noteq> l"
    and tmp: "file_name tmp = Some m" "resolve_entry (w_fs w) tmp = Inr t"
    and dn: "staging_done w t l bs result w2"
  shows "wp (bind_io (discard_failed tmp result) (\<lambda>_.
      bind_io (lift_res result) (\<lambda>_. sync_parent_directory p)))
     (\<lambda>r w'. passes (old_or_new (w_fs w) t l bs) w w' \<and> replace_post (w_fs w) t l bs r (w_fs w')) w2"
    (is "wp _ ?Q w2")
proof (cases result)
  case (Inr u)
  then have r: "replaced (w_fs w) l bs (w_fs w2)" and pa: "passes (old_or_new (w_fs w) t l bs) w w2"
    using dn replacing_old_or_new [OF assms(1)] by (auto simp: staging_done_def elim: passes_mono)
  have "wp (sync_parent_directory p) ?Q w2"
  proof (rule wp_reads_only [OF reads_only_sync_parent])
    fix r' and w3 :: world
    assume "w_fs w3 = w_fs w2" "w_trace w3 = w_trace w2"
    then show "?Q r' w3"
      using pa ne replaced_view [OF assms(1) r] replaced_contents [OF r]
      by (auto simp: replace_post_def passes_def)
  qed
  then show ?thesis using Inr by (simp add: wp_simps discard_failed_def)
next
  case (Inl e)
  then have s2: "w_fs w2 = w_fs w \<or> (\<exists>d. staged (w_fs w) t d (w_fs w2))"
    and pa: "passes (old_or_new (w_fs w) t l bs) w w2"
    using dn replacing_old_or_new [OF assms(1)] by (auto simp: staging_done_def elim: passes_mono)
  have "wp (remove_file tmp) (\<lambda>r. ?Q (Inl e)) w2"
    by (rule wp_mono [OF spec_cleanup [OF assms(1) s2 tmp, of l bs]])
      (use pa ne in \<open>auto simp: replace_post_def intro: passes_trans\<close>)
  then have "wp (discard_failed tmp (Inl e)) (\<lambda>r. ?Q (Inl e)) w2"
    unfolding discard_failed_def is_ok.simps if_False
  proof (rule wp_bind_attemptI)
    fix r and w3 :: world
    assume "?Q (Inl e) w3"
    then show "wp (case r of
       Inl e \<Rightarrow> if io_kind_of e = NotFound then ret () else warn_could_not_remove tmp e
     | Inr _ \<Rightarrow> ret ()) (\<lambda>r. ?Q (Inl e)) w3"
      by (cases r) (simp_all add: wp_simps warn_could_not_remove_def passes_def)
  qed
  then have "wp (discard_failed tmp (Inl e)) (\<lambda>r w3. case r of Inl f \<Rightarrow> ?Q (Inl f) w3 | Inr u \<Rightarrow> ?Q (Inl e) w3) w2"
    by (rule wp_mono) (auto split: sum.splits simp: replace_post_def)
  then show ?thesis
    using Inl by (simp only: wp_bind wp_combinators sum.case)
qed

lemma spec_atomic_replace_file:
  assumes "wf_fs (w_fs w)" "file_name p = Some n" "resolve_entry (w_fs w) p = Inr l"
    and "lookup (w_fs w) l \<noteq> Some DirAt"
  shows "wp (atomic_replace_file p bs mode) (\<lambda>r w'. \<exists>t. t \<noteq> l \<and> butlast t = butlast l
      \<and> passes (old_or_new (w_fs w) t l bs) w w' \<and> replace_post (w_fs w) t l bs r (w_fs w')) w"
  unfolding atomic_replace_file_def validate_windows_path_def
proof (simp only: wp_bind [of "lift_res _"] wp_combinators sum.case,
    rule wp_bindI [OF spec_sibling_temp_path [OF assms(2)]], goal_cases)
  case (2 tmp w1)
  then obtain nonce where tmp: "tmp = sibling_path p (temp_name n nonce ''tmp'')"
    and w1: "w_fs w1 = w_fs w" "w_trace w1 = w_trace w" by blast
  let ?t = "butlast l @ [temp_name n nonce ''tmp'']"
  have ns: "SLASH \<notin> set ''tmp''" by simp
  note loc = temp_location [OF assms(2) ns assms(3), of nonce]
  have stage: "wp (stage_replacement p tmp bs mode) (staging_done w1 ?t l bs) w1"
    unfolding tmp using assms loc w1(1) by (intro spec_stage_replacement) auto
  show ?case
  proof (rule wp_bind_attemptI [OF stage])
    fix result and w2 :: world
    assume dn: "staging_done w1 ?t l bs result w2"
    have "wp (bind_io (discard_failed tmp result) (\<lambda>_.
      bind_io (lift_res result) (\<lambda>_. sync_parent_directory p)))
     (\<lambda>r w'. passes (old_or_new (w_fs w1) ?t l bs) w1 w' \<and> replace_post (w_fs w1) ?t l bs r (w_fs w')) w2"
      unfolding tmp using assms loc w1(1) dn by (intro spec_replace_tail) auto
    then show "wp (bind_io (discard_failed tmp result) (\<lambda>_.
      bind_io (lift_res result) (\<lambda>_. sync_parent_directory p)))
     (\<lambda>r w'. \<exists>t. t \<noteq> l \<and> butlast t = butlast l
      \<and> passes (old_or_new (w_fs w) t l bs) w w' \<and> replace_post (w_fs w) t l bs r (w_fs w')) w2"
      by (rule wp_mono) (use w1 loc(2) in \<open>auto simp: passes_def intro!: exI [of _ ?t]\<close>)
  qed
qed auto

end
