(* ===== verification/NoOverwrite.thy ===== *)
theory NoOverwrite
  imports FileSafety Keypair
begin

text \<open>
  Writers that do not overwrite only ever add files: whatever call fails, and whenever the
  machine stops, every file, link and directory that was there before is still there with its
  contents. The rules for the calls are shared by the three writers.
\<close>

lemma lookup_updates [simp]:
  "lookup (s\<lparr>fs_inodes := f\<rparr>) k = lookup s k"
  "lookup (s\<lparr>fs_next := n\<rparr>) k = lookup s k"
  "l \<noteq> [] \<Longrightarrow> lookup (s\<lparr>fs_entries := (fs_entries s)(l := x)\<rparr>) k = (if k = l then x else lookup s k)"
  by (simp_all add: lookup_def)

section \<open>File systems with more files\<close>

definition additive :: "fs \<Rightarrow> fs \<Rightarrow> bool" where
  "additive s s' \<longleftrightarrow>
     fs_cwd s' = fs_cwd s \<and> fs_next s \<le> fs_next s'
     \<and> (\<forall>l. lookup s l \<noteq> None \<longrightarrow> lookup s' l = lookup s l)
     \<and> (\<forall>l e. lookup s l = None \<longrightarrow> lookup s' l = Some e \<longrightarrow> is_file e)
     \<and> (\<forall>i < fs_next s. fs_inodes s' i = fs_inodes s i)"

lemma additive_refl [simp]: "additive s s"
  by (simp add: additive_def)

lemma additive_view:
  "wf_fs s \<Longrightarrow> additive s s' \<Longrightarrow> lookup s l \<noteq> None \<Longrightarrow> view s' l = view s l"
  by (rule view_eqI) (auto simp: additive_def wf_fs_def)

lemma additive_lookup: "additive s s' \<Longrightarrow> lookup s l = Some e \<Longrightarrow> lookup s' l = Some e"
  unfolding additive_def by (metis option.distinct(1))

lemma additive_old: "additive s s' \<Longrightarrow> lookup s' l = Some e \<Longrightarrow> \<not> is_file e \<Longrightarrow> lookup s l = Some e"
  unfolding additive_def by (metis option.exhaust)

lemma additive_same_dirs:
  assumes "additive s s'"
  shows "same_dirs s s'" "same_dirs s' s"
proof -
  have cwd: "fs_cwd s' = fs_cwd s" using assms by (simp add: additive_def)
  show "same_dirs s s'" unfolding same_dirs_def
    by (intro conjI allI impI cwd) (rule additive_lookup [OF assms])
  show "same_dirs s' s" unfolding same_dirs_def
    by (intro conjI allI impI cwd [symmetric]) (rule additive_old [OF assms])
qed

lemma additive_resolve:
  assumes "file_name p = Some n" "additive s s'"
  shows "resolve_entry s' p = Inr l \<longleftrightarrow> resolve_entry s p = Inr l"
proof
  assume "resolve_entry s' p = Inr l"
  then show "resolve_entry s p = Inr l"
    using additive_same_dirs(2) [OF assms(2)] by (rule resolve_entry_same_dirs [OF assms(1)])
next
  assume "resolve_entry s p = Inr l"
  then show "resolve_entry s' p = Inr l"
    using additive_same_dirs(1) [OF assms(2)] by (rule resolve_entry_same_dirs [OF assms(1)])
qed

text \<open>A path that names a place where nothing was.\<close>

definition fresh :: "fs \<Rightarrow> path \<Rightarrow> bool" where
  "fresh s p \<longleftrightarrow>
     (\<exists>n l. file_name p = Some n \<and> resolve_entry s p = Inr l \<and> lookup s l = None)"

lemma additive_create:
  assumes "additive s s1" "file_name p = Some n" "sys_create_new p m t s1 = (r, s2)"
  shows "additive s s2 \<and> (case r of Inl e \<Rightarrow> s2 = s1 | Inr i \<Rightarrow> fresh s p \<and> fs_next s \<le> i)"
proof (cases r)
  case (Inl e)
  then have "s2 = s1" using assms(3) by (auto dest: create_new_failed)
  then show ?thesis using assms(1) Inl by simp
next
  case (Inr i)
  then obtain l where l: "resolve_entry s1 p = Inr l" "lookup s1 l = None"
    and a: "add_file l m t s1 = (i, s2)"
    using assms(3) by (auto simp: sys_create_new_def split: sum.splits option.splits prod.splits)
  have none: "lookup s l = None" using assms(1) l(2) by (auto simp: additive_def)
  then have ne: "l \<noteq> []" by (auto simp: lookup_def)
  have "resolve_entry s p = Inr l" using l(1) additive_resolve [OF assms(2,1)] by simp
  then have "fresh s p" using assms(2) none by (auto simp: fresh_def)
  moreover have "additive s s2"
    using a assms(1) none ne by (auto simp: add_file_def Let_def additive_def split: if_splits)
  ultimately show ?thesis
    using a assms(1) Inr by (auto simp: add_file_def Let_def additive_def)
qed

lemma additive_append: "additive s s1 \<Longrightarrow> fs_next s \<le> i \<Longrightarrow> additive s (append_inode i bs s1)"
  by (auto simp: additive_def append_inode_def split: option.split)

lemma additive_chmod: "additive s s1 \<Longrightarrow> fs_next s \<le> i \<Longrightarrow> additive s (chmod_inode i m s1)"
  by (auto simp: additive_def chmod_inode_def split: option.split)

lemma additive_remove:
  assumes "additive s s1" "fresh s p" "sys_remove_file p s1 = (r, s2)"
  shows "additive s s2"
proof -
  obtain n l where p: "file_name p = Some n" "resolve_entry s p = Inr l" "lookup s l = None"
    using assms(2) by (auto simp: fresh_def)
  then have "resolve_entry s1 p = Inr l" using additive_resolve [OF p(1) assms(1)] by simp
  moreover have "l \<noteq> []" using p(3) by (auto simp: lookup_def)
  ultimately show ?thesis
    using assms(1,3) p(3)
    by (auto simp: sys_remove_file_def additive_def split: option.splits entry.splits if_splits)
qed

lemma additive_link:
  assumes "additive s s1" "fresh s a" "file_name p = Some n" "sys_hard_link a p s1 = (r, s2)"
  shows "additive s s2 \<and> (r = Inr () \<longrightarrow> fresh s p)"
proof -
  obtain m la where a: "file_name a = Some m" "resolve_entry s a = Inr la" "lookup s la = None"
    using assms(2) by (auto simp: fresh_def)
  then have ra: "resolve_entry s1 a = Inr la" using additive_resolve [OF a(1) assms(1)] by simp
  consider "s2 = s1" "r \<noteq> Inr ()"
    | e l where "lookup s1 la = Some e" "resolve_entry s1 p = Inr l" "lookup s1 l = None"
      "s2 = s1\<lparr>fs_entries := (fs_entries s1)(l \<mapsto> e)\<rparr>"
  proof (cases "resolve_entry s1 p")
    case (Inl e)
    then show ?thesis using assms(4) ra that(1) by (auto simp: sys_hard_link_def)
  next
    case (Inr l)
    show ?thesis
    proof (cases "r = Inr ()")
      case True
      then show ?thesis
        using assms(4) ra Inr that(2) by (auto simp: sys_hard_link_def split: option.splits if_splits)
    next
      case False
      then have "s2 = s1"
        using assms(4) ra Inr by (auto simp: sys_hard_link_def split: option.splits if_splits)
      then show ?thesis using False by (rule that(1))
    qed
  qed
  then show ?thesis
  proof cases
    case 1
    then show ?thesis using assms(1) by simp
  next
    case 2
    then have f: "is_file e" using assms(1) a(3) by (auto simp: additive_def)
    have none: "lookup s l = None" using assms(1) 2(3) by (auto simp: additive_def)
    then have ne: "l \<noteq> []" by (auto simp: lookup_def)
    have "fresh s p"
      using 2(2) additive_resolve [OF assms(3,1)] assms(3) none by (auto simp: fresh_def)
    moreover have "additive s s2"
      using assms(1) 2(4) none f ne by (auto simp: additive_def split: if_splits)
    ultimately show ?thesis by simp
  qed
qed

section \<open>Rules\<close>

text \<open>Everything that has happened since \<open>w\<close> was additive.\<close>

definition adding :: "world \<Rightarrow> world \<Rightarrow> bool" where
  "adding w w' \<longleftrightarrow> passes (additive (w_fs w)) w w' \<and> additive (w_fs w) (w_fs w')"

lemma adding_refl [simp]: "adding w w"
  by (simp add: adding_def passes_refl)

lemma adding_same: "adding w w1 \<Longrightarrow> w_fs w2 = w_fs w1 \<Longrightarrow> w_trace w2 = w_trace w1 \<Longrightarrow> adding w w2"
  by (simp add: adding_def passes_def)

lemma adding_step:
  "adding w w1 \<Longrightarrow> additive (w_fs w) s \<Longrightarrow> w_fs w2 = s \<Longrightarrow> w_trace w2 = w_trace w1 @ [s] \<Longrightarrow> adding w w2"
  by (auto simp: adding_def intro: passes_trans passes_snoc)

lemma adding_reads:
  assumes "adding w w1" "reads_only m"
  shows "wp m (\<lambda>r. adding w) w1"
  using assms by (auto intro: wp_reads_only adding_same)

lemma adding_create:
  assumes "adding w w1" "file_name p = Some n"
  shows "wp (create_new p mode) (\<lambda>r w2. adding w w2
    \<and> (\<forall>i. r = Inr i \<longrightarrow> fresh (w_fs w) p \<and> fs_next (w_fs w) \<le> i)) w1"
  unfolding create_new_def
proof (rule wp_update)
  fix r s and w2 :: world
  assume f: "sys_create_new p (masked mode w1) (nat (w_clock w1 (w_calls w1))) (w_fs w1) = (r, s)"
    and w2: "w_fs w2 = s" "w_trace w2 = w_trace w1 @ [s]"
  note c = additive_create [OF conjunct2 [OF assms(1) [unfolded adding_def]] assms(2) f]
  then have "adding w w2" using adding_step [OF assms(1) _ w2] by blast
  then show "adding w w2 \<and> (\<forall>i. r = Inr i \<longrightarrow> fresh (w_fs w) p \<and> fs_next (w_fs w) \<le> i)"
    using c by auto
qed (use assms adding_same in auto)

lemma adding_write:
  assumes "adding w w1" "fs_next (w_fs w) \<le> i"
  shows "wp (write_all i bs) (\<lambda>r. adding w) w1"
proof -
  have "additive (w_fs w) (append_inode i d (w_fs w1))" for d
    using assms additive_append by (auto simp: adding_def)
  then show ?thesis
    using assms(1)
    by (intro wp_write_all) (auto simp: adding_def passes_def intro: exI [of _ "_ @ _"])
qed

lemma adding_chmod:
  assumes "adding w w1" "fs_next (w_fs w) \<le> i"
  shows "wp (fchmod i mode) (\<lambda>r. adding w) w1"
  unfolding fchmod_def
proof (rule wp_update)
  fix r s and w2 :: world
  assume "(Inr (), chmod_inode i mode (w_fs w1)) = (r, s)"
    and w2: "w_fs w2 = s" "w_trace w2 = w_trace w1 @ [s]"
  moreover have "additive (w_fs w) (chmod_inode i mode (w_fs w1))"
    using assms by (intro additive_chmod) (simp_all add: adding_def)
  ultimately have "additive (w_fs w) s" by simp
  then show "adding w w2" using w2 by (rule adding_step [OF assms(1)])
qed (use assms(1) adding_same in auto)

lemma adding_remove:
  assumes "adding w w1" "fresh (w_fs w) p"
  shows "wp (remove_file p) (\<lambda>r. adding w) w1"
  unfolding remove_file_def
proof (rule wp_update)
  fix r s and w2 :: world
  assume f: "sys_remove_file p (w_fs w1) = (r, s)"
    and w2: "w_fs w2 = s" "w_trace w2 = w_trace w1 @ [s]"
  have "additive (w_fs w) s"
    using additive_remove [OF _ assms(2) f] assms(1) by (simp add: adding_def)
  then show "adding w w2" using w2 by (rule adding_step [OF assms(1)])
qed (use assms(1) adding_same in auto)

lemma adding_link:
  assumes "adding w w1" "fresh (w_fs w) a" "file_name p = Some n"
  shows "wp (hard_link a p) (\<lambda>r w2. adding w w2 \<and> (r = Inr () \<longrightarrow> fresh (w_fs w) p)) w1"
  unfolding hard_link_def
proof (rule wp_update)
  fix r s and w2 :: world
  assume f: "sys_hard_link a p (w_fs w1) = (r, s)"
    and w2: "w_fs w2 = s" "w_trace w2 = w_trace w1 @ [s]"
  have l: "additive (w_fs w) s \<and> (r = Inr () \<longrightarrow> fresh (w_fs w) p)"
    using additive_link [OF _ assms(2,3) f] assms(1) by (simp add: adding_def)
  then have "adding w w2" using adding_step [OF assms(1) _ w2] by blast
  then show "adding w w2 \<and> (r = Inr () \<longrightarrow> fresh (w_fs w) p)" using l by simp
qed (use assms(1) adding_same in auto)

lemma adding_discard:
  assumes "adding w w1" "fresh (w_fs w) p"
  shows "wp (discard_file p) (\<lambda>r w2. r = Inr () \<and> adding w w2) w1"
  unfolding discard_file_def
proof (rule wp_bind_attemptI [OF adding_remove [OF assms]])
  fix r w2
  assume "adding w w2"
  then show "wp (warn_cleanup_failure p r) (\<lambda>r w2. r = Inr () \<and> adding w w2) w2"
    by (cases r)
      (auto simp: warn_cleanup_failure_def warn_could_not_remove_def wp_simps intro: adding_same)
qed

lemma discard_files_simps:
  "discard_files [] = ret ()"
  "discard_files (p # ps) = bind_io (discard_file p) (\<lambda>_. discard_files ps)"
  by (simp_all add: discard_files_def)

lemma adding_discards:
  "adding w w1 \<Longrightarrow> \<forall>p \<in> set ps. fresh (w_fs w) p \<Longrightarrow>
     wp (discard_files ps) (\<lambda>r w2. r = Inr () \<and> adding w w2) w1"
proof (induction ps arbitrary: w1)
  case Nil
  then show ?case by (simp add: discard_files_simps wp_simps)
next
  case (Cons p ps)
  show ?case unfolding discard_files_simps
    by (rule wp_bindI [OF adding_discard]) (use Cons in auto)
qed

text \<open>A step whose failure is followed by the removal of fresh files.\<close>

lemma adding_or_discard:
  assumes "wp m (\<lambda>r w2. adding w w2 \<and> (\<forall>x. r = Inr x \<longrightarrow> P x)) w1" "\<forall>p \<in> set ps. fresh (w_fs w) p"
  shows "wp (or_discard m ps) (\<lambda>r w2. adding w w2 \<and> (\<forall>x. r = Inr x \<longrightarrow> P x)) w1"
  unfolding or_discard_def
proof (rule wp_bind_attemptI [OF assms(1)])
  fix r w2
  assume r: "adding w w2 \<and> (\<forall>x. r = Inr x \<longrightarrow> P x)"
  show "wp (case r of Inl e \<Rightarrow> bind_io (discard_files ps) (\<lambda>_. throw e) | Inr x \<Rightarrow> ret x)
     (\<lambda>r w2. adding w w2 \<and> (\<forall>x. r = Inr x \<longrightarrow> P x)) w2"
  proof (cases r)
    case (Inl e)
    have "wp (bind_io (discard_files ps) (\<lambda>_. throw e)) (\<lambda>r w2. adding w w2 \<and> (\<forall>x. r = Inr x \<longrightarrow> P x)) w2"
      by (rule wp_bindI [OF adding_discards]) (use r assms(2) in \<open>auto simp: wp_simps\<close>)
    then show ?thesis using Inl by simp
  next
    case (Inr x)
    then show ?thesis using r by (simp add: wp_simps)
  qed
qed

section \<open>The writers\<close>

lemma sibling_has_name:
  assumes "file_name p = Some n" "SLASH \<notin> set suffix"
  shows "file_name (sibling_path p (temp_name n nonce suffix)) = Some (temp_name n nonce suffix)"
proof (rule file_name_sibling [OF assms(1)])
  have "SLASH \<notin> set n" using file_name_plain [OF assms(1)] by (simp add: plain_name_def)
  then show "plain_name (temp_name n nonce suffix)" using assms(2) by (rule temp_name_plain)
qed

lemma adding_write_temp_file:
  assumes "adding w w1" "file_name p = Some n"
  shows "wp (write_temp_file p bs mode) (\<lambda>r w2. adding w w2 \<and> (\<forall>t. r = Inr t \<longrightarrow> fresh (w_fs w) t)) w1"
  unfolding write_temp_file_def
proof (rule wp_bindI [OF spec_sibling_temp_path [OF assms(2)]], goal_cases)
  case (2 tmp w2)
  then obtain nonce where tmp: "tmp = sibling_path p (temp_name n nonce ''tmp'')" by blast
  have name: "file_name tmp = Some (temp_name n nonce ''tmp'')"
    unfolding tmp by (rule sibling_has_name [OF assms(2)]) simp
  have a2: "adding w w2" using 2 assms(1) by (auto intro: adding_same)
  show ?case
  proof (rule wp_bind_map_errI [OF adding_create [OF a2 name]], goal_cases)
    case (2 i w3)
    then have i: "adding w w3" "fresh (w_fs w) tmp" "fs_next (w_fs w) \<le> i" by auto
    show ?case
    proof (rule wp_bind_map_errI [OF adding_write [OF i(1,3)]], goal_cases)
      case (2 u w4)
      show ?case
        by (rule wp_bind_map_errI [OF adding_reads [OF 2, of sync_all]]) (auto simp: i(2) wp_simps)
    qed auto
  qed auto
qed auto

lemma adding_stage_keypair:
  assumes "adding w w1" "file_name sp = Some n" "file_name pp = Some m"
  shows "wp (stage_keypair sp pp sc pc) (\<lambda>r w2. adding w w2
     \<and> (\<forall>st pt. r = Inr (st, pt) \<longrightarrow> fresh (w_fs w) st \<and> fresh (w_fs w) pt)) w1"
  unfolding stage_keypair_def
proof (rule wp_bindI [OF adding_write_temp_file [OF assms(1,2)]], goal_cases)
  case (2 st w2)
  then have s: "adding w w2" "fresh (w_fs w) st" by auto
  show ?case
    by (rule wp_bindI [OF adding_or_discard [OF adding_write_temp_file [OF s(1) assms(3)]]])
      (use s(2) in \<open>auto simp: wp_simps\<close>)
qed auto

text \<open>A sequence of steps, each of which keeps \<open>adding\<close> and gives the next one a fact.\<close>

lemma adding_bindI:
  assumes "wp m (\<lambda>r w2. adding w w2 \<and> (\<forall>x. r = Inr x \<longrightarrow> P x)) w1"
    and "\<And>x w2. P x \<Longrightarrow> adding w w2 \<Longrightarrow> wp (f x) (\<lambda>r. adding w) w2"
  shows "wp (bind_io m f) (\<lambda>r. adding w) w1"
  by (rule wp_bindI [OF assms(1)]) (auto intro: assms(2))

lemma adding_reads_step:
  "adding w w1 \<Longrightarrow> reads_only m \<Longrightarrow> wp m (\<lambda>r w2. adding w w2 \<and> (\<forall>x. r = Inr x \<longrightarrow> True)) w1"
  using adding_reads by simp

lemma adding_link_step:
  assumes "adding w w1" "fresh (w_fs w) a" "file_name p = Some n"
  shows "wp (map_err_io g (hard_link a p)) (\<lambda>r w2. adding w w2
     \<and> (\<forall>x. r = Inr x \<longrightarrow> fresh (w_fs w) p)) w1"
  by (rule wp_map_errI [OF adding_link [OF assms]]) auto

lemma adding_link_keypair:
  assumes "adding w w1" "fresh (w_fs w) st" "fresh (w_fs w) pt"
    and "file_name sp = Some n" "file_name pp = Some m"
  shows "wp (link_keypair sp pp st pt) (\<lambda>r. adding w) w1"
  unfolding link_keypair_def
proof (rule adding_bindI [OF adding_or_discard [OF adding_link_step [OF assms(1,2,4)]]], goal_cases)
  case (2 u w2)
  then have s: "fresh (w_fs w) sp" "adding w w2" by auto
  show ?case
  proof (rule adding_bindI [OF adding_or_discard [OF adding_reads_step [OF s(2) reads_only_sync_parent]]], goal_cases)
    case (2 u w3)
    show ?case
    proof (rule adding_bindI [OF adding_or_discard [OF adding_link_step [OF 2(2) assms(3,5)]]], goal_cases)
      case (2 u w4)
      then have p: "fresh (w_fs w) pp" "adding w w4" by auto
      show ?case
      proof (rule adding_bindI [OF adding_or_discard [OF adding_reads_step [OF p(2) reads_only_sync_parent]]], goal_cases)
        case (2 u w5)
        show ?case
          by (rule wp_mono [OF adding_discards [OF 2(2)]]) (use assms in auto)
      qed (use s p assms in auto)
    qed (use s assms in auto)
  qed (use s assms in auto)
qed (use assms in auto)

lemma adding_create_new:
  assumes "file_name sp = Some n" "file_name pp = Some m"
  shows "wp (write_keypair_files_create_new sp pp sc pc) (\<lambda>r. adding w) w"
  unfolding write_keypair_files_create_new_def
proof (rule adding_bindI [OF adding_reads_step [OF adding_refl reads_only_exists]], goal_cases)
  case (1 se w1)
  have "wp (bind_io (stage_keypair sp pp sc pc) (\<lambda>(st, pt). link_keypair sp pp st pt)) (\<lambda>r. adding w) w2"
    if "adding w w2" for w2
    by (rule wp_bindI [OF adding_stage_keypair [OF that assms]])
      (use assms in \<open>auto intro: adding_link_keypair\<close>)
  then have "wp (bind_io (path_exists pp) (\<lambda>public_exists.
      if public_exists then throw (FileExists pp)
      else bind_io (stage_keypair sp pp sc pc) (\<lambda>(st, pt). link_keypair sp pp st pt))) (\<lambda>r. adding w) w1"
    by (intro adding_bindI [OF adding_reads_step [OF 1(2) reads_only_exists]]) (simp add: wp_simps)
  then show ?case using 1(2) by (simp add: wp_simps)
qed

lemma adding_write_file:
  assumes "file_name p = Some n"
  shows "wp (write_file p bs False) (\<lambda>r. adding w) w"
  unfolding write_file_def validate_windows_path_def if_False
proof (simp only: wp_bind [of "lift_res _"] wp_combinators sum.case,
    rule wp_bind_map_errI [OF adding_create [OF adding_refl assms]], goal_cases)
  case (2 i w1)
  then show ?case
    by (intro wp_bind_map_errI [OF adding_write [of w w1 i]]) (auto simp: wp_simps)
qed auto

section \<open>What stays, what is written\<close>

lemma adding_views:
  assumes "wf_fs (w_fs w)" "adding w w'" "lookup (w_fs w) l \<noteq> None"
  shows "view (w_fs w') l = view (w_fs w) l" "passes (\<lambda>s. view s l = view (w_fs w) l) w w'"
proof -
  show "view (w_fs w') l = view (w_fs w) l"
    by (rule additive_view [OF assms(1) _ assms(3)]) (use assms(2) in \<open>simp add: adding_def\<close>)
  have "passes (additive (w_fs w)) w w'" using assms(2) by (simp add: adding_def)
  then show "passes (\<lambda>s. view s l = view (w_fs w) l) w w'"
    by (rule passes_mono) (rule additive_view [OF assms(1) _ assms(3)])
qed

lemma write_file_new:
  assumes "file_name p = Some n" "resolve_entry (w_fs w) p = Inr l"
  shows "wp (write_file p bs False) (\<lambda>r w'. r = Inr () \<longrightarrow> staged (w_fs w) l bs (w_fs w')) w"
  unfolding write_file_def validate_windows_path_def if_False
proof (simp only: wp_bind [of "lift_res _"] wp_combinators sum.case,
    rule wp_bind_map_errI [OF spec_create_new [OF refl assms]], goal_cases)
  case (2 i w1)
  then have i: "i = fs_next (w_fs w)" and s: "staged (w_fs w) l [] (w_fs w1)" by auto
  show ?case unfolding i
    by (rule wp_bind_map_errI [OF spec_write_all [OF s, of bs]]) (auto simp: wp_simps)
qed auto

end
