(* ===== verification/Examples.thy ===== *)
theory Examples
  imports AliasLemmas Reads NoOverwrite
begin

text \<open>
  A small world on which the theorems are instantiated: the working directory \<open>d\<close> with a regular
  file \<open>m\<close> of three bytes and a symbolic link \<open>l\<close> to it, on a host that never fails and hands a
  file out in one block.
\<close>

definition ex_fs :: fs where
  "ex_fs = \<lparr>fs_entries = [[''d''] \<mapsto> DirAt, [''d'', ''m''] \<mapsto> FileAt 0, [''d'', ''l''] \<mapsto> LinkTo ''m''],
     fs_inodes = [0 \<mapsto> \<lparr>i_bytes = [1, 2, 3], i_mode = 420, i_mtime = 0\<rparr>],
     fs_next = 1, fs_cwd = [''d''], fs_dir_modes = (\<lambda>l. 493)\<rparr>"

definition ex_world :: "fs \<Rightarrow> world" where
  "ex_world s = \<lparr>w_fs = s, w_calls = 0, w_faults = (\<lambda>n. None), w_partial = (\<lambda>n. 0),
     w_clock = (\<lambda>n. 1700000000000), w_reads = (\<lambda>n bs. if bs = [] then [] else [Inr bs]),
     w_umask = 18, w_rng = (\<lambda>n. 0), w_out = [], w_err = [], w_trace = [], w_instant = 0,
     w_elapsed = (\<lambda>n. 1), w_keyring = Map.empty, w_keyring_faults = (\<lambda>n. None),
     w_keyring_keeps = (\<lambda>n bs. Some bs),
     w_keyring_asked = [], w_schedule = [0, 1, 1, 0]\<rparr>"

lemma run_fst: "fst r = x \<Longrightarrow> r = (x, snd r)"
  by (cases r) simp

lemma ex_world_fs [simp]: "w_fs (ex_world s) = s" "w_trace (ex_world s) = []" "w_calls (ex_world s) = 0"
  by (simp_all add: ex_world_def)

lemma ex_honest [simp]: "honest (ex_world s)" "faultless (ex_world s)"
  by (simp_all add: honest_def faultless_def ex_world_def delivers_def block_of_def)

lemma ex_wf [simp]: "wf_fs ex_fs"
  by (auto simp: wf_fs_def ex_fs_def lookup_def split: if_splits)

lemma ex_cwd [simp]: "cwd_ok ex_fs"
  by (simp add: cwd_ok_def ex_fs_def lookup_def plain_name_def)

lemma ex_components [simp]:
  "components ''m'' = [NormalComp ''m'']" "components ''l'' = [NormalComp ''l'']"
  "components ''n'' = [NormalComp ''n'']" "components ''/d/n'' = [RootDir, NormalComp ''d'', NormalComp ''n'']"
  by (code_simp, code_simp, code_simp, code_simp)

lemma ex_names [simp]:
  "file_name ''m'' = Some ''m''" "file_name ''l'' = Some ''l''" "file_name ''n'' = Some ''n''"
  "file_name ''/d/n'' = Some ''n''"
  by (simp_all add: file_name_def)

lemma ex_lookup [simp]:
  "lookup ex_fs [''d''] = Some DirAt" "lookup ex_fs [''d'', ''m''] = Some (FileAt 0)"
  "lookup ex_fs [''d'', ''l''] = Some (LinkTo ''m'')" "lookup ex_fs [''d'', ''n''] = None"
  "fs_cwd ex_fs = [''d'']" "fs_next ex_fs = 1" "lookup s [] = Some DirAt"
  by (simp_all add: ex_fs_def lookup_def)

lemma ex_resolve [simp]:
  "resolve_entry ex_fs ''m'' = Inr [''d'', ''m'']" "resolve_entry ex_fs ''l'' = Inr [''d'', ''l'']"
  "resolve_entry ex_fs ''n'' = Inr [''d'', ''n'']" "resolve ex_fs ''m'' = Inr [''d'', ''m'']"
  "resolve ex_fs ''n'' = Inr [''d'', ''n'']" "resolve ex_fs ''l'' = Inr [''d'', ''m'']"
  "resolve_entry ex_fs ''/d/n'' = Inr [''d'', ''n'']"
  by (simp_all add: resolve_entry_def resolve_def as_directory_def MAX_LINKS_def)

lemma ex_regular [simp]: "regular ex_fs ''m'' [1, 2, 3]"
  by (simp add: regular_def sys_open_def) (simp add: ex_fs_def)

text \<open>A release build with a credential store and threads, the default features.\<close>

definition ex_build :: build where
  "ex_build = \<lparr>b_debug = False, b_credential_store = True, b_parallel = True, b_commit_failure = None,
     b_lock_timeout = None\<rparr>"

text \<open>The same directory while another process holds the lock of \<open>m\<close>, taken just now.\<close>

definition ex_locked :: fs where
  "ex_locked = ex_fs\<lparr>fs_entries := (fs_entries ex_fs)([''d'', ''.m.force.lock''] \<mapsto> FileAt 1),
     fs_inodes := (fs_inodes ex_fs)(1 \<mapsto> \<lparr>i_bytes = [], i_mode = 420, i_mtime = 1700000000000\<rparr>),
     fs_next := 2\<rparr>"

lemma ex_lock_path [simp]: "lock_path_of ''m'' = ''.m.force.lock''"
  by code_simp

lemma ex_lock_name [simp]: "components ''.m.force.lock'' = [NormalComp ''.m.force.lock'']"
  "file_name ''.m.force.lock'' = Some ''.m.force.lock''"
  by (code_simp, code_simp)

lemma ex_lock_free [simp]:
  "resolve_entry ex_fs ''.m.force.lock'' = Inr [''d'', ''.m.force.lock'']"
  "lookup ex_fs [''d'', ''.m.force.lock''] = None"
  by (simp_all add: resolve_entry_def as_directory_def) (simp add: ex_fs_def lookup_def)

lemma ex_lock_taken [simp]:
  "resolve_entry ex_locked ''.m.force.lock'' = Inr [''d'', ''.m.force.lock'']"
  "resolve ex_locked ''.m.force.lock'' = Inr [''d'', ''.m.force.lock'']"
  "lookup ex_locked [''d'', ''.m.force.lock''] = Some (FileAt 1)"
  by (simp_all add: resolve_entry_def resolve_def as_directory_def ex_locked_def)

end
