(* ===== verification/Verify_Properties.thy ===== *)
theory Verify_Properties
  imports Replays Examples Reference_Crates
begin

text \<open>
  What \<open>verify\<close> promises: on a host that works it computes a function of the three files, and on
  any host a success means that both signatures were verified, over the very bytes that are
  output when they are asked for. The results of a batch and their summary.
\<close>

section \<open>A host without interruptions\<close>

definition quiet :: "world \<Rightarrow> bool" where
  "quiet w \<longleftrightarrow> honest w \<and> (\<forall>n bs. \<forall>r \<in> set (w_reads w n bs). \<exists>b. r = Inr b)"

lemma quiet_ticked [simp]: "quiet (ticked w) \<longleftrightarrow> quiet w"
  by (simp add: quiet_def)

lemma quiet_honest: "quiet w \<Longrightarrow> honest w" "quiet w \<Longrightarrow> faultless w"
  by (simp_all add: quiet_def honest_def)

lemma ex_quiet [simp]: "quiet (ex_world s)"
  by (simp add: quiet_def) (simp add: ex_world_def)

lemma delivers_blocks:
  "delivers rs bs \<Longrightarrow> \<forall>r \<in> set rs. \<exists>b. r = Inr b \<Longrightarrow>
     \<exists>blocks. rs = map Inr blocks \<and> (\<forall>b \<in> set blocks. b \<noteq> []) \<and> concat blocks = bs"
proof (induction rs arbitrary: bs)
  case Nil
  then show ?case by (simp add: delivers_Nil)
next
  case (Cons r rs)
  then obtain b cs where b: "r = Inr b" "b \<noteq> []" "bs = b @ cs" "delivers rs cs"
    by (auto simp: delivers_Cons)
  then obtain blocks where "rs = map Inr blocks" "\<forall>b \<in> set blocks. b \<noteq> []" "concat blocks = cs"
    using Cons.IH [of cs] Cons.prems(2) by auto
  then show ?case using b by (intro exI [of _ "b # blocks"]) simp
qed

lemma hash_file_run:
  assumes "quiet w" "regular (w_fs w) p bs" "blake2b_ok C"
  shows "hash_file C p w = (Inr (blake2b_512 C bs), ticked (ticked w))"
proof -
  obtain i n where n: "sys_open p (w_fs w) = Inr (FileHandle i)" "fs_inodes (w_fs w) i = Some n"
    "i_bytes n = bs" using assms(2) by (auto simp: regular_def)
  have f: "faultless w" using assms(1) by (rule quiet_honest)
  let ?rs = "w_reads w (Suc (w_calls w)) bs"
  have run: "file_reads (FileHandle i) (ticked w) = (Inr ?rs, ticked (ticked w))"
    using f n by (simp add: file_reads_def query_run) (simp add: ticked_def)
  have "delivers ?rs bs" using assms(1) by (simp add: quiet_def honest_def)
  then obtain blocks where "?rs = map Inr blocks" "\<forall>b \<in> set blocks. b \<noteq> []" "concat blocks = bs"
    using delivers_blocks assms(1) unfolding quiet_def by blast
  then have "blake2b_512_stream C ?rs = Inr (blake2b_512 C bs)"
    using blake2b_512_stream_eq [OF assms(3)] by metis
  then show ?thesis
    using n f run by (simp add: hash_file_def bind_io_def map_err_io_def lookups_run lift_res_def)
qed

section \<open>The specification of verification\<close>

definition signed_data :: "crates \<Rightarrow> sig_struct \<Rightarrow> bytes \<Rightarrow> bytes" where
  "signed_data C s message = (if ss_prehashed s then blake2b_512 C message else message)"

definition check_message ::
  "crates \<Rightarrow> pubkey_struct \<Rightarrow> sig_box \<Rightarrow> bytes \<Rightarrow> bool \<Rightarrow> error + unit" where
  "check_message C pubkey b message force_prehashed =
     (let s = sb_sig_struct b
      in if pk_keynum pubkey \<noteq> ss_keynum s then Inl (KeyMismatch (to_key_id (ss_keynum s)))
         else if force_prehashed \<and> \<not> ss_prehashed s then Inl LegacySignatureRejected
         else verify C (pk_public_key pubkey) (signed_data C s message) (ss_signature s))"

lemma verify_message_signature_run:
  assumes "quiet w" "regular (w_fs w) p bs" "length bs \<le> MAX_MESSAGE_SIZE_BYTES" "blake2b_ok C"
  shows "fst (verify_message_signature C pubkey b p force_prehashed capture_output w) =
    map_sum id (\<lambda>_. if capture_output then Some bs else None) (check_message C pubkey b bs force_prehashed)"
proof -
  have f: "faultless w" using assms(1) by (rule quiet_honest)
  have m: "\<exists>m. metadata p w = (Inr m, ticked w) \<and> st_len m = length bs"
    using assms(2) f by (auto simp: lookups_run sys_metadata_def regular_def handle_stat_def)
  note reads = read_message_file_run [OF quiet_honest(1) [OF assms(1)] assms(2,3)]
    read_message_file_run [of "ticked w" p bs] hash_file_run [OF assms(1,2,4)]
  show ?thesis
    using m reads assms(1-3) quiet_honest(1) [OF assms(1)]
    by (auto simp: verify_message_signature_def check_message_def signed_data_def Let_def throw_def
        bind_io_def map_err_io_def lift_res_def ret_def split: sum.split)
qed

definition verify_spec ::
  "crates \<Rightarrow> error + pubkey_struct \<Rightarrow> string \<Rightarrow> bytes \<Rightarrow> bool \<Rightarrow> bool \<Rightarrow> error + verify_result" where
  "verify_spec C pubkey signature_text message force_prehashed output =
     and_then pubkey (\<lambda>pubkey.
     and_then (sig_box_from_file_contents C signature_text) (\<lambda>b.
     and_then (check_message C pubkey b message force_prehashed) (\<lambda>_.
     and_then (verify_global_signature C b (pk_public_key pubkey)) (\<lambda>_.
       Inr (verify_result_of pubkey b (if output then Some message else None))))))"

lemma load_public_key_run:
  assumes "honest w"
    and "case source of
        SourceFile p \<Rightarrow> regular (w_fs w) p kb \<and> length kb \<le> MAX_KEY_FILE_BYTES \<and> is_utf8 (text_of kb)
          \<and> key = pubkey_from_file_contents C (text_of kb)
      | SourceBase64 s \<Rightarrow> key = pubkey_from_base64 C s"
  shows "load_public_key C source w = (key, case source of SourceFile p \<Rightarrow> ticked3 w | _ \<Rightarrow> w)"
proof (cases source)
  case (SourceFile p)
  then show ?thesis
    using assms read_file_bounded_run [of w p kb MAX_KEY_FILE_BYTES]
    by (simp add: load_public_key_def bind_io_def lift_res_def)
next
  case (SourceBase64 s)
  then show ?thesis using assms(2) by (simp add: load_public_key_def lift_res_def)
qed

lemma load_signature_run:
  assumes "honest w" "regular (w_fs w) p sb" "length sb \<le> MAX_SIGNATURE_FILE_BYTES" "is_utf8 (text_of sb)"
  shows "load_signature C p w = (sig_box_from_file_contents C (text_of sb), ticked3 w)"
  using read_file_bounded_run [OF assms(1,2,3,4)] by (simp add: load_signature_def bind_io_def lift_res_def)

lemma fst_bind_global:
  "fst (bind_io m (\<lambda>out. bind_io (lift_res g) (\<lambda>_. ret (f out))) w) =
     and_then (fst (m w)) (\<lambda>out. and_then g (\<lambda>_. Inr (f out)))"
  by (auto simp: bind_io_def lift_res_def ret_def split: prod.split sum.split)

lemma verify_op_run:
  assumes "quiet w" "blake2b_ok C"
    and "case vo_public_key opts of
        SourceFile p \<Rightarrow> regular (w_fs w) p kb \<and> length kb \<le> MAX_KEY_FILE_BYTES \<and> is_utf8 (text_of kb)
          \<and> key = pubkey_from_file_contents C (text_of kb)
      | SourceBase64 s \<Rightarrow> key = pubkey_from_base64 C s"
    and "regular (w_fs w) (vo_signature_file opts) sb" "length sb \<le> MAX_SIGNATURE_FILE_BYTES"
    and "is_utf8 (text_of sb)"
    and "regular (w_fs w) (vo_message_file opts) msg" "length msg \<le> MAX_MESSAGE_SIZE_BYTES"
  shows "fst (verify_op C opts w) =
     verify_spec C key (text_of sb) msg (vo_force_prehashed opts) (vo_output opts)"
proof -
  define v where "v = (case vo_public_key opts of SourceFile p \<Rightarrow> ticked3 w | _ \<Rightarrow> w)"
  have v: "quiet v" "w_fs v = w_fs w" using assms(1) by (auto simp: v_def split: public_key_source.split)
  have key: "load_public_key C (vo_public_key opts) w = (key, v)"
    unfolding v_def by (rule load_public_key_run [OF quiet_honest(1) [OF assms(1)] assms(3)])
  have sig: "load_signature C (vo_signature_file opts) v
      = (sig_box_from_file_contents C (text_of sb), ticked3 v)"
    using load_signature_run [OF quiet_honest(1) [OF v(1)]] assms(4-6) v(2) by simp
  have msg: "fst (verify_message_signature C pk b (vo_message_file opts) (vo_force_prehashed opts)
        (vo_output opts) (ticked3 v)) =
      map_sum id (\<lambda>_. if vo_output opts then Some msg else None) (check_message C pk b msg (vo_force_prehashed opts))"
    for pk b
    using assms(7,8,2) v by (intro verify_message_signature_run) simp_all
  show ?thesis
  proof (cases key)
    case (Inl e)
    then show ?thesis using key by (simp add: verify_op_def bind_io_def verify_spec_def)
  next
    case (Inr pk)
    show ?thesis
    proof (cases "sig_box_from_file_contents C (text_of sb)")
      case (Inl e)
      then show ?thesis using key sig Inr by (simp add: verify_op_def bind_io_def verify_spec_def)
    next
      case (Inr b)
      have "fst (verify_op C opts w) = fst (bind_io (verify_message_signature C pk b (vo_message_file opts)
            (vo_force_prehashed opts) (vo_output opts)) (\<lambda>out.
          bind_io (lift_res (verify_global_signature C b (pk_public_key pk))) (\<lambda>_.
            ret (verify_result_of pk b out))) (ticked3 v))"
        using key sig \<open>key = Inr pk\<close> Inr by (simp add: verify_op_def bind_io_run)
      then show ?thesis
        unfolding fst_bind_global msg using \<open>key = Inr pk\<close> Inr
        by (cases "check_message C pk b msg (vo_force_prehashed opts)") (simp_all add: verify_spec_def)
    qed
  qed
qed

section \<open>Soundness on any host\<close>

lemma verify_message_signature_sound:
  assumes "verify_message_signature C pubkey b p force_prehashed capture_output w = (Inr out, w')"
  shows "pk_keynum pubkey = ss_keynum (sb_sig_struct b)
    \<and> (force_prehashed \<longrightarrow> ss_prehashed (sb_sig_struct b))
    \<and> (\<exists>data. verify C (pk_public_key pubkey) data (ss_signature (sb_sig_struct b)) = Inr ()
         \<and> (case out of
              Some message \<Rightarrow> capture_output \<and> data = signed_data C (sb_sig_struct b) message
            | None \<Rightarrow> \<not> capture_output))"
  using assms
  by (auto simp: verify_message_signature_def signed_data_def throw_def lift_res_def ret_def bind_io_Inr
      split: if_splits)

lemma verify_op_sound:
  assumes "verify_op C opts w = (Inr res, w')"
  obtains pubkey b data where
    "case vo_public_key opts of SourceFile p \<Rightarrow> (\<exists>t. pubkey_from_file_contents C t = Inr pubkey)
       | SourceBase64 s \<Rightarrow> pubkey_from_base64 C s = Inr pubkey"
    "pk_keynum pubkey = ss_keynum (sb_sig_struct b)"
    "vo_force_prehashed opts \<longrightarrow> ss_prehashed (sb_sig_struct b)"
    "verify C (pk_public_key pubkey) data (ss_signature (sb_sig_struct b)) = Inr ()"
    "verify_global_signature C b (pk_public_key pubkey) = Inr ()"
    "case vr_message_output res of
       Some message \<Rightarrow> vo_output opts \<and> data = signed_data C (sb_sig_struct b) message
     | None \<Rightarrow> \<not> vo_output opts"
    "vr_trusted_comment res = sb_trusted_comment b" "vr_key_id res = to_key_id (pk_keynum pubkey)"
proof -
  obtain pubkey b out w1 w2 w3 where o:
    "load_public_key C (vo_public_key opts) w = (Inr pubkey, w1)"
    "load_signature C (vo_signature_file opts) w1 = (Inr b, w2)"
    "verify_message_signature C pubkey b (vo_message_file opts) (vo_force_prehashed opts)
       (vo_output opts) w2 = (Inr out, w3)"
    "verify_global_signature C b (pk_public_key pubkey) = Inr ()" "res = verify_result_of pubkey b out"
    using assms by (auto simp: verify_op_def bind_io_Inr lift_res_def ret_def)
  have res: "vr_message_output res = out" "vr_trusted_comment res = sb_trusted_comment b"
    "vr_key_id res = to_key_id (pk_keynum pubkey)"
    using o(5) by (simp_all add: verify_result_of_def into_parts_def)
  have "case vo_public_key opts of SourceFile p \<Rightarrow> (\<exists>t. pubkey_from_file_contents C t = Inr pubkey)
       | SourceBase64 s \<Rightarrow> pubkey_from_base64 C s = Inr pubkey"
    using o(1) by (auto simp: load_public_key_def bind_io_Inr lift_res_def split: public_key_source.splits)
  moreover obtain data where
    "verify C (pk_public_key pubkey) data (ss_signature (sb_sig_struct b)) = Inr ()"
    "case out of
       Some message \<Rightarrow> vo_output opts \<and> data = signed_data C (sb_sig_struct b) message
     | None \<Rightarrow> \<not> vo_output opts"
    using verify_message_signature_sound [OF o(3)] by blast
  ultimately show ?thesis
    using that [of pubkey b data] o(4) verify_message_signature_sound [OF o(3)] res by simp
qed

section \<open>Batches\<close>

definition batch_outcome :: "(path \<times> (error + 'a)) list \<Rightarrow> error + unit" where
  "batch_outcome results =
     (if \<forall>r \<in> set results. is_ok (snd r) then Inr ()
      else if \<forall>r \<in> set results. \<not> is_ok (snd r) then Inl TotalFailure
      else Inl PartialFailure)"

lemma print_summary_outcome: "fst (print_summary verb results w) = batch_outcome results"
proof -
  have "failed_files results = [] \<longleftrightarrow> (\<forall>r \<in> set results. is_ok (snd r))"
    by (auto simp: failed_files_def filter_empty_conv)
  moreover have "list_all (\<lambda>(f, r). \<not> is_ok r) results \<longleftrightarrow> (\<forall>r \<in> set results. \<not> is_ok (snd r))"
    by (auto simp: list_all_iff)
  ultimately show ?thesis
    by (simp add: print_summary_def format_summary_def batch_outcome_def Let_def ret_def bind_io_def
        print_err_def throw_def)
qed

lemma verify_batch_outcome_run:
  assumes "load_public_key C (vo_public_key opts) w = (Inr pubkey, w1)" "length files \<noteq> 1"
  shows "\<exists>results. map fst results = files
    \<and> (\<forall>(f, r) \<in> set results. \<exists>v. retimed w1 v \<and> r = fst (verify_file_with_key C f pubkey opts v))
    \<and> fst (verify_multiple_files C dbg B files opts sequential w) = batch_outcome results"
proof -
  obtain w2 where w2: "(if \<not> vo_quiet opts then
      println (''Verifying with key: '' @ to_key_id (pk_keynum pubkey) @ '' (''
        @ keynum_to_words (pk_keynum pubkey) @ '')'') else ret ()) w1 = (Inr () :: error + unit, w2)"
      "retimed w2 = retimed w1"
    by (cases "vo_quiet opts") (auto simp: fun_eq_iff retimed_def println_def print_out_def ret_def)
  obtain results w3 where r: "collect_verify_results C dbg B files pubkey opts sequential w2 = (Inr results, w3)"
    "map fst results = files"
    "\<forall>(f, r) \<in> set results. \<exists>v. retimed w1 v \<and> r = fst (verify_file_with_key C f pubkey opts v)"
    unfolding w2(2) [symmetric] using collect_verify_results_run by blast
  have "verify_multiple_files C dbg B files opts sequential w = print_verify_summary results w3"
    using assms w2(1) r(1)
    by (cases "vo_quiet opts") (simp_all add: verify_multiple_files_def bind_io_def)
  then have "fst (verify_multiple_files C dbg B files opts sequential w) = batch_outcome results"
    by (simp add: print_verify_summary_def print_summary_outcome)
  then show ?thesis using r(2,3) by blast
qed

section \<open>Properties\<close>

text \<open>C4: on a host that works, \<open>verify\<close> is the specified function of the public key, the
  signature file and the message: the key numbers are compared first, then legacy signatures are
  refused if asked for, then the signature is verified over the message or its hash, then the
  global signature, and each error is the one of the first check that fails.\<close>

theorem verify_refines_spec:
  assumes "quiet w" "blake2b_ok C"
    and "case vo_public_key opts of
        SourceFile p \<Rightarrow> regular (w_fs w) p kb \<and> length kb \<le> MAX_KEY_FILE_BYTES \<and> is_utf8 (text_of kb)
          \<and> key = pubkey_from_file_contents C (text_of kb)
      | SourceBase64 s \<Rightarrow> key = pubkey_from_base64 C s"
    and "regular (w_fs w) (vo_signature_file opts) sb" "length sb \<le> MAX_SIGNATURE_FILE_BYTES"
    and "is_utf8 (text_of sb)"
    and "regular (w_fs w) (vo_message_file opts) msg" "length msg \<le> MAX_MESSAGE_SIZE_BYTES"
  shows "fst (verify_op C opts w) =
     verify_spec C key (text_of sb) msg (vo_force_prehashed opts) (vo_output opts)"
  using assms by (rule verify_op_run)

text \<open>C3: whatever the host does (files that change between two calls, failing calls, reads cut
  short), when \<open>verify\<close> succeeds there is a public key from the source named, with the key number
  of the signature, under which the message signature was verified over some data and the global
  signature over the signature and the trusted comment that is returned; with \<open>force_prehashed\<close>
  the signature is a prehashed one; and if the message is to be output, what is output is exactly
  the bytes that were verified.\<close>

theorem verify_success_means_verified:
  assumes "verify_op C opts w = (Inr res, w')"
  shows "\<exists>pubkey (b :: sig_box) data.
    (case vo_public_key opts of SourceFile p \<Rightarrow> (\<exists>t. pubkey_from_file_contents C t = Inr pubkey)
       | SourceBase64 s \<Rightarrow> pubkey_from_base64 C s = Inr pubkey)
    \<and> pk_keynum pubkey = ss_keynum (sb_sig_struct b)
    \<and> vr_key_id res = to_key_id (pk_keynum pubkey)
    \<and> (vo_force_prehashed opts \<longrightarrow> ss_prehashed (sb_sig_struct b))
    \<and> verify C (pk_public_key pubkey) data (ss_signature (sb_sig_struct b)) = Inr ()
    \<and> verify C (pk_public_key pubkey) (ss_signature (sb_sig_struct b) @ as_bytes (vr_trusted_comment res))
        (sb_global_signature b) = Inr ()
    \<and> (case vr_message_output res of
         Some message \<Rightarrow> vo_output opts \<and> data = signed_data C (sb_sig_struct b) message
       | None \<Rightarrow> \<not> vo_output opts)"
proof (rule verify_op_sound [OF assms], goal_cases)
  case (1 pubkey b data)
  then show ?case
    by - (rule exI [of _ pubkey], rule exI [of _ b], rule exI [of _ data],
      simp add: verify_global_signature_def)
qed

text \<open>C33: in a batch every file is verified on its own and all of them are, whatever happens to the
  others and, with threads, however their calls interleave: the results are in the order of the files,
  and each is what the verification of that file alone gives on the same files, on a host that answers
  the same at other times; the batch succeeds exactly when each file does, and tells a total failure
  from a partial one.\<close>

theorem verify_batch_outcome:
  assumes "load_public_key C (vo_public_key opts) w = (Inr pubkey, w1)" "length files \<noteq> 1"
  shows "\<exists>results. map fst results = files
    \<and> (\<forall>(f, r) \<in> set results. \<exists>v. retimed w1 v \<and> r = fst (verify_file_with_key C f pubkey opts v))
    \<and> fst (verify_multiple_files C dbg B files opts sequential w) =
        (if \<forall>r \<in> set results. is_ok (snd r) then Inr ()
         else if \<forall>r \<in> set results. \<not> is_ok (snd r) then Inl TotalFailure
         else Inl PartialFailure)"
  using verify_batch_outcome_run [OF assms] unfolding batch_outcome_def .

end
