(* ===== verification/FilesStay.thy ===== *)
theory FilesStay
  imports NoOverwrite Reads
begin

text \<open>
  What is left of the other files when one is written, with and without \<open>force\<close>: they are found
  where they were, with the bytes they had, and the new file is found at its path.
\<close>

section \<open>Files that stay\<close>

lemma staged_additive: "wf_fs s \<Longrightarrow> staged s t c s' \<Longrightarrow> additive s s'"
  by (auto simp: staged_def additive_def lookup_def)

text \<open>A file is still found where it was when the links and directories are still there.\<close>

lemma walk_keeps:
  "walk s k here cs = Inr l \<Longrightarrow> lookup s l \<noteq> None \<Longrightarrow> same_dirs s s' \<Longrightarrow> lookup s' l = lookup s l \<Longrightarrow>
     walk s' k here cs = Inr l"
proof (induction s k here cs rule: walk.induct)
  case (5 s k here n cs)
  show ?case
  proof (cases "lookup s (here @ [n])")
    case None
    then show ?thesis using "5.prems"(1,2) by (auto split: if_splits)
  next
    case (Some e)
    have "lookup s' (here @ [n]) = Some e"
    proof (cases "is_file e")
      case True
      then obtain i where "e = FileAt i" by (cases e) auto
      then have "here @ [n] = l" using Some "5.prems"(1) by (simp split: if_splits)
      then show ?thesis using "5.prems"(4) Some by simp
    next
      case False
      then show ?thesis using same_dirs_lookup [OF "5.prems"(3) Some] by simp
    qed
    then show ?thesis using "5.IH" "5.prems" Some by (auto split: entry.splits if_splits)
  qed
qed auto

lemma sys_open_file:
  "sys_open p s = Inr (FileHandle i) \<longleftrightarrow> (\<exists>l. resolve s p = Inr l \<and> lookup s l = Some (FileAt i))"
  by (cases "resolve s p") (auto simp: sys_open_def split: option.splits entry.splits)

lemma regular_resolve:
  "regular s p bs \<longleftrightarrow>
     (\<exists>l i n. resolve s p = Inr l \<and> lookup s l = Some (FileAt i) \<and> fs_inodes s i = Some n \<and> i_bytes n = bs)"
  by (auto simp: regular_def sys_open_file)

lemma resolve_keeps:
  assumes "resolve s p = Inr l" "lookup s l \<noteq> None" "same_dirs s s'" "lookup s' l = lookup s l"
  shows "resolve s' p = Inr l"
  using assms(1) walk_keeps [OF _ assms(2-4), of MAX_LINKS "fs_cwd s" "components p"] assms(3)
  by (simp add: resolve_def same_dirs_def split: if_splits)

lemma resolve_additive: "resolve s p = Inr l \<Longrightarrow> lookup s l = Some e \<Longrightarrow> additive s s' \<Longrightarrow> resolve s' p = Inr l"
  using resolve_keeps [of s p l s'] additive_same_dirs(1) [of s s'] additive_lookup [of s s' l e] by simp

lemma regular_additive:
  assumes "wf_fs s" "additive s s'" "regular s p bs"
  shows "regular s' p bs"
proof -
  obtain l i n where r: "resolve s p = Inr l" "lookup s l = Some (FileAt i)" "fs_inodes s i = Some n"
    "i_bytes n = bs" using assms(3) by (auto simp: regular_resolve)
  have "resolve s' p = Inr l" using r(1,2) assms(2) by (rule resolve_additive)
  moreover have "lookup s' l = Some (FileAt i)" using additive_lookup [OF assms(2) r(2)] .
  moreover have "fs_inodes s' i = Some n" using assms(1,2) r(2,3) by (auto simp: additive_def wf_fs_def)
  ultimately show ?thesis using r(4) by (auto simp: regular_resolve)
qed

lemma walk_snoc:
  "walk s k here cs = Inr d \<Longrightarrow> lookup s d = Some DirAt \<Longrightarrow> lookup s (d @ [n]) = Some (FileAt i) \<Longrightarrow>
     walk s k here (cs @ [NormalComp n]) = Inr (d @ [n])"
proof (induction s k here cs rule: walk.induct)
  case (5 s k here m cs)
  then show ?case by (auto split: option.splits entry.splits if_splits)
qed auto

lemma entry_resolves:
  assumes "file_name p = Some n" "resolve_entry s p = Inr l" "lookup s l = Some (FileAt i)"
  shows "resolve s p = Inr l"
proof -
  obtain d where d: "walk s MAX_LINKS (fs_cwd s) (butlast (components p)) = Inr d"
    "lookup s d = Some DirAt" "l = d @ [n]" using resolve_entry_Inr [OF assms(1)] assms(2) by blast
  have comps: "components p = butlast (components p) @ [NormalComp n]"
    using assms(1) by (metis append_butlast_last_id file_name_Some)
  have "walk s MAX_LINKS (fs_cwd s) (components p) = Inr l"
    using walk_snoc [OF d(1,2)] assms(3) d(3) comps by metis
  then show ?thesis using comps by (auto simp: resolve_def components_def)
qed

lemma entry_regular:
  assumes "file_name p = Some n" "resolve_entry s p = Inr l" "lookup s l = Some (FileAt i)"
    and "map_option i_bytes (fs_inodes s i) = Some c"
  shows "regular s p c"
  using entry_resolves [OF assms(1-3)] assms(3,4) by (auto simp: regular_resolve)

lemma staged_regular:
  assumes "file_name p = Some n" "resolve_entry s p = Inr l" "staged s l c s'"
  shows "regular s' p c"
  using resolve_entry_same_dirs [OF assms(1,2) staged_same_dirs [OF assms(3)]] assms(3)
  by (intro entry_regular [OF assms(1)]) (auto simp: staged_def lookup_def)

section \<open>Writing over a file\<close>

lemma attempt_Inr: "attempt m w = (Inr r, w') \<longleftrightarrow> m w = (r, w')"
  by (auto simp: attempt_def split: prod.split)

lemma atomic_replace_Inr:
  assumes "atomic_replace_file p bs mode w = (Inr (), w')" "file_name p = Some n"
  obtains nonce w1 w2 where "w_fs w1 = w_fs w" "sync_parent_directory p w2 = (Inr (), w')"
    "stage_replacement p (sibling_path p (temp_name n nonce ''tmp'')) bs mode w1 = (Inr (), w2)"
proof -
  obtain tmp w1 w2 where 1: "sibling_temp_path p ''tmp'' w = (Inr tmp :: error + path, w1)"
    and 2: "stage_replacement p tmp bs mode w1 = (Inr (), w2)" "sync_parent_directory p w2 = (Inr (), w')"
    using assms(1)
    by (auto simp: atomic_replace_file_def validate_windows_path_def bind_io_Inr lift_res_def attempt_Inr
        discard_failed_def ret_def)
  show thesis
    using wpD [OF spec_sibling_temp_path [OF assms(2)] 1] 2 that by auto
qed

text \<open>A replacement that succeeds has put the new contents at the location, and nothing else has changed.\<close>

lemma atomic_replace_replaced:
  assumes "wf_fs (w_fs w)" "file_name p = Some n" "resolve_entry (w_fs w) p = Inr l"
    and "lookup (w_fs w) l \<noteq> Some DirAt" "atomic_replace_file p bs mode w = (Inr (), w')"
  shows "replaced (w_fs w) l bs (w_fs w')"
proof -
  obtain nonce w1 w2 where run: "w_fs w1 = w_fs w" "sync_parent_directory p w2 = (Inr (), w')"
    "stage_replacement p (sibling_path p (temp_name n nonce ''tmp'')) bs mode w1 = (Inr (), w2)"
    by (rule atomic_replace_Inr [OF assms(5,2)])
  have ns: "SLASH \<notin> set ''tmp''" by simp
  note loc = temp_location [OF assms(2) ns assms(3), of nonce]
  have "staging_done w1 (butlast l @ [temp_name n nonce ''tmp'']) l bs (Inr ()) w2"
    using wpD [OF spec_stage_replacement run(3)] assms loc run(1) by simp
  then show ?thesis
    using reads_onlyD [OF reads_only_sync_parent run(2)] run(1) by (simp add: staging_done_def)
qed


text \<open>A directory is not replaced by a file.\<close>

lemma rename_onto_directory:
  assumes "staged s t c s'" "t \<noteq> l" "lookup s l = Some DirAt"
  shows "\<exists>e. rename_entry t l s' = (Inl e, s')"
proof -
  have "lookup s' t = Some (FileAt (fs_next s))" using assms(1) by (simp add: staged_def lookup_def)
  moreover have "lookup s' l = Some DirAt" using assms by (auto simp: staged_def lookup_def)
  ultimately show ?thesis by (simp add: rename_entry_def)
qed

lemma stage_onto_directory:
  assumes "t \<noteq> l" "lookup (w_fs w) l = Some DirAt"
    and tmp: "file_name tmp = Some m" "resolve_entry (w_fs w) tmp = Inr t"
    and p: "file_name p = Some n" "resolve_entry (w_fs w) p = Inr l"
  shows "wp (stage_replacement p tmp bs mode) (\<lambda>r w'. \<not> is_ok r) w"
  unfolding stage_replacement_def
proof (rule wp_bind_map_errI [OF mid_create [OF tmp, of _ l bs]], goal_cases)
  case (2 i w1)
  then have i: "i = fs_next (w_fs w)" and m1: "mid w t l bs [] w1" by auto
  show ?case unfolding i
  proof (rule wp_bindI [OF mid_mode [OF m1]], goal_cases)
    case (2 u w2)
    show ?case
    proof (rule wp_bind_map_errI [OF mid_write [OF 2, of bs]], goal_cases)
      case (2 v w3)
      then have m3: "mid w t l bs bs w3" by simp
      show ?case
      proof (rule wp_bind_map_errI [OF mid_reads [OF m3, of sync_all]], goal_cases)
        case (3 x w4)
        then have st: "staged (w_fs w) t bs (w_fs w4)" by (simp add: mid_def)
        have "resolve_entry (w_fs w4) tmp = Inr t" "resolve_entry (w_fs w4) p = Inr l"
          using resolve_entry_same_dirs [OF _ _ staged_same_dirs [OF st]] tmp p by blast+
        then have "\<exists>e. sys_rename tmp p (w_fs w4) = (Inl e, w_fs w4)"
          using rename_onto_directory [OF st assms(1,2)] by (simp add: sys_rename_def)
        then show ?case
          by (auto simp: wp_def map_err_io_def rename_file_def update_def commit_def Let_def split: option.split)
      qed simp_all
    qed simp
  qed simp
qed simp

lemma replace_onto_directory:
  assumes "file_name p = Some n" "resolve_entry (w_fs w) p = Inr l" "lookup (w_fs w) l = Some DirAt"
  shows "atomic_replace_file p bs mode w \<noteq> (Inr (), w')"
proof
  assume run: "atomic_replace_file p bs mode w = (Inr (), w')"
  obtain nonce w1 w2 where 1: "w_fs w1 = w_fs w"
    and 2: "stage_replacement p (sibling_path p (temp_name n nonce ''tmp'')) bs mode w1 = (Inr (), w2)"
    by (rule atomic_replace_Inr [OF run assms(1)])
  have ns: "SLASH \<notin> set ''tmp''" by simp
  note loc = temp_location [OF assms(1) ns assms(2), of nonce]
  have "\<not> is_ok (Inr () :: error + unit)"
    by (rule wpD [OF stage_onto_directory [OF loc(2) _ loc(3) _ assms(1)] 2]) (use assms loc(1) 1 in simp_all)
  then show False by simp
qed

section \<open>What a write leaves\<close>

definition written :: "fs \<Rightarrow> loc \<Rightarrow> bytes \<Rightarrow> fs \<Rightarrow> bool" where
  "written s l c s' \<longleftrightarrow>
     fs_cwd s' = fs_cwd s \<and> lookup s l \<noteq> Some DirAt
     \<and> (\<forall>k. k \<noteq> l \<longrightarrow> view s' k = view s k)
     \<and> (\<exists>i. lookup s' l = Some (FileAt i) \<and> map_option i_bytes (fs_inodes s' i) = Some c)"

lemma staged_written:
  assumes "wf_fs s" "staged s l c s'"
  shows "written s l c s'"
proof -
  have "lookup s' l = Some (FileAt (fs_next s))" using assms(2) by (simp add: staged_def lookup_def)
  then show ?thesis using assms(2) staged_view [OF assms] by (simp add: written_def staged_def)
qed

lemma replaced_written:
  assumes "wf_fs s" "lookup s l \<noteq> Some DirAt" "replaced s l c s'"
  shows "written s l c s'"
proof -
  have "lookup s' l = Some (FileAt (fs_next s))" using assms(3) by (simp add: replaced_def lookup_def)
  then show ?thesis using assms(2,3) replaced_view [OF assms(1,3)] by (simp add: written_def replaced_def)
qed

lemma write_file_written:
  assumes "wf_fs (w_fs w)" "file_name p = Some n" "resolve_entry (w_fs w) p = Inr l"
    and "write_file p bs force w = (Inr (), w')"
  shows "written (w_fs w) l bs (w_fs w') \<and> (force \<or> lookup (w_fs w) l = None)"
proof (cases force)
  case False
  then have "staged (w_fs w) l bs (w_fs w')" using wpD [OF write_file_new [OF assms(2,3)]] assms(4) by simp
  then show ?thesis using staged_written [OF assms(1)] by (auto simp: staged_def)
next
  case True
  then obtain w1 where "reject_symlink p w = (Inr (), w1)" and run: "atomic_replace_file p bs None w1 = (Inr (), w')"
    using assms(4) by (auto simp: write_file_def validate_windows_path_def bind_io_Inr lift_res_def)
  then have w1: "w_fs w1 = w_fs w"
    by (auto simp: reject_symlink_def bind_io_Inr attempt_def symlink_metadata_def query_def Let_def ret_def throw_def
        split: option.splits sum.splits entry.splits if_splits)
  have "lookup (w_fs w) l \<noteq> Some DirAt" using replace_onto_directory [of p n w1 l] assms(2,3) run w1 by auto
  then show ?thesis
    using atomic_replace_replaced [of w1 p n l bs None w'] replaced_written assms(1-3) run w1 True by simp
qed

text \<open>Where a link was not replaced, the paths to all else lead where they led.\<close>

lemma written_same_dirs:
  assumes "written s l c s'" "\<forall>t. lookup s l \<noteq> Some (LinkTo t)"
  shows "same_dirs s s'"
proof -
  have "lookup s' k = Some e" if "lookup s k = Some e" "\<not> is_file e" for k e
  proof -
    have "k \<noteq> l" using that assms by (cases e) (auto simp: written_def)
    then show ?thesis using that(1) assms(1) by (auto simp: written_def view_def)
  qed
  then show ?thesis using assms(1) by (simp add: same_dirs_def written_def)
qed

lemma written_regular:
  assumes "written s l c s'" "\<forall>t. lookup s l \<noteq> Some (LinkTo t)" "file_name p = Some n" "resolve_entry s p = Inr l"
  shows "regular s' p c"
  using resolve_entry_same_dirs [OF assms(3,4) written_same_dirs [OF assms(1,2)]] assms(1)
  by (auto simp: written_def intro: entry_regular [OF assms(3)])

lemma written_keeps:
  assumes "written s l c s'" "\<forall>t. lookup s l \<noteq> Some (LinkTo t)" "regular s p bs" "resolve s p \<noteq> Inr l"
  shows "regular s' p bs"
proof -
  obtain k i n where r: "resolve s p = Inr k" "lookup s k = Some (FileAt i)" "fs_inodes s i = Some n" "i_bytes n = bs"
    using assms(3) by (auto simp: regular_resolve)
  then have "view s' k = view s k" using assms(1,4) by (auto simp: written_def)
  then have k: "lookup s' k = Some (FileAt i)" "fs_inodes s' i = Some n" using r by (auto simp: view_def)
  have "resolve s' p = Inr k"
    using resolve_keeps [OF r(1) _ written_same_dirs [OF assms(1,2)]] r(2) k(1) by simp
  then show ?thesis using r(4) k by (auto simp: regular_resolve)
qed

end
