(* ===== verification/Sign_Properties.thy ===== *)
theory Sign_Properties
  imports Sign Verify_Properties FilesStay
begin

text \<open>
  What \<open>sign\<close> promises: a signature that is returned has been verified, the signature file says
  what was signed, and verification of that file with the signer's public key succeeds.
\<close>

section \<open>The signature\<close>

lemma sign_and_check_Inr:
  assumes "sign_and_check C sk keynum prehashed tc uc data = Inr b"
  shows "sb_untrusted_comment b = uc \<and> sb_trusted_comment b = tc
    \<and> ss_keynum (sb_sig_struct b) = keynum \<and> ss_prehashed (sb_sig_struct b) = prehashed
    \<and> validate_comments uc tc = Inr ()
    \<and> sign C sk data = Inr (ss_signature (sb_sig_struct b))
    \<and> sign C sk (ss_signature (sb_sig_struct b) @ as_bytes tc) = Inr (sb_global_signature b)
    \<and> verify C (ed_public C sk) data (ss_signature (sb_sig_struct b)) = Inr ()
    \<and> verify_global_signature C b (ed_public C sk) = Inr ()"
  using assms
  by (auto simp: sign_and_check_def result_simps Let_def sig_box_new_def sig_struct_new_def
      create_global_signature_data_def verify_global_signature_def split: option.splits)

lemma sign_and_check_wf:
  "ed_ok C \<Longrightarrow> wf_key_num keynum \<Longrightarrow> sign_and_check C sk keynum prehashed tc uc data = Inr b \<Longrightarrow> wf_sig_box b"
  using sign_and_check_Inr [of C sk keynum prehashed tc uc data b] sign_wf
  by (auto simp: wf_sig_box_def wf_sig_struct_def)

section \<open>Signing a file\<close>

lemma data_to_sign_run:
  assumes "quiet w" "regular (w_fs w) p msg" "length msg \<le> MAX_MESSAGE_SIZE_BYTES" "blake2b_ok C"
  shows "\<exists>v. data_to_sign C p prehashed w
    = (Inr (if prehashed then blake2b_512 C msg else msg), v) \<and> quiet v \<and> w_fs v = w_fs w"
  using assms hash_file_run [OF assms(1,2,4)] read_message_file_run [OF quiet_honest(1) [OF assms(1)] assms(2,3)]
  by (cases prehashed) (simp_all add: data_to_sign_def)

text \<open>What a computation leaves of the world, apart from the files.\<close>

definition same_host :: "world \<Rightarrow> world \<Rightarrow> bool" where
  "same_host v w \<longleftrightarrow> w_faults w = w_faults v \<and> w_reads w = w_reads v"

lemma same_host_quiet: "same_host v w \<Longrightarrow> quiet v \<Longrightarrow> quiet w"
  by (simp add: same_host_def quiet_def honest_def faultless_def)

lemma keeps_same_host_query: "keeps (same_host v) (query f)"
  by (auto simp: keeps_def query_def same_host_def Let_def split: option.splits)

lemma keeps_same_host_update: "keeps (same_host v) (update f)"
  by (auto simp: keeps_def update_def same_host_def Let_def commit_def split: option.splits prod.splits)

lemma keeps_same_host [keeps_intros]:
  "keeps (same_host v) (canonicalize p)" "keeps (same_host v) (absolute p)" "keeps (same_host v) (metadata p)"
  "keeps (same_host v) (open_file p)" "keeps (same_host v) (fstat h)" "keeps (same_host v) (symlink_metadata p)"
  "keeps (same_host v) (file_reads h)" "keeps (same_host v) sync_all" "keeps (same_host v) (create_new p m)"
  "keeps (same_host v) (remove_file p)" "keeps (same_host v) (rename_file p q)"
  "keeps (same_host v) (hard_link p q)" "keeps (same_host v) (fchmod i m)"
  by (simp_all only: canonicalize_def absolute_def metadata_def open_file_def fstat_def
      symlink_metadata_def file_reads_def sync_all_def create_new_def remove_file_def rename_file_def
      hard_link_def fchmod_def keeps_same_host_query keeps_same_host_update)

lemma keeps_same_host_more [keeps_intros]:
  "keeps (same_host v) (write_all i bs)" "keeps (same_host v) now" "keeps (same_host v) (random_bytes n)"
  "keeps (same_host v) (print_out s)" "keeps (same_host v) (print_err s)"
  by (auto simp: keeps_def same_host_def write_all_def now_def random_bytes_def print_out_def print_err_def
      commit_def Let_def split: option.splits prod.splits)

lemma keeps_same_host_resolve: "keeps (same_host v) (resolve_components cs)"
proof (induction cs rule: resolve_components.induct)
  case (1 cs)
  then show ?case by (subst resolve_components.simps) (auto intro!: keeps_intros)
qed

lemma keeps_same_host_alias [keeps_intros]: "keeps (same_host v) (reject_output_alias p ps)"
proof -
  have d: "keeps (same_host v) (resolve_destination q)" for q
    unfolding resolve_destination_def by (intro keeps_intros keeps_same_host_resolve)
  have "keeps (same_host v) (alias_loop p c ps)" for c
    by (induction ps) (auto intro!: keeps_intros d)
  then show ?thesis unfolding reject_output_alias_def by (intro keeps_intros d)
qed

lemma keeps_same_host_write [keeps_intros]: "keeps (same_host v) (write_file p bs force)"
  unfolding write_file_def atomic_replace_file_def stage_replacement_def discard_failed_def reject_symlink_def
    sibling_temp_path_def sync_parent_directory_def warn_could_not_remove_def eprintln_def Let_def
  by (intro keeps_intros) (auto intro!: keeps_intros simp: same_host_def split: entry.split)

lemma reads_only_resolve_components [simp]: "reads_only (resolve_components cs)"
proof (induction cs rule: resolve_components.induct)
  case (1 cs)
  then show ?case by (subst resolve_components.simps) (auto split: sum.split)
qed

lemma reads_only_alias [simp]: "reads_only (reject_output_alias p ps)"
proof -
  have "reads_only (alias_loop p c ps)" for c
    by (induction ps) (auto simp: resolve_destination_def split: sum.split)
  then show ?thesis by (simp add: reject_output_alias_def resolve_destination_def)
qed

definition untrusted_comment_of :: "sign_options \<Rightarrow> string" where
  "untrusted_comment_of opts =
     (case so_untrusted_comment opts of None \<Rightarrow> DEFAULT_UNTRUSTED_COMMENT | Some c \<Rightarrow> c)"

lemma default_comment_run:
  "generate_default_trusted_comment p prehashed w = (Inr tc, v) \<Longrightarrow> same_host w v \<and> w_fs v = w_fs w"
  by (auto simp: generate_default_trusted_comment_def bind_io_def now_def throw_def ret_def Let_def
      same_host_def split: if_splits)

lemma create_signature_run:
  assumes "quiet w" "regular (w_fs w) p msg" "length msg \<le> MAX_MESSAGE_SIZE_BYTES" "blake2b_ok C"
    and "create_signature C sk keynum p prehashed tc uc w = (Inr b, w')"
  shows "\<exists>t. sign_and_check C sk keynum prehashed t
        (case uc of None \<Rightarrow> DEFAULT_UNTRUSTED_COMMENT | Some c \<Rightarrow> c)
        (if prehashed then blake2b_512 C msg else msg) = Inr b
      \<and> (case tc of Some c \<Rightarrow> t = c
         | None \<Rightarrow> \<exists>v. generate_default_trusted_comment p prehashed w = (Inr t, v))
      \<and> quiet w' \<and> w_fs w' = w_fs w"
proof -
  obtain t v where t: "(case tc of Some c \<Rightarrow> ret c | None \<Rightarrow> generate_default_trusted_comment p prehashed) w
      = (Inr t, v)"
    and rest: "bind_io (data_to_sign C p prehashed) (\<lambda>data.
        lift_res (sign_and_check C sk keynum prehashed t
          (case uc of None \<Rightarrow> DEFAULT_UNTRUSTED_COMMENT | Some c \<Rightarrow> c) data)) v = (Inr b, w')"
    using assms(5) by (auto simp: create_signature_def bind_io_Inr lift_res_def Let_def)
  have v: "quiet v" "w_fs v = w_fs w"
    using t assms(1) default_comment_run [of p prehashed w t v] same_host_quiet [of w v]
    by (auto simp: ret_def split: option.splits)
  obtain u where u: "data_to_sign C p prehashed v = (Inr (if prehashed then blake2b_512 C msg else msg), u)"
    "quiet u" "w_fs u = w_fs v"
    using data_to_sign_run [OF v(1), of p msg C prehashed] assms(2-4) v(2) by auto
  have "sign_and_check C sk keynum prehashed t
        (case uc of None \<Rightarrow> DEFAULT_UNTRUSTED_COMMENT | Some c \<Rightarrow> c)
        (if prehashed then blake2b_512 C msg else msg) = Inr b \<and> w' = u"
    using rest unfolding bind_io_run [of "data_to_sign C p prehashed", OF u(1)] lift_res_def by simp
  moreover have "case tc of Some c \<Rightarrow> t = c
         | None \<Rightarrow> \<exists>v. generate_default_trusted_comment p prehashed w = (Inr t, v)"
    using t by (cases tc) (auto simp: ret_def)
  ultimately show ?thesis using u(2,3) v(2) by (intro exI [of _ t]) simp
qed

lemma sign_file_writes:
  assumes "quiet w" "blake2b_ok C" "regular (w_fs w) mf msg" "length msg \<le> MAX_MESSAGE_SIZE_BYTES"
    and "sign_file_with_key C mf sk keynum opts w = (Inr res, w')"
  shows "\<exists>b v u. sign_and_check C sk keynum (so_prehashed opts) (sr_trusted_comment res) (untrusted_comment_of opts)
        (if so_prehashed opts then blake2b_512 C msg else msg) = Inr b
      \<and> (case so_trusted_comment opts of Some c \<Rightarrow> sr_trusted_comment res = c
         | None \<Rightarrow> \<exists>v v'. generate_default_trusted_comment mf (so_prehashed opts) v
                            = (Inr (sr_trusted_comment res), v'))
      \<and> sr_key_id res = to_key_id keynum
      \<and> reject_output_alias (signature_path mf opts) [mf, so_secret_key_file opts] w = (Inr (), u)
      \<and> write_file (signature_path mf opts) (as_bytes (sig_box_to_file_contents C b)) (so_force opts) v = (Inr (), w')
      \<and> w_fs v = w_fs w \<and> quiet v \<and> quiet w'"
proof -
  let ?p = "signature_path mf opts"
  obtain w1 b w2 where s: "reject_output_alias ?p [mf, so_secret_key_file opts] w = (Inr (), w1)"
    "create_signature C sk keynum mf (so_prehashed opts) (so_trusted_comment opts)
       (so_untrusted_comment opts) w1 = (Inr b, w2)"
    "write_file ?p (as_bytes (sig_box_to_file_contents C b)) (so_force opts) w2 = (Inr (), w')"
    "sr_trusted_comment res = sb_trusted_comment b" "sr_key_id res = to_key_id keynum"
    using assms(5)
    by (auto simp: sign_file_with_key_def Let_def bind_io_Inr write_signature_file_def ret_def into_parts_def)
  have w1: "quiet w1" "w_fs w1 = w_fs w"
    using keepsD [OF keeps_same_host_alias _ s(1), of w] same_host_quiet [OF _ assms(1)]
      reads_onlyD [OF reads_only_alias s(1)] by (simp_all add: same_host_def)
  obtain t where t: "sign_and_check C sk keynum (so_prehashed opts) t (untrusted_comment_of opts)
        (if so_prehashed opts then blake2b_512 C msg else msg) = Inr b"
      "case so_trusted_comment opts of Some c \<Rightarrow> t = c
         | None \<Rightarrow> \<exists>v. generate_default_trusted_comment mf (so_prehashed opts) w1 = (Inr t, v)"
      "quiet w2" "w_fs w2 = w_fs w1"
    using create_signature_run [OF w1(1) _ assms(4,2) s(2)] assms(3) w1(2)
    by (auto simp: untrusted_comment_of_def)
  have tc: "sr_trusted_comment res = t" using sign_and_check_Inr [OF t(1)] s(4) by simp
  have "quiet w'"
    using keepsD [OF keeps_same_host_write _ s(3), of w2] same_host_quiet [OF _ t(3)]
    by (simp add: same_host_def)
  then show ?thesis
    using t w1(2) tc s(1,3,5)
    by (intro exI [of _ b] exI [of _ w2] exI [of _ w1]) (auto split: option.splits)
qed

lemma sign_file_run:
  assumes "quiet w" "wf_fs (w_fs w)" "blake2b_ok C" "regular (w_fs w) mf msg"
    and "length msg \<le> MAX_MESSAGE_SIZE_BYTES" "\<not> so_force opts"
    and "file_name (signature_path mf opts) = Some n" "resolve_entry (w_fs w) (signature_path mf opts) = Inr l"
    and "sign_file_with_key C mf sk keynum opts w = (Inr res, w')"
  shows "\<exists>c. staged (w_fs w) l c (w_fs w') \<and> quiet w'"
proof -
  obtain v c where "write_file (signature_path mf opts) c False v = (Inr (), w')" "w_fs v = w_fs w" "quiet w'"
    using sign_file_writes [OF assms(1,3,4,5,9)] assms(6) by auto
  then show ?thesis using wpD [OF write_file_new [OF assms(7)], of v l c "Inr ()" w'] assms(8) by auto
qed

section \<open>The size and the encoding of the file\<close>

definition b64_size_ok :: "crates \<Rightarrow> bool" where
  "b64_size_ok C \<longleftrightarrow> (\<forall>bs. length (b64_encode C bs) \<le> 2 * length bs + 2)"

lemma b64_char_ascii: "b64_char c \<Longrightarrow> of_char c < (0x80 :: nat)"
  by (auto simp: b64_char_def)

lemma encode_base64_ascii: "b64_ok C \<Longrightarrow> is_ascii (encode_base64 C bs)"
  unfolding is_ascii_def encode_base64_def b64_ok_def using b64_char_ascii by blast

lemma sig_file_fits:
  assumes "b64_ok C" "b64_size_ok C" "wf_sig_box b"
    and "is_utf8 (sb_untrusted_comment b)" "is_utf8 (sb_trusted_comment b)"
  shows "length (sig_box_to_file_contents C b) \<le> MAX_SIGNATURE_FILE_BYTES
    \<and> is_utf8 (sig_box_to_file_contents C b)"
proof
  have l: "length (sig_struct_to_bytes (sb_sig_struct b)) = 74" "length (sb_global_signature b) = 64"
    "length (sb_untrusted_comment b) < 1004" "length (sb_trusted_comment b) < 8174"
    using assms(3) sig_codec.enc_size
    by (simp_all add: wf_sig_box_def wf_signature_def SIG_STRUCT_SIZE_def size_defs validate_comments_iff
        validate_untrusted_comment_iff validate_trusted_comment_iff)
  have "length (encode_base64 C bs) \<le> 2 * length bs + 2" for bs
    using assms(2) by (simp add: b64_size_ok_def encode_base64_def)
  note e = this [of "sig_struct_to_bytes (sb_sig_struct b)"] this [of "sb_global_signature b"]
  show "length (sig_box_to_file_contents C b) \<le> MAX_SIGNATURE_FILE_BYTES"
    using e l by (simp add: sig_box_to_file_contents_def Let_def MAX_SIGNATURE_FILE_BYTES_def
        UNTRUSTED_PREFIX_def TRUSTED_PREFIX_def)
  have p: "is_ascii UNTRUSTED_PREFIX" "is_ascii TRUSTED_PREFIX" "is_ascii [LF]"
    by (simp_all add: UNTRUSTED_PREFIX_def TRUSTED_PREFIX_def)
  show "is_utf8 (sig_box_to_file_contents C b)"
    unfolding sig_box_to_file_contents_def Let_def
    by (intro is_utf8_append is_utf8_ascii p assms(4,5) encode_base64_ascii [OF assms(1)])
qed

lemma dec_ascii: "is_ascii (dec n)"
proof -
  have "of_char (digit_char d) < (0x80 :: nat)" if "d < 10" for d
  proof -
    have "d \<in> set [0..<10]" using that by simp
    moreover have "\<forall>d \<in> set [0..<10]. of_char (digit_char d) < (0x80 :: nat)" by code_simp
    ultimately show ?thesis by blast
  qed
  then show ?thesis using digits_of_less [of 10 _ n] by (auto simp: is_ascii_def dec_def)
qed

lemma default_comment_utf8:
  assumes "generate_default_trusted_comment p prehashed w = (Inr tc, w')"
  shows "is_utf8 tc"
proof -
  have b: "is_utf8 (case file_name p of None \<Rightarrow> [] | Some n \<Rightarrow> to_string_lossy n)"
    using is_utf8_to_string_lossy is_utf8_ascii [of "[]"] by (auto split: option.split)
  have a: "is_utf8 (''timestamp:'' @ dec n @ [TAB] @ ''file:'')" "is_utf8 ([TAB] @ ''hashed'')" for n
    using dec_ascii by (auto intro!: is_utf8_ascii)
  obtain n where "tc = (''timestamp:'' @ dec n @ [TAB] @ ''file:'')
      @ (case file_name p of None \<Rightarrow> [] | Some n \<Rightarrow> to_string_lossy n)
      @ (if prehashed then [TAB] @ ''hashed'' else [])"
    using assms by (auto simp: generate_default_trusted_comment_def bind_io_def now_def throw_def ret_def
        Let_def split: if_splits)
  then show ?thesis
    by (simp only:) (intro is_utf8_append a b, simp add: a is_utf8_ascii)
qed

section \<open>From a signature to its verification\<close>

lemma pubkey_b64_wf: "pubkey_from_base64 C s = Inr pk \<Longrightarrow> wf_pubkey pk"
  by (auto simp: pubkey_from_base64_def result_simps dest: pubkey_codec.dec_wf)

definition signer_key :: "crates \<Rightarrow> secret_key \<Rightarrow> key_num \<Rightarrow> pubkey_struct" where
  "signer_key C sk keynum = \<lparr>pk_keynum = keynum, pk_public_key = ed_public C sk\<rparr>"

lemma signed_spec:
  assumes "b64_ok C" "ed_ok C" "wf_key_num keynum" "force \<longrightarrow> prehashed"
    and "sign_and_check C sk keynum prehashed tc uc (if prehashed then blake2b_512 C msg else msg) = Inr b"
  shows "\<exists>r. verify_spec C (Inr (signer_key C sk keynum)) (sig_box_to_file_contents C b) msg force output = Inr r
    \<and> vr_trusted_comment r = tc \<and> vr_untrusted_comment r = uc \<and> vr_key_id r = to_key_id keynum
    \<and> vr_message_output r = (if output then Some msg else None)"
proof -
  note s = sign_and_check_Inr [OF assms(5)]
  have "sig_box_from_file_contents C (sig_box_to_file_contents C b) = Inr b"
    using sig_box_roundtrip [OF assms(1)] sign_and_check_wf [OF assms(2,3,5)] by blast
  moreover have "check_message C (signer_key C sk keynum) b msg force = Inr ()"
    using s assms(4) by (auto simp: check_message_def signer_key_def signed_data_def Let_def)
  ultimately show ?thesis
    using s by (simp add: verify_spec_def signer_key_def verify_result_of_def into_parts_def)
qed

text \<open>The message is not what gets overwritten: the check for aliases has seen to that.\<close>

lemma message_not_overwritten:
  assumes "quiet w" "so_force opts \<longrightarrow> cwd_ok (w_fs w)" "regular (w_fs w) mf msg"
    and "file_name (signature_path mf opts) = Some n" "resolve_entry (w_fs w) (signature_path mf opts) = Inr l"
    and "reject_output_alias (signature_path mf opts) [mf, so_secret_key_file opts] w = (Inr (), u)"
    and "so_force opts \<or> lookup (w_fs w) l = None"
  shows "resolve (w_fs w) mf \<noteq> Inr l"
proof
  assume l: "resolve (w_fs w) mf = Inr l"
  then have some: "lookup (w_fs w) l \<noteq> None" using assms(3) by (auto simp: regular_resolve)
  then have "lies_at (w_fs w) mf l" using l by (simp add: lies_at_def)
  then show False
    using reject_output_alias_Inr [OF quiet_honest(2) [OF assms(1)] _ assms(4,5,6), of mf l] assms(2,7) some by auto
qed

text \<open>On a host that works a forced write that succeeds has not met a link.\<close>

lemma forced_write_no_link:
  assumes "quiet w" "resolve_entry (w_fs w) p = Inr l" "write_file p bs force w = (Inr (), w')"
    and "force \<or> lookup (w_fs w) l = None"
  shows "\<forall>t. lookup (w_fs w) l \<noteq> Some (LinkTo t)"
proof (intro allI notI)
  fix t
  assume "lookup (w_fs w) l = Some (LinkTo t)"
  then have "write_file p bs True w = (Inl (OutputIsSymlink p), w\<lparr>w_calls := Suc (w_calls w)\<rparr>)"
    using assms(1,2) quiet_honest(2) [OF assms(1)]
    by (simp add: write_file_def reject_symlink_def validate_windows_path_def bind_io_def attempt_def
        lift_res_def lookups_run sys_symlink_metadata_def throw_def ticked_def)
  then show False using assms(3,4) \<open>lookup (w_fs w) l = Some (LinkTo t)\<close> by (cases force) simp_all
qed

lemma sign_then_verify_file:
  assumes C: "b64_ok C" "b64_size_ok C" "ed_ok C" "blake2b_ok C"
    and w: "quiet w" "wf_fs (w_fs w)" "regular (w_fs w) mf msg" "length msg \<le> MAX_MESSAGE_SIZE_BYTES"
    and o: "so_force opts \<longrightarrow> cwd_ok (w_fs w)" "wf_key_num keynum"
      "is_utf8 (untrusted_comment_of opts)" "case so_trusted_comment opts of None \<Rightarrow> True | Some c \<Rightarrow> is_utf8 c"
    and p: "file_name (signature_path mf opts) = Some n" "resolve_entry (w_fs w) (signature_path mf opts) = Inr l"
    and run: "sign_file_with_key C mf sk keynum opts w = (Inr res, w')"
    and v: "vo_message_file vopts = mf" "vo_signature_file vopts = signature_path mf opts"
      "vo_public_key vopts = SourceBase64 s" "pubkey_from_base64 C s = Inr (signer_key C sk keynum)"
      "vo_force_prehashed vopts \<longrightarrow> so_prehashed opts"
  shows "\<exists>r. fst (verify_op C vopts w') = Inr r \<and> vr_trusted_comment r = sr_trusted_comment res
    \<and> vr_untrusted_comment r = untrusted_comment_of opts \<and> vr_key_id r = sr_key_id res
    \<and> vr_message_output r = (if vo_output vopts then Some msg else None)"
proof -
  let ?p = "signature_path mf opts"
  obtain b u x where b: "sign_and_check C sk keynum (so_prehashed opts) (sr_trusted_comment res)
        (untrusted_comment_of opts) (if so_prehashed opts then blake2b_512 C msg else msg) = Inr b"
    "case so_trusted_comment opts of Some c \<Rightarrow> sr_trusted_comment res = c
       | None \<Rightarrow> \<exists>v v'. generate_default_trusted_comment mf (so_prehashed opts) v
                            = (Inr (sr_trusted_comment res), v')"
    "sr_key_id res = to_key_id keynum"
    and apart: "reject_output_alias ?p [mf, so_secret_key_file opts] w = (Inr (), u)"
    and out: "write_file ?p (as_bytes (sig_box_to_file_contents C b)) (so_force opts) x = (Inr (), w')"
    "w_fs x = w_fs w" "quiet x" "quiet w'"
    using sign_file_writes [OF w(1) C(4) w(3,4) run] by blast
  have wr: "written (w_fs w) l (as_bytes (sig_box_to_file_contents C b)) (w_fs w')"
    "so_force opts \<or> lookup (w_fs w) l = None"
    using write_file_written [OF _ p(1) _ out(1)] w(2) p(2) out(2) by simp_all
  have nolink: "\<forall>t. lookup (w_fs w) l \<noteq> Some (LinkTo t)"
    using forced_write_no_link [OF out(3) _ out(1)] p(2) wr(2) out(2) by simp
  have tc: "is_utf8 (sr_trusted_comment res)"
    using b(2) o(4) default_comment_utf8 by (auto split: option.splits)
  have fits: "length (sig_box_to_file_contents C b) \<le> MAX_SIGNATURE_FILE_BYTES"
    "is_utf8 (sig_box_to_file_contents C b)"
    using sig_file_fits [OF C(1,2) sign_and_check_wf [OF C(3) o(2) b(1)]] sign_and_check_Inr [OF b(1)] tc o(3)
    by auto
  have sig: "regular (w_fs w') ?p (as_bytes (sig_box_to_file_contents C b))"
    using wr(1) nolink p by (rule written_regular)
  have msg: "regular (w_fs w') mf msg"
    using wr(1) nolink w(3) message_not_overwritten [OF w(1) o(1) w(3) p apart wr(2)] by (rule written_keeps)
  have "fst (verify_op C vopts w') = verify_spec C (Inr (signer_key C sk keynum))
      (text_of (as_bytes (sig_box_to_file_contents C b))) msg (vo_force_prehashed vopts) (vo_output vopts)"
    using out(4) C(4) sig fits msg w(4) v by (intro verify_op_run) simp_all
  then show ?thesis
    using signed_spec [OF C(1,3) o(2) v(5) b(1), of "vo_output vopts"] b(3) by auto
qed

section \<open>Loading the key\<close>

lemma check_permissions_run:
  "check_secret_key_permissions p w = (r, w') \<Longrightarrow> same_host w w' \<and> w_fs w' = w_fs w \<and> r = Inr ()"
  by (auto simp: check_secret_key_permissions_def bind_io_def attempt_def metadata_def query_def Let_def
      eprintln_def print_err_def ret_def same_host_def split: option.splits sum.splits prod.splits if_splits)

lemma keeps_same_host_read_secret [keeps_intros]: "keeps (same_host v) (read_secret_file_bounded p m)"
  unfolding read_secret_file_bounded_def Let_def by (intro keeps_intros)

lemma reads_only_read_secret [simp]: "reads_only (read_secret_file_bounded p m)"
  by (auto simp: read_secret_file_bounded_def Let_def split: prod.split)

lemma load_secret_key_run:
  assumes "quiet w" "regular (w_fs w) p kb" "load_secret_key C p w = (r, w')"
  shows "quiet w' \<and> w_fs w' = w_fs w
    \<and> r = (if length kb \<le> MAX_KEY_FILE_BYTES then and_then (utf8_text kb p) (seckey_from_file_contents C)
           else Inl (too_large (length kb) MAX_KEY_FILE_BYTES))"
proof -
  obtain q w1 where "check_secret_key_permissions p w = (q :: error + unit, w1)" by (rule prod.exhaust)
  then have c: "check_secret_key_permissions p w = (Inr () :: error + unit, w1)" "quiet w1" "w_fs w1 = w_fs w"
    using check_permissions_run [of p w q w1] same_host_quiet [OF _ assms(1), of w1] by simp_all
  obtain s w2 where s: "read_secret_file_bounded p MAX_KEY_FILE_BYTES w1 = (s, w2)" by (rule prod.exhaust)
  have "quiet w2" "w_fs w2 = w_fs w1"
    using keepsD [OF keeps_same_host_read_secret _ s, of w1] same_host_quiet [OF _ c(2), of w2]
      reads_onlyD [OF reads_only_read_secret s] by (simp_all add: same_host_def)
  moreover have "s = (if length kb \<le> MAX_KEY_FILE_BYTES then Inr kb
      else Inl (too_large (length kb) MAX_KEY_FILE_BYTES))"
    using read_secret_file_run [OF quiet_honest(1) [OF c(2)], of p kb MAX_KEY_FILE_BYTES] s assms(2) c(3)
    by simp
  ultimately show ?thesis
    using assms(3) c(1,3) s
    by (auto simp: load_secret_key_def bind_io_def lift_res_def)
qed

lemma keeps_same_host_extract [keeps_intros]: "keeps (same_host v) (extract_key_op C s pw)"
  unfolding extract_key_op_def decrypt_op_def warn_weak_key_def eprintln_def
  by (intro keeps_intros) (simp_all add: same_host_def)

lemma extract_key_op_run:
  assumes "quiet w" "extract_key_op C s pw w = (r, w')"
  shows "quiet w' \<and> w_fs w' = w_fs w \<and> r = extract_key C s pw"
proof -
  have "same_host w w'"
    by (rule keepsD [OF keeps_same_host_extract _ assms(2)]) (simp add: same_host_def)
  then show ?thesis
    using same_host_quiet [OF _ assms(1)] reads_onlyD [OF reads_only_extract_key_op assms(2)]
      fst_extract_key_op [of C s pw w] assms(2) by simp
qed

lemma sign_op_run:
  assumes "quiet w" "regular (w_fs w) (so_secret_key_file opts) kb"
    and "sign_op C opts password w = (Inr res, w')"
  shows "\<exists>t seckey sk keynum v. utf8_text kb (so_secret_key_file opts) = Inr t
    \<and> seckey_from_file_contents C t = Inr seckey \<and> extract_key C seckey password = Inr (sk, keynum)
    \<and> quiet v \<and> w_fs v = w_fs w \<and> sign_file_with_key C (so_message_file opts) sk keynum opts v = (Inr res, w')"
proof -
  obtain seckey w1 sk keynum w2 where s:
    "load_secret_key C (so_secret_key_file opts) w = (Inr seckey, w1)"
    "extract_key_op C seckey password w1 = (Inr (sk, keynum), w2)"
    "sign_file_with_key C (so_message_file opts) sk keynum opts w2 = (Inr res, w')"
    using assms(3) by (auto simp: sign_op_def sign_single_file_def load_and_decrypt_key_def bind_io_Inr)
  have l: "quiet w1 \<and> w_fs w1 = w_fs w"
    "and_then (utf8_text kb (so_secret_key_file opts)) (seckey_from_file_contents C) = Inr seckey"
    using load_secret_key_run [OF assms(1,2) s(1)] by (auto split: if_splits)
  have "quiet w2 \<and> w_fs w2 = w_fs w1 \<and> extract_key C seckey password = Inr (sk, keynum)"
    using extract_key_op_run [OF _ s(2)] l(1) by simp
  then show ?thesis using l s(3) by (auto simp: result_simps)
qed

section \<open>Batches\<close>

lemma collect_sign_results_schedule:
  obtains schedule results w' where "collect_sign_results C dbg B files sk keynum opts sequential w = (Inr results, w')"
    "run_pool schedule (map (sign_job C dbg sk keynum opts) files, w) = Some (results, w')"
proof -
  let ?jobs = "map (sign_job C dbg sk keynum opts) files"
  obtain results w' where r: "(if b_parallel B \<and> \<not> (sequential \<or> \<not> so_prehashed opts) then run_threads ?jobs w
      else run_each ?jobs w) = (results, w')" by (rule prod.exhaust)
  then have "\<exists>schedule. run_pool schedule (?jobs, w) = Some (results, w')"
    using threads_schedule [of ?jobs w] sequential_schedule [of ?jobs w] by (auto split: if_splits)
  then show thesis using that r by (auto simp: collect_sign_results_def)
qed

text \<open>\<open>dedup_files\<close> keeps the first of the paths that lead to the same file.\<close>

fun first_of_each :: "('a \<Rightarrow> 'b) \<Rightarrow> 'b list \<Rightarrow> 'a list \<Rightarrow> 'a list" where
  "first_of_each f seen [] = []"
| "first_of_each f seen (x # xs) =
     (if f x \<in> set seen then first_of_each f seen xs else x # first_of_each f (f x # seen) xs)"

lemma first_of_each_spec:
  "distinct (map f (first_of_each f seen xs))"
  "set (map f (first_of_each f seen xs)) = f ` set xs - set seen"
  "set (first_of_each f seen xs) \<subseteq> set xs"
  by (induction f seen xs rule: first_of_each.induct) (auto split: if_splits)

lemma dedup_files_run:
  "faultless w \<Longrightarrow> cwd_ok (w_fs w) \<Longrightarrow>
     \<forall>f \<in> set files. \<exists>l. resolve (w_fs w) f = Inr l \<and> lookup (w_fs w) l \<noteq> None \<Longrightarrow>
     fst (dedup_files (map (\<lambda>l. RootDir # map NormalComp l) seen) files w)
       = Inr (first_of_each (\<lambda>f. projr (resolve (w_fs w) f)) seen files)"
proof (induction files arbitrary: w seen)
  case Nil
  then show ?case by (simp add: ret_def)
next
  case (Cons f fs)
  obtain l where l: "resolve (w_fs w) f = Inr l" "lookup (w_fs w) l \<noteq> None" using Cons.prems(3) by auto
  have c: "sys_canonicalize f (w_fs w) = Inr (loc_path l)" using l by (rule canonicalize_existing)
  then have comps: "components (loc_path l) = RootDir # map NormalComp l"
    using canonical_path [OF Cons.prems(2) c] l(1) by auto
  have inj: "inj (\<lambda>l. RootDir # map NormalComp l)"
    by (rule injI) (auto simp: inj_on_def dest!: map_injective)
  have run: "map_err_io (FileRead f) (canonicalize f) w = (Inr (loc_path l), ticked w)"
    using c Cons.prems(1) by (simp add: map_err_io_def lookups_run)
  have IH: "fst (dedup_files (map (\<lambda>l. RootDir # map NormalComp l) seen') fs (ticked w))
      = Inr (first_of_each (\<lambda>f. projr (resolve (w_fs w) f)) seen' fs)" for seen'
    using Cons.IH [of "ticked w"] Cons.prems by simp
  have mem: "RootDir # map NormalComp l \<in> (\<lambda>l. RootDir # map NormalComp l) ` set seen \<longleftrightarrow> l \<in> set seen"
    using inj_image_mem_iff [OF inj] .
  show ?case
  proof (cases "l \<in> set seen")
    case True
    then show ?thesis using IH [of seen] mem comps l(1) by (simp add: bind_io_run [of "map_err_io (FileRead f) (canonicalize f)", OF run])
  next
    case False
    then show ?thesis
      using IH [of "l # seen"] mem comps l(1)
      by (simp add: bind_io_run [of "map_err_io (FileRead f) (canonicalize f)", OF run]) (auto simp: bind_io_def ret_def split: prod.splits sum.splits)
  qed
qed

section \<open>Runs that succeed\<close>

lemma write_file_run:
  assumes "faultless w" "resolve_entry (w_fs w) p = Inr l" "lookup (w_fs w) l = None"
  shows "fst (write_file p bs False w) = Inr ()"
proof -
  obtain i v where c: "create_new p DEFAULT_FILE_MODE w = (Inr i, v)" "faultless v"
    using assms by (simp add: create_new_def update_def sys_create_new_def add_file_def faultless_def Let_def commit_def)
  then show ?thesis
    by (simp add: write_file_def validate_windows_path_def bind_io_def lift_res_def map_err_io_def
        write_all_def faultless_def ret_def Let_def)
qed

lemma sign_and_check_succeeds:
  assumes "ed_ok C" "ed_keypair C sk = None" "validate_comments uc tc = Inr ()"
  shows "\<exists>b. sign_and_check C sk keynum prehashed tc uc data = Inr b"
  using assms sign_verifies [OF assms(1)]
  by (auto simp: sign_and_check_def sign_def Let_def sig_box_new_def sig_struct_new_def ed_ok_def verify_def
      create_global_signature_data_def)

lemma sign_file_succeeds:
  assumes C: "ed_ok C" "blake2b_ok C" "ed_keypair C sk = None"
    and w: "quiet w" "cwd_ok (w_fs w)" "regular (w_fs w) mf msg" "length msg \<le> MAX_MESSAGE_SIZE_BYTES"
    and o: "\<not> so_force opts" "so_trusted_comment opts = Some tc" "so_untrusted_comment opts = Some uc"
      "validate_comments uc tc = Inr ()"
    and p: "file_name (signature_path mf opts) = Some n" "resolve_entry (w_fs w) (signature_path mf opts) = Inr l"
      "lookup (w_fs w) l = None"
    and s: "\<forall>q \<in> {mf, so_secret_key_file opts}. \<exists>lo. resolve (w_fs w) q = Inr lo \<and> lookup (w_fs w) lo \<noteq> None \<and> lo \<noteq> l"
  shows "\<exists>res w'. sign_file_with_key C mf sk keynum opts w = (Inr res, w')"
proof -
  let ?p = "signature_path mf opts"
  have f: "faultless w" using w(1) by (rule quiet_honest)
  obtain w1 where a: "reject_output_alias ?p [mf, so_secret_key_file opts] w = (Inr (), w1)"
  proof -
    have "\<forall>q \<in> set [mf, so_secret_key_file opts].
        \<exists>lo. resolve (w_fs w) q = Inr lo \<and> lookup (w_fs w) lo \<noteq> None \<and> lo \<noteq> l"
      using s by simp
    from run_fst [OF reject_output_alias_passes [OF f w(2) p(1,2) this]] show ?thesis by (rule that)
  qed
  have w1: "quiet w1" "w_fs w1 = w_fs w"
    using keepsD [OF keeps_same_host_alias _ a, of w] same_host_quiet [OF _ w(1)]
      reads_onlyD [OF reads_only_alias a] by (simp_all add: same_host_def)
  obtain v where v: "data_to_sign C mf (so_prehashed opts) w1
      = (Inr (if so_prehashed opts then blake2b_512 C msg else msg), v)" "quiet v" "w_fs v = w_fs w1"
    using data_to_sign_run [OF w1(1), of mf msg C "so_prehashed opts"] C(2) w(3,4) w1(2) by auto
  obtain b where b: "sign_and_check C sk keynum (so_prehashed opts) tc uc
      (if so_prehashed opts then blake2b_512 C msg else msg) = Inr b"
    using sign_and_check_succeeds [OF C(1,3) o(4)] by blast
  have "validate_comment_with_length uc (Some (COMMENTMAXBYTES - COMMENT_PREFIX_SIZE)) t = Inr ()"
    "validate_comment_with_length tc (Some (TRUSTEDCOMMENTMAXBYTES - TRUSTED_COMMENT_PREFIX_SIZE)) t = Inr ()" for t
    using o(4) by (simp_all add: validate_comment_with_length_iff validate_comments_iff
        validate_untrusted_comment_iff validate_trusted_comment_iff comment_size_defs)
  then have "create_signature C sk keynum mf (so_prehashed opts) (so_trusted_comment opts)
      (so_untrusted_comment opts) w1 = (Inr b, v)"
    using v(1) b o(2,3)
    by (simp add: create_signature_def Let_def bind_io_def ret_def lift_res_def)
  moreover obtain w' where "write_file ?p (as_bytes (sig_box_to_file_contents C b)) False v = (Inr (), w')"
  proof -
    have "resolve_entry (w_fs v) ?p = Inr l" "lookup (w_fs v) l = None" using p(2,3) v(3) w1(2) by simp_all
    from run_fst [OF write_file_run [OF quiet_honest(2) [OF v(2)] this]] show ?thesis by (rule that)
  qed
  ultimately show ?thesis
    using a o(1) by (simp add: sign_file_with_key_def Let_def bind_io_def write_signature_file_def ret_def)
qed

section \<open>A world with a key\<close>

definition ex_seckey :: seckey_struct where
  "ex_seckey = new_unencrypted (replicate 8 7) (replicate 64 5)"

definition ex_seckey_text :: string where
  "ex_seckey_text = UNTRUSTED_PREFIX @ ''key'' @ [LF] @ encode_base64 ref_crates (seckey_to_bytes ex_seckey) @ [LF]"

definition ex_key_fs :: fs where
  "ex_key_fs = ex_fs\<lparr>fs_entries := (fs_entries ex_fs)([''d'', ''k''] \<mapsto> FileAt 1),
     fs_inodes := (fs_inodes ex_fs)(1 \<mapsto> \<lparr>i_bytes = as_bytes ex_seckey_text, i_mode = 384, i_mtime = 0\<rparr>),
     fs_next := 2\<rparr>"

lemma ref_size: "length (ref_b64_encode bs) = 2 * length bs"
  by (induction bs) (simp_all add: ref_b64_encode_def)

lemma ref_b64_size_ok: "b64_size_ok ref_crates"
  by (simp add: b64_size_ok_def ref_crates_def ref_size)

lemma ex_seckey_wf: "wf_seckey ex_seckey" "wf_key_num (replicate 8 7)"
  by (simp_all add: ex_seckey_def new_unencrypted_wf wf_array_defs size_defs)

lemma ex_seckey_file: "seckey_from_file_contents ref_crates ex_seckey_text = Inr ex_seckey"
proof -
  have "validate_untrusted_comment ''key'' = Inr ()"
    by (simp add: validate_untrusted_comment_iff validate_comment_ascii)
  then have "seckey_to_file_contents ref_crates ex_seckey ''key'' = Inr ex_seckey_text"
    by (simp add: seckey_to_file_contents_def ex_seckey_text_def)
  then show ?thesis
    using seckey_file_roundtrip [OF ref_b64_ok] ex_seckey_wf(1) as_loaded_id by (metis wf_seckey_def)
qed

lemma ex_key_wf [simp]: "wf_fs ex_key_fs" "cwd_ok ex_key_fs"
  by (auto simp: wf_fs_def cwd_ok_def ex_key_fs_def ex_fs_def lookup_def plain_name_def split: if_splits)

lemma ex_key_lookup [simp]:
  "lookup ex_key_fs [''d''] = Some DirAt" "lookup ex_key_fs [''d'', ''m''] = Some (FileAt 0)"
  "lookup ex_key_fs [''d'', ''k''] = Some (FileAt 1)" "lookup ex_key_fs [''d'', ''m.minisig''] = None"
  "fs_cwd ex_key_fs = [''d'']"
  by (simp_all add: ex_key_fs_def) (simp_all add: ex_fs_def lookup_def)

lemma ex_key_paths [simp]:
  "components ''k'' = [NormalComp ''k'']" "file_name ''k'' = Some ''k''"
  "components ''m.minisig'' = [NormalComp ''m.minisig'']" "file_name ''m.minisig'' = Some ''m.minisig''"
  by (code_simp, code_simp, code_simp, code_simp)

lemma ex_key_resolve [simp]:
  "resolve ex_key_fs ''m'' = Inr [''d'', ''m'']" "resolve ex_key_fs ''k'' = Inr [''d'', ''k'']"
  "resolve_entry ex_key_fs ''m.minisig'' = Inr [''d'', ''m.minisig'']"
  by (simp_all add: resolve_entry_def resolve_def as_directory_def)

lemma ex_key_regular [simp]:
  "regular ex_key_fs ''m'' [1, 2, 3]" "regular ex_key_fs ''k'' (as_bytes ex_seckey_text)"
  by (simp_all add: regular_resolve) (simp_all add: ex_key_fs_def ex_fs_def)

definition ex_sign :: sign_options where
  "ex_sign = (sign_builder ''k'' ''m'')\<lparr>so_trusted_comment := Some ''signed'', so_untrusted_comment := Some ''by me''\<rparr>"

lemma ex_sign_fields [simp]:
  "so_secret_key_file ex_sign = ''k''" "so_message_file ex_sign = ''m''" "so_prehashed ex_sign"
  "so_trusted_comment ex_sign = Some ''signed''" "so_untrusted_comment ex_sign = Some ''by me''"
  "\<not> so_force ex_sign" "signature_path ''m'' ex_sign = ''m.minisig''"
  by (simp_all add: ex_sign_def sign_builder_def signature_path_def)

lemma ex_comments: "validate_comments ''by me'' ''signed'' = Inr ()"
  by (simp add: validate_comments_iff validate_untrusted_comment_iff validate_trusted_comment_iff
      validate_comment_ascii)

lemma ex_keypair: "ed_keypair ref_crates (replicate 64 5) = None"
  by (simp add: ref_crates_def)

lemma ex_sign_file:
  assumes "quiet v" "w_fs v = ex_key_fs"
  shows "\<exists>res w'. sign_file_with_key ref_crates ''m'' (replicate 64 5) (replicate 8 7) ex_sign v = (Inr res, w')"
proof -
  have "\<forall>q \<in> {''m'', so_secret_key_file ex_sign}. \<exists>lo. resolve (w_fs v) q = Inr lo
      \<and> lookup (w_fs v) lo \<noteq> None \<and> lo \<noteq> [''d'', ''m.minisig'']"
    using assms(2) by simp
  then show ?thesis
    using sign_file_succeeds [OF ref_ed_ok ref_blake2b_ok ex_keypair assms(1), of "''m''" "[1, 2, 3]" ex_sign
        "''signed''" "''by me''" "''m.minisig''" "[''d'', ''m.minisig'']" "replicate 8 7"] assms(2) ex_comments
    by (simp add: MAX_MESSAGE_SIZE_BYTES_def)
qed

lemma ex_seckey_utf8: "is_utf8 ex_seckey_text" "length ex_seckey_text \<le> MAX_KEY_FILE_BYTES"
proof -
  have "is_ascii UNTRUSTED_PREFIX" by (simp add: UNTRUSTED_PREFIX_def)
  then show "is_utf8 ex_seckey_text"
    using encode_base64_ascii [OF ref_b64_ok] by (auto simp: ex_seckey_text_def intro!: is_utf8_ascii)
  have "length (seckey_to_bytes ex_seckey) = SECKEY_STRUCT_SIZE"
    using ex_seckey_wf(1) by (rule seckey_codec.enc_size)
  then show "length ex_seckey_text \<le> MAX_KEY_FILE_BYTES"
    by (simp add: ex_seckey_text_def encode_base64_def ref_crates_def ref_size UNTRUSTED_PREFIX_def
        MAX_KEY_FILE_BYTES_def SECKEY_STRUCT_SIZE_def size_defs)
qed

lemma ex_utf8_text: "utf8_text (as_bytes ex_seckey_text) ''k'' = Inr ex_seckey_text"
  using ex_seckey_utf8(1) by (simp add: utf8_text_def from_utf8_as_bytes)

lemma ex_extract: "extract_key ref_crates ex_seckey None = Inr (replicate 64 5, replicate 8 7)"
  unfolding ex_seckey_def by (rule extract_key_unencrypted) (simp add: wf_array_defs size_defs)

lemma ex_sign_run: "\<exists>res w'. sign_op ref_crates ex_sign None (ex_world ex_key_fs) = (Inr res, w')"
proof -
  obtain r w1 where r: "load_secret_key ref_crates ''k'' (ex_world ex_key_fs) = (r, w1)" by (rule prod.exhaust)
  then have l: "r = Inr ex_seckey" "quiet w1" "w_fs w1 = ex_key_fs"
    using load_secret_key_run [OF _ _ r, of "as_bytes ex_seckey_text"] ex_seckey_utf8(2) ex_utf8_text
      ex_seckey_file by simp_all
  obtain q w2 where q: "extract_key_op ref_crates ex_seckey None w1 = (q, w2)" by (rule prod.exhaust)
  then have e: "q = Inr (replicate 64 5, replicate 8 7)" "quiet w2" "w_fs w2 = ex_key_fs"
    using extract_key_op_run [OF l(2) q] l(3) ex_extract by simp_all
  then show ?thesis
    using ex_sign_file [OF e(2,3)] r q l(1)
    by (simp add: sign_op_def sign_single_file_def load_and_decrypt_key_def bind_io_def)
qed

section \<open>Properties\<close>

text \<open>C1: a signature file written by \<open>sign\<close> verifies, with \<open>force\<close> over whatever was there and
  without: reading the message, the new file and the public key of the signer back on a host that
  works, \<open>verify\<close> succeeds and returns the trusted and the untrusted comment and the key id of the
  signature, and the message that was signed if it is asked for. The key pair is the one in the
  secret key file, with whatever password it was opened.\<close>

theorem sign_then_verify:
  assumes "b64_ok C" "b64_size_ok C" "ed_ok C" "blake2b_ok C"
    and "quiet w" "wf_fs (w_fs w)" "regular (w_fs w) (so_message_file opts) msg"
    and "length msg \<le> MAX_MESSAGE_SIZE_BYTES"
    and "regular (w_fs w) (so_secret_key_file opts) kb" "seckey_from_file_contents C (text_of kb) = Inr seckey"
    and "extract_key C seckey password = Inr (sk, keynum)" "wf_key_num keynum"
    and "so_force opts \<longrightarrow> cwd_ok (w_fs w)" "is_utf8 (untrusted_comment_of opts)"
    and "case so_trusted_comment opts of None \<Rightarrow> True | Some c \<Rightarrow> is_utf8 c"
    and "file_name (signature_path (so_message_file opts) opts) = Some n"
    and "resolve_entry (w_fs w) (signature_path (so_message_file opts) opts) = Inr l"
    and "sign_op C opts password w = (Inr res, w')"
    and "vo_message_file vopts = so_message_file opts"
    and "vo_signature_file vopts = signature_path (so_message_file opts) opts"
    and "vo_public_key vopts = SourceBase64 s" "pubkey_from_base64 C s = Inr (signer_key C sk keynum)"
    and "vo_force_prehashed vopts \<longrightarrow> so_prehashed opts"
  shows "\<exists>r. fst (verify_op C vopts w') = Inr r \<and> vr_trusted_comment r = sr_trusted_comment res
    \<and> vr_untrusted_comment r = untrusted_comment_of opts \<and> vr_key_id r = sr_key_id res
    \<and> vr_message_output r = (if vo_output vopts then Some msg else None)"
proof -
  obtain t key sk' keynum' v where v: "utf8_text kb (so_secret_key_file opts) = Inr t"
    "seckey_from_file_contents C t = Inr key" "extract_key C key password = Inr (sk', keynum')"
    "quiet v" "w_fs v = w_fs w" "sign_file_with_key C (so_message_file opts) sk' keynum' opts v = (Inr res, w')"
    using sign_op_run [OF assms(5,9,18)] by blast
  then have "t = text_of kb" by (auto simp: utf8_text_def result_simps from_utf8_Inr)
  then have "sk' = sk" "keynum' = keynum" using v(2,3) assms(10,11) by simp_all
  then show ?thesis
    using v sign_then_verify_file [OF assms(1-4) v(4) _ _ assms(8) _ assms(12,14,15,16) _ _ assms(19-23)]
      assms(6,7,13,17) by simp
qed

lemma ref_pubkey_b64:
  "pubkey_from_base64 ref_crates (encode_base64 ref_crates (pubkey_to_bytes (signer_key ref_crates sk (replicate 8 7))))
     = Inr (signer_key ref_crates sk (replicate 8 7))"
proof -
  have "wf_pubkey (signer_key ref_crates sk (replicate 8 7))"
    using ref_ed_ok by (simp add: wf_pubkey_def signer_key_def wf_array_defs size_defs ed_public_length)
  then show ?thesis using ref_b64_ok by (simp add: pubkey_from_base64_def pubkey_codec.dec_enc)
qed

theorem sign_then_verify_witness:
  "\<exists>res w' r. sign_op ref_crates ex_sign None (ex_world ex_key_fs) = (Inr res, w')
     \<and> fst (verify_op ref_crates
         ((verify_builder (SourceBase64 (encode_base64 ref_crates
             (pubkey_to_bytes (signer_key ref_crates (replicate 64 5) (replicate 8 7))))) ''m.minisig'' ''m'')
           \<lparr>vo_output := True\<rparr>) w') = Inr r
     \<and> vr_trusted_comment r = sr_trusted_comment res \<and> vr_message_output r = Some [1, 2, 3]"
proof -
  obtain res w' where run: "sign_op ref_crates ex_sign None (ex_world ex_key_fs) = (Inr res, w')"
    using ex_sign_run by blast
  let ?s = "encode_base64 ref_crates (pubkey_to_bytes (signer_key ref_crates (replicate 64 5) (replicate 8 7)))"
  let ?v = "(verify_builder (SourceBase64 ?s) ''m.minisig'' ''m'')\<lparr>vo_output := True\<rparr>"
  have u: "untrusted_comment_of ex_sign = ''by me''" "is_utf8 ''by me''" "is_utf8 ''signed''"
    by (simp_all add: untrusted_comment_of_def is_utf8_ascii)
  have "\<exists>r. fst (verify_op ref_crates ?v w') = Inr r \<and> vr_trusted_comment r = sr_trusted_comment res
    \<and> vr_untrusted_comment r = untrusted_comment_of ex_sign \<and> vr_key_id r = sr_key_id res
    \<and> vr_message_output r = (if vo_output ?v then Some [1, 2, 3] else None)"
    using run u ref_pubkey_b64 ex_seckey_wf(2) ex_seckey_file ex_extract
    by (intro sign_then_verify [OF ref_b64_ok ref_b64_size_ok ref_ed_ok ref_blake2b_ok, of "ex_world ex_key_fs"
          ex_sign _ "as_bytes ex_seckey_text" ex_seckey None "replicate 64 5" "replicate 8 7" "''m.minisig''"
          "[''d'', ''m.minisig'']"])
      (simp_all add: verify_builder_def MAX_MESSAGE_SIZE_BYTES_def)
  then show ?thesis using run by (auto simp: verify_builder_def)
qed

text \<open>C18: no signature leaves \<open>create_signature\<close> unchecked, on any host: the one returned carries
  the key number and the algorithm asked for, acceptable comments, and both its signatures were
  verified under the public key that belongs to the secret key.\<close>

theorem signature_checked_before_use:
  assumes "create_signature C sk keynum p prehashed tc uc w = (Inr b, w')"
  shows "ss_keynum (sb_sig_struct b) = keynum \<and> ss_prehashed (sb_sig_struct b) = prehashed
    \<and> validate_comments (sb_untrusted_comment b) (sb_trusted_comment b) = Inr ()
    \<and> (\<exists>data v v'. data_to_sign C p prehashed v = (Inr data, v')
         \<and> verify C (ed_public C sk) data (ss_signature (sb_sig_struct b)) = Inr ())
    \<and> verify_global_signature C b (ed_public C sk) = Inr ()"
proof -
  obtain t data v v' where s: "data_to_sign C p prehashed v = (Inr data, v')"
    "sign_and_check C sk keynum prehashed t
       (case uc of None \<Rightarrow> DEFAULT_UNTRUSTED_COMMENT | Some c \<Rightarrow> c) data = Inr b"
    using assms by (auto simp: create_signature_def bind_io_Inr lift_res_def Let_def)
  then show ?thesis using sign_and_check_Inr [OF s(2)] by auto
qed

lemma ex_create_signature:
  "\<exists>b w'. create_signature ref_crates (replicate 64 5) (replicate 8 7) ''m'' True (Some ''signed'') (Some ''by me'')
     (ex_world ex_key_fs) = (Inr b, w')"
proof -
  obtain b where "sign_and_check ref_crates (replicate 64 5) (replicate 8 7) True ''signed'' ''by me''
      (blake2b_512 ref_crates [1, 2, 3]) = Inr b"
    using sign_and_check_succeeds [OF ref_ed_ok ex_keypair ex_comments] by blast
  moreover obtain v where "data_to_sign ref_crates ''m'' True (ex_world ex_key_fs)
      = (Inr (blake2b_512 ref_crates [1, 2, 3]), v)"
    using data_to_sign_run [OF ex_quiet, of ex_key_fs "''m''" "[1, 2, 3]" ref_crates True] ref_blake2b_ok
    by (auto simp: MAX_MESSAGE_SIZE_BYTES_def)
  moreover have "validate_comment_with_length ''by me'' (Some (COMMENTMAXBYTES - COMMENT_PREFIX_SIZE)) t = Inr ()"
    "validate_comment_with_length ''signed'' (Some (TRUSTEDCOMMENTMAXBYTES - TRUSTED_COMMENT_PREFIX_SIZE)) t = Inr ()"
    for t
    by (simp_all add: validate_comment_with_length_iff validate_comment_ascii comment_size_defs)
  ultimately show ?thesis
    by (simp add: create_signature_def Let_def bind_io_def ret_def lift_res_def)
qed

theorem signature_checked_before_use_witness:
  "\<exists>b. verify_global_signature ref_crates b (ed_public ref_crates (replicate 64 5)) = Inr ()
     \<and> ss_keynum (sb_sig_struct b) = replicate 8 7"
  using ex_create_signature signature_checked_before_use by blast

text \<open>C34: the files of a batch that are signed are the first ones to name each file: no file is
  signed twice under different names, none is left out, and the order is kept.\<close>

theorem dedup_files_first_names:
  assumes "faultless w" "cwd_ok (w_fs w)"
    and "\<forall>f \<in> set files. \<exists>l. resolve (w_fs w) f = Inr l \<and> lookup (w_fs w) l \<noteq> None"
  shows "\<exists>kept. fst (dedup_files [] files w) = Inr kept
    \<and> kept = first_of_each (\<lambda>f. projr (resolve (w_fs w) f)) [] files
    \<and> distinct (map (resolve (w_fs w)) kept)
    \<and> set (map (resolve (w_fs w)) kept) = set (map (resolve (w_fs w)) files)"
proof -
  let ?g = "\<lambda>f. projr (resolve (w_fs w) f)"
  let ?kept = "first_of_each ?g [] files"
  have "fst (dedup_files [] files w) = Inr ?kept" using dedup_files_run [OF assms, of "[]"] by simp
  moreover have g: "resolve (w_fs w) f = Inr (?g f)" if "f \<in> set files" for f using assms(3) that by force
  have sub: "set ?kept \<subseteq> set files" by (rule first_of_each_spec)
  then have eq: "map (resolve (w_fs w)) ?kept = map Inr (map ?g ?kept)" using g by auto
  have "distinct (map (resolve (w_fs w)) ?kept)"
    unfolding eq using first_of_each_spec(1) [of ?g "[]" files] by (simp add: distinct_map inj_on_def)
  moreover have "set (map (resolve (w_fs w)) ?kept) = set (map (resolve (w_fs w)) files)"
  proof -
    have "?g ` set ?kept = ?g ` set files" using first_of_each_spec(2) [of ?g "[]" files] by simp
    moreover have "Inr ` ?g ` set files = resolve (w_fs w) ` set files" using g by (force simp: image_image)
    ultimately show ?thesis unfolding eq by (simp only: set_map)
  qed
  ultimately show ?thesis by blast
qed

theorem dedup_files_first_names_witness:
  "fst (dedup_files [] [''m'', ''l'', ''m''] (ex_world ex_fs)) = Inr [''m'']"
  using dedup_files_first_names [of "ex_world ex_fs" "[''m'', ''l'', ''m'']"] by auto

text \<open>A batch is checked before anything is written: if one of its signature files would lie on
  a message or on the secret key, the batch ends with that error and no file has changed.\<close>

theorem batch_aliases_checked_first:
  assumes "dedup_files [] files w = (Inr kept, w1)" "length kept \<le> 1 \<or> so_signature_file opts = None"
    and "reject_batch_aliases kept (kept @ [so_secret_key_file opts]) opts w1 = (Inl e, w2)"
  shows "sign_multiple_files_with_key C dbg B files seckey opts password sequential w = (Inl e, w2)
    \<and> w_fs w2 = w_fs w \<and> w_trace w2 = w_trace w"
proof -
  have d: "reads_only (dedup_files seen fs)" for seen fs
    by (induction seen fs rule: dedup_files.induct) simp_all
  have r: "reads_only (reject_batch_aliases fs ps opts)" for fs ps
    by (induction fs) simp_all
  show ?thesis
    using assms reads_onlyD [OF d assms(1)] reads_onlyD [OF r assms(3)]
    by (auto simp: sign_multiple_files_with_key_def bind_io_def)
qed

lemma alias_of_itself:
  assumes "faultless w" "cwd_ok (w_fs w)" "file_name out = Some n" "resolve_entry (w_fs w) out = Inr l"
    and "resolve (w_fs w) other = Inr l" "lookup (w_fs w) l \<noteq> None"
  shows "fst (reject_output_alias out (other # others) w) = Inl (OutputAlias out other)"
proof -
  obtain c where c: "resolve_destination out w = (Inr c, ticked (ticked w))"
    "components c = RootDir # map NormalComp l"
    using resolve_destination_run [OF assms(1-4)] by blast
  have "sys_canonicalize other (w_fs w) = Inr (loc_path l)" using assms(5,6) by (rule canonicalize_existing)
  moreover from this have "components (loc_path l) = RootDir # map NormalComp l"
    using canonical_path [OF assms(2)] assms(5) by fastforce
  ultimately show ?thesis
    using c assms(1)
    by (simp add: reject_output_alias_def bind_io_def attempt_def lookups_run ret_def throw_def)
qed

theorem batch_aliases_checked_first_witness:
  "w_fs (snd (sign_multiple_files_with_key ref_crates (\<lambda>p. p) ex_build [''m''] ex_seckey
     (ex_sign\<lparr>so_signature_file := Some ''m''\<rparr>) None True (ex_world ex_key_fs))) = ex_key_fs"
proof -
  let ?o = "ex_sign\<lparr>so_signature_file := Some ''m''\<rparr>"
  have f: "resolve_entry ex_key_fs ''m'' = Inr [''d'', ''m'']"
    by (simp add: resolve_entry_def as_directory_def)
  have "fst (dedup_files [] [''m''] (ex_world ex_key_fs)) = Inr [''m'']"
    using dedup_files_run [of "ex_world ex_key_fs" "[''m'']" "[]"] by simp
  then obtain w1 where d: "dedup_files [] [''m''] (ex_world ex_key_fs) = (Inr [''m''], w1)"
    by (metis prod.collapse)
  have "keeps (still s) (dedup_files seen fs)" for s seen fs
    by (induction seen fs rule: dedup_files.induct) (auto intro!: keeps_intros)
  then have "keeps (still ex_key_fs) (dedup_files [] [''m''])" .
  from keepsD [OF this _ d] have w1: "still ex_key_fs w1" by (simp add: still_def)
  then have "fst (reject_output_alias ''m'' [''m'', ''k''] w1) = Inl (OutputAlias ''m'' ''m'')"
    using f by (intro alias_of_itself [of _ _ "''m''" "[''d'', ''m'']"]) (simp_all add: still_def)
  then have "fst (reject_batch_aliases [''m''] ([''m''] @ [so_secret_key_file ?o]) ?o w1) = Inl (OutputAlias ''m'' ''m'')"
    by (auto simp: signature_path_def bind_io_def split: prod.split)
  from run_fst [OF this] show ?thesis
    using batch_aliases_checked_first [OF d, of ?o] by simp
qed

section \<open>Instances of the properties of verification\<close>

lemma ex_key_inodes: "lookup ex_key_fs l = Some (FileAt i) \<Longrightarrow> fs_inodes ex_key_fs i \<noteq> None"
  by (auto simp: ex_key_fs_def ex_fs_def lookup_def split: if_splits)

lemma staged_inodes:
  assumes "\<forall>l i. lookup s l = Some (FileAt i) \<longrightarrow> fs_inodes s i \<noteq> None" "staged s t c s'"
    and "lookup s' l = Some (FileAt i)"
  shows "fs_inodes s' i \<noteq> None"
proof (cases "l = t")
  case True
  then have "i = fs_next s" using assms(2,3) by (simp add: staged_def lookup_def)
  then show ?thesis using assms(2) by (auto simp: staged_def)
next
  case False
  then have "lookup s l = Some (FileAt i)" using assms(2,3) by (auto simp: staged_def lookup_def split: if_splits)
  then have "fs_inodes s i \<noteq> None" using assms(1) by blast
  then show ?thesis using assms(2) by (cases "i = fs_next s") (auto simp: staged_def)
qed

lemma ex_verify_run:
  "\<exists>w r. quiet w \<and> (\<forall>l i. lookup (w_fs w) l = Some (FileAt i) \<longrightarrow> fs_inodes (w_fs w) i \<noteq> None) \<and> fst (verify_op ref_crates
     ((verify_builder (SourceBase64 (encode_base64 ref_crates
         (pubkey_to_bytes (signer_key ref_crates (replicate 64 5) (replicate 8 7))))) ''m.minisig'' ''m'')
       \<lparr>vo_output := out\<rparr>) w) = Inr r \<and> vr_message_output r = (if out then Some [1, 2, 3] else None)"
proof -
  obtain res w' where run: "sign_file_with_key ref_crates ''m'' (replicate 64 5) (replicate 8 7) ex_sign
      (ex_world ex_key_fs) = (Inr res, w')"
    using ex_sign_file [of "ex_world ex_key_fs"] by auto
  let ?s = "encode_base64 ref_crates (pubkey_to_bytes (signer_key ref_crates (replicate 64 5) (replicate 8 7)))"
  let ?v = "(verify_builder (SourceBase64 ?s) ''m.minisig'' ''m'')\<lparr>vo_output := out\<rparr>"
  have u: "untrusted_comment_of ex_sign = ''by me''" "is_utf8 ''by me''" "is_utf8 ''signed''"
    by (simp_all add: untrusted_comment_of_def is_utf8_ascii)
  have "\<exists>r. fst (verify_op ref_crates ?v w') = Inr r \<and> vr_trusted_comment r = sr_trusted_comment res
    \<and> vr_untrusted_comment r = untrusted_comment_of ex_sign \<and> vr_key_id r = sr_key_id res
    \<and> vr_message_output r = (if vo_output ?v then Some [1, 2, 3] else None)"
    using run u ref_pubkey_b64 ex_seckey_wf(2)
    by (intro sign_then_verify_file [OF ref_b64_ok ref_b64_size_ok ref_ed_ok ref_blake2b_ok, of "ex_world ex_key_fs"
          "''m''" _ ex_sign "replicate 8 7" "''m.minisig''" "[''d'', ''m.minisig'']" "replicate 64 5"])
      (simp_all add: verify_builder_def MAX_MESSAGE_SIZE_BYTES_def)
  moreover have "vo_output ?v = out" by (simp add: verify_builder_def)
  moreover obtain c where c: "staged ex_key_fs [''d'', ''m.minisig''] c (w_fs w')" "quiet w'"
    using sign_file_run [OF _ _ ref_blake2b_ok _ _ _ _ _ run, of "[1, 2, 3]" "''m.minisig''" "[''d'', ''m.minisig'']"]
    by (auto simp: MAX_MESSAGE_SIZE_BYTES_def)
  moreover have "\<forall>l i. lookup (w_fs w') l = Some (FileAt i) \<longrightarrow> fs_inodes (w_fs w') i \<noteq> None"
    using staged_inodes [OF _ c(1)] ex_key_inodes by blast
  ultimately show ?thesis by metis
qed

theorem verify_success_means_verified_witness:
  "\<exists>pubkey data s. verify ref_crates (pk_public_key pubkey) data s = Inr ()
     \<and> pubkey_from_base64 ref_crates (encode_base64 ref_crates
         (pubkey_to_bytes (signer_key ref_crates (replicate 64 5) (replicate 8 7)))) = Inr pubkey"
proof -
  obtain w r where "fst (verify_op ref_crates
     ((verify_builder (SourceBase64 (encode_base64 ref_crates
         (pubkey_to_bytes (signer_key ref_crates (replicate 64 5) (replicate 8 7))))) ''m.minisig'' ''m'')
       \<lparr>vo_output := True\<rparr>) w) = Inr r"
    using ex_verify_run by blast
  from verify_success_means_verified [OF run_fst [OF this]] show ?thesis
    by (auto simp: verify_builder_def)
qed

theorem verify_refines_spec_witness:
  "fst (verify_op ref_crates (verify_builder (SourceBase64 (encode_base64 ref_crates
      (pubkey_to_bytes (signer_key ref_crates (replicate 64 5) (replicate 8 7))))) ''k'' ''m'') (ex_world ex_key_fs))
   = verify_spec ref_crates (Inr (signer_key ref_crates (replicate 64 5) (replicate 8 7))) ex_seckey_text
       [1, 2, 3] False False"
  using verify_refines_spec [where w = "ex_world ex_key_fs" and C = ref_crates and msg = "[1, 2, 3]"
      and opts = "verify_builder (SourceBase64 (encode_base64 ref_crates
        (pubkey_to_bytes (signer_key ref_crates (replicate 64 5) (replicate 8 7))))) ''k'' ''m''"
      and key = "Inr (signer_key ref_crates (replicate 64 5) (replicate 8 7))" and sb = "as_bytes ex_seckey_text",
      OF ex_quiet ref_blake2b_ok]
    ref_pubkey_b64 ex_seckey_utf8
  by (simp add: verify_builder_def MAX_MESSAGE_SIZE_BYTES_def MAX_KEY_FILE_BYTES_def MAX_SIGNATURE_FILE_BYTES_def)

theorem verify_batch_outcome_witness:
  "fst (verify_multiple_files ref_crates (\<lambda>p. p) ex_build [''m'', ''k''] (verify_builder (SourceBase64
      (encode_base64 ref_crates (pubkey_to_bytes (signer_key ref_crates (replicate 64 5) (replicate 8 7))))) [] [])
      False (ex_world ex_key_fs)) \<in> {Inr (), Inl TotalFailure, Inl PartialFailure}"
proof -
  let ?o = "verify_builder (SourceBase64 (encode_base64 ref_crates
      (pubkey_to_bytes (signer_key ref_crates (replicate 64 5) (replicate 8 7))))) [] []"
  have "load_public_key ref_crates (vo_public_key ?o) (ex_world ex_key_fs)
      = (Inr (signer_key ref_crates (replicate 64 5) (replicate 8 7)), ex_world ex_key_fs)"
    using ref_pubkey_b64 by (simp add: load_public_key_def verify_builder_def lift_res_def)
  from verify_batch_outcome [OF this, of "[''m'', ''k'']" "\<lambda>p. p" ex_build False] show ?thesis
    by (auto split: if_splits)
qed

end
