(* ===== verification/Footprint.thy ===== *)
theory Footprint
  imports Sign_Properties
begin

text \<open>
  What a computation can do to the world, as a relation between the world before and after. A
  reflexive and transitive relation (a \<open>frame\<close>) that every call obeys is obeyed by every
  operation, and by every pool of tasks whose steps obey it. A relation that only looks at the files,
  or only at the credential store, is obeyed by whatever only reads.
\<close>

definition obeys :: "(world \<Rightarrow> world \<Rightarrow> bool) \<Rightarrow> ('e, 'a) io \<Rightarrow> bool" where
  "obeys R m \<longleftrightarrow> (\<forall>w. R w (snd (m w)))"

lemma obeysI: "(\<And>w r w'. m w = (r, w') \<Longrightarrow> R w w') \<Longrightarrow> obeys R m"
  unfolding obeys_def by (metis prod.collapse)

lemma obeysD: "obeys R m \<Longrightarrow> m w = (r, w') \<Longrightarrow> R w w'"
  unfolding obeys_def by (metis snd_conv)

lemma obeys_mono: "obeys R m \<Longrightarrow> (\<And>w w'. R w w' \<Longrightarrow> S w w') \<Longrightarrow> obeys S m"
  by (simp add: obeys_def)

section \<open>Frames\<close>

locale frame =
  fixes R :: "world \<Rightarrow> world \<Rightarrow> bool"
  assumes same: "R w w"
    and trans: "R u v \<Longrightarrow> R v w \<Longrightarrow> R u w"
begin

lemma basic [simp]:
  "obeys R (ret x)" "obeys R (throw e)" "obeys R (lift_res r)"
  by (simp_all add: obeys_def ret_def throw_def lift_res_def same)

lemma bind [simp]:
  assumes "obeys R m" "\<And>x. obeys R (f x)"
  shows "obeys R (bind_io m f)"
proof (rule obeysI)
  fix w r w'
  assume run: "bind_io m f w = (r, w')"
  obtain s w1 where m: "m w = (s, w1)" by (rule prod.exhaust)
  then have 1: "R w w1" by (rule obeysD [OF assms(1)])
  show "R w w'"
  proof (cases s)
    case (Inl e)
    then show ?thesis using run m 1 by (simp add: bind_io_def)
  next
    case (Inr x)
    then have "f x w1 = (r, w')" using run m by (simp add: bind_io_def)
    then show ?thesis by (rule trans [OF 1 obeysD [OF assms(2)]])
  qed
qed

lemma map_error [simp]: "obeys R m \<Longrightarrow> obeys R (map_err_io g m)"
  by (rule obeysI) (auto simp: map_err_io_def dest: obeysD split: prod.splits)

lemma attempted [simp]: "obeys R m \<Longrightarrow> obeys R (attempt m)"
  by (rule obeysI) (auto simp: attempt_def dest: obeysD split: prod.splits)

lemma branch [simp]:
  "(b \<Longrightarrow> obeys R m) \<Longrightarrow> (\<not> b \<Longrightarrow> obeys R n) \<Longrightarrow> obeys R (if b then m else n)"
  by simp

lemma on_option [simp]:
  "obeys R m \<Longrightarrow> (\<And>y. obeys R (f y)) \<Longrightarrow> obeys R (case x of None \<Rightarrow> m | Some y \<Rightarrow> f y)"
  by (cases x) auto

lemma on_sum [simp]:
  "(\<And>e. obeys R (f e)) \<Longrightarrow> (\<And>y. obeys R (g y)) \<Longrightarrow>
     obeys R (case x of Inl e \<Rightarrow> f e | Inr y \<Rightarrow> g y)"
  by (cases x) auto

lemma on_prod [simp]: "(\<And>a b. obeys R (f a b)) \<Longrightarrow> obeys R (case x of (a, b) \<Rightarrow> f a b)"
  by (cases x) auto

end

section \<open>Frames of tasks\<close>

text \<open>Where \<open>K\<close> holds of the world, the next step obeys the relation, and so on to the end.\<close>

definition within :: "(world \<Rightarrow> bool) \<Rightarrow> (world \<Rightarrow> world \<Rightarrow> bool) \<Rightarrow> 'a task \<Rightarrow> bool" where
  "within K R t \<longleftrightarrow> behaves (\<lambda>_. K) (\<lambda>_ w _ w'. R w w') (\<lambda>_ _. True) () t"

lemma behaves_within:
  assumes "behaves (\<lambda>_. K) (\<lambda>_ w _ w'. R w w') Q () t"
  shows "within K R t"
  unfolding within_def by (rule behaves_mono [OF assms]) simp

lemma within_mono:
  assumes "within K R t" "\<And>w. L w \<Longrightarrow> K w"
  shows "within L R t"
proof -
  have "behaves (\<lambda>_. L) (\<lambda>_ w _ w'. R w w') (\<lambda>_ _. True) u t"
    if "behaves (\<lambda>_. K) (\<lambda>_ w _ w'. R w w') (\<lambda>_ _. True) u t" for u :: unit
    using that
  proof induction
    case (steps u f)
    show ?case by (rule behaves.steps) (use steps.IH assms(2) in blast)
  qed simp
  then show ?thesis using assms(1) by (simp add: within_def)
qed

lemma within_ends [simp]:
  "within K R (Done x)" "within K R (ret_task y)" "within K R (throw_task e)" "within K R (lift_task r)"
  by (simp_all add: within_def behaves_ret behaves_throw behaves_lift)

lemma within_followed_by [simp]:
  assumes "within K R t" "\<And>x. within K R (k x)"
  shows "within K R (followed_by t k)"
  unfolding within_def
  by (rule behaves_followed_by [OF assms(1) [unfolded within_def]]) (use assms(2) in \<open>simp add: within_def\<close>)

lemma within_combinators [simp]:
  "within K R t \<Longrightarrow> within K R (map_err_task g t)" "within K R t \<Longrightarrow> within K R (attempt_task t)"
  "within K R u \<Longrightarrow> (\<And>x. within K R (k x)) \<Longrightarrow> within K R (bind_task u k)"
  by (auto simp: map_err_task_def attempt_task_def bind_task_def intro!: within_followed_by split: sum.split)

lemma within_cases [simp]:
  "(b \<Longrightarrow> within K R t) \<Longrightarrow> (\<not> b \<Longrightarrow> within K R u) \<Longrightarrow> within K R (if b then t else u)"
  "within K R t \<Longrightarrow> (\<And>y. within K R (f y)) \<Longrightarrow> within K R (case x of None \<Rightarrow> t | Some y \<Rightarrow> f y)"
  "(\<And>e. within K R (g e)) \<Longrightarrow> (\<And>y. within K R (h y)) \<Longrightarrow>
     within K R (case r of Inl e \<Rightarrow> g e | Inr y \<Rightarrow> h y)"
  "(\<And>i. within K R (p i)) \<Longrightarrow> (\<And>l. within K R (q l)) \<Longrightarrow> within K R d \<Longrightarrow>
     within K R (case e of FileAt i \<Rightarrow> p i | LinkTo l \<Rightarrow> q l | DirAt \<Rightarrow> d)"
  by (simp_all split: option.split sum.split entry.split)

text \<open>A pool of such tasks, whatever the schedule.\<close>

sublocale frame \<subseteq> threads: pool "\<lambda>_. R v" "\<lambda>_ w _ w'. R w w'" "\<lambda>_. R v" for v
  by unfold_locales (auto intro: trans)

context frame
begin

lemma pool_within:
  assumes "\<And>w. R v w \<Longrightarrow> K w" "\<And>t. t \<in> set ts \<Longrightarrow> within K R t"
    and "run_pool schedule (ts, v) = Some (xs, w)"
  shows "R v w"
proof -
  have "behaves (\<lambda>_. R v) (\<lambda>_ w _ w'. R w w') (\<lambda>_ _. True) () t" if "t \<in> set ts" for t
    using within_mono [OF assms(2) [OF that], of "R v"] assms(1) by (simp add: within_def)
  then have "\<exists>gs' :: unit list. R v w \<and> length gs' = length ts \<and> length xs = length ts
      \<and> (\<forall>i < length ts. True)"
    by (intro threads.results_in_order [OF assms(3), where gs = "replicate (length ts) ()"]) (simp_all add: same)
  then show ?thesis by blast
qed

text \<open>A task alone, undisturbed.\<close>

lemma run_within:
  assumes "\<And>w. R v w \<Longrightarrow> K w" "within K R t" "run_task t v = (x, w)"
  shows "R v w"
proof -
  obtain schedule where "run_pool schedule ([t], v) = Some (run_each [t] v)"
    using sequential_schedule by blast
  then have run: "run_pool schedule ([t], v) = Some ([x], w)" using assms(3) by simp
  show ?thesis by (rule pool_within [of v K, OF _ _ run]) (use assms(1,2) in simp_all)
qed

end

section \<open>What neither writes nor uses the store\<close>

locale looking_frame = frame +
  assumes looking:
    "w_fs w' = w_fs w \<Longrightarrow> w_trace w' = w_trace w \<Longrightarrow> w_keyring w' = w_keyring w \<Longrightarrow>
     w_keyring_asked w' = w_keyring_asked w \<Longrightarrow> same_host w w' \<Longrightarrow> R w w'"
begin

lemma query_call: "obeys R (query f)"
  by (auto simp: obeys_def query_def same_host_def Let_def split: option.split intro: looking)

lemma calls [simp]:
  "obeys R (open_file p)" "obeys R (fstat h)" "obeys R (metadata p)" "obeys R (symlink_metadata p)"
  "obeys R (canonicalize p)" "obeys R (absolute p)" "obeys R (file_reads h)" "obeys R sync_all"
  by (simp_all only: open_file_def fstat_def metadata_def symlink_metadata_def canonicalize_def
      absolute_def file_reads_def sync_all_def query_call)

lemma other_calls [simp]:
  "obeys R now" "obeys R instant_now" "obeys R (sleep n)" "obeys R (random_bytes k)"
  "obeys R (print_out a)" "obeys R (print_err b)" "obeys R (println a)" "obeys R (eprintln b)"
  by (auto simp: obeys_def now_def instant_now_def sleep_def random_bytes_def println_def eprintln_def
      print_out_def print_err_def fill_bytes_def same_host_def Let_def intro!: looking split: prod.split)

lemma existence [simp]: "obeys R (path_exists p)"
  by (simp add: path_exists_def)

text \<open>The file layer.\<close>

lemma file_layer [simp]:
  "obeys R (check_secret_key_permissions p)" "obeys R (sync_parent_directory p)"
  "obeys R (sibling_temp_path p s)" "obeys R (read_file_bounded p n)"
  "obeys R (read_secret_file_bounded p n)" "obeys R (read_message_file p)"
  "obeys R (warn_could_not_remove p e)"
  by (simp_all add: check_secret_key_permissions_def sync_parent_directory_def sibling_temp_path_def
      read_file_bounded_def read_secret_file_bounded_def read_message_file_def
      warn_could_not_remove_def Let_def)

lemma files_looked_at [simp]: "obeys R (load_secret_key C p)" "obeys R (reject_symlink p)"
  by (simp_all add: load_secret_key_def reject_symlink_def split: entry.split)

lemma components_resolved [simp]: "obeys R (resolve_components cs)"
proof (induction cs rule: resolve_components.induct)
  case (1 cs)
  then show ?case by (subst resolve_components.simps) (auto split: component.split)
qed

lemma alias_checked [simp]: "obeys R (alias_loop out dest others)"
  by (induction others) (simp_all add: resolve_destination_def)

lemma alias_rejected [simp]: "obeys R (reject_output_alias out others)"
  by (simp add: reject_output_alias_def resolve_destination_def)

text \<open>The work of a batch, step by step. \<open>K\<close> is what is known between the steps.\<close>

lemma call_within [simp]: "obeys R m \<Longrightarrow> within K R (call_task m)"
  by (auto simp: within_def obeys_def intro!: behaves_call) (metis snd_conv)

lemma files_read [simp]:
  "within K R (read_file_bounded_task p n)" "within K R (read_message_file_task p)"
  "within K R (hash_file_task C p)" "within K R (load_signature_task C p)"
  by (simp_all add: read_file_bounded_task_def read_message_file_task_def hash_file_task_def
      load_signature_task_def)

lemma task_resolves [simp]: "within K R (resolve_components_task cs)"
proof (induction cs rule: resolve_components_task.induct)
  case (1 cs)
  then show ?case by (subst resolve_components_task.simps) (auto split: sum.split)
qed

lemma task_checks_alias [simp]: "within K R (reject_output_alias_task p ps)"
proof -
  have dest: "within K R (resolve_destination_task q)" for q by (simp add: resolve_destination_task_def)
  have "within K R (alias_loop_task p d ps)" for d by (induction ps) (simp_all add: dest)
  then show ?thesis by (simp add: reject_output_alias_task_def dest)
qed

lemma reported [simp]:
  "obeys R (report_verify_result dbg p r opts)" "obeys R (report_sign_result dbg p r' opts')"
  by (simp_all add: report_verify_result_def report_sign_result_def)

lemma verify_job_within [simp]: "within K R (verify_job C dbg pk opts f)"
  by (simp add: verify_job_def report_verify_result_task_def verify_file_with_key_task_def
      verify_message_signature_task_def Let_def)

lemma batch_verified [simp]: "obeys R (collect_verify_results C dbg B files pk opts sequential)"
proof (rule obeysI)
  fix w r w'
  assume run: "collect_verify_results C dbg B files pk opts sequential w = (r, w')"
  obtain schedule results w2 where c: "collect_verify_results C dbg B files pk opts sequential w = (Inr results, w2)"
    and pool: "run_pool schedule (map (verify_job C dbg pk opts) files, w) = Some (results, w2)"
    by (rule collect_verify_results_schedule)
  have "R w w2" by (rule pool_within [of w "\<lambda>_. True", OF _ _ pool]) auto
  then show "R w w'" using run c by simp
qed

lemma default_comment_made [simp]: "obeys R (generate_default_trusted_comment p prehashed)"
  by (simp add: generate_default_trusted_comment_def Let_def)

lemma sign_job_within:
  "(\<And>q bs. within K R (write_file_task q bs (so_force opts))) \<Longrightarrow> within K R (sign_job C dbg sk kn opts f)"
  by (simp add: sign_job_def sign_file_with_key_task_def create_signature_task_def
      default_trusted_comment_task_def data_to_sign_task_def Let_def)

text \<open>The relation need not hold of a single step of the writing, but where \<open>K\<close> holds.\<close>

lemma batch_signed:
  assumes "\<And>w. R v w \<Longrightarrow> K w" "\<And>q bs. within K R (write_file_task q bs (so_force opts))"
    and "collect_sign_results C dbg B files sk kn opts sequential v = (r, w)"
  shows "R v w"
proof -
  obtain schedule results w2 where "collect_sign_results C dbg B files sk kn opts sequential v = (Inr results, w2)"
    "run_pool schedule (map (sign_job C dbg sk kn opts) files, v) = Some (results, w2)"
    by (rule collect_sign_results_schedule)
  then show ?thesis using assms by (auto intro!: pool_within [of v K] sign_job_within)
qed

end

end
