(* ===== verification/Frames.thy ===== *)
theory Frames
  imports Program Footprint
begin

text \<open>
  What a whole run can do to the world: the frames of \<open>Footprint\<close>, from the calls up to \<open>main\<close>. A
  relation that only looks at the files is obeyed by whatever only reads; one that only looks at the
  credential store by whatever does not use it.
\<close>

context looking_frame
begin

lemma program_calls [simp]:
  "obeys R (generate_keypair_op C)" "obeys R (read_password H)" "obeys R (write_to_stdout bs)"
  "obeys R flush"
  by (auto simp: obeys_def fill_bytes_def generate_keypair_op_def read_password_def
      write_to_stdout_def flush_def query_def same_host_def Let_def intro!: looking split: option.split prod.split)

text \<open>Keys and verification.\<close>

lemma key_extracted [simp]:
  "obeys R (decrypt_op C s pw)" "obeys R (extract_key_op C s pw')"
  "obeys R (seal_key C B mode weak log_n sk kn pw')"
  by (simp_all add: decrypt_op_def extract_key_op_def seal_key_def warn_weak_key_def)

lemma message_verified [simp]: "obeys R (verify_message_signature C pk b p f c)"
  by (simp add: verify_message_signature_def hash_file_def)

lemma verified [simp]:
  "obeys R (verify_op C opts)" "obeys R (verify_file_with_key C p pk opts)"
  "obeys R (print_summary verb results)"
  by (simp_all add: verify_op_def verify_file_with_key_def load_public_key_def load_signature_def
      print_summary_def Let_def split: public_key_source.split)

lemma all_verified [simp]: "obeys R (verify_multiple_files C dbg B files opts sequential)"
  by (simp add: verify_multiple_files_def print_verify_summary_def load_public_key_def
      split: public_key_source.split)

lemma prompted [simp]:
  "obeys R (prompt_password H prompt p)" "obeys R (prompt_password_with_confirmation H p)"
  by (simp_all add: prompt_password_def read_password_file_def open_password_file_def
      prompt_password_with_confirmation_def Let_def)

lemma printed [simp]: "obeys R m \<Longrightarrow> obeys R (unless_quiet cli m)" "obeys R flush_stderr"
  by (simp_all add: unless_quiet_def flush_stderr_def)

lemma verify_handled [simp]: "obeys R (handle_verify C dbg B cli)"
  by (simp add: handle_verify_def public_key_of_cli_def print_verified_def Let_def split: prod.split)

lemma result_displayed [simp]:
  "obeys R (inspect_signature C dbg p)" "obeys R (display_inspect_result res known)"
  "obeys R (display_signature_inspect_result sres)"
  by (simp_all add: inspect_signature_def display_inspect_result_def display_key_details_def
      display_kdf_info_def display_signature_inspect_result_def Let_def split: key_type.split)

text \<open>Signing and recreation write through \<open>write_file\<close> only, generation makes directories and
  writes a pair of files.\<close>

lemma signature_created [simp]: "obeys R (create_signature C sk kn p prehashed tc uc)"
  by (simp add: create_signature_def data_to_sign_def hash_file_def Let_def)

lemma files_checked [simp]:
  "obeys R (dedup_files seen files)" "obeys R (reject_batch_aliases files ps opts)"
proof -
  show "obeys R (dedup_files seen files)" by (induction files arbitrary: seen) simp_all
  show "obeys R (reject_batch_aliases files ps opts)" by (induction files) simp_all
qed

lemma signed:
  assumes "\<And>q bs. obeys R (write_file q bs (so_force opts))"
    and "\<And>files sk kn. obeys R (collect_sign_results C dbg B files sk kn opts sequential)"
  shows "obeys R (sign_file_with_key C p sk kn opts)" "obeys R (sign_with_key C p s opts pw)"
    "obeys R (sign_multiple_files_with_key C dbg B files s opts pw sequential)"
proof -
  show 1: "obeys R (sign_file_with_key C p sk kn opts)" for p sk kn
    by (simp add: sign_file_with_key_def write_signature_file_def assms(1) Let_def)
  then show 2: "obeys R (sign_with_key C p s opts pw)" for p by (simp add: sign_with_key_def)
  show "obeys R (sign_multiple_files_with_key C dbg B files s opts pw sequential)"
    by (simp add: sign_multiple_files_with_key_def print_sign_summary_def 2 assms(2))
qed

lemma recreated:
  "(\<And>q bs. obeys R (write_file q bs (ro_force opts))) \<Longrightarrow> obeys R (recreate_with_key C s opts pw)"
  by (simp add: recreate_with_key_def write_public_key_file_def Let_def)

lemma directory_made:
  assumes "\<And>q. obeys R (mkdir q m)"
  shows "obeys R (ensure_directory m p)"
proof -
  have 1: "obeys R (mkdir_unless_dir q m)" for q
    by (simp add: mkdir_unless_dir_def is_directory_def assms)
  have "obeys R (create_dir_all q m)" if "\<And>q. obeys R (mkdir q m)" for q m
    using that
  proof (induction q m rule: create_dir_all.induct)
    case (1 q m)
    then show ?case
      by (subst create_dir_all.simps) (auto simp: mkdir_unless_dir_def is_directory_def split: option.split)
  qed
  then show ?thesis by (simp add: ensure_directory_def assms)
qed

lemma generated:
  assumes "\<And>q m. obeys R (mkdir q m)"
    and "\<And>sc pc. obeys R (if go_overwrite opts = Overwrite
      then write_keypair_files_with_overwrite B (go_secret_key_file opts) (go_public_key_file opts) sc pc
      else write_keypair_files_create_new (go_secret_key_file opts) (go_public_key_file opts) sc pc)"
  shows "obeys R (generate C B opts pw)"
  by (simp add: generate_def generate_with_log_n_def write_generated_def ensure_secret_key_directory_def
      ensure_parent_directory_def directory_made assms Let_def del: branch split: prod.split)

end

section \<open>Frames of the files\<close>

locale file_frame = frame +
  assumes same_files:
    "w_fs w' = w_fs w \<Longrightarrow> w_trace w' = w_trace w \<Longrightarrow> same_host w w' \<Longrightarrow> R w w'"

sublocale file_frame \<subseteq> looking_frame
  by unfold_locales (rule same_files)

context file_frame
begin

lemma store_called [simp]: "obeys R (keyring_call a f)"
  by (auto simp: obeys_def keyring_call_def same_host_def Let_def intro!: same_files
      split: option.split prod.split)

lemma secret_stored [simp]: "obeys R (set_password a pw)"
  by (rule obeysI, unfold set_password_def Let_def) (erule obeysD [OF store_called])

lemma store_used [simp]:
  "obeys R (save_password B a pw)" "obeys R (get_password B a)" "obeys R (forget_password B a)"
  "obeys R (has_password dbg B a)"
  by (simp_all add: save_password_def get_password_def forget_password_def has_password_def
      open_entry_def entry_new_def get_secret_def delete_credential_def
      split: keyring_error.split)

lemma password_used [simp]:
  "obeys R (save_password_to_credential_store dbg B a pw save q x)"
  "obeys R (get_password_with_credential_store B H a prompt q p)"
  "obeys R (forget_password_with_feedback dbg B a q)"
  by (simp_all add: save_password_to_credential_store_def check_saved_password_def complain_def
      extra_line_def get_password_with_credential_store_def forget_password_with_feedback_def)

lemma inspected [simp]:
  "obeys R (inspect_secret_key C dbg B s check)" "obeys R (inspect_private_with_key C dbg B s pw)"
  "obeys R (inspect C dbg B opts)"
  by (simp_all add: inspect_secret_key_def inspect_secret_key_with_credentials_def
      inspect_private_with_key_def inspect_def inspect_file_def read_key_file_def
      dispatch_key_file_def Let_def split: option.split key_file_type.split)

lemma inspect_handled [simp]: "obeys R (handle_inspect C dbg B H cli)"
  by (simp add: handle_inspect_def inspect_key_action_def inspect_chosen_def inspect_source_def
      inspect_decrypted_def Let_def split: option.split prod.split)

end

text \<open>With what creates files but does not overwrite.\<close>

locale creating_frame = file_frame +
  assumes creates: "obeys R (write_file p bs False)"
    and makes_directories: "obeys R (mkdir p m)"
    and creates_pairs: "file_name sp \<noteq> None \<Longrightarrow> file_name pp \<noteq> None \<Longrightarrow>
      obeys R (write_keypair_files_create_new sp pp sc pc)"
    and creates_batch: "\<not> so_force opts \<Longrightarrow>
      obeys R (collect_sign_results C dbg B files sk kn opts sequential)"
begin

lemma sign_handled [simp]: "\<not> cli_force cli \<Longrightarrow> obeys R (handle_sign C dbg B H cli)"
  by (simp add: handle_sign_def handle_sign_single_def handle_sign_multiple_def apply_sign_options_def
      sign_set_force_def sign_set_quiet_def signed creates creates_batch Let_def split: option.split)

lemma recreate_handled [simp]: "\<not> cli_force cli \<Longrightarrow> obeys R (handle_recreate C dbg B H cli)"
  by (simp add: handle_recreate_def recreated creates Let_def)

end

section \<open>Frames of the credential store\<close>

locale store_frame = frame +
  assumes elsewhere:
    "w_keyring w' = w_keyring w \<Longrightarrow> w_keyring_asked w' = w_keyring_asked w \<Longrightarrow> R w w'"

sublocale store_frame \<subseteq> looking_frame
  by unfold_locales (rule elsewhere)

context store_frame
begin

lemma update_call: "obeys R (update f)"
  by (auto simp: obeys_def update_def commit_def Let_def split: option.split prod.split intro: elsewhere)

lemma writing_calls [simp]:
  "obeys R (create_new p m)" "obeys R (fchmod i m)" "obeys R (rename_file p q)"
  "obeys R (hard_link p q)" "obeys R (remove_file p)" "obeys R (mkdir p m)" "obeys R (write_all i bs)"
  by (simp_all add: create_new_def fchmod_def rename_file_def hard_link_def remove_file_def mkdir_def
      update_call)
    (auto simp: obeys_def write_all_def commit_def Let_def intro!: elsewhere split: option.split)

lemma replacing [simp]: "obeys R (atomic_replace_file p bs m)"
  by (simp add: atomic_replace_file_def stage_replacement_def discard_failed_def)

lemma writers [simp]: "obeys R (write_file p bs force)"
  by (simp add: write_file_def)

lemma task_writes [simp]: "within K R (write_file_task p bs force)"
  by (simp add: write_file_task_def reject_symlink_task_def atomic_replace_file_task_def
      sibling_temp_path_task_def stage_replacement_task_def discard_failed_task_def
      sync_parent_directory_task_def Let_def)

lemma batches_sign [simp]: "obeys R (collect_sign_results C dbg B files sk kn opts sequential)"
  by (rule obeysI) (rule batch_signed [where K = "\<lambda>_. True"], simp_all)

lemma changed [simp]: "obeys R (change C B opts old new)"
  by (simp add: change_def change_with_log_n_def write_secret_key_file_def)

lemma file_discarded [simp]: "obeys R (discard_file p)"
  by (simp add: discard_file_def warn_cleanup_failure_def)

lemma files_discarded [simp]: "obeys R (discard_files ps)"
  by (induction ps) (simp_all add: discard_files_def)

lemma discarding [simp]: "obeys R m \<Longrightarrow> obeys R (or_discard m ps)"
  by (simp add: or_discard_def)

lemma pair_created [simp]:
  "obeys R (stage_keypair sp pp sc pc)" "obeys R (write_keypair_files_create_new sp pp sc pc)"
  by (simp_all add: stage_keypair_def write_temp_file_def write_keypair_files_create_new_def
      link_keypair_def split: prod.split)

lemma pass_made [simp]: "obeys R (acquire_pass p t s)"
  by (simp add: acquire_pass_def clear_stale_lock_def lock_is_stale_def wait_for_lock_def)

lemma lock_acquired [simp]: "obeys R (acquire_loop p t s)"
proof -
  have "R w (snd (acquire_loop p t s w))" for w
  proof (induction p t s w rule: acquire_loop.induct)
    case (1 p t s w)
    obtain r w1 where pass: "acquire_pass p t s w = (r, w1)" by (rule prod.exhaust)
    then have R: "R w w1" by (rule obeysD [OF pass_made])
    show ?case
      using 1 pass R by (subst acquire_loop.simps) (auto split: sum.split intro: trans)
  qed
  then show ?thesis by (simp add: obeys_def)
qed

lemma under_lock [simp]: "obeys R m \<Longrightarrow> obeys R (with_force_overwrite_lock B p m)"
  by (simp add: with_force_overwrite_lock_def acquire_force_overwrite_lock_def Let_def)

lemma backup_restored [simp]: "obeys R (restore_backup b p)"
  by (simp add: restore_backup_def)

lemma backups_restored [simp]: "obeys R (restore_all bs)"
  by (induction bs) simp_all

lemma pair_replaced [simp]: "obeys R (write_keypair_files_with_overwrite B sp pp sc pc)"
  by (simp add: write_keypair_files_with_overwrite_def replace_keypair_def backup_existing_def
      commit_keypair_files_def at_stage_def discard_backup_def rollback_keypair_commit_def
      remove_partial_def Let_def split: prod.split)

lemma not_saved [simp]: "obeys R (save_password_to_credential_store dbg B a pw False q x)"
  by (simp add: save_password_to_credential_store_def)

lemma generate_handled [simp]:
  "\<not> cli_save_password cli \<Longrightarrow> obeys R (handle_generate C dbg B H cli)"
  by (simp add: handle_generate_def reject_existing_def print_generated_def generated Let_def)

end

section \<open>Frames that let the store be read\<close>

locale lookup_frame = store_frame +
  assumes asking: "w_keyring w' = w_keyring w \<Longrightarrow> R w w'"
begin

lemma password_read [simp]:
  "obeys R (get_password B a)" "obeys R (has_password dbg B a)"
proof -
  have "obeys R (entry_new a)" "obeys R (get_secret a)" for a
    by (auto simp: obeys_def entry_new_def get_secret_def keyring_call_def Let_def intro!: asking
        split: option.split)
  then show get: "obeys R (get_password B a)"
    by (simp add: get_password_def open_entry_def split: keyring_error.split)
  show "obeys R (has_password dbg B a)" by (simp add: has_password_def get)
qed

lemma inspected [simp]:
  "obeys R (inspect_secret_key C dbg B s check)" "obeys R (inspect_private_with_key C dbg B s pw)"
  "obeys R (inspect C dbg B opts)"
  by (simp_all add: inspect_secret_key_def inspect_secret_key_with_credentials_def
      inspect_private_with_key_def inspect_def inspect_file_def read_key_file_def
      dispatch_key_file_def Let_def split: option.split key_file_type.split)

lemma password_obtained [simp]:
  "obeys R (get_password_with_credential_store B H a prompt q p)"
  by (simp add: get_password_with_credential_store_def)

lemma sign_handled [simp]:
  assumes "\<not> cli_save_password cli" "\<not> cli_forget_password cli"
  shows "obeys R (handle_sign C dbg B H cli)"
  using assms
  by (simp add: handle_sign_def handle_sign_single_def handle_sign_multiple_def signed Let_def)

lemma recreate_handled [simp]:
  "\<not> cli_forget_password cli \<Longrightarrow> obeys R (handle_recreate C dbg B H cli)"
  by (simp add: handle_recreate_def recreated Let_def)

lemma inspect_handled [simp]:
  assumes "\<not> cli_save_password cli" "\<not> cli_forget_password cli"
  shows "obeys R (handle_inspect C dbg B H cli)"
  using assms
  by (simp add: handle_inspect_def inspect_key_action_def inspect_chosen_def inspect_source_def
      inspect_decrypted_def Let_def split: option.split prod.split)

end

section \<open>The program\<close>

lemma parse_cli_parsed:
  "parse_cli P B H w = (Inr (Parsed cli), w1) \<Longrightarrow>
     w1 = w \<and> (\<exists>args. parse_args P B args = Inr cli)"
  by (auto simp: parse_cli_def Let_def bind_io_Inr lift_res_def ret_def split: prod.splits if_splits)

context looking_frame
begin

lemma parse_handled [simp]: "obeys R (parse_cli P B H)"
  by (simp add: parse_cli_def Let_def split: prod.split)

lemma run_handled:
  assumes "\<And>act. cli_action cli = Some act \<Longrightarrow> obeys R (dispatch C dbg B H cli act)"
  shows "obeys R (run_cli C dbg B H cli)"
  using assms unfolding run_cli_def by (cases "cli_action cli") simp_all

text \<open>From the arguments to the exit code.\<close>

lemma main_handled:
  assumes "\<And>cli w1 act. parse_cli P B H w = (Inr (Parsed cli), w1) \<Longrightarrow> cli_action cli = Some act \<Longrightarrow>
      obeys R (dispatch C dbg B H cli act)"
    and "main C P dbg B H w = (code, w')"
  shows "R w w'"
proof -
  obtain r w1 where parse: "parse_cli P B H w = (r, w1)" by (rule prod.exhaust)
  then have R1: "R w w1" by (rule obeysD [OF parse_handled])
  obtain q w2 where run: "run C P dbg B H w = (q, w2)" by (rule prod.exhaust)
  have "R w w2"
  proof (cases "\<exists>cli. r = Inr (Parsed cli)")
    case True
    then obtain cli where cli: "r = Inr (Parsed cli)" ..
    then have "obeys R (run_cli C dbg B H cli)" using parse assms(1) by (intro run_handled) simp
    moreover have "run_cli C dbg B H cli w1 = (q, w2)"
      using run parse cli by (simp add: run_def bind_io_def)
    ultimately have "R w1 w2" by (rule obeysD)
    then show ?thesis by (rule trans [OF R1])
  next
    case False
    then have "w2 = w1"
      using run parse by (auto simp: run_def bind_io_def ret_def split: sum.splits parsed.splits)
    then show ?thesis using R1 by simp
  qed
  moreover have "R w2 w'"
  proof (cases q)
    case (Inl e)
    obtain s w3 where print: "eprintln (display_error dbg e) w2 = (s :: error + unit, w3)" by (rule prod.exhaust)
    then have "w3 = w'" using assms(2) run Inl by (simp add: main_def)
    then show ?thesis using print obeysD [OF other_calls(8)] by blast
  next
    case (Inr c)
    then show ?thesis using assms(2) run same by (simp add: main_def)
  qed
  ultimately show ?thesis by (rule trans)
qed

end

end
