(* ===== verification/Cli_Properties.thy ===== *)
theory Cli_Properties
  imports Cli PathLemmas Examples
begin

text \<open>
  The command line: what \<open>parse_args\<close> returns is well formed and its errors are usage errors, bundles of
  short flags are taken apart, and the default paths name files.
\<close>

section \<open>What the parser returns\<close>

definition wf_cli :: "build \<Rightarrow> cli \<Rightarrow> bool" where
  "wf_cli B cli \<longleftrightarrow>
     \<not> (cli_quiet cli \<and> cli_pretty_quiet cli)
     \<and> (cli_new_password_file cli \<noteq> None \<longrightarrow> cli_action cli = Some Change \<and> \<not> cli_no_password cli)
     \<and> (cli_save_password cli \<longrightarrow> b_credential_store B)
     \<and> (cli_force_weak_kdf cli \<longrightarrow> b_debug B)
     \<and> (\<forall>f \<in> set (cli_extra_files cli). \<not> starts_with ''-'' (to_string_lossy f))"

lemma bind_parse_Inr:
  "bind_parse m f a = (Inr y, a'') \<longleftrightarrow> (\<exists>x a'. m a = (Inr x, a') \<and> f x a' = (Inr y, a''))"
  by (auto simp: bind_parse_def split: prod.splits sum.splits)

lemma bind_parse_Inl:
  "bind_parse m f a = (Inl e, a'') \<longleftrightarrow>
     m a = (Inl e, a'') \<or> (\<exists>x a'. m a = (Inr x, a') \<and> f x a' = (Inl e, a''))"
  by (auto simp: bind_parse_def split: prod.splits sum.splits)

text \<open>Parsers that fail with a usage error only.\<close>

definition usage_only :: "('a, 'b) parse \<Rightarrow> bool" where
  "usage_only m \<longleftrightarrow> (\<forall>a e a'. m a = (Inl e, a') \<longrightarrow> (\<exists>t. e = Usage t))"

lemma usage_only_bind [simp]:
  "usage_only m \<Longrightarrow> (\<And>x. usage_only (f x)) \<Longrightarrow> usage_only (bind_parse m f)"
  unfolding usage_only_def bind_parse_Inl by blast

lemma usage_only_basic [simp]:
  "usage_only (return_parse x)" "usage_only (flag P keys)" "usage_only (opt_value P keys)"
  by (auto simp: usage_only_def return_parse_def flag_def opt_value_def map_err_def
      split: prod.splits sum.splits)

lemma usage_only_parts [simp]: "usage_only (either_flag P k l)" "usage_only (parse_fields P B act)"
  by (simp_all add: either_flag_def parse_fields_def)

lemma usage_only_actions [simp]: "usage_only (present_actions P xs)"
  by (induction xs) simp_all

lemma usage_only_action [simp]: "usage_only (parse_action P)"
  unfolding parse_action_def
  by (rule usage_only_bind [OF usage_only_actions]) (auto simp: usage_only_def split: list.splits)

lemma parse_fields_debug:
  "parse_fields P B act a = (Inr cli, a') \<Longrightarrow>
     cli_action cli = act \<and> cli_extra_files cli = [] \<and> (cli_force_weak_kdf cli \<longrightarrow> b_debug B)"
  by (auto simp: parse_fields_def bind_parse_Inr return_parse_def split: if_splits)

lemma reject_conflicts_cases:
  "case reject_conflicts B cli of
     Inl e \<Rightarrow> \<exists>t. e = Usage t
   | Inr _ \<Rightarrow> \<not> (cli_quiet cli \<and> cli_pretty_quiet cli)
       \<and> (cli_new_password_file cli \<noteq> None \<longrightarrow> cli_action cli = Some Change \<and> \<not> cli_no_password cli)
       \<and> (cli_save_password cli \<longrightarrow> b_credential_store B)"
  by (auto simp: reject_conflicts_def)

lemma take_remaining_cases:
  "case take_remaining remaining cli of
     Inl e \<Rightarrow> \<exists>t. e = Usage t
   | Inr cli' \<Rightarrow> (cli_extra_files cli = [] \<longrightarrow> cli' = cli\<lparr>cli_extra_files := remaining\<rparr>)
       \<and> (\<forall>f \<in> set remaining. \<not> starts_with ''-'' (to_string_lossy f))"
  by (cases remaining) (auto simp: take_remaining_def filter_empty_conv split: list.splits)

lemma parse_args_cases:
  "case parse_args P B args of Inl e \<Rightarrow> \<exists>t. e = Usage t | Inr cli \<Rightarrow> wf_cli B cli"
proof -
  obtain r a where r: "bind_parse (parse_action P) (parse_fields P B) args = (r, a)" by (rule prod.exhaust)
  show ?thesis
  proof (cases r)
    case (Inl e)
    have "usage_only (bind_parse (parse_action P) (parse_fields P B))" by simp
    then have "\<exists>t. e = Usage t" using r Inl unfolding usage_only_def by blast
    then show ?thesis using r Inl by (simp add: parse_args_def)
  next
    case (Inr cli)
    then have c: "cli_extra_files cli = []" "cli_force_weak_kdf cli \<longrightarrow> b_debug B"
      using r by (auto simp: bind_parse_Inr dest: parse_fields_debug)
    show ?thesis
      using r Inr c reject_conflicts_cases [where B = B and cli = cli]
        take_remaining_cases [where remaining = "pa_finish P a" and cli = cli]
      by (auto simp: parse_args_def and_then_def wf_cli_def split: sum.splits)
  qed
qed

section \<open>Bundles of flags\<close>

abbreviation short :: "nat \<Rightarrow> string" where "short c \<equiv> CHR ''-'' # utf8_encode c"

lemma expand_chars_flags:
  "set fs \<inter> set VALUE_FLAGS = {} \<Longrightarrow> expand_chars (fs @ cs) = map short fs @ expand_chars cs"
  by (induction fs) auto

lemma push_all_Nil: "push_all cs = [] \<longleftrightarrow> cs = []"
  by (auto simp: push_all_def utf8_encode_def split: if_splits)

lemma expand_chars_bundle:
  "set fs \<inter> set VALUE_FLAGS = {} \<Longrightarrow> expand_chars fs = map short fs"
  "set fs \<inter> set VALUE_FLAGS = {} \<Longrightarrow> v \<in> set VALUE_FLAGS \<Longrightarrow>
     expand_chars (fs @ v # rest)
     = map short fs @ short v # (if rest = [] then [] else [push_all rest])"
  using expand_chars_flags [of fs "[]"] expand_chars_flags [of fs "v # rest"]
  by (auto simp: push_all_def)

lemma expand_arg_other: "\<not> is_combined arg \<Longrightarrow> expand_arg arg = [arg]"
  by (simp add: expand_arg_def)

lemma is_utf8_dash: "is_utf8 s \<Longrightarrow> is_utf8 (CHR ''-'' # s)"
  using is_utf8_append [of "''-''" s] by (simp add: is_utf8_ascii)

lemma expand_arg_bundle:
  assumes "\<forall>c \<in> set cs. scalar_value c" "is_combined (CHR ''-'' # push_all cs)"
  shows "expand_arg (CHR ''-'' # push_all cs) = expand_chars cs"
  using assms is_utf8_push_all [OF assms(1)] chars_push_all [OF assms(1)] is_utf8_dash
  by (simp add: expand_arg_def)

section \<open>Default paths\<close>

lemma split_slash_app:
  "split_slash (p @ SLASH # s) = split_slash p @ split_slash s"
  by (induction p) (auto split: list.split simp: append_eq_Cons_conv)

lemma body_components_plain: "plain_name n \<Longrightarrow> body_components (ws @ [n]) = body_components ws @ [NormalComp n]"
  by (simp add: body_components_def component_of_def plain_name_def)

lemma components_of_name: "plain_name n \<Longrightarrow> components n = [NormalComp n]"
  using split_slash_plain [of n] body_components_plain [of n "[]"]
  by (cases n) (auto simp: components_def plain_name_def body_components_def)

lemma components_slash:
  assumes "plain_name n"
  shows "\<exists>cs. components (p @ SLASH # n) = cs @ [NormalComp n]"
proof -
  have n: "split_slash n = [n]" using assms split_slash_plain by (simp add: plain_name_def)
  show ?thesis
  proof (cases p)
    case Nil
    then show ?thesis using n body_components_plain [OF assms, of "[]"] by (simp add: components_def)
  next
    case (Cons c q)
    obtain w ws where w: "split_slash p = w # ws" by (cases "split_slash p") auto
    then have "split_slash (p @ SLASH # n) = w # ws @ [n]" by (simp add: split_slash_app n)
    moreover have "split_slash (q @ SLASH # n) = split_slash q @ [n]" by (simp add: split_slash_app n)
    ultimately show ?thesis
      using Cons body_components_plain [OF assms, of ws] body_components_plain [OF assms, of "w # ws"]
        body_components_plain [OF assms, of "split_slash q"]
      by (auto simp: components_def)
  qed
qed

lemma file_name_join:
  assumes "plain_name n"
  shows "file_name (path_join p n) = Some n"
proof -
  have n: "\<not> (n \<noteq> [] \<and> hd n = SLASH)" using assms by (cases n) (auto simp: plain_name_def)
  consider "path_join p n = n" | q where "path_join p n = q @ SLASH # n"
  proof (cases "p = []")
    case True
    then show ?thesis using n that(1) by (auto simp: path_join_def)
  next
    case False
    show ?thesis
    proof (cases "last p = SLASH")
      case True
      then have "path_join p n = butlast p @ SLASH # n"
        using n False append_butlast_last_id [OF False] by (auto simp: path_join_def)
      then show ?thesis by (rule that(2))
    qed (use n False that(2) in \<open>auto simp: path_join_def\<close>)
  qed
  then show ?thesis
  proof cases
    case 1
    then show ?thesis using components_of_name [OF assms] by (simp add: file_name_Some)
  next
    case 2
    then show ?thesis using components_slash [OF assms, of q] by (auto simp: file_name_Some)
  qed
qed

lemma default_secret_key_named:
  "default_secret_key_path H = Inr p \<Longrightarrow> \<exists>n. file_name p = Some n"
proof -
  have plain: "plain_name ''minisign.key''" "plain_name ''.minisign.key''" by (simp_all add: plain_name_def)
  have "file_name ''.minisign.key'' = Some ''.minisign.key''"
    by (simp add: file_name_Some components_of_name [OF plain(2)])
  moreover assume "default_secret_key_path H = Inr p"
  ultimately show ?thesis
    using file_name_join [OF plain(1)]
    by (auto simp: default_secret_key_path_def split: option.splits if_splits)
qed

lemma default_public_key_named: "file_name default_public_key_path = Some ''minisign.pub''"
  unfolding default_public_key_path_def by code_simp

section \<open>An instance of the argument parser\<close>

text \<open>A parser in the manner of \<open>pico-args\<close>, on which the theorems are instantiated: a flag is taken
  where it first occurs, an option with the word that follows it.\<close>

fun take_flag :: "string list \<Rightarrow> string list \<Rightarrow> string list option" where
  "take_flag keys [] = None"
| "take_flag keys (a # as) = (if a \<in> set keys then Some as else map_option ((#) a) (take_flag keys as))"

fun take_value :: "string list \<Rightarrow> string list \<Rightarrow> (string + string option) \<times> string list" where
  "take_value keys [] = (Inr None, [])"
| "take_value keys (a # as) =
     (if a \<in> set keys then
        (case as of
           [] \<Rightarrow> (Inl (''the '' @ [CHR 0x27] @ a @ [CHR 0x27] @ '' option doesn't have an associated value''), [])
         | v # vs \<Rightarrow> (Inr (Some v), vs))
      else (case take_value keys as of (r, rest) \<Rightarrow> (r, a # rest)))"

definition ref_pico :: "string list pico" where
  "ref_pico =
     \<lparr>pa_from_vec = (\<lambda>args. args),
      pa_contains = (\<lambda>keys args. case take_flag keys args of None \<Rightarrow> (False, args) | Some rest \<Rightarrow> (True, rest)),
      pa_opt_value = take_value,
      pa_finish = (\<lambda>args. args)\<rparr>"

section \<open>Properties\<close>

text \<open>C31: \<open>parse_args\<close>, whatever the crate \<open>pico-args\<close> hands it, fails with a usage error
  or returns a well-formed command line: not quiet and pretty-quiet at once, a new password file
  only for a password change that does not remove the password, a password to be saved only in a
  build with a credential store, weak parameters only in a debug build, and no further file that
  looks like a flag.\<close>

theorem parse_args_well_formed:
  "case parse_args P B args of
     Inl e \<Rightarrow> \<exists>t. e = Usage t
   | Inr cli \<Rightarrow>
       \<not> (cli_quiet cli \<and> cli_pretty_quiet cli)
       \<and> (cli_new_password_file cli \<noteq> None \<longrightarrow> cli_action cli = Some Change \<and> \<not> cli_no_password cli)
       \<and> (cli_save_password cli \<longrightarrow> b_credential_store B)
       \<and> (cli_force_weak_kdf cli \<longrightarrow> b_debug B)
       \<and> (\<forall>f \<in> set (cli_extra_files cli). \<not> starts_with ''-'' (to_string_lossy f))"
  using parse_args_cases [where P = P and B = B and args = args] unfolding wf_cli_def .

text \<open>Two quiet modes are refused, and one is not.\<close>

theorem parse_args_well_formed_witness:
  "(\<exists>t. parse_args ref_pico ex_build [''-V'', ''-q'', ''-Q''] = Inl (Usage t))
   \<and> (\<exists>cli. parse_args ref_pico ex_build [''-V'', ''-q'', ''-m'', ''f''] = Inr cli \<and> \<not> cli_pretty_quiet cli)"
proof -
  have e: "is_ok (parse_args ref_pico ex_build [''-V'', ''-q'', ''-Q'']) = False"
    by code_simp
  have o: "is_ok (parse_args ref_pico ex_build [''-V'', ''-q'', ''-m'', ''f''])
      \<and> (case parse_args ref_pico ex_build [''-V'', ''-q'', ''-m'', ''f''] of
            Inr cli \<Rightarrow> cli_quiet cli | Inl e \<Rightarrow> False)"
    by code_simp
  show ?thesis
    using e o parse_args_well_formed [where P = ref_pico and B = ex_build and args = "[''-V'', ''-q'', ''-Q'']"]
      parse_args_well_formed [where P = ref_pico and B = ex_build and args = "[''-V'', ''-q'', ''-m'', ''f'']"]
    by (auto split: sum.splits)
qed

text \<open>A bundle of short flags \<open>fs\<close> without a value is the same as the flags one by one; a bundle
  in which \<open>v\<close> is the first flag that takes a value is the flags before it, \<open>v\<close>, and the rest
  as the value; and a long option, a single flag or a word without a dash is left alone, so that
  expanding an expanded bundle of flags changes nothing.\<close>

theorem combined_flags_expanded:
  assumes "\<forall>c \<in> set (fs @ v # rest). scalar_value c" "set fs \<inter> set VALUE_FLAGS = {}"
    and "v \<in> set VALUE_FLAGS"
  shows "(is_combined (CHR ''-'' # push_all fs) \<longrightarrow>
      expand_combined_flags [CHR ''-'' # push_all fs] = map (\<lambda>c. CHR ''-'' # utf8_encode c) fs)
    \<and> (is_combined (CHR ''-'' # push_all (fs @ v # rest)) \<longrightarrow>
      expand_combined_flags [CHR ''-'' # push_all (fs @ v # rest)]
      = map (\<lambda>c. CHR ''-'' # utf8_encode c) fs @ (CHR ''-'' # utf8_encode v)
        # (if rest = [] then [] else [push_all rest]))
    \<and> ((\<forall>arg \<in> set args. \<not> is_combined arg) \<longrightarrow> expand_combined_flags args = args)"
proof (intro conjI impI)
  have fs: "\<forall>c \<in> set fs. scalar_value c" using assms(1) by simp
  show "expand_combined_flags [CHR ''-'' # push_all fs] = map (\<lambda>c. CHR ''-'' # utf8_encode c) fs"
    if "is_combined (CHR ''-'' # push_all fs)"
    using that expand_arg_bundle [OF fs] expand_chars_bundle(1) [OF assms(2)]
    by (simp add: expand_combined_flags_def)
  show "expand_combined_flags [CHR ''-'' # push_all (fs @ v # rest)]
      = map (\<lambda>c. CHR ''-'' # utf8_encode c) fs @ (CHR ''-'' # utf8_encode v)
        # (if rest = [] then [] else [push_all rest])"
    if "is_combined (CHR ''-'' # push_all (fs @ v # rest))"
    using that expand_arg_bundle [OF assms(1)] expand_chars_bundle(2) [OF assms(2,3), of rest]
    by (simp add: expand_combined_flags_def)
  show "\<forall>arg \<in> set args. \<not> is_combined arg \<Longrightarrow> expand_combined_flags args = args"
    by (induction args) (simp_all add: expand_combined_flags_def expand_arg_other)
qed

theorem combined_flags_expanded_witness:
  "expand_combined_flags [''-Vm''] = [''-V'', ''-m'']
   \<and> expand_combined_flags [''-GfWskey''] = [''-G'', ''-f'', ''-W'', ''-s'', ''key'']
   \<and> expand_combined_flags [''-GfW''] = [''-G'', ''-f'', ''-W'']"
proof -
  have dash: "starts_with ''-'' (CHR ''-'' # s)" "starts_with ''--'' (CHR ''-'' # s) \<longleftrightarrow> starts_with ''-'' s" for s
    by (simp_all add: starts_with_def)
  have flags: "VALUE_FLAGS = [109, 112, 80, 115, 116, 99, 120]" "utf8_encode 71 = ''G''" "utf8_encode 102 = ''f''"
    "utf8_encode 87 = ''W''" "utf8_encode 86 = ''V''" "utf8_encode 109 = ''m''" "utf8_encode 115 = ''s''"
    "push_all [86, 109] = ''Vm''" "push_all [71, 102, 87] = ''GfW''" "push_all [107, 101, 121] = ''key''"
    "push_all [71, 102, 87, 115, 107, 101, 121] = ''GfWskey''"
    by code_simp+
  have plain: "\<not> starts_with ''-'' ''Vm''" "\<not> starts_with ''-'' ''GfW''" "\<not> starts_with ''-'' ''GfWskey''"
    by code_simp+
  have "expand_combined_flags [''-Vm''] = [''-V'', ''-m'']"
    using combined_flags_expanded [of "[86]" 109 "[]"]
    by (simp add: flags plain dash is_combined_def scalar_value_def)
  moreover have "expand_combined_flags [''-GfWskey''] = [''-G'', ''-f'', ''-W'', ''-s'', ''key'']"
    using combined_flags_expanded [of "[71, 102, 87]" 115 "[107, 101, 121]"]
    by (simp add: flags plain dash is_combined_def scalar_value_def)
  moreover have "expand_combined_flags [''-GfW''] = [''-G'', ''-f'', ''-W'']"
    using combined_flags_expanded [of "[71, 102, 87]" 115 "[]"]
    by (simp add: flags plain dash is_combined_def scalar_value_def)
  ultimately show ?thesis by blast
qed

end
