(* ===== verification/Reach.thy ===== *)
theory Reach
  imports Frames NoOverwrite Cli_Properties
begin

text \<open>
  The frames of the program: what a run does not touch. \<open>files_same\<close> and \<open>keeping_files\<close> are
  about the files, \<open>store_unused\<close> and \<open>store_kept\<close> about the credential store.
\<close>

section \<open>The credential store\<close>

definition store_unused :: "world \<Rightarrow> world \<Rightarrow> bool" where
  "store_unused w w' \<longleftrightarrow> w_keyring w' = w_keyring w \<and> w_keyring_asked w' = w_keyring_asked w"

interpretation unused: store_frame store_unused
  by unfold_locales (auto simp: store_unused_def)

definition store_kept :: "world \<Rightarrow> world \<Rightarrow> bool" where
  "store_kept w w' \<longleftrightarrow> w_keyring w' = w_keyring w"

interpretation kept: lookup_frame store_kept
  by unfold_locales (auto simp: store_kept_def)

section \<open>What looks\<close>

text \<open>The strictest of these relations that the parts of a program share: the files and what the host
  does are the same.\<close>

definition looks :: "world \<Rightarrow> world \<Rightarrow> bool" where
  "looks w w' \<longleftrightarrow> same_host w w' \<and> w_fs w' = w_fs w \<and> w_trace w' = w_trace w"

interpretation lookers: file_frame looks
  by unfold_locales (auto simp: looks_def same_host_def)

section \<open>The files\<close>

definition files_same :: "world \<Rightarrow> world \<Rightarrow> bool" where
  "files_same w w' \<longleftrightarrow> w_fs w' = w_fs w \<and> w_trace w' = w_trace w"

interpretation untouched: file_frame files_same
  by unfold_locales (auto simp: files_same_def)

text \<open>Every entry, and every inode that was allocated, stays as it was; there may be more of both.\<close>

definition keeping :: "fs \<Rightarrow> fs \<Rightarrow> bool" where
  "keeping s s' \<longleftrightarrow>
     fs_next s \<le> fs_next s'
     \<and> (\<forall>l e. lookup s l = Some e \<longrightarrow> lookup s' l = Some e)
     \<and> (\<forall>i < fs_next s. fs_inodes s' i = fs_inodes s i)"

lemma keeping_refl [simp]: "keeping s s"
  by (simp add: keeping_def)

lemma keeping_trans: "keeping s t \<Longrightarrow> keeping t u \<Longrightarrow> keeping s u"
  unfolding keeping_def by (metis order.strict_trans2 order_trans)

lemma keeping_view:
  "wf_fs s \<Longrightarrow> keeping s s' \<Longrightarrow> lookup s l \<noteq> None \<Longrightarrow> view s' l = view s l"
  by (rule view_eqI) (auto simp: keeping_def wf_fs_def)

lemma additive_keeping: "additive s s' \<Longrightarrow> keeping s s'"
  unfolding additive_def keeping_def by (metis option.distinct(1))

lemma keeping_create:
  "sys_create_new p m t s = (r, s') \<Longrightarrow> keeping s s' \<and> (\<forall>i. r = Inr i \<longrightarrow> fs_next s \<le> i)"
  by (auto simp: sys_create_new_def add_file_def keeping_def lookup_def Let_def
      split: sum.splits option.splits if_splits)

lemma keeping_append: "fs_next s \<le> i \<Longrightarrow> keeping s s1 \<Longrightarrow> keeping s (append_inode i bs s1)"
  by (auto simp: keeping_def append_inode_def split: option.split)

lemma keeping_mkdir: "sys_mkdir p m s = (r, s') \<Longrightarrow> keeping s s'"
  by (auto simp: sys_mkdir_def keeping_def lookup_def split: sum.splits option.splits if_splits)

definition keeping_files :: "world \<Rightarrow> world \<Rightarrow> bool" where
  "keeping_files w w' \<longleftrightarrow> passes (keeping (w_fs w)) w w' \<and> keeping (w_fs w) (w_fs w')"

lemma keeping_files_trans:
  assumes "keeping_files u v" "keeping_files v w"
  shows "keeping_files u w"
proof -
  have "keeping (w_fs u) (w_fs v)" using assms(1) by (simp add: keeping_files_def)
  then have "passes (keeping (w_fs u)) v w"
    using assms(2) by (auto simp: keeping_files_def intro: passes_mono keeping_trans)
  then show ?thesis
    using assms by (auto simp: keeping_files_def intro: passes_trans keeping_trans)
qed

lemma keeping_files_step:
  "w_trace w' = w_trace w @ [w_fs w'] \<Longrightarrow> keeping (w_fs w) (w_fs w') \<Longrightarrow> keeping_files w w'"
  by (auto simp: keeping_files_def intro: passes_snoc)

lemma keeping_files_same:
  "w_fs w' = w_fs w \<Longrightarrow> w_trace w' = w_trace w \<Longrightarrow> keeping_files w w'"
  by (simp add: keeping_files_def passes_refl)

lemma adding_keeping: "adding w w' \<Longrightarrow> keeping_files w w'"
  by (auto simp: adding_def keeping_files_def intro: passes_mono additive_keeping)

text \<open>Seen from the start \<open>s\<close> of a batch: as long as everything of \<open>s\<close> is kept, it stays kept.\<close>

definition keeping_from :: "fs \<Rightarrow> world \<Rightarrow> world \<Rightarrow> bool" where
  "keeping_from s w w' \<longleftrightarrow>
     (keeping s (w_fs w) \<longrightarrow> keeping s (w_fs w') \<and> passes (keeping s) w w')"

interpretation since: file_frame "keeping_from s" for s
  by unfold_locales (auto simp: keeping_from_def passes_refl intro: passes_trans)

lemma wp_obeys: "(\<And>w. wp m (\<lambda>r. R w) w) \<Longrightarrow> obeys R m"
  by (rule obeysI) (blast dest: wpD)

lemma keeping_write_task:
  "within (\<lambda>w. keeping s (w_fs w)) (keeping_from s) (write_file_task p bs False)"
proof -
  let ?K = "\<lambda>(_ :: unit) w. keeping s (w_fs w)" and ?E = "\<lambda>(_ :: unit) w (_ :: unit) w'. keeping_from s w w'"
  have new: "behaves ?K ?E (\<lambda>r _. \<forall>i. r = Inr i \<longrightarrow> fs_next s \<le> i) ()
      (map_err_task e (call_task (create_new p DEFAULT_FILE_MODE)))" for e :: "io_error \<Rightarrow> error"
  proof (intro behaves_map_err behaves_call)
    fix w r w'
    assume k: "keeping s (w_fs w)" and run: "create_new p DEFAULT_FILE_MODE w = (r, w')"
    have made: "keeping s f \<and> (\<forall>i. r = Inr i \<longrightarrow> fs_next s \<le> i)"
      if "sys_create_new p m t (w_fs w) = (r, f)" for r f m t
      using keeping_create [OF that] k keeping_trans [OF k] by (fastforce simp: keeping_def)
    have "wp (create_new p DEFAULT_FILE_MODE)
        (\<lambda>r w1. keeping_from s w w1 \<and> (\<forall>i. r = Inr i \<longrightarrow> fs_next s \<le> i)) w"
      unfolding create_new_def
      by (rule wp_update) (use made in \<open>auto simp: keeping_from_def intro: passes_snoc passes_refl\<close>)
    from wpD [OF this run] show "\<exists>h. keeping_from s w w' \<and> (\<forall>i. map_err e r = Inr i \<longrightarrow> fs_next s \<le> i)"
      by (cases r) (auto simp: map_err_def)
  qed
  have append: "within (\<lambda>w. keeping s (w_fs w)) (keeping_from s) (call_task (write_all i bs))"
    if "fs_next s \<le> i" for i
    unfolding within_def
  proof (rule behaves_call)
    fix w r w'
    assume k: "keeping s (w_fs w)" and run: "write_all i bs w = (r, w')"
    have "keeping s (append_inode i d (w_fs w))" for d using that k by (rule keeping_append)
    then have "wp (write_all i bs) (\<lambda>r. keeping_from s w) w"
      by (intro wp_write_all) (auto simp: keeping_from_def passes_def)
    from wpD [OF this run] show "\<exists>h. keeping_from s w w' \<and> True" by simp
  qed
  have "within (\<lambda>w. keeping s (w_fs w)) (keeping_from s)
      (bind_task (map_err_task e (call_task (create_new p DEFAULT_FILE_MODE))) (\<lambda>file.
         bind_task (map_err_task (FileWrite p) (call_task (write_all file bs))) (\<lambda>_. ret_task ())))" for e
    by (rule behaves_within, rule behaves_bind [OF new])
      (use append in \<open>auto simp: within_def [symmetric]\<close>)
  then show ?thesis by (simp add: write_file_task_def)
qed

interpretation keepers: creating_frame keeping_files
proof (unfold_locales, goal_cases)
  case (4 p bs)
  show ?case
  proof (rule obeysI)
    fix w r w'
    assume "write_file p bs False w = (r, w')"
    then have "run_task (write_file_task p bs False) w = (r, w')" by (simp add: run_tasks)
    then have "keeping_from (w_fs w) w w'"
      by (intro since.run_within [of _ w "\<lambda>v. keeping (w_fs w) (w_fs v)", OF _ keeping_write_task])
        (simp_all add: keeping_from_def)
    then show "keeping_files w w'" by (simp add: keeping_from_def keeping_files_def)
  qed
next
  case (5 p m)
  have "wp (mkdir p m) (\<lambda>r. keeping_files w) w" for w
    unfolding mkdir_def
    by (rule wp_update) (auto intro: keeping_files_same keeping_files_step dest: keeping_mkdir)
  then show ?case by (rule wp_obeys)
next
  case (6 sp pp sc pc)
  then have "wp (write_keypair_files_create_new sp pp sc pc) (\<lambda>r. adding w) w" for w
    using adding_create_new by blast
  then have "wp (write_keypair_files_create_new sp pp sc pc) (\<lambda>r. keeping_files w) w" for w
    by (rule wp_mono) (rule adding_keeping)
  then show ?case by (rule wp_obeys)
next
  case (7 opts C dbg B files sk kn sequential)
  show ?case
  proof (rule obeysI)
    fix w r w'
    assume run: "collect_sign_results C dbg B files sk kn opts sequential w = (r, w')"
    have "keeping_from (w_fs w) w w'"
      by (rule since.batch_signed [OF _ _ run, where K = "\<lambda>v. keeping (w_fs w) (w_fs v)"])
        (use 7 keeping_write_task in \<open>simp_all add: keeping_from_def\<close>)
    then show "keeping_files w w'" by (simp add: keeping_from_def keeping_files_def)
  qed
qed (auto intro: keeping_files_same keeping_files_trans)

text \<open>The names that a command line gives to the keys of \<open>-G\<close> are names of files.\<close>

definition names_files :: "cli \<Rightarrow> bool" where
  "names_files cli \<longleftrightarrow>
     (\<forall>p. cli_secret_key_file cli = Some p \<or> cli_public_key_file cli = Some p \<longrightarrow> file_name p \<noteq> None)"

lemma bind_lift_Inr: "bind_io (lift_res (Inr x)) f = f x"
  by (simp add: fun_eq_iff bind_io_def lift_res_def)

lemma generate_keeps_files:
  assumes "\<not> cli_force cli" "names_files cli"
  shows "obeys keeping_files (handle_generate C dbg B H cli)"
proof (cases "default_secret_key_path H")
  case (Inl e)
  then have "handle_generate C dbg B H cli = (\<lambda>w. (Inl e, w))"
    by (simp add: handle_generate_def fun_eq_iff lift_res_def bind_io_def)
  then show ?thesis by (simp add: obeys_def keepers.same)
next
  case (Inr d)
  let ?s = "unwrap_or (cli_secret_key_file cli) d"
  let ?p = "unwrap_or (cli_public_key_file cli) default_public_key_path"
  have names: "file_name ?s \<noteq> None" "file_name ?p \<noteq> None"
    using assms(2) default_secret_key_named [OF Inr] default_public_key_named
    by (auto simp: names_files_def unwrap_or_def split: option.split)
  let ?o = "generate_cli_options B cli ?s ?p"
  have "go_overwrite ?o = Preserve \<and> go_secret_key_file ?o = ?s \<and> go_public_key_file ?o = ?p"
    using assms(1)
    by (auto simp: generate_cli_options_def generate_set_comment_def generate_set_force_def
        generate_set_no_password_def generate_set_force_weak_kdf_def generate_builder_def
        resolve_force_weak_kdf_def unwrap_or_def Let_def split: option.split)
  then have "obeys keeping_files (generate C B ?o pw)" for pw
    by (intro keepers.generated) (simp_all add: names keepers.makes_directories keepers.creates_pairs)
  then show ?thesis
    by (simp add: handle_generate_def Inr bind_lift_Inr Let_def print_generated_def reject_existing_def)
qed

end
