(* ===== verification/TrueReads.thy ===== *)
theory TrueReads
  imports Reach
begin

text \<open>
  Readers on a host whose reads deliver what the files hold, while any of its calls may fail: what a
  reader returns is what is on the disk.
\<close>

section \<open>Files as they are on the disk\<close>

definition true_reads :: "world \<Rightarrow> bool" where
  "true_reads w \<longleftrightarrow> (\<forall>n bs. delivers (w_reads w n bs) bs)"

lemma true_reads_looks: "looks w v \<Longrightarrow> true_reads w \<Longrightarrow> true_reads v"
  by (simp add: true_reads_def looks_def same_host_def)

lemma true_reads_retimed: "retimed w v \<Longrightarrow> true_reads w \<Longrightarrow> true_reads v"
  by (auto simp: true_reads_def retimed_def)

text \<open>If \<open>p\<close> leads to a file, that file has an inode.\<close>

definition sound_at :: "fs \<Rightarrow> path \<Rightarrow> bool" where
  "sound_at s p \<longleftrightarrow> (\<forall>i. sys_open p s = Inr (FileHandle i) \<longrightarrow> fs_inodes s i \<noteq> None)"

lemma regular_sound: "regular s p bs \<Longrightarrow> sound_at s p"
  by (auto simp: regular_def sound_at_def)

lemma regular_unique: "regular s p a \<Longrightarrow> regular s p b \<Longrightarrow> a = b"
  by (auto simp: regular_def)

lemma read_truly:
  assumes "open_file p w = (Inr h, w1)" "looks w1 w2" "file_reads h w2 = (Inr rs, w3)"
    and "true_reads w" "sound_at (w_fs w) p"
  shows "(\<exists>bs. regular (w_fs w) p bs \<and> delivers rs bs) \<or> rs = [Inl EISDIR]"
proof -
  have "looks w w1" using lookers.calls(1) assms(1) by (rule obeysD)
  then have "looks w w2" using assms(2) by (rule lookers.trans)
  then have w2: "w_fs w2 = w_fs w" "true_reads w2"
    using assms(4) true_reads_looks by (simp_all add: looks_def)
  have o: "sys_open p (w_fs w) = Inr h"
    using assms(1) by (auto simp: open_file_def query_def Let_def split: option.splits)
  show ?thesis
  proof (cases h)
    case (DirHandle l)
    then show ?thesis using assms(3) by (auto simp: file_reads_def query_def Let_def split: option.splits)
  next
    case (FileHandle i)
    then obtain n where n: "fs_inodes (w_fs w) i = Some n" using assms(5) o by (auto simp: sound_at_def)
    then have "rs = w_reads w2 (w_calls w2) (i_bytes n)"
      using assms(3) FileHandle w2(1) by (auto simp: file_reads_def query_def Let_def split: option.splits)
    then have "delivers rs (i_bytes n)" using w2(2) by (simp add: true_reads_def)
    moreover have "regular (w_fs w) p (i_bytes n)" using o n FileHandle by (simp add: regular_def)
    ultimately show ?thesis by blast
  qed
qed

lemma read_to_end_dir: "read_to_end (Suc m) [] [Inl EISDIR] = Inl EISDIR"
  by (simp add: EISDIR_def)

section \<open>Readers\<close>

lemma blake2b_stream_delivers:
  assumes "blake2b_ok C" "delivers rs bs" "blake2b_512_stream C rs = Inr x"
  shows "x = blake2b_512 C bs"
proof -
  have "\<exists>blocks. rs = map Inr blocks"
  proof (rule ccontr)
    assume "\<nexists>blocks. rs = map Inr blocks"
    then obtain blocks e rest where rs: "rs = map Inr blocks @ Inl e # rest"
    proof (induction rs arbitrary: thesis)
      case Nil
      then show ?case by (metis list.map(1))
    next
      case (Cons r rs)
      show ?case
      proof (cases r)
        case (Inl e)
        then show ?thesis using Cons.prems(1) [of "[]" e rs] by simp
      next
        case (Inr b)
        then have "\<nexists>blocks. rs = map Inr blocks" using Cons.prems(2) by (metis list.map(2))
        then obtain blocks e rest where "rs = map Inr blocks @ Inl e # rest" using Cons.IH by blast
        then show ?thesis using Cons.prems(1) [of "b # blocks" e rest] Inr by simp
      qed
    qed
    have "\<forall>b \<in> set blocks. b \<noteq> []" using assms(2) rs by (force simp: delivers_def)
    from blake2b_512_stream_error [OF this, of C e rest] show False using assms(3) rs by simp
  qed
  then obtain blocks where rs: "rs = map Inr blocks" by blast
  then have "\<forall>b \<in> set blocks. b \<noteq> []" "concat blocks = bs"
    using assms(2) by (auto simp: delivers_def block_of_def comp_def)
  then show ?thesis using blake2b_512_stream_eq [OF assms(1)] assms(3) rs by auto
qed

lemma hash_file_true:
  assumes "hash_file C p w = (Inr x, w')" "blake2b_ok C" "true_reads w" "sound_at (w_fs w) p"
  shows "\<exists>bs. regular (w_fs w) p bs \<and> x = blake2b_512 C bs"
proof -
  obtain h w1 rs w2 where o: "open_file p w = (Inr h, w1)" "file_reads h w1 = (Inr rs, w2)"
    "blake2b_512_stream C rs = Inr x"
    using assms(1) by (auto simp: hash_file_def bind_io_Inr map_err_io_Inr lift_res_def)
  have "rs \<noteq> [Inl EISDIR]" using blake2b_512_stream_error [of "[]" C EISDIR "[]"] o(3) by auto
  then obtain bs where "regular (w_fs w) p bs" "delivers rs bs"
    using read_truly [OF o(1) lookers.same o(2) assms(3,4)] by blast
  then show ?thesis using blake2b_stream_delivers [OF assms(2)] o(3) by blast
qed

lemma read_message_true:
  assumes "read_message_file p w = (Inr x, w')" "true_reads w" "sound_at (w_fs w) p"
  shows "regular (w_fs w) p x"
proof -
  obtain h w1 m w2 rs w3 where o: "open_file p w = (Inr h, w1)" "fstat h w1 = (Inr m, w2)"
    "file_reads h w2 = (Inr rs, w3)" "read_to_end (MAX_MESSAGE_SIZE_BYTES + 1) [] rs = Inr x"
    "\<not> length x > MAX_MESSAGE_SIZE_BYTES"
    using assms(1)
    by (auto simp: read_message_file_def bind_io_Inr map_err_io_Inr lift_res_def throw_def ret_def result_simps
        split: if_splits)
  have "looks w1 w2" using lookers.calls(2) o(2) by (rule obeysD)
  moreover have "rs \<noteq> [Inl EISDIR]" using o(4) read_to_end_dir by auto
  ultimately obtain bs where bs: "regular (w_fs w) p bs" "delivers rs bs"
    using read_truly [OF o(1) _ o(3) assms(2,3)] by blast
  then have "x = bs" using read_to_end_delivers [OF bs(2), of "[]" "MAX_MESSAGE_SIZE_BYTES + 1"] o(4,5) by auto
  then show ?thesis using bs(1) by simp
qed

lemma read_file_true:
  assumes "read_file_bounded p m w = (Inr x, w')" "true_reads w" "sound_at (w_fs w) p"
  shows "\<exists>bs. regular (w_fs w) p bs \<and> length bs \<le> m \<and> from_utf8 bs = Inr x"
proof -
  obtain h w1 st w2 rs w3 bf where o: "open_file p w = (Inr h, w1)" "fstat h w1 = (Inr st, w2)"
    "file_reads h w2 = (Inr rs, w3)" "read_to_end (m + 1) [] rs = Inr bf" "\<not> length bf > m" "from_utf8 bf = Inr x"
    using assms(1)
    by (auto simp: read_file_bounded_def read_bounded_string_from_reader_def bind_io_Inr map_err_io_Inr
        lift_res_def throw_def result_simps split: if_splits)
  have "looks w1 w2" using lookers.calls(2) o(2) by (rule obeysD)
  moreover have "rs \<noteq> [Inl EISDIR]" using o(4) read_to_end_dir by auto
  ultimately obtain bs where bs: "regular (w_fs w) p bs" "delivers rs bs"
    using read_truly [OF o(1) _ o(3) assms(2,3)] by blast
  then have "bf = bs" using read_to_end_delivers [OF bs(2), of "[]" "m + 1"] o(4,5) by auto
  then show ?thesis using bs(1) o(5,6) by auto
qed

lemma read_secret_true:
  assumes "read_secret_file_bounded p m w = (Inr x, w')" "true_reads w" "sound_at (w_fs w) p"
  shows "regular (w_fs w) p x \<and> length x \<le> m"
proof -
  obtain h w1 st w2 rs w3 bf len where o: "open_file p w = (Inr h, w1)" "fstat h w1 = (Inr st, w2)"
    "file_reads h w2 = (Inr rs, w3)" "read_secret_loop (replicate (m + 1) 0) 0 rs = Inr (bf, len)" "\<not> len > m"
    "x = take len bf"
    using assms(1)
    by (auto simp: read_secret_file_bounded_def bind_io_Inr map_err_io_Inr Let_def
        lift_res_def throw_def ret_def result_simps split: if_splits)
  have loop: "read_to_end (m + 1) [] rs = Inr x" "length x \<le> m"
    using read_secret_loop_reads [of 0 "replicate (m + 1) 0" rs] read_secret_loop_len [OF o(4)] o(4-6)
    by (simp_all add: filled_def)
  have "looks w1 w2" using lookers.calls(2) o(2) by (rule obeysD)
  moreover have "rs \<noteq> [Inl EISDIR]" using loop(1) read_to_end_dir by auto
  ultimately obtain bs where bs: "regular (w_fs w) p bs" "delivers rs bs"
    using read_truly [OF o(1) _ o(3) assms(2,3)] by blast
  then have "x = bs" using read_to_end_delivers [OF bs(2), of "[]" "m + 1"] loop by auto
  then show ?thesis using bs(1) loop(2) by simp
qed

section \<open>Verification\<close>

text \<open>A message that passes has passed as it is on the disk.\<close>

lemma verify_message_true:
  assumes "verify_message_signature C pubkey b p force_prehashed capture w = (Inr out, w')"
    and "blake2b_ok C" "true_reads w" "sound_at (w_fs w) p"
  shows "\<exists>bs. regular (w_fs w) p bs
    \<and> verify C (pk_public_key pubkey) (signed_data C (sb_sig_struct b) bs) (ss_signature (sb_sig_struct b)) = Inr ()"
proof -
  have read: "\<exists>bs. regular (w_fs w) p bs \<and> x = bs" if "read_message_file p v = (Inr x, v')" "looks w v" for x v v'
  proof -
    have "true_reads v" "w_fs v = w_fs w" using that(2) true_reads_looks [OF that(2) assms(3)] by (simp_all add: looks_def)
    then show ?thesis using read_message_true [OF that(1)] assms(4) by auto
  qed
  consider (hashed) h v where "ss_prehashed (sb_sig_struct b)" "hash_file C p w = (Inr h, v)"
      "verify C (pk_public_key pubkey) h (ss_signature (sb_sig_struct b)) = Inr ()"
  | (captured) x v v' where "ss_prehashed (sb_sig_struct b)" "looks w v" "read_message_file p v = (Inr x, v')"
      "verify C (pk_public_key pubkey) (blake2b_512 C x) (ss_signature (sb_sig_struct b)) = Inr ()"
  | (whole) x v' where "\<not> ss_prehashed (sb_sig_struct b)" "read_message_file p w = (Inr x, v')"
      "verify C (pk_public_key pubkey) x (ss_signature (sb_sig_struct b)) = Inr ()"
  proof (cases "ss_prehashed (sb_sig_struct b) \<and> capture")
    case True
    then obtain m v where m: "metadata p w = (Inr m, v)" and rest: "(if st_len m > MAX_MESSAGE_SIZE_BYTES then throw too_large_for_output
             else
               bind_io (read_message_file p) (\<lambda>file_buf.
               bind_io (lift_res (verify C (pk_public_key pubkey) (blake2b_512 C file_buf)
                          (ss_signature (sb_sig_struct b)))) (\<lambda>_. ret (Some file_buf)))) v = (Inr out, w')"
      using assms(1)
      by (auto simp: verify_message_signature_def throw_def bind_io_Inr map_err_io_Inr split: if_splits)
    have "obeys looks (metadata p)" by simp
    then have "looks w v" using m by (rule obeysD)
    then show ?thesis
      using captured True rest by (auto simp: throw_def bind_io_Inr lift_res_def split: if_splits)
  next
    case False
    then show ?thesis
      using assms(1) hashed whole
      by (auto simp: verify_message_signature_def throw_def bind_io_Inr lift_res_def split: if_splits)
  qed
  then show ?thesis
  proof cases
    case hashed
    then show ?thesis using hash_file_true [OF hashed(2) assms(2-4)] by (auto simp: signed_data_def)
  next
    case captured
    then show ?thesis using read [OF captured(3,2)] by (auto simp: signed_data_def)
  next
    case whole
    then show ?thesis using read [OF whole(2) lookers.same] by (auto simp: signed_data_def)
  qed
qed

lemma load_signature_true:
  assumes "load_signature C p w = (Inr b, w')" "true_reads w" "sound_at (w_fs w) p"
  shows "\<exists>bs. regular (w_fs w) p bs \<and> sig_box_from_file_contents C (text_of bs) = Inr b"
proof -
  obtain x where x: "read_file_bounded p MAX_SIGNATURE_FILE_BYTES w = (Inr x, w')" "sig_box_from_file_contents C x = Inr b"
    using assms(1) by (auto simp: load_signature_def bind_io_Inr lift_res_def)
  then show ?thesis using read_file_true [OF x(1) assms(2,3)] by (auto simp: from_utf8_Inr)
qed

text \<open>The key a source stands for: the one in the file, or the one given.\<close>

definition key_from :: "crates \<Rightarrow> fs \<Rightarrow> public_key_source \<Rightarrow> pubkey_struct \<Rightarrow> bool" where
  "key_from C s source pubkey \<longleftrightarrow>
     (case source of
        SourceFile p \<Rightarrow> \<exists>bs. regular s p bs \<and> pubkey_from_file_contents C (text_of bs) = Inr pubkey
      | SourceBase64 b64 \<Rightarrow> pubkey_from_base64 C b64 = Inr pubkey)"

lemma load_public_key_true:
  assumes "load_public_key C source w = (Inr pubkey, w')" "true_reads w"
    and "\<And>p. source = SourceFile p \<Longrightarrow> sound_at (w_fs w) p"
  shows "key_from C (w_fs w) source pubkey"
proof (cases source)
  case (SourceFile p)
  then obtain x where x: "read_file_bounded p MAX_KEY_FILE_BYTES w = (Inr x, w')" "pubkey_from_file_contents C x = Inr pubkey"
    using assms(1) by (auto simp: load_public_key_def bind_io_Inr lift_res_def)
  then show ?thesis
    using read_file_true [OF x(1) assms(2) assms(3) [OF SourceFile]] SourceFile
    by (auto simp: key_from_def from_utf8_Inr)
next
  case (SourceBase64 s)
  then show ?thesis using assms(1) by (auto simp: load_public_key_def key_from_def lift_res_def)
qed

end
