(* ===== verification/File_Properties.thy ===== *)
theory File_Properties
  imports TrueReads
begin

text \<open>
  Properties of the file operations: bounded reads, atomic replacement, writing without
  overwriting, the refusal of aliases and of symbolic links, the lock of a forced overwrite and
  the printable form of a path, with instances in a small world.
\<close>

section \<open>Reading\<close>

text \<open>The loop that reads secrets into a fixed buffer, so that no copy of them is left behind
  by a growing one, reads what \<open>read_to_end\<close> reads: the same bytes, the same error, whatever the
  host returns and however it cuts the file.\<close>

theorem read_secret_loop_is_read_to_end:
  "map_sum id (\<lambda>(buf, len). take len buf) (read_secret_loop (replicate n 0) 0 rs) = read_to_end n [] rs"
  using read_secret_loop_reads [of 0 "replicate n 0" rs] by (simp add: filled_def [abs_def])

text \<open>C36: the three readers return exactly the file, and never more than their limit. No host can make
  them return more, not even by letting the file grow while it is read. Whatever calls fail, as long as
  reads deliver what the files hold, however they split it and however often they are interrupted,
  what is returned is the bytes of the file. And where no call fails, a file within the limit is
  returned (as text if it is UTF-8, else with the error that says so), and a file over the limit is
  refused with its size in the message.\<close>

theorem bounded_reads_exact:
  "(\<forall>x w'. read_secret_file_bounded p m w = (Inr x, w') \<longrightarrow> length x \<le> m)
   \<and> (\<forall>s w'. read_file_bounded p m w = (Inr s, w') \<longrightarrow> length s \<le> m)
   \<and> (\<forall>x w'. read_message_file p w = (Inr x, w') \<longrightarrow> length x \<le> MAX_MESSAGE_SIZE_BYTES)
   \<and> (regular (w_fs w) p bs \<longrightarrow> (\<forall>n bs. delivers (w_reads w n bs) bs) \<longrightarrow>
        (\<forall>x w'. read_secret_file_bounded p m w = (Inr x, w') \<longrightarrow> x = bs)
      \<and> (\<forall>s w'. read_file_bounded p m w = (Inr s, w') \<longrightarrow> from_utf8 bs = Inr s)
      \<and> (\<forall>x w'. read_message_file p w = (Inr x, w') \<longrightarrow> x = bs))
   \<and> (regular (w_fs w) p bs \<longrightarrow> honest w \<longrightarrow>
        fst (read_secret_file_bounded p m w) = (if length bs \<le> m then Inr bs else Inl (too_large (length bs) m))
      \<and> fst (read_file_bounded p m w) =
          (if length bs \<le> m then map_err (InvalidUtf8 (display p)) (from_utf8 bs) else Inl (too_large (length bs) m))
      \<and> fst (read_message_file p w) =
          (if length bs \<le> MAX_MESSAGE_SIZE_BYTES then Inr bs else Inl (message_too_large (length bs))))"
proof (intro conjI impI allI)
  assume r: "regular (w_fs w) p bs" and d: "\<forall>n bs. delivers (w_reads w n bs) bs"
  have t: "true_reads w" using d by (simp add: true_reads_def)
  note s = regular_sound [OF r] and u = regular_unique [OF _ r]
  show "x = bs" if "read_secret_file_bounded p m w = (Inr x, w')" for x w'
    using read_secret_true [OF that t s] u by blast
  show "from_utf8 bs = Inr y" if "read_file_bounded p m w = (Inr y, w')" for y w'
    using read_file_true [OF that t s] u by blast
  show "x = bs" if "read_message_file p w = (Inr x, w')" for x w'
    using read_message_true [OF that t s] u by blast
qed (simp_all add: readers_bounded read_secret_file_run read_file_bounded_outcome read_message_file_outcome)

theorem bounded_reads_exact_witness:
  "fst (read_secret_file_bounded ''m'' 3 (ex_world ex_fs)) = Inr [1, 2, 3]
   \<and> fst (read_secret_file_bounded ''m'' 2 (ex_world ex_fs)) = Inl (too_large 3 2)
   \<and> fst (read_file_bounded ''m'' 2 (ex_world ex_fs)) = Inl (too_large 3 2)
   \<and> fst (read_message_file ''m'' (ex_world ex_fs)) = Inr [1, 2, 3]"
  using bounded_reads_exact [of "''m''" 3 "ex_world ex_fs" "[1, 2, 3]"]
    bounded_reads_exact [of "''m''" 2 "ex_world ex_fs" "[1, 2, 3]"]
  by (simp add: MAX_MESSAGE_SIZE_BYTES_def numeral_3_eq_3)

section \<open>Writing\<close>

text \<open>C15: replacing a file is atomic: whichever system call fails and whenever the machine stops,
  everything but a temporary name in the same directory is as it was, or the destination has all
  of the new contents. When the call succeeds the destination has the new contents, and nothing
  else has changed.\<close>

theorem atomic_replace_crash_safe:
  assumes "wf_fs (w_fs w)" "file_name p = Some n" "resolve_entry (w_fs w) p = Inr l"
    and "lookup (w_fs w) l \<noteq> Some DirAt"
    and "atomic_replace_file p bs mode w = (r, w')"
  shows "\<exists>t. t \<noteq> l \<and> butlast t = butlast l
    \<and> passes (\<lambda>s. \<forall>k. k \<noteq> t \<longrightarrow> view s k = view (w_fs w) k \<or> k = l \<and> contents_at s l = Some bs) w w'
    \<and> (\<forall>k. k \<noteq> t \<longrightarrow> k \<noteq> l \<longrightarrow> view (w_fs w') k = view (w_fs w) k)
    \<and> (r = Inr () \<longrightarrow> contents_at (w_fs w') l = Some bs \<and> view (w_fs w') t = view (w_fs w) t)"
  using wpD [OF spec_atomic_replace_file [OF assms(1-4)] assms(5)]
  by (auto simp: old_or_new_def [abs_def] replace_post_def)

theorem atomic_replace_crash_safe_witness:
  "\<exists>t. t \<noteq> [''d'', ''m''] \<and> passes (\<lambda>s. \<forall>k. k \<noteq> t \<longrightarrow> view s k = view ex_fs k
      \<or> k = [''d'', ''m''] \<and> contents_at s [''d'', ''m''] = Some [9])
    (ex_world ex_fs) (snd (atomic_replace_file ''m'' [9] None (ex_world ex_fs)))"
  using atomic_replace_crash_safe [of "ex_world ex_fs" "''m''" "''m''" "[''d'', ''m'']" "[9]" None,
      OF _ _ _ _ surjective_pairing]
  by (simp only: ex_world_fs ex_wf ex_names ex_resolve ex_lookup simp_thms option.inject entry.simps) blast

text \<open>C16: a writer without \<open>force\<close> (signatures, public keys, the pair of a new key) never changes
  what exists: in every state passed through, whichever call fails, each file, link and
  directory there was is there with its contents.\<close>

theorem writers_never_overwrite:
  assumes "wf_fs (w_fs w)" "lookup (w_fs w) l \<noteq> None" "file_name p = Some n" "file_name sp = Some k"
    and "w' = snd (write_file p bs False w) \<or> w' = snd (write_keypair_files_create_new sp p sc pc w)"
  shows "view (w_fs w') l = view (w_fs w) l \<and> passes (\<lambda>s. view s l = view (w_fs w) l) w w'"
proof -
  have "adding w (snd (write_file p bs False w))"
    by (rule wpD [OF adding_write_file [OF assms(3)] surjective_pairing])
  moreover have "adding w (snd (write_keypair_files_create_new sp p sc pc w))"
    by (rule wpD [OF adding_create_new [OF assms(4,3)] surjective_pairing])
  ultimately have "adding w w'" using assms(5) by blast
  from adding_views [OF assms(1) this assms(2)] show ?thesis by (rule conjI)
qed

theorem writers_never_overwrite_witness:
  "view (w_fs (snd (write_file ''m'' [9] False (ex_world ex_fs)))) [''d'', ''m''] = view ex_fs [''d'', ''m'']
   \<and> view (w_fs (snd (write_keypair_files_create_new ''n'' ''m'' [8] [9] (ex_world ex_fs)))) [''d'', ''m'']
       = view ex_fs [''d'', ''m'']"
  using writers_never_overwrite [of "ex_world ex_fs" "[''d'', ''m'']" "''m''" "''m''" "''n''" "''n''" _ "[9]" "[8]" "[9]"]
  by simp

text \<open>When \<open>write_file\<close> without \<open>force\<close> reports success, there was nothing at the path, not
  even a dangling link, the file there has exactly the contents given, and nothing else has
  changed.\<close>

theorem write_file_success:
  assumes "wf_fs (w_fs w)" "file_name p = Some n" "resolve_entry (w_fs w) p = Inr l"
    and "write_file p bs False w = (Inr (), w')"
  shows "lookup (w_fs w) l = None \<and> contents_at (w_fs w') l = Some bs
    \<and> (\<forall>k. k \<noteq> l \<longrightarrow> view (w_fs w') k = view (w_fs w) k)"
proof -
  have s: "staged (w_fs w) l bs (w_fs w')"
    using wpD [OF write_file_new [OF assms(2,3)] assms(4)] by simp
  show ?thesis
    using staged_contents [OF s] staged_view [OF assms(1) s] s by (auto simp: staged_def)
qed

lemma ex_create_n:
  "create_new ''n'' DEFAULT_FILE_MODE (ex_world ex_fs)
     = (Inr 1, (ex_world (snd (add_file [''d'', ''n''] (masked DEFAULT_FILE_MODE (ex_world ex_fs)) 1700000000000 ex_fs)))
         \<lparr>w_calls := 1, w_trace := [snd (add_file [''d'', ''n''] (masked DEFAULT_FILE_MODE (ex_world ex_fs)) 1700000000000 ex_fs)]\<rparr>)"
  by (simp add: create_new_def update_def sys_create_new_def add_file_def commit_def ex_world_def masked_def)

lemma ex_write_n: "fst (write_file ''n'' [9] False (ex_world ex_fs)) = Inr ()"
  by (simp add: write_file_def validate_windows_path_def bind_io_def map_err_io_def lift_res_def
      ex_create_n write_all_def Let_def) (simp add: ex_world_def ret_def)

theorem write_file_success_witness:
  "contents_at (w_fs (snd (write_file ''n'' [9] False (ex_world ex_fs)))) [''d'', ''n''] = Some [9]"
  using write_file_success [of "ex_world ex_fs" "''n''" "''n''" "[''d'', ''n'']" "[9]", OF _ _ _ run_fst [OF ex_write_n]]
  by simp

text \<open>C37: a forced write refuses a symbolic link at the output and leaves every file as it is.\<close>

theorem forced_write_refuses_symlink:
  assumes "faultless w" "resolve_entry (w_fs w) p = Inr l" "lookup (w_fs w) l = Some (LinkTo t)"
  shows "write_file p bs True w = (Inl (OutputIsSymlink p), w\<lparr>w_calls := Suc (w_calls w)\<rparr>)"
  using assms
  by (simp add: write_file_def reject_symlink_def validate_windows_path_def bind_io_def attempt_def
      lift_res_def lookups_run sys_symlink_metadata_def throw_def ticked_def)

theorem forced_write_refuses_symlink_witness:
  "fst (write_file ''l'' [9] True (ex_world ex_fs)) = Inl (OutputIsSymlink ''l'')"
  using forced_write_refuses_symlink [of "ex_world ex_fs" "''l''" "[''d'', ''l'']" "''m''" "[9]"] by simp

section \<open>Aliases\<close>

text \<open>C27: an output that the check for aliases lets pass does not lie where one of the protected
  files lies, through whatever links, relative names or repeated separators both are written:
  the message or the secret key is not what gets written. A protected file that does not exist
  yet counts with the place where it would be created.\<close>

theorem alias_check_sound:
  assumes "faultless w" "cwd_ok (w_fs w)" "file_name out = Some n" "resolve_entry (w_fs w) out = Inr l"
    and "reject_output_alias out others w = (Inr (), w')" "other \<in> set others" "lies_at (w_fs w) other lo"
  shows "lo \<noteq> l"
  using assms by (rule reject_output_alias_Inr)

lemma ex_lies [simp]: "lies_at ex_fs ''l'' [''d'', ''m'']" "lies_at ex_fs ''m'' [''d'', ''m'']"
  by (simp_all add: lies_at_def)

lemma ex_canonical: "sys_canonicalize ''l'' ex_fs = Inr ''/d/m''" "sys_canonicalize ''/d'' ex_fs = Inr ''/d''"
  "components ''/d/m'' = [RootDir, NormalComp ''d'', NormalComp ''m'']"
proof -
  have d: "components ''/d'' = [RootDir, NormalComp ''d'']" by code_simp
  show "sys_canonicalize ''l'' ex_fs = Inr ''/d/m''" "sys_canonicalize ''/d'' ex_fs = Inr ''/d''"
    by (simp_all add: sys_canonicalize_def render_path_def resolve_def d MAX_LINKS_def)
  show "components ''/d/m'' = [RootDir, NormalComp ''d'', NormalComp ''m'']" by code_simp
qed

theorem alias_check_sound_witness:
  "fst (reject_output_alias ''n'' [''l''] (ex_world ex_fs)) = Inr () \<and> [''d'', ''m''] \<noteq> [''d'', ''n'']
   \<and> fst (reject_output_alias ''m'' [''l''] (ex_world ex_fs)) \<noteq> Inr ()"
proof -
  obtain c where c: "resolve_destination ''n'' (ex_world ex_fs) = (Inr c, ticked (ticked (ex_world ex_fs)))"
    "components c = [RootDir, NormalComp ''d'', NormalComp ''n'']"
    using resolve_destination_run [of "ex_world ex_fs" "''n''" "''n''" "[''d'', ''n'']"] by auto
  then have a: "fst (reject_output_alias ''n'' [''l''] (ex_world ex_fs)) = Inr ()"
    by (simp add: reject_output_alias_def bind_io_def attempt_def lookups_run ret_def ex_canonical)
  moreover have "[''d'', ''m''] \<noteq> [''d'', ''n'']"
  proof (rule alias_check_sound [of "ex_world ex_fs" "''n''" "''n''" _ "[''l'']" _ "''l''"])
    show "reject_output_alias ''n'' [''l''] (ex_world ex_fs)
        = (Inr (), snd (reject_output_alias ''n'' [''l''] (ex_world ex_fs)))"
      using a by (rule run_fst)
  qed simp_all
  moreover have "fst (reject_output_alias ''m'' [''l''] (ex_world ex_fs)) \<noteq> Inr ()"
  proof
    assume "fst (reject_output_alias ''m'' [''l''] (ex_world ex_fs)) = Inr ()"
    then have "reject_output_alias ''m'' [''l''] (ex_world ex_fs)
        = (Inr (), snd (reject_output_alias ''m'' [''l''] (ex_world ex_fs)))"
      by (rule run_fst)
    then have "[''d'', ''m''] \<noteq> [''d'', ''m'']"
      using alias_check_sound [of "ex_world ex_fs" "''m''" "''m''" "[''d'', ''m'']" "[''l'']" _ "''l''" "[''d'', ''m'']"]
      by simp
    then show False by simp
  qed
  ultimately show ?thesis by simp
qed

section \<open>Printing\<close>

text \<open>C38: the printable form of a path is valid UTF-8 without control characters, so a file name
  can neither move the cursor nor begin a new line, and nothing else is changed: it shows the
  characters of the path in order, each control character as a backslash, an x and its two
  hexadecimal digits, and every other character as it is.\<close>

theorem sanitised_path_safe:
  "is_utf8 (sanitised_path_display p)
   \<and> (\<forall>c \<in> set (chars (sanitised_path_display p)). \<not> is_control c)
   \<and> chars (sanitised_path_display p) =
       concat (map (\<lambda>c. if is_control c then map of_char ([CHR 0x5C, CHR ''x''] @ hex_upper 2 c) else [c]) (chars p))"
proof (intro conjI ballI)
  show "is_utf8 (sanitised_path_display p)" by (rule is_utf8_sanitised)
  show "\<not> is_control c" if "c \<in> set (chars (sanitised_path_display p))" for c
    using escaped_scalar that unfolding chars_sanitised by blast
  have "escape_control = (\<lambda>c. if is_control c then map of_char ([CHR 0x5C, CHR ''x''] @ hex_upper 2 c) else [c])"
    by (simp add: fun_eq_iff escape_control_def)
  then show "chars (sanitised_path_display p) =
      concat (map (\<lambda>c. if is_control c then map of_char ([CHR 0x5C, CHR ''x''] @ hex_upper 2 c) else [c]) (chars p))"
    unfolding chars_sanitised by (rule subst) (rule refl)
qed

text \<open>A name with a line feed.\<close>

theorem sanitised_path_safe_witness:
  "chars (sanitised_path_display [CHR ''a'', LF, CHR ''b'']) = map of_char [CHR ''a'', CHR 0x5C, CHR ''x'', CHR ''0'', CHR ''A'', CHR ''b'']"
proof -
  have "hex_upper 2 10 = ''0A''" by code_simp
  moreover have "chars [CHR ''a'', LF, CHR ''b''] = [97, 10, 98]" by (simp add: chars_is_ascii is_ascii_def)
  ultimately show ?thesis using sanitised_path_safe [of "[CHR ''a'', LF, CHR ''b'']"] by (simp add: is_control_def)
qed

end
