(* ===== verification/Lock_Properties.thy ===== *)
theory Lock_Properties
  imports Examples
begin

text \<open>
  The lock of a forced overwrite: where it lies, one pass of the loop, what the loop returns, and
  that a lock which is not stale keeps others out.
\<close>

section \<open>Where the lock lies\<close>

lemma components_with_file_name:
  assumes "file_name p = Some n" "plain_name m"
  shows "components (with_file_name p m) = butlast (components p) @ [NormalComp m]"
proof -
  let ?d = "butlast (components p)"
  have par: "path_parent p = Some (render_path ?d)"
    using assms(1) by (auto simp: file_name_Some path_parent_def)
  have wf: "wf_components ?d" by (intro wf_components_butlast wf_components_components)
  then have wf2: "wf_components (?d @ [NormalComp m])"
    using assms(2) by (cases ?d) (auto simp: inner_component_def)
  have "path_join (render_path ?d) m = render_path (?d @ [NormalComp m])"
  proof (cases "?d = []")
    case False
    then show ?thesis using wf assms(2) by (intro path_join_render)
  qed (simp add: path_join_def render_path_def)
  then show ?thesis
    using assms(1) par components_render [OF wf2] by (simp add: with_file_name_def)
qed

lemma lock_name_plain:
  assumes "file_name p = Some n"
  obtains m where "lock_path_of p = with_file_name p m" "plain_name m"
proof (rule that [OF lock_path_of_def])
  have "SLASH \<notin> set (to_string_lossy n)"
    using file_name_plain [OF assms] to_string_lossy_ascii [of SLASH n] by (auto simp: plain_name_def)
  then show "plain_name (''.'' @ to_string_lossy (case file_name p of None \<Rightarrow> ''key'' | Some n \<Rightarrow> n)
      @ ''.force.lock'')"
    using assms by (auto simp: plain_name_def)
qed

lemma lock_has_name: "file_name p = Some n \<Longrightarrow> \<exists>m. file_name (lock_path_of p) = Some m"
proof -
  assume p: "file_name p = Some n"
  obtain m where m: "lock_path_of p = with_file_name p m" "plain_name m"
    using lock_name_plain [OF p] .
  then show ?thesis using components_with_file_name [OF p m(2)] by (simp add: file_name_Some)
qed

section \<open>One pass\<close>

lemma create_new_created:
  assumes "create_new p m w = (Inr i, w')" "file_name p = Some n"
  shows "\<not> entry_exists (w_fs w) p \<and> entry_exists (w_fs w') p"
proof (cases "resolve_entry (w_fs w) p")
  case (Inl e)
  then show ?thesis using assms(1)
    by (auto simp: create_new_def update_def sys_create_new_def Let_def split: option.splits)
next
  case (Inr l)
  have s: "staged (w_fs w) l [] (w_fs w')"
    using wpD [OF spec_create_new [OF refl assms(2) Inr] assms(1)] by simp
  then have "resolve_entry (w_fs w') p = Inr l"
    using resolve_entry_same_dirs [OF assms(2) Inr] staged_same_dirs by blast
  then show ?thesis using s Inr by (auto simp: entry_exists_def staged_def lookup_def)
qed

definition timed_out :: "path \<Rightarrow> error" where
  "timed_out p = Other (''Timed out waiting for force-overwrite lock: '' @ display p)"

lemma wait_for_lock_failed:
  "wait_for_lock p timeout started_at w = (Inl e, w') \<Longrightarrow> started_at \<le> w_instant w \<Longrightarrow>
     e = timed_out p \<and> started_at + timeout \<le> w_instant w' \<and> w_fs w' = w_fs w"
  by (auto simp: wait_for_lock_def bind_io_def instant_now_def sleep_def throw_def Let_def timed_out_def
      split: if_splits)

text \<open>The three ends of a pass.\<close>

lemma acquire_pass_cases:
  assumes "acquire_pass p timeout started_at w = (r, w')" "started_at \<le> w_instant w"
  obtains i where "r = Inr True" "create_new p DEFAULT_FILE_MODE w = (Inr i, w')"
  | x where "r = Inl (FileWrite p x)" "io_kind_of x \<noteq> AlreadyExists" "calm w w'"
  | w1 q w2 where "calm w w1" "clear_stale_lock p timeout w1 = (q, w2)" "q = Inr True" "r = Inr False" "w' = w2"
  | w1 q w2 where "calm w w1" "clear_stale_lock p timeout w1 = (q, w2)" "q = Inr False" "calm w w2"
      "r = Inr False" "started_at \<le> w_instant w'" "w_fs w' = w_fs w"
  | w1 q w2 where "calm w w1" "clear_stale_lock p timeout w1 = (q, w2)" "q = Inr False"
      "r = Inl (timed_out p)" "started_at + timeout \<le> w_instant w'" "w_fs w' = w_fs w"
proof -
  obtain c w1 where c: "create_new p DEFAULT_FILE_MODE w = (c, w1)" by (rule prod.exhaust)
  show ?thesis
  proof (cases c)
    case (Inr i)
    then show ?thesis
      using that(1) assms(1) c by (auto simp: acquire_pass_def bind_io_def attempt_def ret_def)
  next
    case (Inl x)
    then have calm: "calm w w1" using create_new_calm c by simp
    show ?thesis
    proof (cases "io_kind_of x = AlreadyExists")
      case False
      then show ?thesis
        using that(2) [of x] assms(1) c Inl calm
        by (auto simp: acquire_pass_def bind_io_def attempt_def throw_def)
    next
      case True
      obtain q w2 where q: "clear_stale_lock p timeout w1 = (q, w2)" by (rule prod.exhaust)
      have run: "acquire_pass p timeout started_at w = (case q of Inl e \<Rightarrow> (Inl e, w2)
          | Inr removed \<Rightarrow> (if removed then ret False
              else bind_io (wait_for_lock p timeout started_at) (\<lambda>_. ret False)) w2)"
        using c Inl True q by (simp add: acquire_pass_def bind_io_def [of "attempt _"] attempt_def
            bind_io_def [of "clear_stale_lock p timeout"] split: sum.split)
      consider "q = Inr True" | "q = Inr False" "calm w1 w2" using clear_stale_lock_cases [OF q] by blast
      then show ?thesis
      proof cases
        case 1
        then show ?thesis using that(3) [OF calm q] assms(1) run by (simp add: ret_def)
      next
        case 2
        have c2: "calm w w2" using calm_trans [OF calm 2(2)] .
        have b: "bind_io (wait_for_lock p timeout started_at) (\<lambda>_. ret False) w2 = (r, w')"
          using assms(1) run 2(1) by simp
        obtain v w3 where v: "wait_for_lock p timeout started_at w2 = (v, w3)" by (rule prod.exhaust)
        show ?thesis
        proof (cases v)
          case (Inl e)
          then show ?thesis
            using that(5) [OF calm q 2(1)] b v wait_for_lock_failed [of p timeout started_at w2 e w3] assms(2) c2
            by (simp add: bind_io_def calm_def)
        next
          case (Inr u)
          then show ?thesis
            using that(4) [OF calm q 2(1) c2] b v wait_for_lock_cases [of p timeout started_at w2 u w3] assms(2) c2
            by (simp add: bind_io_def calm_def ret_def)
        qed
      qed
    qed
  qed
qed

definition lock_outcome :: "path \<Rightarrow> nat \<Rightarrow> error + unit \<Rightarrow> world \<Rightarrow> bool" where
  "lock_outcome p deadline r w' \<longleftrightarrow>
     (case r of
        Inr _ \<Rightarrow> entry_exists (w_fs w') p
      | Inl e \<Rightarrow> e = timed_out p \<and> deadline \<le> w_instant w'
               \<or> (\<exists>x. e = FileWrite p x \<and> io_kind_of x \<noteq> AlreadyExists))"

lemma clear_stale_lock_instant:
  assumes "clear_stale_lock p timeout w = (r, w')"
  shows "w_instant w' = w_instant w"
proof -
  have k: "keeps (\<lambda>v. w_instant v = w_instant w) (clear_stale_lock p timeout)"
    unfolding clear_stale_lock_def lock_is_stale_def metadata_def remove_file_def eprintln_def
    by (intro keeps_intros)
      (auto simp: keeps_def query_def update_def now_def Let_def commit_def split: option.splits prod.splits)
  show ?thesis using keepsD [OF k _ assms] by simp
qed

lemma acquire_loop_outcome:
  "acquire_loop p timeout started_at w = (r, w') \<Longrightarrow> started_at \<le> w_instant w \<Longrightarrow> file_name p = Some n \<Longrightarrow>
     lock_outcome p (started_at + timeout) r w'"
proof (induction p timeout started_at w rule: acquire_loop.induct)
  case (1 p timeout started_at w)
  obtain q w1 where q: "acquire_pass p timeout started_at w = (q, w1)" by (rule prod.exhaust)
  note run = "1.prems"(1) [unfolded acquire_loop.simps [of p timeout started_at w] q]
  show ?case
  proof (cases rule: acquire_pass_cases [OF q "1.prems"(2)])
    case (1 i)
    then show ?thesis
      using run create_new_created [OF 1(2) "1.prems"(3)] by (auto simp: lock_outcome_def)
  next
    case (2 x)
    then show ?thesis using run by (auto simp: lock_outcome_def)
  next
    case (3 w2 c w3)
    then have "started_at \<le> w_instant w1"
      using clear_stale_lock_instant [OF 3(2)] "1.prems"(2) by (simp add: calm_def)
    then show ?thesis
      using "1.IH" [OF q [symmetric] 3(4)] run 3(4) "1.prems"(3) by simp
  next
    case (4 w2 c w3)
    then show ?thesis
      using "1.IH" [OF q [symmetric] 4(5)] run 4(5,6) "1.prems"(3) by simp
  next
    case (5 w2 c w3)
    then show ?thesis using run by (auto simp: lock_outcome_def)
  qed
qed

section \<open>A lock that is held\<close>

definition lock_held :: "path \<Rightarrow> nat \<Rightarrow> fs \<Rightarrow> (nat \<Rightarrow> int) \<Rightarrow> bool" where
  "lock_held p timeout s clock \<longleftrightarrow>
     0 < timeout \<and> entry_exists s p
     \<and> (\<exists>m. sys_metadata p s = Inr m \<and> (\<forall>n. clock n < int (st_mtime m) + 2 * int timeout))"

lemma held_not_stale:
  assumes "lock_is_stale p (2 * timeout) w = (r, w')" "lock_held p timeout (w_fs w) (w_clock w)"
  shows "r = Inr False"
proof -
  obtain m where m: "sys_metadata p (w_fs w) = Inr m"
    "\<And>n. w_clock w n < int (st_mtime m) + 2 * int timeout" and t: "0 < timeout"
    using assms(2) by (auto simp: lock_held_def)
  have "\<not> int (2 * timeout) \<le> max 0 (w_clock w n - int (st_mtime m))" for n
    using m(2) [of n] t by simp
  then show ?thesis
    using assms(1) m(1)
    by (auto simp: lock_is_stale_def bind_io_def attempt_def metadata_def query_def now_def ret_def
        Let_def split: option.splits)
qed

lemma held_not_cleared:
  assumes "clear_stale_lock p timeout w = (q, w')" "lock_held p timeout (w_fs w) (w_clock w)"
  shows "q = Inr False"
proof -
  obtain r w1 where l: "lock_is_stale p (2 * timeout) w = (r, w1)" by (rule prod.exhaust)
  then have "r = Inr False" using held_not_stale assms(2) by blast
  then show ?thesis using assms(1) l by (simp add: clear_stale_lock_def bind_io_def ret_def)
qed

lemma keeps_clock: "keeps (\<lambda>v. w_clock v = c) (acquire_pass p timeout started_at)"
  unfolding acquire_pass_def clear_stale_lock_def lock_is_stale_def wait_for_lock_def metadata_def
    remove_file_def eprintln_def create_new_def
  by (intro keeps_intros)
    (auto simp: keeps_def query_def update_def now_def instant_now_def sleep_def Let_def commit_def
      split: option.splits prod.splits)

lemma create_new_clock: "create_new p m w = (Inl x, w') \<Longrightarrow> w_clock w' = w_clock w"
  by (auto simp: create_new_def update_def Let_def commit_def split: option.splits prod.splits)

lemma create_new_free: "create_new p m w = (Inr i, w') \<Longrightarrow> \<not> entry_exists (w_fs w) p"
  by (auto simp: create_new_def update_def Let_def sys_create_new_def entry_exists_def
      split: option.splits prod.splits sum.splits)

lemma held_pass:
  assumes "acquire_pass p timeout started_at w = (r, w')" "started_at \<le> w_instant w"
    and "lock_held p timeout (w_fs w) (w_clock w)"
  shows "w_fs w' = w_fs w \<and> r \<noteq> Inr True \<and> (r = Inr False \<longrightarrow> started_at \<le> w_instant w')"
proof (cases rule: acquire_pass_cases [OF assms(1,2)])
  case (1 i)
  then show ?thesis using create_new_free assms(3) by (auto simp: lock_held_def)
next
  case (3 w1 q w2)
  then have "lock_held p timeout (w_fs w1) (w_clock w1)"
    using assms(3) by (simp add: calm_def)
  then show ?thesis using held_not_cleared [OF 3(2)] 3(3) by simp
qed (simp_all add: calm_def)

lemma held_loop:
  "acquire_loop p timeout started_at w = (r, w') \<Longrightarrow> started_at \<le> w_instant w \<Longrightarrow>
     lock_held p timeout (w_fs w) (w_clock w) \<Longrightarrow> w_fs w' = w_fs w \<and> r \<noteq> Inr ()"
proof (induction p timeout started_at w rule: acquire_loop.induct)
  case (1 p timeout started_at w)
  obtain q w1 where q: "acquire_pass p timeout started_at w = (q, w1)" by (rule prod.exhaust)
  note run = "1.prems"(1) [unfolded acquire_loop.simps [of p timeout started_at w] q]
  note pass = held_pass [OF q "1.prems"(2,3)]
  have clock: "w_clock w1 = w_clock w" using keepsD [OF keeps_clock _ q] by simp
  show ?case
  proof (cases q)
    case (Inl e)
    then show ?thesis using run pass by auto
  next
    case (Inr held)
    then have "acquire_loop p timeout started_at w1 = (r, w')" "started_at \<le> w_instant w1"
      "lock_held p timeout (w_fs w1) (w_clock w1)" "\<not> held"
      using run pass clock "1.prems"(3) by (cases held; simp)+
    then show ?thesis using "1.IH" [OF q [symmetric] Inr] pass by simp
  qed
qed

lemma acquire_run:
  "acquire_force_overwrite_lock B sp w = (r, w') \<Longrightarrow>
     \<exists>t v q. instant_now w = (Inr t, v) \<and> w_fs v = w_fs w \<and> w_clock v = w_clock w \<and> w_instant v = t
       \<and> w_instant w \<le> t
       \<and> acquire_loop (lock_path_of sp) (force_overwrite_lock_timeout B) t v = (q, w')
       \<and> r = map_sum id (\<lambda>_. lock_path_of sp) q"
  by (auto simp: acquire_force_overwrite_lock_def Let_def bind_io_def instant_now_def ret_def
      split: prod.splits sum.splits)

section \<open>Properties\<close>

text \<open>C26: waiting for the lock always comes to an end. Either the lock is held, and there is an
  entry at its path, or the wait lasted at least the timeout and the error says so, or creating
  the lock failed for another reason than its existence, which is reported.\<close>

theorem acquire_lock_outcome:
  assumes "file_name sp = Some n" "acquire_force_overwrite_lock B sp w = (r, w')"
  shows "(case r of
      Inr p \<Rightarrow> p = lock_path_of sp \<and> entry_exists (w_fs w') p
    | Inl e \<Rightarrow> e = timed_out (lock_path_of sp)
               \<and> w_instant w + force_overwrite_lock_timeout B \<le> w_instant w'
             \<or> (\<exists>x. e = FileWrite (lock_path_of sp) x \<and> io_kind_of x \<noteq> AlreadyExists))"
proof -
  obtain t v q where q: "w_instant v = t" "w_instant w \<le> t" "r = map_sum id (\<lambda>_. lock_path_of sp) q"
    "acquire_loop (lock_path_of sp) (force_overwrite_lock_timeout B) t v = (q, w')"
    using acquire_run [OF assms(2)] by blast
  obtain m where "file_name (lock_path_of sp) = Some m" using lock_has_name [OF assms(1)] by blast
  then have "lock_outcome (lock_path_of sp) (t + force_overwrite_lock_timeout B) q w'"
    using acquire_loop_outcome [OF q(4)] q(1) by simp
  then show ?thesis using q(2,3) by (cases q) (auto simp: lock_outcome_def)
qed

lemma create_new_run:
  assumes "w_faults w (w_calls w) = None" "resolve_entry (w_fs w) p = Inr l" "lookup (w_fs w) l = None"
  shows "fst (create_new p m w) = Inr (fs_next (w_fs w))"
  using assms by (simp add: create_new_def update_def sys_create_new_def add_file_def Let_def)

lemma acquire_free:
  assumes "w_faults w (w_calls w) = None" "resolve_entry (w_fs w) p = Inr l" "lookup (w_fs w) l = None"
  shows "fst (acquire_loop p n t w) = Inr ()"
proof -
  obtain w' where "create_new p DEFAULT_FILE_MODE w = (Inr (fs_next (w_fs w)), w')"
    using run_fst [OF create_new_run [OF assms]] by blast
  then have "acquire_pass p n t w = (Inr True, w')"
    by (simp add: acquire_pass_def bind_io_def attempt_def ret_def)
  then show ?thesis by (simp add: acquire_loop.simps [of p n t w])
qed

lemma ex_acquire: "fst (acquire_force_overwrite_lock ex_build ''m'' (ex_world ex_fs)) = Inr ''.m.force.lock''"
proof -
  let ?w = "(ex_world ex_fs)\<lparr>w_instant := 1, w_calls := 1\<rparr>"
  have "instant_now (ex_world ex_fs) = (Inr 1, ?w)"
    by (simp add: instant_now_def) (simp add: ex_world_def)
  then have first: "bind_io instant_now f (ex_world ex_fs) = f 1 ?w" for f :: "nat \<Rightarrow> (error, path) io"
    by (rule bind_io_run)
  obtain w' where
    "acquire_loop ''.m.force.lock'' (force_overwrite_lock_timeout ex_build) 1 ?w = (Inr (), w')"
  proof -
    have "fst (acquire_loop ''.m.force.lock'' n 1 ?w) = Inr ()" for n
      by (rule acquire_free [where l = "[''d'', ''.m.force.lock'']"]) (simp_all, simp add: ex_world_def)
    from run_fst [OF this] show ?thesis by (rule that)
  qed
  then have "bind_io (acquire_loop ''.m.force.lock'' (force_overwrite_lock_timeout ex_build) 1) f ?w = f () w'"
    for f :: "unit \<Rightarrow> (error, path) io"
    by (rule bind_io_run)
  with first show ?thesis
    unfolding acquire_force_overwrite_lock_def Let_def ex_lock_path by (simp only: ret_def fst_conv)
qed

theorem acquire_lock_outcome_witness:
  "entry_exists (w_fs (snd (acquire_force_overwrite_lock ex_build ''m'' (ex_world ex_fs)))) ''.m.force.lock''"
  using acquire_lock_outcome [of "''m''" "''m''", OF _ run_fst [OF ex_acquire]] by simp

text \<open>C22: as long as another process holds a lock that is not stale, the lock is not acquired and
  no file changes, whatever calls fail: two forced overwrites of the same key do not run at the
  same time.\<close>

theorem held_lock_excludes:
  assumes "lock_held (lock_path_of sp) (force_overwrite_lock_timeout B) (w_fs w) (w_clock w)"
    and "with_force_overwrite_lock B sp body w = (r, w')"
  shows "w_fs w' = w_fs w \<and> (\<exists>e. r = Inl e)"
proof -
  obtain a w1 where a: "acquire_force_overwrite_lock B sp w = (a, w1)" by (rule prod.exhaust)
  obtain t v q where q: "w_fs v = w_fs w" "w_clock v = w_clock w" "w_instant v = t"
    "a = map_sum id (\<lambda>_. lock_path_of sp) q"
    "acquire_loop (lock_path_of sp) (force_overwrite_lock_timeout B) t v = (q, w1)"
    using acquire_run [OF a] by blast
  have "w_fs w1 = w_fs v \<and> q \<noteq> Inr ()" using held_loop [OF q(5)] q(1-3) assms(1) by simp
  then show ?thesis
    using assms(2) a q(1,4) by (cases q) (auto simp: with_force_overwrite_lock_def bind_io_def)
qed

lemma ex_held: "lock_held ''.m.force.lock'' (force_overwrite_lock_timeout ex_build) ex_locked (w_clock (ex_world s))"
  by (simp add: lock_held_def entry_exists_def sys_metadata_def sys_open_def handle_stat_def
      force_overwrite_lock_timeout_def FORCE_OVERWRITE_LOCK_TIMEOUT_def)
    (simp add: ex_locked_def ex_world_def ex_build_def)

theorem held_lock_excludes_witness:
  "w_fs (snd (with_force_overwrite_lock ex_build ''m'' (ret ()) (ex_world ex_locked))) = ex_locked"
  using held_lock_excludes [of "''m''" ex_build "ex_world ex_locked" "ret ()", OF _ surjective_pairing] ex_held
  by simp

end
