(* ===== verification/KeyOps_Properties.thy ===== *)
theory KeyOps_Properties
  imports Change Recreate Sign_Properties Key_Properties
begin

text \<open>
  What \<open>change\<close> and \<open>recreate\<close> promise: the same key under the new password, never a file that
  holds neither the old key nor the new one, and a public key that belongs to the secret one.
\<close>

section \<open>Sealing a key\<close>

lemma seckey_from_file_wf: "b64_ok C \<Longrightarrow> seckey_from_file_contents C t = Inr s \<Longrightarrow> wf_seckey s"
  by (rule seckey_file.parse_wf)

lemma extract_key_wf:
  assumes "scrypt_ok C" "wf_seckey s" "extract_key C s pw = Inr (sk, kn)"
  shows "wf_secret_key sk \<and> wf_key_num kn"
proof (cases "sk_encrypted s")
  case False
  then show ?thesis
    using assms(2,3)
    by (auto simp: extract_key_def get_unencrypted_secret_key_def wf_seckey_def wf_seckey_sizes_def
        wf_secret_key_def wf_key_num_def)
next
  case True
  have sz: "wf_seckey_sizes s" using assms(2) by (simp add: wf_seckey_def)
  obtain p where "decrypt C s p = Inr (sk, kn)"
    using assms(3) True by (auto simp: extract_key_def result_simps)
  then obtain l r q k where k: "derive_key_with_params C p (sk_kdf_salt s) l r q 104 = Inr k"
    "open_blob C (xor_bytes (sealed_blob s) k) = Inr (sk, kn)"
    unfolding decrypt_Inr [OF assms(1) sz] by blast
  have "length (xor_bytes (sealed_blob s) k) = 104"
    using derive_key_length [OF assms(1) k(1)] length_sealed_blob [OF sz] by simp
  then show ?thesis
    using k(2) blob_parts_lengths [of "xor_bytes (sealed_blob s) k"]
    by (auto simp: open_blob_def wf_array_defs size_defs split: prod.splits if_splits)
qed

lemma seal_key_Inr:
  assumes "blake2b_ok C" "scrypt_ok C" "wf_key_num kn" "wf_secret_key sk"
    and "seal_key C B mode weak log_n sk kn pw w = (Inr s, w')"
  shows "w_fs w' = w_fs w \<and> w_trace w' = w_trace w \<and> wf_seckey_sizes s
    \<and> (sk_encrypted s \<longleftrightarrow> mode = Protected) \<and> extract_key C (as_loaded s) pw = Inr (sk, kn)"
proof (cases "mode = Unprotected")
  case True
  then have s: "s = new_unencrypted kn sk" "w' = w" using assms(5) by (simp_all add: seal_key_def ret_def)
  have "wf_seckey s" unfolding s(1) using assms(3,4) by (rule new_unencrypted_wf)
  then show ?thesis
    using s True assms(4) as_loaded_id
    by (auto simp: extract_key_unencrypted wf_seckey_def) (auto simp: new_unencrypted_def)
next
  case False
  then have mode: "mode = Protected" by (cases mode) simp_all
  then obtain p where p: "pw = Some p" using assms(5) by (auto simp: seal_key_def throw_def split: option.splits)
  obtain salt g ops mem where f: "fill_bytes 32 (w_rng w) = (salt, g)" "w' = w\<lparr>w_rng := g\<rparr>"
    "new_encrypted C kn sk p salt ops mem False = Inr s"
    using assms(5) mode p
    by (auto simp: seal_key_def bind_io_Inr random_bytes_def lift_res_def Let_def split: prod.splits)
  have salt: "length salt = 32" using length_fill_bytes [of 32 "w_rng w"] f(1) by simp
  note n = assms(1-4) salt f(3)
  have "sk_encrypted s" using f(3) unfolding new_encrypted_Inr [OF assms(1-4)] by blast
  then show ?thesis
    using new_encrypted_sizes [OF n] decrypt_new_encrypted_lemma [OF n] f(2) mode p
    by (simp add: extract_key_def decrypt_as_loaded) (simp add: as_loaded_def)
qed

text \<open>The bytes of a secret key file that \<open>password\<close> opens.\<close>

definition holds_key :: "crates \<Rightarrow> bytes \<Rightarrow> bytes option \<Rightarrow> secret_key \<Rightarrow> key_num \<Rightarrow> bool" where
  "holds_key C bs password sk keynum \<longleftrightarrow>
     (\<exists>s. seckey_from_file_contents C (text_of bs) = Inr s \<and> extract_key C s password = Inr (sk, keynum))"

lemma sealed_holds_key:
  assumes "b64_ok C" "wf_seckey_sizes s" "extract_key C (as_loaded s) pw = Inr (sk, kn)"
    and "seckey_to_file_contents C s comment = Inr t"
  shows "holds_key C (as_bytes t) pw sk kn"
  using seckey_file_roundtrip [OF assms(1,2,4)] assms(3) by (simp add: holds_key_def)

section \<open>Changing the password\<close>

definition key_safe :: "crates \<Rightarrow> fs \<Rightarrow> loc \<Rightarrow> bytes option \<Rightarrow> secret_key \<Rightarrow> key_num \<Rightarrow> fs \<Rightarrow> bool" where
  "key_safe C s0 l password sk keynum s \<longleftrightarrow>
     view s l = view s0 l \<or> (\<exists>bs. contents_at s l = Some bs \<and> holds_key C bs password sk keynum)"

lemma key_safeI:
  assumes "view s l = view s0 l \<or> contents_at s l = Some bs" "holds_key C bs password sk keynum"
  shows "key_safe C s0 l password sk keynum s"
  unfolding key_safe_def using assms(1)
proof
  assume "contents_at s l = Some bs"
  then have "\<exists>bs. contents_at s l = Some bs \<and> holds_key C bs password sk keynum"
    using assms(2) by (intro exI conjI)
  then show "view s l = view s0 l \<or> (\<exists>bs. contents_at s l = Some bs \<and> holds_key C bs password sk keynum)" ..
qed (rule disjI1)

lemma key_safe_unchanged:
  "w_fs w' = w_fs w \<Longrightarrow> w_trace w' = w_trace w \<Longrightarrow>
     passes (key_safe C (w_fs w) l password sk keynum) w w' \<and> key_safe C (w_fs w) l password sk keynum (w_fs w')"
  by (simp add: passes_refl key_safe_def)

lemma reads_only_check_permissions [simp]: "reads_only (check_secret_key_permissions p)"
  by (simp add: check_secret_key_permissions_def split: sum.split)

lemma reads_only_load [simp]: "reads_only (load_secret_key C p)"
  by (simp add: load_secret_key_def)

lemma reads_only_seal [simp]: "reads_only (seal_key C B mode weak log_n sk kn pw)"
  by (auto simp: seal_key_def split: option.split prod.split)

lemma replace_key_safe:
  assumes "wf_fs (w_fs w)" "file_name p = Some n" "resolve_entry (w_fs w) p = Inr l"
    and "lookup (w_fs w) l \<noteq> Some DirAt" "holds_key C bs password sk keynum"
    and "atomic_replace_file p bs mode w = (r, w')"
  shows "passes (key_safe C (w_fs w) l password sk keynum) w w'
    \<and> key_safe C (w_fs w) l password sk keynum (w_fs w')
    \<and> (r = Inr () \<longrightarrow> contents_at (w_fs w') l = Some bs \<and> (\<forall>j. j \<noteq> l \<longrightarrow> view (w_fs w') j = view (w_fs w) j))"
proof -
  obtain t where t: "t \<noteq> l" "passes (old_or_new (w_fs w) t l bs) w w'" "replace_post (w_fs w) t l bs r (w_fs w')"
    using wpD [OF spec_atomic_replace_file [OF assms(1-4)] assms(6)] by blast
  have "key_safe C (w_fs w) l password sk keynum s" if "old_or_new (w_fs w) t l bs s" for s
  proof -
    have "view s l = view (w_fs w) l \<or> contents_at s l = Some bs"
      using that [unfolded old_or_new_def, rule_format, of l] t(1) by argo
    then show ?thesis using assms(5) by (rule key_safeI)
  qed
  then have "passes (key_safe C (w_fs w) l password sk keynum) w w'" by (rule passes_mono [OF t(2)])
  moreover have "key_safe C (w_fs w) l password sk keynum (w_fs w')"
  proof -
    have "view (w_fs w') l = view (w_fs w) l \<or> contents_at (w_fs w') l = Some bs"
      using t(3) unfolding replace_post_def by argo
    then show ?thesis using assms(5) by (rule key_safeI)
  qed
  moreover have "view (w_fs w') j = view (w_fs w) j" if "r = Inr ()" "j \<noteq> l" for j
    using t(3) that by (cases "j = t") (simp_all only: replace_post_def simp_thms)
  moreover have "contents_at (w_fs w') l = Some bs" if "r = Inr ()"
    using t(3) that by (simp only: replace_post_def simp_thms)
  ultimately show ?thesis by (intro conjI impI allI)
qed

lemma change_outcome:
  assumes C: "b64_ok C" "blake2b_ok C" "scrypt_ok C"
    and s: "wf_fs (w_fs w)" "file_name (co_secret_key_file opts) = Some n"
      "resolve_entry (w_fs w) (co_secret_key_file opts) = Inr l" "lookup (w_fs w) l \<noteq> Some DirAt"
    and k: "load_secret_key C (co_secret_key_file opts) w = (Inr key, w1)"
      "extract_key C key old = Inr (sk, kn)"
    and run: "change_with_log_n C B opts old new log_n w = (r, w')"
  shows "passes (key_safe C (w_fs w) l new sk kn) w w' \<and> key_safe C (w_fs w) l new sk kn (w_fs w')
    \<and> (\<forall>res. r = Inr res \<longrightarrow> (\<exists>bs. contents_at (w_fs w') l = Some bs \<and> holds_key C bs new sk kn)
         \<and> (\<forall>j. j \<noteq> l \<longrightarrow> view (w_fs w') j = view (w_fs w) j))"
proof -
  let ?p = "co_secret_key_file opts"
  have key: "wf_seckey key"
    using k(1) seckey_from_file_wf [OF C(1)]
    by (auto simp: load_secret_key_def bind_io_Inr lift_res_def result_simps)
  note wf = extract_key_wf [OF C(3) key k(2)]
  obtain w2 where w2: "extract_key_op C key old w1 = (Inr (sk, kn), w2)"
    using fst_extract_key_op [of C key old w1] k(2) by (metis prod.collapse)
  obtain q w3 where q: "seal_key C B (co_encryption opts) (co_force_weak_kdf opts) log_n sk kn new w2 = (q, w3)"
    by (rule prod.exhaust)
  have same: "w_fs w3 = w_fs w" "w_trace w3 = w_trace w"
    using reads_onlyD [OF reads_only_load k(1)] reads_onlyD [OF reads_only_extract_key_op w2]
      reads_onlyD [OF reads_only_seal q] by simp_all
  have step: "change_with_log_n C B opts old new log_n w =
      bind_io (seal_key C B (co_encryption opts) (co_force_weak_kdf opts) log_n sk kn new) (\<lambda>new_seckey.
      bind_io (lift_res (seckey_to_file_contents C new_seckey (seckey_comment (co_encryption opts))))
      (\<lambda>seckey_contents.
      bind_io (write_secret_key_file ?p (as_bytes seckey_contents) True) (\<lambda>_.
        ret \<lparr>cr_secret_key_file = ?p, cr_encrypted = (co_encryption opts = Protected),
             cr_credential_id = credential_id new_seckey, cr_kdf_fallback_used = False\<rparr>))) w2"
    unfolding change_with_log_n_def using k(1) w2 by (simp add: bind_io_run)
  show ?thesis
  proof (cases q)
    case (Inl e)
    then have "r = Inl e \<and> w' = w3" using run q unfolding step by (simp add: bind_io_def)
    then show ?thesis using key_safe_unchanged [OF same] by simp
  next
    case (Inr new_key)
    note seal = seal_key_Inr [OF C(2,3) conjunct2 [OF wf] conjunct1 [OF wf] q [unfolded Inr]]
    show ?thesis
    proof (cases "seckey_to_file_contents C new_key (seckey_comment (co_encryption opts))")
      case (Inl e)
      then have "r = Inl e \<and> w' = w3"
        using run q \<open>q = Inr new_key\<close> unfolding step by (simp add: bind_io_def lift_res_def)
      then show ?thesis using key_safe_unchanged [OF same] by simp
    next
      case (Inr t)
      have holds: "holds_key C (as_bytes t) new sk kn"
        using sealed_holds_key [OF C(1) _ _ Inr] seal by blast
      obtain z w4 where z: "atomic_replace_file ?p (as_bytes t) (Some SECRET_KEY_FILE_PERMISSIONS) w3 = (z, w4)"
        by (rule prod.exhaust)
      have "w' = w4 \<and> (\<forall>res. r = Inr res \<longrightarrow> z = Inr ())"
        using run q z \<open>q = Inr new_key\<close> Inr unfolding step
        by (auto simp: bind_io_def lift_res_def write_secret_key_file_def ret_def split: sum.splits)
      then show ?thesis
        using replace_key_safe [OF _ s(2) _ _ holds z] s(1,3,4) same holds by (auto simp: passes_def)
    qed
  qed
qed

section \<open>The public key again\<close>

lemma recreate_outcome:
  assumes C: "b64_ok C" "ed_ok C" "scrypt_ok C"
    and s: "wf_fs (w_fs w)" "file_name (ro_public_key_file opts) = Some n"
      "resolve_entry (w_fs w) (ro_public_key_file opts) = Inr l"
    and k: "load_secret_key C (ro_secret_key_file opts) w = (Inr key, w1)"
      "extract_key C key pw = Inr (sk, kn)"
    and run: "recreate C opts pw w = (Inr res, w')"
  shows "\<exists>t. written (w_fs w) l (as_bytes t) (w_fs w') \<and> pubkey_from_file_contents C t = Inr (signer_key C sk kn)
    \<and> rr_keynum_hex res = to_key_id kn \<and> (ro_force opts \<or> lookup (w_fs w) l = None)"
proof -
  let ?p = "ro_public_key_file opts"
  have key: "wf_seckey key"
    using k(1) seckey_from_file_wf [OF C(1)]
    by (auto simp: load_secret_key_def bind_io_Inr lift_res_def result_simps)
  obtain w2 w3 where v: "(case ro_comment opts of None \<Rightarrow> ret () | Some c \<Rightarrow> lift_res (validate_key_comment c)) w1
      = (Inr (), w1)" "reject_output_alias ?p [ro_secret_key_file opts] w1 = (Inr (), w2)"
    "extract_key_op C key pw w2 = (Inr (sk, kn), w3)"
    "bind_io (lift_res (extract_public_key_from_secret C sk)) (\<lambda>public_key.
       let pubkey = \<lparr>pk_keynum = kn, pk_public_key = public_key\<rparr>;
           keynum_hex = to_key_id kn;
           comment = (case ro_comment opts of None \<Rightarrow> default_key_comment keynum_hex | Some c \<Rightarrow> c)
       in bind_io (lift_res (pubkey_to_file_contents C pubkey comment)) (\<lambda>pubkey_contents.
          bind_io (write_public_key_file ?p pubkey_contents (ro_force opts)) (\<lambda>_.
            ret \<lparr>rr_public_key_file = ?p, rr_keynum_hex = keynum_hex\<rparr>))) w3 = (Inr res, w')"
  proof -
    have "recreate_with_key C key opts pw w1 = (Inr res, w')"
      using run k(1) by (simp add: recreate_def bind_io_run)
    then obtain u2 x u3 where u: "(case ro_comment opts of None \<Rightarrow> ret () | Some c \<Rightarrow> lift_res (validate_key_comment c)) w1
        = (Inr (), w1)" "reject_output_alias ?p [ro_secret_key_file opts] w1 = (Inr (), u2)"
      "extract_key_op C key pw u2 = (Inr x, u3)"
      "(case x of (sk, kn) \<Rightarrow> bind_io (lift_res (extract_public_key_from_secret C sk)) (\<lambda>public_key.
       let pubkey = \<lparr>pk_keynum = kn, pk_public_key = public_key\<rparr>;
           keynum_hex = to_key_id kn;
           comment = (case ro_comment opts of None \<Rightarrow> default_key_comment keynum_hex | Some c \<Rightarrow> c)
       in bind_io (lift_res (pubkey_to_file_contents C pubkey comment)) (\<lambda>pubkey_contents.
          bind_io (write_public_key_file ?p pubkey_contents (ro_force opts)) (\<lambda>_.
            ret \<lparr>rr_public_key_file = ?p, rr_keynum_hex = keynum_hex\<rparr>)))) u3 = (Inr res, w')"
      unfolding recreate_with_key_def bind_io_Inr
      by (auto simp: ret_def lift_res_def split: option.splits)
    have "x = (sk, kn)" using fst_extract_key_op [of C key pw u2] u(3) k(2) by simp
    then show ?thesis using that u by simp
  qed
  have same: "w_fs w3 = w_fs w"
    using reads_onlyD [OF reads_only_load k(1)] reads_onlyD [OF reads_only_alias v(2)]
      reads_onlyD [OF reads_only_extract_key_op v(3)] by simp
  obtain t c where t: "pubkey_to_file_contents C (signer_key C sk kn) c = Inr t"
    "write_file ?p (as_bytes t) (ro_force opts) w3 = (Inr (), w')" "rr_keynum_hex res = to_key_id kn"
    using v(4)
    by (auto simp: bind_io_Inr lift_res_def Let_def write_public_key_file_def ret_def signer_key_def
        extract_public_key_from_secret_def split: option.splits)
  have "wf_pubkey (signer_key C sk kn)"
    using extract_key_wf [OF C(3) key k(2)] ed_public_length [OF C(2)]
    by (simp add: wf_pubkey_def signer_key_def wf_public_key_def size_defs)
  then have "pubkey_from_file_contents C t = Inr (signer_key C sk kn)"
    using pubkey_file.parse_render [OF C(1) _ t(1)] by blast
  moreover have "written (w_fs w) l (as_bytes t) (w_fs w') \<and> (ro_force opts \<or> lookup (w_fs w) l = None)"
    using write_file_written [OF _ s(2) _ t(2)] s(1,3) same by simp
  ultimately show ?thesis using t(3) by blast
qed

section \<open>Properties\<close>

text \<open>C6: changing the password never costs the key: whichever call fails and whenever the machine
  stops, the secret key file is the old one, untouched, or a complete new file that the new
  password opens and that holds the same secret key and key number. When \<open>change\<close> succeeds it is
  the new one, and no other file has changed.\<close>

theorem change_keeps_the_key:
  assumes "b64_ok C" "blake2b_ok C" "scrypt_ok C"
    and "wf_fs (w_fs w)" "file_name (co_secret_key_file opts) = Some n"
    and "resolve_entry (w_fs w) (co_secret_key_file opts) = Inr l" "lookup (w_fs w) l \<noteq> Some DirAt"
    and "load_secret_key C (co_secret_key_file opts) w = (Inr key, w1)" "extract_key C key old = Inr (sk, kn)"
    and "change C B opts old new w = (r, w')"
  shows "passes (key_safe C (w_fs w) l new sk kn) w w' \<and> key_safe C (w_fs w) l new sk kn (w_fs w')
    \<and> (\<forall>res. r = Inr res \<longrightarrow> (\<exists>bs. contents_at (w_fs w') l = Some bs \<and> holds_key C bs new sk kn)
         \<and> (\<forall>j. j \<noteq> l \<longrightarrow> view (w_fs w') j = view (w_fs w) j))"
  using assms unfolding change_def by (rule change_outcome)

lemma ex_load: "\<exists>w1. load_secret_key ref_crates ''k'' (ex_world ex_key_fs) = (Inr ex_seckey, w1)"
proof -
  obtain r w1 where r: "load_secret_key ref_crates ''k'' (ex_world ex_key_fs) = (r, w1)" by (rule prod.exhaust)
  then have "r = Inr ex_seckey"
    using load_secret_key_run [OF _ _ r, of "as_bytes ex_seckey_text"] ex_seckey_utf8(2) ex_utf8_text
      ex_seckey_file by simp
  then show ?thesis using r by simp
qed

theorem change_keeps_the_key_witness:
  "key_safe ref_crates ex_key_fs [''d'', ''k''] (Some [9]) (replicate 64 5) (replicate 8 7)
     (w_fs (snd (change ref_crates ex_build (change_builder ''k'') None (Some [9]) (ex_world ex_key_fs))))"
proof -
  obtain w1 where "load_secret_key ref_crates ''k'' (ex_world ex_key_fs) = (Inr ex_seckey, w1)"
    using ex_load by blast
  moreover have "resolve_entry ex_key_fs ''k'' = Inr [''d'', ''k'']"
    by (simp add: resolve_entry_def as_directory_def)
  ultimately show ?thesis
    using change_keeps_the_key [OF ref_b64_ok ref_blake2b_ok ref_scrypt_ok, of "ex_world ex_key_fs"
        "change_builder ''k''" "''k''" "[''d'', ''k'']" ex_seckey w1 None "replicate 64 5" "replicate 8 7" ex_build
        "Some [9]", OF _ _ _ _ _ _ surjective_pairing] ex_extract
    by (simp add: change_builder_def)
qed

text \<open>C32: the public key file made by \<open>recreate\<close> is the one that belongs to the secret key: it
  parses to the key number and to the public key under which this key's signatures verify, the
  key id reported is that of the key, and no other file has changed. Without \<open>force\<close> nothing was at
  the path before.\<close>

theorem recreate_gives_the_public_key:
  assumes "b64_ok C" "ed_ok C" "scrypt_ok C"
    and "wf_fs (w_fs w)" "file_name (ro_public_key_file opts) = Some n"
    and "resolve_entry (w_fs w) (ro_public_key_file opts) = Inr l"
    and "load_secret_key C (ro_secret_key_file opts) w = (Inr key, w1)" "extract_key C key pw = Inr (sk, kn)"
    and "recreate C opts pw w = (Inr res, w')"
  shows "\<exists>t. contents_at (w_fs w') l = Some (as_bytes t)
    \<and> pubkey_from_file_contents C t = Inr \<lparr>pk_keynum = kn, pk_public_key = ed_public C sk\<rparr>
    \<and> rr_keynum_hex res = to_key_id kn \<and> (ro_force opts \<or> lookup (w_fs w) l = None)
    \<and> (\<forall>j. j \<noteq> l \<longrightarrow> view (w_fs w') j = view (w_fs w) j)"
proof -
  obtain t where t: "written (w_fs w) l (as_bytes t) (w_fs w')" "pubkey_from_file_contents C t = Inr (signer_key C sk kn)"
    "rr_keynum_hex res = to_key_id kn" "ro_force opts \<or> lookup (w_fs w) l = None"
    using recreate_outcome [OF assms] by blast
  then show ?thesis
    by (intro exI [of _ t]) (auto simp: signer_key_def written_def contents_at_def view_def)
qed

definition ex_recreate :: recreate_options where
  "ex_recreate = \<lparr>ro_secret_key_file = ''k'', ro_public_key_file = ''n'', ro_comment = Some ''pub'',
     ro_force = False\<rparr>"

lemma ex_recreate_run: "\<exists>res w'. recreate ref_crates ex_recreate None (ex_world ex_key_fs) = (Inr res, w')"
proof -
  obtain w1 where w1: "load_secret_key ref_crates ''k'' (ex_world ex_key_fs) = (Inr ex_seckey, w1)"
    using ex_load by blast
  then have q1: "quiet w1" "w_fs w1 = ex_key_fs"
    using load_secret_key_run [OF ex_quiet _ w1, of "as_bytes ex_seckey_text"] by simp_all
  have n: "resolve_entry ex_key_fs ''n'' = Inr [''d'', ''n'']" "lookup ex_key_fs [''d'', ''n''] = None"
    by (simp_all add: resolve_entry_def as_directory_def) (simp add: ex_key_fs_def ex_fs_def lookup_def)
  have "fst (reject_output_alias ''n'' [''k''] w1) = Inr ()"
    using q1 n by (intro reject_output_alias_passes [where l = "[''d'', ''n'']" and n = "''n''"]) (simp_all add: quiet_honest)
  then obtain w2 where w2: "reject_output_alias ''n'' [''k''] w1 = (Inr (), w2)" by (metis prod.collapse)
  have q2: "quiet w2" "w_fs w2 = ex_key_fs"
    using keepsD [OF keeps_same_host_alias _ w2, of w1] same_host_quiet [OF _ q1(1)] q1(2)
      reads_onlyD [OF reads_only_alias w2] by (simp_all add: same_host_def)
  obtain x w3 where x: "extract_key_op ref_crates ex_seckey None w2 = (x, w3)" by (rule prod.exhaust)
  then have q3: "quiet w3" "w_fs w3 = ex_key_fs" "x = Inr (replicate 64 5, replicate 8 7)"
    using extract_key_op_run [OF q2(1) x] q2(2) ex_extract by simp_all
  have c: "validate_untrusted_comment ''pub'' = Inr ()"
    by (simp add: validate_untrusted_comment_iff validate_comment_ascii)
  then obtain t where t: "pubkey_to_file_contents ref_crates
      \<lparr>pk_keynum = replicate 8 7, pk_public_key = ed_public ref_crates (replicate 64 5)\<rparr> ''pub'' = Inr t"
    by (simp add: pubkey_to_file_contents_def)
  have "fst (write_file ''n'' (as_bytes t) False w3) = Inr ()"
    using q3 n by (intro write_file_run [where l = "[''d'', ''n'']"]) (simp_all add: quiet_honest)
  then obtain w4 where "write_file ''n'' (as_bytes t) False w3 = (Inr (), w4)" by (metis prod.collapse)
  moreover have "validate_key_comment ''pub'' = Inr ()"
    using c by (simp add: validate_key_comment_def validate_untrusted_comment_iff)
  ultimately show ?thesis
    using w1 w2 x q3(3) t ex_keypair
    by (simp add: recreate_def recreate_with_key_def ex_recreate_def bind_io_def lift_res_def Let_def ret_def
        extract_public_key_from_secret_def write_public_key_file_def)
qed

theorem recreate_gives_the_public_key_witness:
  "\<exists>t. contents_at (w_fs (snd (recreate ref_crates ex_recreate None (ex_world ex_key_fs)))) [''d'', ''n'']
       = Some (as_bytes t)
     \<and> pubkey_from_file_contents ref_crates t
         = Inr \<lparr>pk_keynum = replicate 8 7, pk_public_key = ed_public ref_crates (replicate 64 5)\<rparr>"
proof -
  obtain res w' where run: "recreate ref_crates ex_recreate None (ex_world ex_key_fs) = (Inr res, w')"
    using ex_recreate_run by blast
  obtain w1 where "load_secret_key ref_crates ''k'' (ex_world ex_key_fs) = (Inr ex_seckey, w1)"
    using ex_load by blast
  moreover have "resolve_entry ex_key_fs ''n'' = Inr [''d'', ''n'']"
    by (simp add: resolve_entry_def as_directory_def)
  ultimately show ?thesis
    using recreate_gives_the_public_key [OF ref_b64_ok ref_ed_ok ref_scrypt_ok, of "ex_world ex_key_fs"
        ex_recreate "''n''" "[''d'', ''n'']" ex_seckey w1 None "replicate 64 5" "replicate 8 7" res w'] ex_extract run
    by (auto simp: ex_recreate_def)
qed

end
