(* ===== verification/Inspect_Properties.thy ===== *)
theory Inspect_Properties
  imports Inspect Sign_Properties
begin

text \<open>
  Properties of the credential store and of \<open>inspect\<close>: what is saved is found again, which keys
  the store is asked about, and how the strength of a key is classified.
\<close>

section \<open>The credential store\<close>

definition store_works :: "world \<Rightarrow> bool" where
  "store_works w \<longleftrightarrow> (\<forall>n. w_keyring_faults w n = None) \<and> (\<forall>n bs. w_keyring_keeps w n bs = Some bs)"

definition asked :: "string \<Rightarrow> world \<Rightarrow> world" where
  "asked account w = w\<lparr>w_calls := Suc (w_calls w), w_keyring_asked := w_keyring_asked w @ [account]\<rparr>"

lemma asked_simps [simp]:
  "w_keyring (asked a w) = w_keyring w" "store_works (asked a w) \<longleftrightarrow> store_works w"
  "store_works (w\<lparr>w_keyring := k\<rparr>) \<longleftrightarrow> store_works w" "w_fs (asked a w) = w_fs w"
  "w_keyring_asked (asked a w) = w_keyring_asked w @ [a]"
  by (simp_all add: asked_def store_works_def)

lemma keyring_call_run:
  "store_works w \<Longrightarrow> keyring_call a f w = (case f (w_keyring w) of (r, k) \<Rightarrow> (r, (asked a w)\<lparr>w_keyring := k\<rparr>))"
  by (simp add: keyring_call_def store_works_def asked_def Let_def)

lemma keyring_same: "(asked a w)\<lparr>w_keyring := w_keyring w\<rparr> = asked a w"
  by (simp add: asked_def)

lemma open_entry_run: "store_works w \<Longrightarrow> open_entry a w = (Inr a, asked a w)"
  by (simp add: open_entry_def entry_new_def keyring_call_run map_err_io_def keyring_same)

lemma set_password_run:
  "store_works w \<Longrightarrow> set_password a pw w = (Inr (), (asked a w)\<lparr>w_keyring := (w_keyring w)(a \<mapsto> as_bytes pw)\<rparr>)"
  by (simp add: set_password_def keyring_call_run Let_def) (simp add: store_works_def)

lemma save_password_run:
  "b_credential_store B \<Longrightarrow> store_works w \<Longrightarrow>
     save_password B a pw w = (Inr (), (asked a (asked a w))\<lparr>w_keyring := (w_keyring w)(a \<mapsto> as_bytes pw)\<rparr>)"
  by (simp add: save_password_def bind_io_def open_entry_run set_password_run map_err_io_def)

lemma get_password_run:
  assumes "b_credential_store B" "store_works w"
  shows "get_password B a w = (case w_keyring w a of
      None \<Rightarrow> (Inr None, asked a (asked a w))
    | Some raw \<Rightarrow> (case from_utf8 raw of
          Inr pw \<Rightarrow> (Inr (Some pw), asked a (asked a w))
        | Inl e \<Rightarrow> (Inl (CredentialStoreError (''stored secret is not valid UTF-8: '' @ utf8_error_text e)),
                    asked a (asked a w))))"
  using assms keyring_same [of "asked a w" a]
  by (simp add: get_password_def bind_io_def open_entry_run attempt_def get_secret_def keyring_call_run
      ret_def throw_def split: option.split sum.split)

lemma forget_password_run:
  assumes "b_credential_store B" "store_works w"
  shows "forget_password B a w = (Inr (), (asked a (asked a w))\<lparr>w_keyring := (w_keyring w)(a := None)\<rparr>)"
proof (cases "w_keyring w a")
  case None
  then have "(w_keyring w)(a := None) = w_keyring w" by (simp add: fun_upd_idem_iff)
  then show ?thesis
    using assms None
    by (simp add: forget_password_def bind_io_def open_entry_run attempt_def delete_credential_def
        keyring_call_run ret_def)
next
  case (Some pw)
  then show ?thesis
    using assms
    by (simp add: forget_password_def bind_io_def open_entry_run attempt_def delete_credential_def
        keyring_call_run ret_def)
qed

text \<open>A password saved for a key is what is returned for that key afterwards, and for no other;
  after it is forgotten there is none, forgetting again is no error, and the entries of other
  keys are as they were.\<close>

theorem credential_store_roundtrip:
  assumes "b_credential_store B" "store_works w" "is_utf8 pw"
    and "save_password B a pw w = (r1, w1)" "forget_password B a w1 = (r2, w2)"
  shows "r1 = Inr () \<and> fst (get_password B a w1) = Inr (Some pw)
    \<and> (\<forall>b. b \<noteq> a \<longrightarrow> w_keyring w1 b = w_keyring w b)
    \<and> r2 = Inr () \<and> fst (get_password B a w2) = Inr None \<and> fst (forget_password B a w2) = Inr ()
    \<and> w_keyring w2 = (w_keyring w)(a := None)"
proof -
  have w1: "r1 = Inr ()" "w1 = (asked a (asked a w))\<lparr>w_keyring := (w_keyring w)(a \<mapsto> as_bytes pw)\<rparr>"
    using assms(4) save_password_run [OF assms(1,2)] by simp_all
  then have s1: "store_works w1" using assms(2) by simp
  have w2: "r2 = Inr ()" "w2 = (asked a (asked a w1))\<lparr>w_keyring := (w_keyring w1)(a := None)\<rparr>"
    using assms(5) forget_password_run [OF assms(1) s1] by simp_all
  then have s2: "store_works w2" using s1 by simp
  show ?thesis
    using w1 w2 get_password_run [OF assms(1) s1, of a] get_password_run [OF assms(1) s2, of a]
      forget_password_run [OF assms(1) s2, of a] from_utf8_as_bytes [OF assms(3)]
    by simp
qed

lemma ex_store_works [simp]: "store_works (ex_world s)" "b_credential_store ex_build"
  by (simp_all add: store_works_def ex_world_def ex_build_def)

theorem credential_store_roundtrip_witness:
  "fst (get_password ex_build ''0A'' (snd (save_password ex_build ''0A'' ''pw'' (ex_world ex_fs)))) = Inr (Some ''pw'')"
  using credential_store_roundtrip [of ex_build "ex_world ex_fs" "''pw''" "''0A''", OF _ _ _ surjective_pairing surjective_pairing]
  by (simp add: is_utf8_ascii)

section \<open>Inspection\<close>

lemma has_password_asked:
  "has_password dbg B a w = (r, w') \<Longrightarrow> w_keyring w' = w_keyring w \<and> w_fs w' = w_fs w
     \<and> set (w_keyring_asked w') \<subseteq> insert a (set (w_keyring_asked w))"
  by (auto simp: has_password_def get_password_def bind_io_def attempt_def open_entry_def map_err_io_def
      entry_new_def get_secret_def keyring_call_def ret_def throw_def Let_def
      split: if_splits prod.splits option.splits sum.splits keyring_error.splits)

text \<open>The measure of strength: \<open>log_n\<close> is 20 for a production key.\<close>

definition level_of_log_n :: "nat \<Rightarrow> security_level" where
  "level_of_log_n l =
     (if 20 < l then Unsupported else if l = 20 then High else if 18 \<le> l then Medium else Low)"

lemma pow2_le: "(2 :: nat) ^ a \<le> 2 ^ b \<longleftrightarrow> a \<le> b"
  by simp

lemma kdf_info_of_Inr:
  assumes "kdf_info_of C ops mem = Inr i"
  shows "unat mem = 2 ^ (unat (ki_log_n i) + 10)" "ki_memlimit i = mem"
    "ki_is_fallback i \<longleftrightarrow> unat (ki_log_n i) < 20"
    "case ki_weakness_multiplier i of None \<Rightarrow> 20 \<le> unat (ki_log_n i)
       | Some m \<Rightarrow> unat (ki_log_n i) < 20 \<and> unat m = 2 ^ (20 - unat (ki_log_n i))"
    "ops < PRODUCTION_OPSLIMIT \<or> mem < PRODUCTION_MEMLIMIT \<longleftrightarrow> unat (ki_log_n i) < 20"
proof -
  obtain l r p where d: "decode_kdf_params C ops mem = Inr (l, r, p)"
    and i: "ki_log_n i = l" "ki_memlimit i = mem"
      "ki_is_fallback i \<longleftrightarrow> ops < PRODUCTION_OPSLIMIT \<or> mem < PRODUCTION_MEMLIMIT"
      "ki_weakness_multiplier i = (if ki_is_fallback i then Some (PRODUCTION_MEMLIMIT div mem) else None)"
    using assms by (auto simp: kdf_info_of_def result_simps Let_def)
  have m: "unat mem = 2 ^ (unat l + 10)" and o: "unat ops = 2 ^ (unat l + 5)"
    using d by (simp_all add: decode_kdf_params_exact)
  have prod: "unat PRODUCTION_MEMLIMIT = 2 ^ 30" "unat PRODUCTION_OPSLIMIT = 2 ^ 25"
    by (simp_all add: PRODUCTION_MEMLIMIT_def PRODUCTION_OPSLIMIT_def)
  have f: "ops < PRODUCTION_OPSLIMIT \<or> mem < PRODUCTION_MEMLIMIT \<longleftrightarrow> unat l < 20"
    unfolding word_less_nat_alt prod m o by (simp only: power_strict_increasing_iff) auto
  have "unat (PRODUCTION_MEMLIMIT div mem) = 2 ^ (20 - unat l)" if "unat l < 20"
  proof -
    have "unat (PRODUCTION_MEMLIMIT div mem) = 2 ^ 30 div 2 ^ (unat l + 10)"
      by (simp only: unat_div prod m)
    also have "\<dots> = 2 ^ (30 - (unat l + 10))" using that by (simp only: power_diff [symmetric])
    also have "30 - (unat l + 10) = 20 - unat l" by simp
    finally show ?thesis .
  qed
  then show "case ki_weakness_multiplier i of None \<Rightarrow> 20 \<le> unat (ki_log_n i)
       | Some m \<Rightarrow> unat (ki_log_n i) < 20 \<and> unat m = 2 ^ (20 - unat (ki_log_n i))"
    using i f by (auto simp: not_less)
  show "unat mem = 2 ^ (unat (ki_log_n i) + 10)" "ki_memlimit i = mem"
    "ki_is_fallback i \<longleftrightarrow> unat (ki_log_n i) < 20"
    "ops < PRODUCTION_OPSLIMIT \<or> mem < PRODUCTION_MEMLIMIT \<longleftrightarrow> unat (ki_log_n i) < 20"
    using m i f by simp_all
qed

lemma from_kdf_params_level:
  assumes "unat mem = 2 ^ (l + 10)"
  shows "from_kdf_params mem (l < 20) = level_of_log_n l"
proof -
  have b: "is_ok (check_kdf_budget mem) \<longleftrightarrow> l \<le> 20"
    using power_increasing_iff [of "2 :: nat" "l + 10" 30] assms by (simp add: is_ok_iff check_kdf_budget_iff)
  have "256000000 \<le> mem \<longleftrightarrow> 18 \<le> l"
  proof
    assume "256000000 \<le> mem"
    then have "(256000000 :: nat) \<le> 2 ^ (l + 10)" using assms by (simp add: word_le_nat_alt)
    show "18 \<le> l"
    proof (rule ccontr)
      assume "\<not> 18 \<le> l"
      then have "(2 :: nat) ^ (l + 10) \<le> 2 ^ 27" by (intro power_increasing) auto
      then show False using \<open>256000000 \<le> 2 ^ (l + 10)\<close> by simp
    qed
  next
    assume "18 \<le> l"
    then have "(2 :: nat) ^ 28 \<le> 2 ^ (l + 10)" by (intro power_increasing) auto
    then show "256000000 \<le> mem" using assms by (simp add: word_le_nat_alt)
  qed
  then show ?thesis by (auto simp: from_kdf_params_def level_of_log_n_def b)
qed

text \<open>C39: an encrypted key is classified by the \<open>log_n\<close> of its parameters: production strength is
  20, more cannot be used, 18 and 19 are medium, everything below is low; the factor by which it
  is weaker is the power of two of the difference, and a key below 20 is one that the use of the
  key warns about.\<close>

theorem inspect_classification:
  assumes "sk_encrypted s" "fst (inspect_secret_key C dbg B s chk w) = Inr res"
  shows "\<exists>i. ir_kdf_info res = Some i \<and> unat (sk_kdf_memlimit s) = 2 ^ (unat (ki_log_n i) + 10)
    \<and> ir_security_level res = Some (level_of_log_n (unat (ki_log_n i)))
    \<and> (case ki_weakness_multiplier i of None \<Rightarrow> 20 \<le> unat (ki_log_n i)
       | Some m \<Rightarrow> unat (ki_log_n i) < 20 \<and> unat m = 2 ^ (20 - unat (ki_log_n i)))
    \<and> (is_weak_kdf s \<longleftrightarrow> unat (ki_log_n i) < 20)"
proof -
  obtain i where i: "kdf_info_of C (sk_kdf_opslimit s) (sk_kdf_memlimit s) = Inr i" "ir_kdf_info res = Some i"
    "ir_security_level res = Some (from_kdf_params (ki_memlimit i) (ki_is_fallback i))"
    using assms
    by (auto simp: inspect_secret_key_def inspect_secret_key_with_credentials_def bind_io_def lift_res_def
        ret_def Let_def split: sum.splits prod.splits if_splits)
  note k = kdf_info_of_Inr [OF i(1)]
  show ?thesis
    using i k(1-4) k(5) from_kdf_params_level [OF k(1)] assms(1)
    by (intro exI [of _ i]) (simp add: is_weak_kdf_def)
qed

text \<open>C40: the credential store is asked about the key being inspected and no other, nothing in it
  changes, and it is not asked at all when the caller did not want it or the key is beyond what
  can be used.\<close>

theorem inspect_asks_sparingly:
  assumes "inspect_secret_key C dbg B s chk w = (r, w')"
  shows "w_keyring w' = w_keyring w
    \<and> set (w_keyring_asked w') \<subseteq> insert (credential_id s) (set (w_keyring_asked w))
    \<and> (\<not> chk \<or> sk_encrypted s \<and> 2 ^ 30 < unat (sk_kdf_memlimit s) \<longrightarrow> w' = w)"
proof -
  have unsup: "from_kdf_params (ki_memlimit i) (ki_is_fallback i) = Unsupported"
    if "kdf_info_of C (sk_kdf_opslimit s) (sk_kdf_memlimit s) = Inr i" "2 ^ 30 < unat (sk_kdf_memlimit s)" for i
    using that kdf_info_of_Inr(2) [OF that(1)]
    by (simp add: from_kdf_params_def is_ok_iff check_kdf_budget_iff)
  show ?thesis
    using assms unsup has_password_asked [of dbg B "credential_id s" w]
    by (auto simp: inspect_secret_key_def inspect_secret_key_with_credentials_def bind_io_def lift_res_def
        ret_def Let_def split: sum.splits prod.splits if_splits)
qed

definition ex_weak_key :: seckey_struct where
  "ex_weak_key = (new_unencrypted (replicate 8 0) (replicate 64 0))
     \<lparr>sk_encrypted := True, sk_kdf_opslimit := 4194304, sk_kdf_memlimit := 134217728\<rparr>"

lemma ex_weak_info:
  "\<exists>res. fst (inspect_secret_key ref_crates (\<lambda>p. p) ex_build ex_weak_key False w) = Inr res"
proof -
  have "decode_kdf_params ref_crates 4194304 134217728 = Inr (17, SCRYPT_R, SCRYPT_P)"
    by (simp add: decode_kdf_params_exact ref_crates_def)
  then show ?thesis
    by (simp add: inspect_secret_key_def inspect_secret_key_with_credentials_def kdf_info_of_def ex_weak_key_def
        bind_io_def lift_res_def ret_def Let_def)
qed

theorem inspect_classification_witness:
  "\<exists>res. fst (inspect_secret_key ref_crates (\<lambda>p. p) ex_build ex_weak_key False (ex_world ex_fs)) = Inr res
     \<and> is_weak_kdf ex_weak_key \<and> ir_security_level res = Some Low"
proof -
  obtain res where r: "fst (inspect_secret_key ref_crates (\<lambda>p. p) ex_build ex_weak_key False (ex_world ex_fs)) = Inr res"
    using ex_weak_info by blast
  have e: "sk_encrypted ex_weak_key" by (simp add: ex_weak_key_def)
  obtain i :: kdf_info where i: "unat (sk_kdf_memlimit ex_weak_key) = 2 ^ (unat (ki_log_n i) + 10)"
    "ir_security_level res = Some (level_of_log_n (unat (ki_log_n i)))"
    "is_weak_kdf ex_weak_key \<longleftrightarrow> unat (ki_log_n i) < 20"
    using inspect_classification [OF e r] by blast
  have "(2 :: nat) ^ 27 = 2 ^ (unat (ki_log_n i) + 10)" using i(1) by (simp add: ex_weak_key_def)
  then have "unat (ki_log_n i) = 17" by (simp only: power_inject_exp)
  then show ?thesis using r i by (auto simp: level_of_log_n_def)
qed

theorem inspect_asks_sparingly_witness:
  "snd (inspect_secret_key ref_crates (\<lambda>p. p) ex_build ex_weak_key False (ex_world ex_fs)) = ex_world ex_fs"
  using inspect_asks_sparingly [OF surjective_pairing, of ref_crates "\<lambda>p. p" ex_build ex_weak_key False "ex_world ex_fs"]
  by simp

end
