(* ===== verification/Pairs.thy ===== *)
theory Pairs
  imports Reach
begin

text \<open>
  The two files of a new key pair: what is where when \<open>write_keypair_files_create_new\<close> has
  succeeded, on any host, and that it succeeds on a host that does not fail when the names are free.
\<close>

section \<open>A pair created without overwriting\<close>

text \<open>The path leads to a file of its own with these bytes.\<close>

definition file_with :: "fs \<Rightarrow> path \<Rightarrow> loc \<Rightarrow> nat \<Rightarrow> bytes \<Rightarrow> bool" where
  "file_with s p l i bs \<longleftrightarrow>
     resolve_entry s p = Inr l \<and> lookup s l = Some (FileAt i) \<and> i < fs_next s
     \<and> map_option i_bytes (fs_inodes s i) = Some bs"

lemma file_with_contents: "file_with s p l i bs \<Longrightarrow> contents_at s l = Some bs"
  by (auto simp: file_with_def contents_at_def view_def)

lemma file_with_step:
  assumes "file_with s p l i bs" "file_name p = Some n" "same_dirs s s'"
    and "lookup s' l = lookup s l" "fs_inodes s' i = fs_inodes s i" "fs_next s \<le> fs_next s'"
  shows "file_with s' p l i bs"
  using assms resolve_entry_same_dirs [OF assms(2) _ assms(3)] by (auto simp: file_with_def)

lemma create_new_resolves:
  assumes "create_new p m w = (Inr i, w')"
  shows "\<exists>l. resolve_entry (w_fs w) p = Inr l"
proof (cases "resolve_entry (w_fs w) p")
  case (Inl e)
  then show ?thesis
    using assms by (simp add: create_new_def update_def sys_create_new_def Let_def split: option.splits)
qed simp

lemma temp_written:
  assumes "write_temp_file p bs m v = (Inr t, v')" "file_name p = Some n"
  shows "\<exists>k l. file_name t = Some k \<and> file_with (w_fs v') t l (fs_next (w_fs v)) bs
    \<and> staged (w_fs v) l bs (w_fs v')"
proof -
  obtain t' v1 i v2 u v3 u' v4 where run: "sibling_temp_path p ''tmp'' v = (Inr t' :: error + path, v1)"
    "create_new t' (case m of None \<Rightarrow> DEFAULT_FILE_MODE | Some m \<Rightarrow> m) v1 = (Inr i, v2)"
    "write_all i bs v2 = (Inr u, v3)" "sync_all v3 = (Inr u', v4)" "ret t' v4 = (Inr t :: error + path, v')"
    using assms(1) unfolding write_temp_file_def bind_io_Inr map_err_io_Inr
    by (elim exE conjE) (rule that, assumption+)
  obtain nonce where "t' = sibling_path p (temp_name n nonce ''tmp'')" "w_fs v1 = w_fs v"
    using wpD [OF spec_sibling_temp_path [OF assms(2)] run(1)] by auto
  then have v: "t = sibling_path p (temp_name n nonce ''tmp'')" "w_fs v1 = w_fs v"
    "create_new t (case m of None \<Rightarrow> DEFAULT_FILE_MODE | Some m \<Rightarrow> m) v1 = (Inr i, v2)"
    "write_all i bs v2 = (Inr (), v3)" "w_fs v' = w_fs v3"
    using run reads_onlyD [OF reads_only_calls(8) run(4)] by (auto simp: ret_def)
  have name: "file_name t = Some (temp_name n nonce ''tmp'')"
    unfolding v(1) by (rule sibling_has_name [OF assms(2)]) simp
  obtain l where l: "resolve_entry (w_fs v1) t = Inr l"
    using create_new_resolves [OF v(3)] by blast
  have i: "i = fs_next (w_fs v)" "staged (w_fs v) l [] (w_fs v2)"
    using wpD [OF spec_create_new [OF refl name l] v(3)] v(2) by auto
  then have st: "staged (w_fs v) l bs (w_fs v3)"
    using wpD [OF spec_write_all [OF i(2)]] v(4) by auto
  then have "resolve_entry (w_fs v3) t = Inr l"
    using resolve_entry_same_dirs [OF name _ staged_same_dirs [OF st], of l] l v(2) by simp
  then show ?thesis
    using st name v(5) by (auto simp: file_with_def staged_def lookup_def)
qed

lemma linked:
  assumes "hard_link a p v = (Inr u, v')" "file_with (w_fs v) a la i bs" "file_name p = Some n"
  shows "\<exists>l. lookup (w_fs v) l = None \<and> file_with (w_fs v') p l i bs
    \<and> (\<forall>k. lookup (w_fs v') k = (if k = l then Some (FileAt i) else lookup (w_fs v) k))
    \<and> (\<forall>t k j ds. file_name t \<noteq> None \<longrightarrow> file_with (w_fs v) t k j ds \<longrightarrow> file_with (w_fs v') t k j ds)"
proof -
  have run: "sys_hard_link a p (w_fs v) = (Inr u, w_fs v')"
    using assms(1) by (auto simp: hard_link_def update_def commit_def Let_def split: option.splits prod.splits)
  have a: "resolve_entry (w_fs v) a = Inr la" "lookup (w_fs v) la = Some (FileAt i)"
    using assms(2) by (simp_all add: file_with_def)
  obtain l where l: "resolve_entry (w_fs v) p = Inr l"
    using run a(1) by (cases "resolve_entry (w_fs v) p") (simp_all add: sys_hard_link_def)
  have none: "lookup (w_fs v) l = None"
    and v': "w_fs v' = (w_fs v)\<lparr>fs_entries := (fs_entries (w_fs v))(l \<mapsto> FileAt i)\<rparr>"
    using run a l by (auto simp: sys_hard_link_def split: if_splits)
  then have ne: "l \<noteq> []" by (auto simp: lookup_def)
  have dirs: "same_dirs (w_fs v) (w_fs v')"
    using none ne unfolding v' same_dirs_def by (auto split: if_splits)
  have keep: "file_with (w_fs v') t k j ds" if "file_name t = Some m" "file_with (w_fs v) t k j ds" for t m k j ds
    by (rule file_with_step [OF that(2,1) dirs])
      (use v' ne none that(2) in \<open>auto simp: file_with_def\<close>)
  have "file_with (w_fs v') p l i bs"
    using resolve_entry_same_dirs [OF assms(3) l dirs] v' ne assms(2) by (simp add: file_with_def)
  moreover have "\<forall>k. lookup (w_fs v') k = (if k = l then Some (FileAt i) else lookup (w_fs v) k)"
    using v' ne by simp
  ultimately show ?thesis using none keep by blast
qed

text \<open>What a file that is removed, or fails to be, does to another.\<close>

lemma discarded:
  assumes "discard_file t v = (Inr (), v')" "file_with (w_fs v) t lt j cs"
    and "file_with (w_fs v) p l i bs" "file_name p = Some n" "l \<noteq> lt"
  shows "file_with (w_fs v') p l i bs"
proof -
  have lt: "resolve_entry (w_fs v) t = Inr lt" "lookup (w_fs v) lt = Some (FileAt j)" "lt \<noteq> []"
    using assms(2) by (auto simp: file_with_def lookup_def split: if_splits)
  have "w_fs v' = w_fs v \<or> w_fs v' = (w_fs v)\<lparr>fs_entries := (fs_entries (w_fs v))(lt := None)\<rparr>"
    using assms(1) lt
    by (auto simp: discard_file_def warn_cleanup_failure_def warn_could_not_remove_def remove_file_def
        update_def commit_def sys_remove_file_def bind_io_def attempt_def eprintln_def print_err_def ret_def Let_def
        split: option.splits)
  then show ?thesis
  proof
    assume v': "w_fs v' = (w_fs v)\<lparr>fs_entries := (fs_entries (w_fs v))(lt := None)\<rparr>"
    show ?thesis
      by (rule file_with_step [OF assms(3,4)])
        (use v' lt assms(5) in \<open>auto simp: same_dirs_def split: if_splits\<close>)
  qed (use assms(3) in simp)
qed

lemma or_discard_Inr: "or_discard m ps w = (Inr x, w') \<longleftrightarrow> m w = (Inr x, w')"
proof (cases "m w")
  case (Pair r w1)
  show ?thesis
  proof (cases r)
    case (Inl e)
    have "or_discard m ps w = bind_io (discard_files ps) (\<lambda>_. throw e) w1"
      using Pair Inl by (simp add: or_discard_def bind_io_def attempt_def)
    then show ?thesis using Pair Inl by (auto simp: bind_io_Inr throw_def)
  qed (use Pair in \<open>simp add: or_discard_def bind_io_def attempt_def ret_def\<close>)
qed

lemma link_pair:
  assumes "link_keypair sp pp st pt w = (Inr u, w')"
    and s: "file_with (w_fs w) st lt i sc" "file_name st = Some ks" "file_name sp = Some n"
    and q: "file_with (w_fs w) pt lq j pc" "file_name pt = Some kq" "file_name pp = Some m"
    and ne: "lq \<noteq> lt"
  shows "\<exists>ls lp. ls \<noteq> lp \<and> lookup (w_fs w) ls = None \<and> lookup (w_fs w) lp = None
    \<and> file_with (w_fs w') sp ls i sc \<and> file_with (w_fs w') pp lp j pc"
proof -
  obtain u1 w1 u2 w2 u3 w3 u4 w4 where run: "hard_link st sp w = (Inr u1, w1)"
    "sync_parent_directory sp w1 = (Inr u2, w2)" "hard_link pt pp w2 = (Inr u3, w3)"
    "sync_parent_directory pp w3 = (Inr u4, w4)" "discard_files [st, pt] w4 = (Inr u :: error + unit, w')"
    using assms(1) unfolding link_keypair_def bind_io_Inr or_discard_Inr map_err_io_Inr
    by (elim exE conjE) (rule that, assumption+)
  obtain w5 where disc: "discard_file st w4 = (Inr () :: error + unit, w5)"
    "discard_file pt w5 = (Inr () :: error + unit, w')"
    using run(5) by (auto simp: discard_files_simps bind_io_Inr ret_def)
  have w2: "w_fs w2 = w_fs w1" and w4: "w_fs w4 = w_fs w3"
    using reads_onlyD [OF reads_only_sync_parent run(2)] reads_onlyD [OF reads_only_sync_parent run(4)]
    by simp_all
  obtain ls where ls: "lookup (w_fs w) ls = None" "file_with (w_fs w2) sp ls i sc"
    "\<forall>k. lookup (w_fs w2) k = (if k = ls then Some (FileAt i) else lookup (w_fs w) k)"
    "\<forall>t k j ds. file_name t \<noteq> None \<longrightarrow> file_with (w_fs w) t k j ds \<longrightarrow> file_with (w_fs w2) t k j ds"
    unfolding w2 using linked [OF run(1) s(1,3)] by blast
  have t2: "file_with (w_fs w2) st lt i sc" "file_with (w_fs w2) pt lq j pc"
    using ls(4) s(1,2) q(1,2) by auto
  obtain lp where lp: "lookup (w_fs w2) lp = None" "file_with (w_fs w4) pp lp j pc"
    "\<forall>t k j ds. file_name t \<noteq> None \<longrightarrow> file_with (w_fs w2) t k j ds \<longrightarrow> file_with (w_fs w4) t k j ds"
    unfolding w4 using linked [OF run(3) t2(2) q(3)] by blast
  have t4: "file_with (w_fs w4) st lt i sc" "file_with (w_fs w4) pt lq j pc" "file_with (w_fs w4) sp ls i sc"
    using lp(3) t2 ls(2) s(2,3) q(2) by auto
  have apart: "lt \<noteq> ls" "lq \<noteq> ls" "lt \<noteq> lp" "lq \<noteq> lp" "ls \<noteq> lp"
    using ls(1,2) lp(1) s(1) q(1) t2 by (auto simp: file_with_def)
  note step = discarded [OF disc(1) t4(1)]
  have t5: "file_with (w_fs w5) pt lq j pc" "file_with (w_fs w5) sp ls i sc" "file_with (w_fs w5) pp lp j pc"
    using step [OF t4(2) q(2)] step [OF t4(3) s(3)] step [OF lp(2) q(3)] ne apart by auto
  note step = discarded [OF disc(2) t5(1)]
  have "file_with (w_fs w') sp ls i sc" "file_with (w_fs w') pp lp j pc"
    using step [OF t5(2) s(3)] step [OF t5(3) q(3)] apart by auto
  moreover have "lookup (w_fs w) lp = None" using lp(1) ls(3) by (auto split: if_splits)
  ultimately show ?thesis using ls(1) apart(5) by blast
qed

lemma create_new_pair:
  assumes "write_keypair_files_create_new sp pp sc pc w = (Inr u, w')"
    and sp: "file_name sp = Some n" and pp: "file_name pp = Some m"
  shows "\<exists>ls lp i j. ls \<noteq> lp \<and> lookup (w_fs w) ls = None \<and> lookup (w_fs w) lp = None
    \<and> file_with (w_fs w') sp ls i sc \<and> file_with (w_fs w') pp lp j pc"
proof -
  obtain w1 w2 where ex: "path_exists sp w = (Inr False :: error + bool, w1)"
    "path_exists pp w1 = (Inr False :: error + bool, w2)"
    and rest: "bind_io (stage_keypair sp pp sc pc) (\<lambda>(st, pt). link_keypair sp pp st pt) w2 = (Inr u, w')"
    using assms(1)
    by (auto simp: write_keypair_files_create_new_def bind_io_Inr throw_def split: if_splits)
  have base: "w_fs w2 = w_fs w"
    using reads_onlyD [OF reads_only_exists ex(1)] reads_onlyD [OF reads_only_exists ex(2)] by simp
  obtain st w3 pt w4 where tmp: "write_temp_file sp sc (Some SECRET_KEY_FILE_PERMISSIONS) w2 = (Inr st, w3)"
    "write_temp_file pp pc None w3 = (Inr pt, w4)" "link_keypair sp pp st pt w4 = (Inr u, w')"
    using rest by (auto simp: bind_io_Inr stage_keypair_def or_discard_Inr ret_def)
  obtain ks lt where s: "file_name st = Some ks" "file_with (w_fs w3) st lt (fs_next (w_fs w2)) sc"
    "staged (w_fs w2) lt sc (w_fs w3)"
    using temp_written [OF tmp(1) sp] by blast
  obtain kq lq where q: "file_name pt = Some kq" "file_with (w_fs w4) pt lq (fs_next (w_fs w3)) pc"
    "staged (w_fs w3) lq pc (w_fs w4)"
    using temp_written [OF tmp(2) pp] by blast
  have ne: "fs_next (w_fs w2) \<noteq> fs_next (w_fs w3)" "lq \<noteq> lt"
    using s(3) q(3) s(2) by (auto simp: staged_def file_with_def)
  have "file_with (w_fs w4) st lt (fs_next (w_fs w2)) sc"
    by (rule file_with_step [OF s(2,1) staged_same_dirs [OF q(3)]])
      (use q(3) ne in \<open>auto simp: staged_def lookup_def\<close>)
  then obtain ls lp where l: "ls \<noteq> lp" "lookup (w_fs w4) ls = None" "lookup (w_fs w4) lp = None"
    "file_with (w_fs w') sp ls (fs_next (w_fs w2)) sc" "file_with (w_fs w') pp lp (fs_next (w_fs w3)) pc"
    using link_pair [OF tmp(3) _ s(1) sp q(2,1) pp ne(2)] by blast
  moreover have "lookup (w_fs w) ls = None" "lookup (w_fs w) lp = None"
    using l(2,3) s(3) q(3) base by (auto simp: staged_def lookup_def split: if_splits)
  ultimately show ?thesis by blast
qed

section \<open>Runs that come off\<close>

text \<open>Calls that change files, on a host that does not fail.\<close>

lemma updates_run:
  assumes "faultless w"
  shows "create_new p m w = (case sys_create_new p (masked m w) (nat (w_clock w (w_calls w))) (w_fs w)
      of (r, s) \<Rightarrow> (r, commit s (ticked w)))"
    and "hard_link p q w = (case sys_hard_link p q (w_fs w) of (r, s) \<Rightarrow> (r, commit s (ticked w)))"
    and "remove_file p w = (case sys_remove_file p (w_fs w) of (r, s) \<Rightarrow> (r, commit s (ticked w)))"
    and "sync_all w = (Inr (), ticked w)"
  using assms by (simp_all add: create_new_def hard_link_def remove_file_def sync_all_def update_def query_def
      faultless_def ticked_def split: prod.splits)

lemma write_all_run:
  "faultless w \<Longrightarrow> \<exists>w'. write_all i bs w = (Inr (), w') \<and> w_fs w' = append_inode i bs (w_fs w) \<and> faultless w'
     \<and> w_rng w' = w_rng w"
  by (simp add: write_all_def faultless_def commit_def Let_def)

lemma path_exists_run:
  "faultless w \<Longrightarrow> path_exists p w = (Inr (is_ok (sys_metadata p (w_fs w))), ticked w)"
  by (simp add: path_exists_def bind_io_def attempt_def lookups_run ret_def)

lemma write_temp_run:
  assumes "faultless w" "file_name p = Some n" "resolve_entry (w_fs w) p = Inr l"
    and "\<And>nonce. lookup (w_fs w) (butlast l @ [temp_name n nonce ''tmp'']) = None"
  shows "\<exists>nonce t w'. write_temp_file p bs m w = (Inr t, w') \<and> faultless w'
    \<and> staged (w_fs w) (butlast l @ [temp_name n nonce ''tmp'']) bs (w_fs w') \<and> file_name t \<noteq> None
    \<and> file_with (w_fs w') t (butlast l @ [temp_name n nonce ''tmp'']) (fs_next (w_fs w)) bs"
proof -
  define g where "g = snd (fill_bytes 8 (w_rng w))"
  obtain nonce where tmp: "sibling_temp_path p ''tmp'' w
      = (Inr (sibling_path p (temp_name n nonce ''tmp'')) :: error + path, w\<lparr>w_rng := g\<rparr>)"
    using assms(2) by (auto simp: sibling_temp_path_def bind_io_def random_bytes_def ret_def Let_def g_def
        sibling_path_def parent_or_dot_def fill_bytes_def)
  let ?t = "sibling_path p (temp_name n nonce ''tmp'')" and ?l = "butlast l @ [temp_name n nonce ''tmp'']"
  let ?w1 = "w\<lparr>w_rng := g\<rparr>" and ?m = "case m of None \<Rightarrow> DEFAULT_FILE_MODE | Some m \<Rightarrow> m"
  have t: "resolve_entry (w_fs ?w1) ?t = Inr ?l" "lookup (w_fs ?w1) ?l = None" "faultless ?w1"
    using assms temp_location(1) [OF assms(2) _ assms(3)] by (simp_all add: faultless_def)
  obtain w2 where w2: "create_new ?t ?m ?w1 = (Inr (fs_next (w_fs w)), w2)" "faultless w2"
    "w_fs w2 = snd (add_file ?l (masked ?m ?w1) (nat (w_clock w (w_calls w))) (w_fs w))"
    using t by (auto simp: updates_run sys_create_new_def add_file_def Let_def commit_def faultless_def)
  then have st: "staged (w_fs w) ?l [] (w_fs w2)"
    using assms(4) w2(3) by (simp add: staged_def add_file_def Let_def lookup_def)
  obtain w3 where w3: "write_all (fs_next (w_fs w)) bs w2 = (Inr (), w3)" "faultless w3"
    using write_all_run [OF w2(2)] by blast
  then have run: "write_temp_file p bs m w = (Inr ?t, ticked w3)"
    using tmp w2(1) by (simp add: write_temp_file_def bind_io_def map_err_io_def updates_run ret_def)
  have st3: "staged (w_fs w) ?l bs (w_fs w3)"
    using wpD [OF spec_write_all [OF st] w3(1)] by simp
  have name: "file_name ?t = Some (temp_name n nonce ''tmp'')"
    using temp_location(3) [OF assms(2) _ assms(3)] by simp
  have "resolve_entry (w_fs w3) ?t = Inr ?l"
    by (rule resolve_entry_same_dirs [OF name _ staged_same_dirs [OF st3]]) (use t(1) in simp)
  then have "file_with (w_fs w3) ?t ?l (fs_next (w_fs w)) bs"
    using st3 by (simp add: file_with_def staged_def lookup_def)
  then show ?thesis
    using run name st3 w3(2)
    by (intro exI [of _ nonce] exI [of _ ?t] exI [of _ "ticked w3"]) simp
qed

lemma file_name_ne: "file_name p = Some n \<Longrightarrow> p \<noteq> []"
  by (auto simp: file_name_def components_def)

lemma walk_missing:
  "walk s k here cs = Inr d \<Longrightarrow> lookup s d = Some DirAt \<Longrightarrow> lookup s (d @ [n]) = None \<Longrightarrow>
     walk s k here (cs @ [NormalComp n]) = Inr (d @ [n])"
proof (induction s k here cs rule: walk.induct)
  case (5 s k here m cs)
  then show ?case by (auto split: option.splits entry.splits if_splits)
qed auto

lemma missing_not_found:
  assumes "file_name p = Some n" "resolve_entry s p = Inr l" "lookup s l = None"
  shows "resolve s p = Inr l" "sys_metadata p s = Inl ENOENT"
proof -
  obtain d where d: "walk s MAX_LINKS (fs_cwd s) (butlast (components p)) = Inr d" "lookup s d = Some DirAt"
    "l = d @ [n]" using assms(1,2) resolve_entry_Inr by blast
  have "components p = butlast (components p) @ [NormalComp n]"
    using assms(1) by (metis append_butlast_last_id file_name_Some)
  then have "walk s MAX_LINKS (fs_cwd s) (components p) = Inr l"
    using walk_missing [OF d(1,2)] assms(3) d(3) by metis
  then show "resolve s p = Inr l" using file_name_ne [OF assms(1)] by (simp add: resolve_def)
  then show "sys_metadata p s = Inl ENOENT" using assms(3) by (simp add: sys_metadata_def sys_open_def)
qed

lemma parent_opens:
  assumes "file_name p = Some n" "resolve_entry s p = Inr l" "path_parent p = Some q" "q \<noteq> []"
  shows "sys_open q s = Inr (DirHandle (butlast l))"
proof -
  obtain d where d: "walk s MAX_LINKS (fs_cwd s) (butlast (components p)) = Inr d" "lookup s d = Some DirAt"
    "l = d @ [n]" using assms(1,2) resolve_entry_Inr by blast
  then have "resolve s q = Inr d" using assms(4) path_parent_components [OF assms(3)] by (simp add: resolve_def)
  then show ?thesis using d by (simp add: sys_open_def)
qed

lemma sync_parent_run:
  assumes "faultless w" "file_name p = Some n" "resolve_entry (w_fs w) p = Inr l"
  shows "\<exists>w'. sync_parent_directory p w = (Inr (), w') \<and> faultless w' \<and> w_fs w' = w_fs w"
proof (cases "path_parent p = None \<or> path_parent p = Some []")
  case True
  then show ?thesis using assms(1) by (auto simp: sync_parent_directory_def ret_def)
next
  case False
  then obtain q where q: "path_parent p = Some q" "q \<noteq> []" by auto
  have "sync_parent_directory p w = (Inr (), ticked (ticked w))"
    using q assms(1) parent_opens [OF assms(2,3) q]
    by (simp add: sync_parent_directory_def bind_io_def map_err_io_def lookups_run updates_run)
  then show ?thesis using assms(1) by simp
qed

lemma ensure_directory_run:
  assumes "faultless w" "file_name p = Some n" "resolve_entry (w_fs w) p = Inr l"
  shows "\<exists>w'. ensure_directory mode p w = (Inr (), w') \<and> faultless w' \<and> w_fs w' = w_fs w"
proof (cases "path_parent p")
  case None
  then show ?thesis using assms(1) by (simp add: ensure_directory_def ret_def)
next
  case (Some q)
  show ?thesis
  proof (cases "q = []")
    case True
    then have "sys_metadata q (w_fs w) = Inl ENOENT" "path_parent q = None"
      by (simp_all add: sys_metadata_def sys_open_def resolve_def path_parent_def components_def)
    then have "ensure_directory mode p w = (Inr (), ticked w)"
      using Some assms(1) by (simp add: ensure_directory_def bind_io_def path_exists_run create_dir_all.simps [of q]
        map_err_io_def ret_def)
    then show ?thesis using assms(1) by simp
  next
    case False
    have "is_ok (sys_metadata q (w_fs w))"
      using parent_opens [OF assms(2,3) Some False] by (simp add: sys_metadata_def handle_stat_def)
    then have "ensure_directory mode p w = (Inr (), ticked w)"
      using Some assms(1) by (simp add: ensure_directory_def bind_io_def path_exists_run ret_def)
    then show ?thesis using assms(1) by simp
  qed
qed

lemma hard_link_run:
  assumes "faultless w" "file_with (w_fs w) a la i bs" "file_name p = Some n"
    and "resolve_entry (w_fs w) p = Inr l" "lookup (w_fs w) l = None"
  shows "\<exists>w'. hard_link a p w = (Inr (), w') \<and> faultless w' \<and> same_dirs (w_fs w) (w_fs w')
    \<and> w_fs w' = (w_fs w)\<lparr>fs_entries := (fs_entries (w_fs w))(l \<mapsto> FileAt i)\<rparr>"
proof -
  have "hard_link a p w = (Inr (), commit ((w_fs w)\<lparr>fs_entries := (fs_entries (w_fs w))(l \<mapsto> FileAt i)\<rparr>) (ticked w))"
    using assms by (simp add: updates_run sys_hard_link_def file_with_def)
  moreover have "l \<noteq> []" using assms(5) by (auto simp: lookup_def)
  ultimately show ?thesis
    using assms(1,5) by (auto simp: commit_def faultless_def same_dirs_def split: if_splits)
qed

lemma discard_run:
  assumes "faultless w" "file_with (w_fs w) t l i bs"
  shows "\<exists>w'. discard_file t w = (Inr (), w') \<and> faultless w'
    \<and> w_fs w' = (w_fs w)\<lparr>fs_entries := (fs_entries (w_fs w))(l := None)\<rparr>"
proof -
  have "remove_file t w = (Inr (), commit ((w_fs w)\<lparr>fs_entries := (fs_entries (w_fs w))(l := None)\<rparr>) (ticked w))"
    using assms by (simp add: updates_run sys_remove_file_def file_with_def)
  then show ?thesis
    using assms(1) by (simp add: discard_file_def bind_io_def attempt_def warn_cleanup_failure_def ret_def
        commit_def faultless_def)
qed

text \<open>Both names are free, and so are those of the temporary files.\<close>

definition free_pair :: "fs \<Rightarrow> path \<Rightarrow> path \<Rightarrow> bool" where
  "free_pair s sp pp \<longleftrightarrow>
     (\<exists>n m ls lp. file_name sp = Some n \<and> file_name pp = Some m
        \<and> resolve_entry s sp = Inr ls \<and> resolve_entry s pp = Inr lp
        \<and> (\<forall>a b. let ts = butlast ls @ [temp_name n a ''tmp'']; tp = butlast lp @ [temp_name m b ''tmp'']
                 in distinct [ls, lp, ts, tp] \<and> (\<forall>l \<in> {ls, lp, ts, tp}. lookup s l = None)))"

lemma or_discard_run: "m w = (Inr x, w') \<Longrightarrow> or_discard m ps w = (Inr x, w')"
  by (simp add: or_discard_Inr)

lemma map_err_run: "m w = (Inr x, w') \<Longrightarrow> map_err_io g m w = (Inr x, w')"
  by (simp add: map_err_io_Inr)

lemma link_pair_run:
  assumes w: "faultless w"
    and s: "file_with (w_fs w) st lt i sc" "file_name st = Some ks" "file_name sp = Some n"
      "resolve_entry (w_fs w) sp = Inr ls" "lookup (w_fs w) ls = None"
    and q: "file_with (w_fs w) pt lq j pc" "file_name pt = Some kq" "file_name pp = Some m"
      "resolve_entry (w_fs w) pp = Inr lp" "lookup (w_fs w) lp = None"
    and ne: "lq \<noteq> lt" "ls \<noteq> lp"
  shows "\<exists>w'. link_keypair sp pp st pt w = (Inr (), w')"
proof -
  obtain w1 where w1: "hard_link st sp w = (Inr (), w1)" "faultless w1" "same_dirs (w_fs w) (w_fs w1)"
    "w_fs w1 = (w_fs w)\<lparr>fs_entries := (fs_entries (w_fs w))(ls \<mapsto> FileAt i)\<rparr>"
    using hard_link_run [OF w s(1,3,4,5)] by blast
  have ne0: "ls \<noteq> []" "lp \<noteq> []" using s(5) q(5) by (auto simp: lookup_def)
  have r1: "resolve_entry (w_fs w1) sp = Inr ls" "resolve_entry (w_fs w1) pp = Inr lp" "lookup (w_fs w1) lp = None"
    "file_with (w_fs w1) st lt i sc" "file_with (w_fs w1) pt lq j pc"
    using resolve_entry_same_dirs [OF s(3,4) w1(3)] resolve_entry_same_dirs [OF q(3,4) w1(3)] ne ne0 q(5) w1(4)
      linked [OF w1(1) s(1,3)] s(1,2) q(1,2)
    by auto
  obtain w2 where w2: "sync_parent_directory sp w1 = (Inr (), w2)" "faultless w2" "w_fs w2 = w_fs w1"
    using sync_parent_run [OF w1(2) s(3) r1(1)] by blast
  note r2 = r1 [folded w2(3)]
  obtain w3 where w3: "hard_link pt pp w2 = (Inr (), w3)" "faultless w3" "same_dirs (w_fs w2) (w_fs w3)"
    using hard_link_run [OF w2(2) r2(5) q(3) r2(2,3)] by blast
  have r3: "resolve_entry (w_fs w3) pp = Inr lp" "file_with (w_fs w3) st lt i sc" "file_with (w_fs w3) pt lq j pc"
    using resolve_entry_same_dirs [OF q(3) r2(2) w3(3)] linked [OF w3(1) r2(5) q(3)] s(2) q(2) r2(4,5) by auto
  obtain w4 where w4: "sync_parent_directory pp w3 = (Inr (), w4)" "faultless w4" "w_fs w4 = w_fs w3"
    using sync_parent_run [OF w3(2) q(3) r3(1)] by blast
  note r4 = r3 [folded w4(3)]
  obtain w5 where w5: "discard_file st w4 = (Inr () :: error + unit, w5)" "faultless w5"
    using discard_run [OF w4(2) r4(2)] by blast
  have r5: "file_with (w_fs w5) pt lq j pc" using discarded [OF w5(1) r4(2,3) q(2) ne(1)] .
  obtain w6 where w6: "discard_file pt w5 = (Inr () :: error + unit, w6)"
    using discard_run [OF w5(2) r5] by blast
  have "link_keypair sp pp st pt w = (Inr (), w6)"
    using w1(1) w2(1) w3(1) w4(1) w5(1) w6
    by (simp add: link_keypair_def bind_io_def or_discard_def attempt_def map_err_io_def discard_files_simps ret_def)
  then show ?thesis by blast
qed

lemma create_new_pair_run:
  assumes "faultless w" "free_pair (w_fs w) sp pp"
  shows "\<exists>w'. write_keypair_files_create_new sp pp sc pc w = (Inr (), w')"
proof -
  obtain n m ls lp where sp: "file_name sp = Some n" "resolve_entry (w_fs w) sp = Inr ls" "lookup (w_fs w) ls = None"
    and pp: "file_name pp = Some m" "resolve_entry (w_fs w) pp = Inr lp" "lookup (w_fs w) lp = None"
    and free: "\<And>a b. distinct [ls, lp, butlast ls @ [temp_name n a ''tmp''], butlast lp @ [temp_name m b ''tmp'']]"
      "\<And>a. lookup (w_fs w) (butlast ls @ [temp_name n a ''tmp'']) = None"
      "\<And>b. lookup (w_fs w) (butlast lp @ [temp_name m b ''tmp'']) = None"
    using assms(2) by (auto simp: free_pair_def Let_def)
  let ?w = "ticked (ticked w)"
  have ex: "path_exists sp w = (Inr False :: error + bool, ticked w)"
    "path_exists pp (ticked w) = (Inr False :: error + bool, ?w)"
    using assms(1) missing_not_found(2) [OF sp] missing_not_found(2) [OF pp] by (simp_all add: path_exists_run)
  obtain a st w1 where w1: "write_temp_file sp sc (Some SECRET_KEY_FILE_PERMISSIONS) ?w = (Inr st, w1)"
    "faultless w1" "staged (w_fs w) (butlast ls @ [temp_name n a ''tmp'']) sc (w_fs w1)" "file_name st \<noteq> None"
    "file_with (w_fs w1) st (butlast ls @ [temp_name n a ''tmp'']) (fs_next (w_fs w)) sc"
    using write_temp_run [of ?w sp n ls sc "Some SECRET_KEY_FILE_PERMISSIONS"] assms(1) sp free(2) by auto
  let ?ls = "butlast ls @ [temp_name n a ''tmp'']"
  have look1: "lookup (w_fs w1) k = lookup (w_fs w) k" if "k \<noteq> ?ls" for k
    using w1(3) that by (auto simp: staged_def lookup_def)
  have r1: "resolve_entry (w_fs w1) sp = Inr ls" "resolve_entry (w_fs w1) pp = Inr lp"
    using resolve_entry_same_dirs [OF sp(1,2) staged_same_dirs [OF w1(3)]]
      resolve_entry_same_dirs [OF pp(1,2) staged_same_dirs [OF w1(3)]] by simp_all
  have free1: "lookup (w_fs w1) (butlast lp @ [temp_name m b ''tmp'']) = None" for b
    using look1 [of "butlast lp @ [temp_name m b ''tmp'']"] free(1) [of a b] free(3) [of b] by auto
  obtain b pt w2 where w2: "write_temp_file pp pc None w1 = (Inr pt, w2)"
    "faultless w2" "staged (w_fs w1) (butlast lp @ [temp_name m b ''tmp'']) pc (w_fs w2)" "file_name pt \<noteq> None"
    "file_with (w_fs w2) pt (butlast lp @ [temp_name m b ''tmp'']) (fs_next (w_fs w1)) pc"
    using write_temp_run [OF w1(2) pp(1) r1(2) free1] by blast
  let ?lp = "butlast lp @ [temp_name m b ''tmp'']"
  have d: "ls \<noteq> lp" "?ls \<noteq> ls" "?ls \<noteq> lp" "?lp \<noteq> ls" "?lp \<noteq> lp" "?lp \<noteq> ?ls"
    using free(1) [of a b] by auto
  have look2: "lookup (w_fs w2) k = lookup (w_fs w1) k" if "k \<noteq> ?lp" for k
    using w2(3) that by (auto simp: staged_def lookup_def)
  have r2: "resolve_entry (w_fs w2) sp = Inr ls" "resolve_entry (w_fs w2) pp = Inr lp"
    "lookup (w_fs w2) ls = None" "lookup (w_fs w2) lp = None"
    using resolve_entry_same_dirs [OF sp(1) r1(1) staged_same_dirs [OF w2(3)]]
      resolve_entry_same_dirs [OF pp(1) r1(2) staged_same_dirs [OF w2(3)]] look1 look2 sp(3) pp(3) d by auto
  have inode: "fs_inodes (w_fs w2) (fs_next (w_fs w)) = fs_inodes (w_fs w1) (fs_next (w_fs w))"
    using w1(3) w2(3) by (simp add: staged_def)
  have next': "fs_next (w_fs w1) \<le> fs_next (w_fs w2)" using w2(3) by (simp add: staged_def)
  obtain ks where ks: "file_name st = Some ks" using w1(4) by blast
  obtain kq where kq: "file_name pt = Some kq" using w2(4) by blast
  have st: "file_with (w_fs w2) st ?ls (fs_next (w_fs w)) sc"
    by (rule file_with_step [OF w1(5) ks staged_same_dirs [OF w2(3)] look2 [OF d(6) [symmetric]] inode next'])
  obtain w3 where "link_keypair sp pp st pt w2 = (Inr (), w3)"
    using link_pair_run [OF w2(2) st ks sp(1) r2(1,3) w2(5) kq pp(1) r2(2,4) d(6,1)] by blast
  moreover have "stage_keypair sp pp sc pc ?w = (Inr (st, pt), w2)"
    using w1(1) w2(1) by (simp add: stage_keypair_def bind_io_def or_discard_def attempt_def ret_def)
  ultimately show ?thesis
    using ex by (simp add: write_keypair_files_create_new_def bind_io_def)
qed

end
