(* ===== verification/Overwrite.thy ===== *)
theory Overwrite
  imports Sign_Properties NoOverwrite
begin

text \<open>
  The forced overwrite of a key pair (\<open>replace_keypair\<close>), state by state: which bytes lie where
  while the old files are moved aside, the new ones are renamed into place, and a failure is rolled
  back. What a reader may rely on is kept as a set of facts, the bytes at a location, that every
  call either leaves alone or moves with the file.
\<close>

section \<open>Facts about locations\<close>

type_synonym facts = "(loc \<times> bytes) set"

text \<open>The world a run started in, the locations it may touch, and what has to hold in every state.\<close>

record overwriting =
  ov_start :: world
  ov_locs :: "loc set"
  ov_goal :: "fs \<Rightarrow> bool"

definition intact :: "overwriting \<Rightarrow> facts \<Rightarrow> fs \<Rightarrow> bool" where
  "intact V F s \<longleftrightarrow> wf_fs s \<and> same_dirs (w_fs (ov_start V)) s
     \<and> (\<forall>l \<in> ov_locs V. \<forall>e. lookup s l = Some e \<longrightarrow> is_file e)
     \<and> (\<forall>(l, bs) \<in> F. contents_at s l = Some bs)"

definition enough :: "overwriting \<Rightarrow> facts \<Rightarrow> bool" where
  "enough V F \<longleftrightarrow> fst ` F \<subseteq> ov_locs V \<and> (\<forall>s. intact V F s \<longrightarrow> ov_goal V s)"

definition along :: "overwriting \<Rightarrow> facts \<Rightarrow> world \<Rightarrow> bool" where
  "along V F w \<longleftrightarrow> enough V F \<and> intact V F (w_fs w) \<and> passes (ov_goal V) (ov_start V) w"

definition leads :: "overwriting \<Rightarrow> path \<Rightarrow> loc \<Rightarrow> bool" where
  "leads V p l \<longleftrightarrow> l \<in> ov_locs V \<and> file_name p \<noteq> None \<and> resolve_entry (w_fs (ov_start V)) p = Inr l"

lemma leads_resolves: "leads V p l \<Longrightarrow> intact V F s \<Longrightarrow> resolve_entry s p = Inr l \<and> l \<noteq> []"
  using resolve_entry_same_dirs [of p _ "w_fs (ov_start V)" l s] resolve_entry_last [of p _ "w_fs (ov_start V)" l]
  by (auto simp: leads_def intact_def)

lemma intact_subset: "intact V F s \<Longrightarrow> G \<subseteq> F \<Longrightarrow> intact V G s"
  unfolding intact_def by blast

lemma along_subset: "along V F w \<Longrightarrow> G \<subseteq> F \<Longrightarrow> enough V G \<Longrightarrow> along V G w"
  using intact_subset [of V F "w_fs w" G] by (simp add: along_def)

lemma enough_superset: "enough V F \<Longrightarrow> F \<subseteq> G \<Longrightarrow> fst ` G \<subseteq> ov_locs V \<Longrightarrow> enough V G"
  using intact_subset [of V G _ F] by (simp add: enough_def)

lemma along_goal: "along V F w \<Longrightarrow> ov_goal V (w_fs w) \<and> passes (ov_goal V) (ov_start V) w"
  by (simp add: along_def enough_def)

lemma along_step:
  assumes "along V F w" "enough V G" "intact V G s" "w_fs w' = s" "w_trace w' = w_trace w @ [s]"
  shows "along V G w'"
proof -
  have "passes (ov_goal V) w w'" using assms(2,3,5) by (auto simp: enough_def intro: passes_snoc)
  then have "passes (ov_goal V) (ov_start V) w'"
    using assms(1) passes_trans unfolding along_def by blast
  then show ?thesis using assms(2,3,4) by (simp add: along_def)
qed

lemma along_same: "along V F w \<Longrightarrow> w_fs w' = w_fs w \<Longrightarrow> w_trace w' = w_trace w \<Longrightarrow> along V F w'"
  by (simp add: along_def passes_def)

lemma along_reads: "along V F w \<Longrightarrow> reads_only m \<Longrightarrow> wp m (\<lambda>r. along V F) w"
  by (rule wpI) (use along_same reads_onlyD in blast)

text \<open>Changing one entry.\<close>

lemma contents_entry: "contents_at s l = Some bs \<Longrightarrow> \<exists>i. lookup s l = Some (FileAt i)"
  by (auto simp: contents_at_def view_def split: option.splits entry.splits)

lemma entry_changed:
  assumes "intact V F s" "l \<in> ov_locs V" "l \<noteq> []" "l \<notin> fst ` F"
    and s': "s' = s\<lparr>fs_entries := (fs_entries s)(l := e)\<rparr>" "\<forall>i. e = Some (FileAt i) \<longrightarrow> i < fs_next s"
      "\<forall>x. e = Some x \<longrightarrow> is_file x"
  shows "intact V F s'"
proof -
  have look: "lookup s' k = (if k = l then e else lookup s k)" for k
    using assms(3) by (simp add: s'(1) lookup_def)
  have rest: "fs_next s' = fs_next s" "fs_inodes s' = fs_inodes s" "fs_cwd s' = fs_cwd s"
    by (simp_all add: s'(1))
  have wf: "wf_fs s" and dirs: "same_dirs (w_fs (ov_start V)) s"
    and files: "\<And>k e. k \<in> ov_locs V \<Longrightarrow> lookup s k = Some e \<Longrightarrow> is_file e"
    and facts: "\<And>k bs. (k, bs) \<in> F \<Longrightarrow> contents_at s k = Some bs"
    using assms(1) by (auto simp: intact_def)
  have "wf_fs s'" unfolding wf_fs_def look rest using wf s'(2) by (auto simp: wf_fs_def)
  moreover have "lookup s' k = Some x" if "lookup (w_fs (ov_start V)) k = Some x" "\<not> is_file x" for k x
    using same_dirs_lookup [OF dirs that] files [OF assms(2)] that(2) unfolding look by auto
  then have "same_dirs (w_fs (ov_start V)) s'"
    using same_dirs_cwd [OF dirs] unfolding same_dirs_def rest by blast
  moreover have "\<forall>k \<in> ov_locs V. \<forall>e. lookup s' k = Some e \<longrightarrow> is_file e"
    unfolding look using files s'(3) by auto
  moreover have "\<forall>(k, bs) \<in> F. contents_at s' k = Some bs"
  proof (rule ballI, clarify)
    fix k bs
    assume kb: "(k, bs) \<in> F"
    then have "k \<noteq> l" using assms(4) by force
    then have "view s' k = view s k" by (intro view_eqI) (simp_all add: look rest)
    then show "contents_at s' k = Some bs"
      using facts [OF kb] by (simp add: contents_at_def)
  qed
  ultimately show ?thesis by (simp add: intact_def)
qed

section \<open>The calls\<close>

lemma spec_remove:
  assumes "along V F w" "leads V p l" "l \<notin> fst ` F"
  shows "wp (remove_file p) (\<lambda>r. along V F) w"
  unfolding remove_file_def
proof (rule wp_update)
  fix r s1 and w1 :: world
  assume run: "sys_remove_file p (w_fs w) = (r, s1)" and w1: "w_fs w1 = s1" "w_trace w1 = w_trace w @ [s1]"
  have i: "intact V F (w_fs w)" "enough V F" using assms(1) by (simp_all add: along_def)
  note l = leads_resolves [OF assms(2) i(1)]
  have "s1 = w_fs w \<or> s1 = (w_fs w)\<lparr>fs_entries := (fs_entries (w_fs w))(l := None)\<rparr>"
    using run l by (auto simp: sys_remove_file_def split: option.splits entry.splits)
  then have "intact V F s1"
    using i entry_changed [OF i(1) _ _ assms(3)] l assms(2) by (auto simp: leads_def)
  then show "along V F w1" by (rule along_step [OF assms(1) i(2) _ w1])
qed (use assms(1) along_same in blast)

text \<open>The facts after the entry at \<open>a\<close> has gone to \<open>b\<close>.\<close>

definition moved :: "loc \<Rightarrow> loc \<Rightarrow> facts \<Rightarrow> facts" where
  "moved a b F = (\<lambda>(l, bs). (if l = a then b else l, bs)) ` F"

lemma moved_simps [simp]:
  "moved a b {} = {}" "moved a b (insert (l, bs) F) = insert (if l = a then b else l, bs) (moved a b F)"
  by (simp_all add: moved_def)

lemma intact_moved:
  assumes "intact V F s" "a \<in> ov_locs V" "b \<in> ov_locs V" "a \<noteq> []" "b \<noteq> []" "a \<noteq> b" "b \<notin> fst ` F"
    and "rename_entry a b s = (r, s')"
  shows "case r of Inl e \<Rightarrow> s' = s | Inr _ \<Rightarrow> intact V (moved a b F) s'"
proof (cases "lookup s a")
  case None
  then show ?thesis using assms(8) by (auto simp: rename_entry_def)
next
  case (Some e)
  obtain i where e: "e = FileAt i" using assms(1,2) Some by (cases e) (auto simp: intact_def)
  have i: "i < fs_next s" using assms(1) Some e by (auto simp: intact_def wf_fs_def)
  let ?s1 = "s\<lparr>fs_entries := (fs_entries s)(b := Some (FileAt i))\<rparr>"
  let ?s2 = "?s1\<lparr>fs_entries := (fs_entries ?s1)(a := None)\<rparr>"
  have b: "lookup s b \<noteq> Some DirAt" using assms(1,3) by (auto simp: intact_def)
  have one: "intact V F ?s1" by (rule entry_changed [OF assms(1,3,5,7) refl]) (use i in auto)
  have at_b: "contents_at t b = Some bs" if "(a, bs) \<in> F" "lookup t b = Some (FileAt i)" "fs_inodes t = fs_inodes s" for t bs
    using that assms(1) Some e by (auto simp: intact_def contents_at_def view_def)
  let ?G = "{f \<in> F. fst f \<noteq> a}"
  have sub: "intact V ?G t \<Longrightarrow> lookup t b = Some (FileAt i) \<Longrightarrow> fs_inodes t = fs_inodes s \<Longrightarrow> intact V (moved a b F) t" for t
    using at_b by (auto simp: intact_def moved_def)
  show ?thesis
  proof (cases "lookup s b = Some (FileAt i)")
    case True
    then have "r = Inr ()" "s' = s" using assms(8) Some e by (simp_all add: rename_entry_def)
    then show ?thesis using sub [of s] intact_subset [OF assms(1), of ?G] True by auto
  next
    case False
    then have r: "r = Inr ()" "s' = s\<lparr>fs_entries := (fs_entries s)(a := None, b \<mapsto> FileAt i)\<rparr>"
      using assms(8) Some e b by (simp_all add: rename_entry_def)
    have s2: "s' = ?s2" using assms(6) by (simp add: r(2) fun_upd_twist)
    have "intact V ?G ?s1" using intact_subset [OF one, of ?G] by auto
    then have "intact V ?G ?s2" by (rule entry_changed [OF _ assms(2,4) _ refl]) auto
    then show ?thesis using sub [of ?s2] r(1) s2 assms(5,6) by (simp add: lookup_def)
  qed
qed

lemma spec_rename:
  assumes "along V F w" "leads V p a" "leads V q b" "a \<noteq> b" "b \<notin> fst ` F" "enough V (moved a b F)"
  shows "wp (rename_file p q) (\<lambda>r w'. case r of Inl e \<Rightarrow> along V F w' | Inr _ \<Rightarrow> along V (moved a b F) w') w"
  unfolding rename_file_def
proof (rule wp_update)
  fix r s1 and w1 :: world
  assume run: "sys_rename p q (w_fs w) = (r, s1)" and w1: "w_fs w1 = s1" "w_trace w1 = w_trace w @ [s1]"
  have i: "intact V F (w_fs w)" "enough V F" using assms(1) by (simp_all add: along_def)
  note a = leads_resolves [OF assms(2) i(1)] and b = leads_resolves [OF assms(3) i(1)]
  have "rename_entry a b (w_fs w) = (r, s1)" using run a b by (simp add: sys_rename_def)
  then have "case r of Inl e \<Rightarrow> s1 = w_fs w | Inr _ \<Rightarrow> intact V (moved a b F) s1"
    using intact_moved [OF i(1)] assms(2-5) a b by (simp add: leads_def)
  then show "case r of Inl e \<Rightarrow> along V F w1 | Inr _ \<Rightarrow> along V (moved a b F) w1"
    using along_step [OF assms(1) i(2) _ w1] along_step [OF assms(1,6) _ w1] i(1) by (auto split: sum.splits)
qed (use assms(1) along_same in auto)

lemma intact_staged:
  assumes "intact V F s" "staged s t c s'" "fst ` F \<subseteq> ov_locs V"
  shows "intact V F s'" "t \<notin> fst ` F" "intact V (insert (t, c) F) s'"
proof -
  have t: "lookup s t = None" using assms(2) by (simp add: staged_def)
  show out: "t \<notin> fst ` F"
  proof
    assume "t \<in> fst ` F"
    then obtain bs where "contents_at s t = Some bs" using assms(1) by (auto simp: intact_def)
    then show False using t contents_entry by fastforce
  qed
  have look: "lookup s' k = (if k = t then Some (FileAt (fs_next s)) else lookup s k)" for k
    using assms(2) by (auto simp: staged_def lookup_def)
  have s: "wf_fs s" "same_dirs (w_fs (ov_start V)) s" using assms(1) by (simp_all add: intact_def)
  have "contents_at s' k = Some bs" if "(k, bs) \<in> F" for k bs
  proof -
    have "k \<noteq> t" using that out by force
    then have "view s' k = view s k" by (rule staged_view [OF s(1) assms(2)])
    moreover have "contents_at s k = Some bs" using assms(1) that by (auto simp: intact_def)
    ultimately show ?thesis by (simp add: contents_at_def)
  qed
  moreover have "\<forall>l \<in> ov_locs V. \<forall>e. lookup s' l = Some e \<longrightarrow> is_file e"
    unfolding look using assms(1) by (auto simp: intact_def)
  ultimately show "intact V F s'" "intact V (insert (t, c) F) s'"
    using staged_wf [OF s(1) assms(2)] same_dirs_trans [OF s(2) staged_same_dirs [OF assms(2)]]
      staged_contents [OF assms(2)] by (auto simp: intact_def)
qed

text \<open>The neighbours of a file: temporary files and backups.\<close>

definition sibling_loc :: "loc \<Rightarrow> u64 \<Rightarrow> string \<Rightarrow> loc" where
  "sibling_loc l nonce suffix = butlast l @ [temp_name (last l) nonce suffix]"

lemma leads_sibling:
  assumes "leads V p l" "file_name p = Some n" "SLASH \<notin> set suffix" "sibling_loc l nonce suffix \<in> ov_locs V"
  shows "leads V (sibling_path p (temp_name n nonce suffix)) (sibling_loc l nonce suffix)"
proof -
  have r: "resolve_entry (w_fs (ov_start V)) p = Inr l" using assms(1) by (simp add: leads_def)
  have "last l = n" using resolve_entry_last [OF assms(2) r] by simp
  then show ?thesis
    using temp_location [OF assms(2,3) r, of nonce] assms(4) by (simp add: leads_def sibling_loc_def)
qed

lemma along_passes:
  assumes "along V F w" "passes (\<lambda>s. intact V F s) w w'" "enough V G" "intact V G (w_fs w')"
  shows "along V G w'"
proof -
  have "passes (ov_goal V) w w'"
    using passes_mono [OF assms(2)] assms(1) unfolding along_def enough_def by blast
  then show ?thesis using assms(1,3,4) passes_trans unfolding along_def by blast
qed

lemma spec_temp:
  assumes "along V F w" "leads V p l" "\<forall>a. sibling_loc l a ''tmp'' \<in> ov_locs V"
  shows "wp (write_temp_file p bs mode) (\<lambda>r w'. along V F w' \<and> (\<forall>t. r = Inr t \<longrightarrow>
     (\<exists>a. leads V t (sibling_loc l a ''tmp'') \<and> sibling_loc l a ''tmp'' \<notin> fst ` F
        \<and> along V (insert (sibling_loc l a ''tmp'', bs) F) w'))) w"
proof -
  obtain n where n: "file_name p = Some n" using assms(2) by (auto simp: leads_def)
  show ?thesis
    unfolding write_temp_file_def
  proof (rule wp_bindI [OF spec_sibling_temp_path [OF n]], goal_cases)
    case (1 e w1)
    then show ?case using along_same [OF assms(1)] by auto
  next
    case (2 tmp w1)
    then obtain a where tmp: "tmp = sibling_path p (temp_name n a ''tmp'')" by blast
    let ?l = "sibling_loc l a ''tmp''"
    have lt: "leads V tmp ?l"
      unfolding tmp by (rule leads_sibling [OF assms(2) n]) (use assms(3) in simp_all)
    then obtain m where m: "file_name tmp = Some m" by (auto simp: leads_def)
    have a1: "along V F w1" using along_same [OF assms(1)] 2 by auto
    then have i: "intact V F (w_fs w1)" "fst ` F \<subseteq> ov_locs V" "enough V F"
      by (simp_all add: along_def enough_def)
    have l: "resolve_entry (w_fs w1) tmp = Inr ?l" using leads_resolves [OF lt i(1)] by simp
    note st = intact_staged [OF i(1) _ i(2)]
    show ?case
    proof (rule wp_bind_map_errI [OF spec_create_new [OF refl m l]], goal_cases)
      case (1 e w2)
      then show ?case
        using along_passes [OF a1 passes_mono i(3), of _ w2] st(1) i(1) by auto
    next
      case (2 j w2)
      then have j: "j = fs_next (w_fs w1)" "staged (w_fs w1) ?l [] (w_fs w2)" by simp_all
      have a2: "along V F w2"
        using along_passes [OF a1 passes_mono i(3), of _ w2] st(1) i(1) 2 by auto
      have any: "along V F w3" if "passes (\<lambda>s'. \<exists>d. staged (w_fs w1) ?l d s') w2 w3"
        "\<exists>d. staged (w_fs w1) ?l d (w_fs w3)" for w3
        using along_passes [OF a2 passes_mono [OF that(1)] i(3)] st(1) that(2) by blast
      show ?case unfolding j(1)
      proof (rule wp_bind_map_errI [OF spec_write_all [OF j(2)]], goal_cases)
        case (1 e w3)
        then show ?case using any by auto
      next
        case (2 u w3)
        then have a3: "along V F w3" "staged (w_fs w1) ?l bs (w_fs w3)" using any by auto
        have "enough V (insert (?l, bs) F)"
          by (rule enough_superset [OF i(3)]) (use i(2) assms(3) in auto)
        then have a4: "along V (insert (?l, bs) F) w3"
          using a3(1) st(3) [OF a3(2)] by (simp add: along_def)
        show ?case
        proof (rule wp_bind_map_errI [OF along_reads [OF a4 reads_only_calls(8)]], goal_cases)
          case (1 e w4)
          then show ?case using along_subset [OF _ _ i(3)] by auto
        next
          case (2 u w4)
          then have "along V F w4" using along_subset [OF _ _ i(3)] by auto
          then show ?case using 2 lt st(2) [OF j(2)] by (auto simp: wp_simps)
        qed
      qed
    qed
  qed
qed

text \<open>What a clean-up does: it removes files no fact speaks about.\<close>

lemma spec_discard:
  assumes "along V F w" "leads V p l" "l \<notin> fst ` F"
  shows "wp (discard_file p) (\<lambda>r. along V F) w"
  unfolding discard_file_def
proof (rule wp_bind_attemptI [OF spec_remove [OF assms]])
  fix r w'
  assume "along V F w'"
  then show "wp (warn_cleanup_failure p r) (\<lambda>r. along V F) w'"
    by (intro along_reads) (auto simp: warn_cleanup_failure_def warn_could_not_remove_def split: sum.splits)
qed

lemma discard_file_returns: "fst (discard_file p w) = Inr ()"
  by (simp add: discard_file_def warn_cleanup_failure_def warn_could_not_remove_def eprintln_def print_err_def
      bind_io_def attempt_def ret_def split: prod.splits sum.splits)

lemma spec_discards:
  assumes "\<forall>p \<in> set ps. \<exists>l. leads V p l \<and> l \<notin> fst ` F"
  shows "along V F w \<Longrightarrow> wp (discard_files ps) (\<lambda>r w'. r = Inr () \<and> along V F w') w"
  using assms
proof (induction ps arbitrary: w)
  case Nil
  then show ?case by (simp add: discard_files_simps wp_simps)
next
  case (Cons p ps)
  then obtain l where l: "leads V p l" "l \<notin> fst ` F" by auto
  obtain w1 where w1: "discard_file p w = (Inr () :: 'a + unit, w1)"
    using discard_file_returns by (metis prod.collapse)
  have "along V F w1" using wpD [OF spec_discard [OF Cons.prems(1) l] w1] .
  then show ?case using Cons w1 by (simp add: discard_files_simps wp_def bind_io_def)
qed

lemma spec_remove_partial:
  assumes "along V F w" "leads V p l" "l \<notin> fst ` F"
  shows "wp (remove_partial what p) (\<lambda>r. along V F) w"
  unfolding remove_partial_def
proof (rule wp_bind_attemptI [OF spec_remove [OF assms]])
  fix r w'
  assume "along V F w'"
  then show "wp (case r of Inr _ \<Rightarrow> ret () | Inl e \<Rightarrow>
      eprintln (''CRITICAL: could not remove partially-written '' @ what @ '' '' @ QUOTE
        @ display p @ QUOTE @ '': '' @ io_text e @ ''; delete manually'')) (\<lambda>r. along V F) w'"
    by (intro along_reads) (auto split: sum.splits)
qed

lemma spec_restore:
  assumes "along V F w" "\<forall>b. backup = Some b \<longrightarrow> (\<exists>k. leads V b k \<and> k \<noteq> l \<and> enough V (moved k l F) \<and> G k)"
    and "leads V p l" "l \<notin> fst ` F"
  shows "wp (restore_backup backup p) (\<lambda>r w'. along V F w' \<or> (\<exists>k. G k \<and> along V (moved k l F) w')) w"
proof (cases backup)
  case None
  then show ?thesis using assms(1) by (simp add: restore_backup_def wp_simps)
next
  case (Some b)
  then obtain k where k: "leads V b k" "k \<noteq> l" "enough V (moved k l F)" "G k" using assms(2) by blast
  show ?thesis unfolding restore_backup_def Some option.case
  proof (rule wp_bind_attemptI [OF spec_rename [OF assms(1) k(1) assms(3) k(2) assms(4) k(3)]])
    fix r :: "io_error + unit" and w'
    assume r: "case r of Inl e \<Rightarrow> along V F w' | Inr _ \<Rightarrow> along V (moved k l F) w'"
    then show "wp (case r of Inr _ \<Rightarrow> ret () | Inl e \<Rightarrow> eprintln (''CRITICAL: rollback failed '' @ EM_DASH
        @ '' could not restore '' @ QUOTE @ display p @ QUOTE @ '' from backup '' @ QUOTE @ display b @ QUOTE
        @ '': '' @ io_text e @ ''; recover manually''))
      (\<lambda>r w'. along V F w' \<or> (\<exists>k. G k \<and> along V (moved k l F) w')) w'"
    proof (cases r)
      case (Inl e)
      then have "along V F w'" using r by simp
      show ?thesis unfolding Inl sum.case
        by (rule wp_mono [OF along_reads [OF \<open>along V F w'\<close>]]) simp_all
    next
      case (Inr u)
      then show ?thesis using r k(4) by (auto simp: wp_simps)
    qed
  qed
qed

section \<open>The overwrite\<close>

definition pair_locs :: "loc \<Rightarrow> loc \<Rightarrow> loc set" where
  "pair_locs ls lp = {ls, lp} \<union> {sibling_loc l a x | l a x. l \<in> {ls, lp} \<and> x \<in> {''tmp'', ''bak''}}"

text \<open>The public key file is not a neighbour of the secret key file, nor the other way round, and
  their backups have different names.\<close>

definition apart :: "loc \<Rightarrow> loc \<Rightarrow> bool" where
  "apart ls lp \<longleftrightarrow> ls \<noteq> lp
     \<and> (\<forall>a. lp \<noteq> sibling_loc ls a ''tmp'' \<and> lp \<noteq> sibling_loc ls a ''bak'' \<and> ls \<noteq> sibling_loc lp a ''bak'')
     \<and> (\<forall>a b. sibling_loc ls a ''bak'' \<noteq> sibling_loc lp b ''bak'')"

text \<open>The bytes of the old secret key under its own name or that of a backup; both new files.\<close>

definition old_kept :: "loc \<Rightarrow> bytes \<Rightarrow> fs \<Rightarrow> bool" where
  "old_kept ls old s \<longleftrightarrow>
     (\<exists>k \<in> {ls} \<union> range (\<lambda>a. sibling_loc ls a ''bak''). contents_at s k = Some old)"

definition new_pair :: "loc \<Rightarrow> loc \<Rightarrow> bytes \<Rightarrow> bytes \<Rightarrow> fs \<Rightarrow> bool" where
  "new_pair ls lp sc pc s \<longleftrightarrow> contents_at s ls = Some sc \<and> contents_at s lp = Some pc"

definition pair_overwriting :: "world \<Rightarrow> loc \<Rightarrow> loc \<Rightarrow> bytes \<Rightarrow> bytes \<Rightarrow> bytes \<Rightarrow> overwriting" where
  "pair_overwriting w ls lp old sc pc =
     \<lparr>ov_start = w, ov_locs = pair_locs ls lp,
      ov_goal = (\<lambda>s. old_kept ls old s \<or> new_pair ls lp sc pc s)\<rparr>"

lemma sibling_suffix: "sibling_loc l a ''tmp'' \<noteq> sibling_loc k b ''bak''"
proof
  assume "sibling_loc l a ''tmp'' = sibling_loc k b ''bak''"
  then have "last (temp_name (last l) a ''tmp'') = last (temp_name (last k) b ''bak'')"
    by (simp add: sibling_loc_def)
  then show False by (simp add: temp_name_def)
qed

lemma sibling_longer: "sibling_loc l a x \<noteq> l"
proof
  assume "sibling_loc l a x = l"
  then have "temp_name (last l) a x = last l" unfolding sibling_loc_def by (metis last_snoc)
  then show False using temp_name_longer [of "last l" a x] by simp
qed

lemma enough_old:
  assumes "V = pair_overwriting w ls lp old sc pc" "(k, old) \<in> F" "fst ` F \<subseteq> pair_locs ls lp"
    and "k = ls \<or> (\<exists>a. k = sibling_loc ls a ''bak'')"
  shows "enough V F"
proof -
  have "old_kept ls old s" if "intact V F s" for s
  proof -
    have "contents_at s k = Some old" using that assms(2) by (auto simp: intact_def)
    then show ?thesis using assms(4) by (auto simp: old_kept_def)
  qed
  then show ?thesis using assms(1,3) by (simp add: enough_def pair_overwriting_def)
qed

lemma enough_new:
  assumes "V = pair_overwriting w ls lp old sc pc" "{(ls, sc), (lp, pc)} \<subseteq> F" "fst ` F \<subseteq> pair_locs ls lp"
  shows "enough V F"
  using assms by (auto simp: enough_def pair_overwriting_def intact_def new_pair_def)

text \<open>The staged temporary files, as facts.\<close>

lemma spec_stage:
  assumes "along V F w" "leads V sp ls" "leads V pp lp"
    and "\<forall>a. sibling_loc ls a ''tmp'' \<in> ov_locs V \<and> sibling_loc lp a ''tmp'' \<in> ov_locs V"
  shows "wp (stage_keypair sp pp sc pc) (\<lambda>r w'. case r of
      Inl e \<Rightarrow> along V F w'
    | Inr (st, pt) \<Rightarrow> \<exists>a b. leads V st (sibling_loc ls a ''tmp'') \<and> leads V pt (sibling_loc lp b ''tmp'')
        \<and> sibling_loc ls a ''tmp'' \<notin> fst ` F \<and> sibling_loc lp b ''tmp'' \<notin> fst ` F
        \<and> sibling_loc lp b ''tmp'' \<noteq> sibling_loc ls a ''tmp''
        \<and> along V (F \<union> {(sibling_loc ls a ''tmp'', sc), (sibling_loc lp b ''tmp'', pc)}) w') w"
  unfolding stage_keypair_def
proof (rule wp_bindI [OF spec_temp [OF assms(1,2)]], goal_cases)
  case (3 st w1)
  then obtain a where a: "leads V st (sibling_loc ls a ''tmp'')" "sibling_loc ls a ''tmp'' \<notin> fst ` F"
    "along V (insert (sibling_loc ls a ''tmp'', sc) F) w1" "along V F w1" by blast
  have enough: "enough V F" using assms(1) by (simp add: along_def)
  let ?F = "insert (sibling_loc ls a ''tmp'', sc) F"
  have pub: "wp (or_discard (write_temp_file pp pc None) [st]) (\<lambda>r w'. case r of
      Inl e \<Rightarrow> along V F w'
    | Inr t \<Rightarrow> \<exists>b. leads V t (sibling_loc lp b ''tmp'') \<and> sibling_loc lp b ''tmp'' \<notin> fst ` ?F
        \<and> along V (insert (sibling_loc lp b ''tmp'', pc) ?F) w') w1"
    unfolding or_discard_def
  proof (rule wp_bind_attemptI [OF spec_temp [OF a(3) assms(3)]], goal_cases)
    case 1
    then show ?case using assms(4) by simp
  next
    case (2 r w2)
    show ?case
    proof (cases r)
      case (Inl e)
      have "along V F w2" using along_subset [OF _ _ enough] 2 by auto
      then show ?thesis using a(1,2) Inl
        by (simp, intro wp_bindI [OF spec_discards [OF _ \<open>along V F w2\<close>, of "[st]"]]) (auto simp: wp_simps)
    next
      case (Inr t)
      then show ?thesis using 2 by (auto simp: wp_simps)
    qed
  qed
  show ?case
    by (rule wp_bindI [OF pub]) (use a in \<open>auto simp: wp_simps insert_commute\<close>)
qed (use assms(4) in auto)

lemma spec_backup:
  assumes "along V F w" "leads V p l" "\<And>a. sibling_loc l a ''bak'' \<in> ov_locs V"
    and free: "\<And>a. sibling_loc l a ''bak'' \<notin> fst ` F" "\<And>a. enough V (moved l (sibling_loc l a ''bak'') F)"
    and G: "G \<subseteq> F" "enough V G" "\<And>a. enough V (moved l (sibling_loc l a ''bak'') G)"
    and tmps: "\<And>H. H = G \<or> (\<exists>a. H = moved l (sibling_loc l a ''bak'') G) \<Longrightarrow>
      \<forall>t \<in> set tmps. \<exists>k. leads V t k \<and> k \<notin> fst ` H"
    and fail: "\<And>v. along V G v \<Longrightarrow> wp (restore_all earlier :: (error, unit) io) (\<lambda>r. R) v"
    "\<And>v a b. along V (moved l (sibling_loc l a ''bak'') G) v \<Longrightarrow> leads V b (sibling_loc l a ''bak'') \<Longrightarrow>
       wp (restore_all ((Some b, p) # earlier) :: (error, unit) io) (\<lambda>r. R) v"
  shows "wp (backup_existing p tmps earlier) (\<lambda>r w'. case r of
      Inl e \<Rightarrow> R w'
    | Inr None \<Rightarrow> along V F w' \<and> fst (path_exists p w :: (error + bool) \<times> world) = Inr False
    | Inr (Some b) \<Rightarrow> \<exists>a. leads V b (sibling_loc l a ''bak'') \<and> along V (moved l (sibling_loc l a ''bak'') F) w') w"
    (is "wp _ ?Q w")
proof -
  obtain n where n: "file_name p = Some n" using assms(2) by (auto simp: leads_def)
  have clean: "wp (bind_io (discard_files tmps) (\<lambda>_. bind_io (restore_all bs) (\<lambda>_. throw e))) ?Q v"
    if "along V H v" "H = G \<or> (\<exists>a. H = moved l (sibling_loc l a ''bak'') G)"
      "\<And>v. along V H v \<Longrightarrow> wp (restore_all bs :: (error, unit) io) (\<lambda>r. R) v" for H v bs e
    by (rule wp_bindI [OF spec_discards [OF tmps [OF that(2)] that(1)]])
      (use that(3) in \<open>auto simp: wp_simps intro!: wp_mono [OF that(3)] split: sum.splits\<close>)
  obtain present w1 where ex: "path_exists p w = (Inr present :: error + bool, w1)"
    by (cases "metadata p w") (simp add: path_exists_def bind_io_def attempt_def ret_def)
  have a1: "along V F w1" using wpD [OF along_reads [OF assms(1) reads_only_exists] ex] .
  have rest: "wp (bind_io (sibling_temp_path p ''bak'') (\<lambda>backup.
         bind_io (attempt (map_err_io (FileWrite p) (rename_file p backup))) (\<lambda>r.
           case r of
             Inl e \<Rightarrow> bind_io (discard_files tmps) (\<lambda>_. bind_io (restore_all earlier) (\<lambda>_. throw e))
           | Inr _ \<Rightarrow>
               bind_io (attempt (sync_parent_directory p)) (\<lambda>r.
                 case r of
                   Inl e \<Rightarrow> bind_io (discard_files tmps) (\<lambda>_.
                     bind_io (restore_all ((Some backup, p) # earlier)) (\<lambda>_. throw e))
                 | Inr _ \<Rightarrow> ret (Some backup))))) ?Q w1"
  proof (rule wp_bindI [OF spec_sibling_temp_path [OF n]], goal_cases)
    case (1 e w2)
    then show ?case by blast
  next
    case (2 backup w2)
    then obtain a where b: "backup = sibling_path p (temp_name n a ''bak'')" by blast
    let ?k = "sibling_loc l a ''bak''"
    have lead: "leads V backup ?k"
      unfolding b by (rule leads_sibling [OF assms(2) n]) (use assms(3) in simp_all)
    have a2: "along V F w2" using along_same [OF a1] 2 by auto
    have ren: "wp (map_err_io (FileWrite p) (rename_file p backup)) (\<lambda>r w'. case r of
        Inl e \<Rightarrow> along V F w' | Inr _ \<Rightarrow> along V (moved l ?k F) w') w2"
      by (rule wp_map_errI [OF spec_rename [OF a2 assms(2) lead sibling_longer [symmetric] free(1,2)]]) simp_all
    show ?case
    proof (rule wp_bind_attemptI [OF ren])
      fix r :: "error + unit" and w3
      assume r: "case r of Inl e \<Rightarrow> along V F w3 | Inr _ \<Rightarrow> along V (moved l ?k F) w3"
      show "wp (case r of
             Inl e \<Rightarrow> bind_io (discard_files tmps) (\<lambda>_. bind_io (restore_all earlier) (\<lambda>_. throw e))
           | Inr _ \<Rightarrow>
               bind_io (attempt (sync_parent_directory p)) (\<lambda>r.
                 case r of
                   Inl e \<Rightarrow> bind_io (discard_files tmps) (\<lambda>_.
                     bind_io (restore_all ((Some backup, p) # earlier)) (\<lambda>_. throw e))
                 | Inr _ \<Rightarrow> ret (Some backup))) ?Q w3"
      proof (cases r)
        case (Inl e)
        then have "along V G w3" using r along_subset [OF _ G(1,2)] by simp
        then show ?thesis unfolding Inl sum.case by (rule clean) (use fail(1) in simp_all)
      next
        case (Inr u)
        then have m: "along V (moved l ?k F) w3" using r by simp
        show ?thesis unfolding Inr sum.case
        proof (rule wp_bind_attemptI [OF along_reads [OF m reads_only_sync_parent]])
          fix q :: "error + unit" and w4
          assume w4: "along V (moved l ?k F) w4"
          show "wp (case q of
                   Inl e \<Rightarrow> bind_io (discard_files tmps) (\<lambda>_.
                     bind_io (restore_all ((Some backup, p) # earlier)) (\<lambda>_. throw e))
                 | Inr _ \<Rightarrow> ret (Some backup)) ?Q w4"
          proof (cases q)
            case (Inl e)
            have "moved l ?k G \<subseteq> moved l ?k F" unfolding moved_def using G(1) by (rule image_mono)
            then have "along V (moved l ?k G) w4" using w4 along_subset G(3) by blast
            then show ?thesis unfolding Inl sum.case by (rule clean) (use fail(2) lead in auto)
          next
            case (Inr u)
            then show ?thesis using w4 lead by (auto simp: wp_simps)
          qed
        qed
      qed
    qed
  qed
  show ?thesis
  proof (cases present)
    case True
    show ?thesis
      unfolding backup_existing_def wp_def bind_io_run [where m = "path_exists p", OF ex] if_P [OF True] by (rule rest [unfolded wp_def])
  next
    case False
    show ?thesis
      unfolding backup_existing_def wp_def bind_io_run [where m = "path_exists p", OF ex] if_not_P [OF False] using a1 ex False
      by (simp add: ret_def)
  qed
qed

lemma spec_commit:
  assumes "along V F w" "leads V st ts" "leads V pt tp" "leads V sp ls" "leads V pp lp"
    and F: "F = {(kb, old), (ts, sc), (tp, pc)}" "distinct [kb, ts, tp, lp]" "distinct [kb, ts, ls, lp]"
    and e: "\<And>H. {(kb, old)} \<subseteq> H \<Longrightarrow> fst ` H \<subseteq> ov_locs V \<Longrightarrow> enough V H" "enough V {(ls, sc), (lp, pc)}"
  shows "wp (commit_keypair_files B sp pp st pt) (\<lambda>r w'. case r of
      Inl _ \<Rightarrow> along V {(kb, old)} w'
    | Inr _ \<Rightarrow> along V {(kb, old), (ls, sc), (lp, pc)} w') w"
proof -
  have locs: "kb \<in> ov_locs V" "ts \<in> ov_locs V" "tp \<in> ov_locs V" "ls \<in> ov_locs V" "lp \<in> ov_locs V"
    using assms(1-5) F(1) by (auto simp: leads_def along_def enough_def)
  let ?F1 = "{(kb, old), (ts, sc), (lp, pc)}" and ?F2 = "{(kb, old), (ls, sc), (lp, pc)}"
  have m1: "moved tp lp F = ?F1" and m2: "moved ts ls ?F1 = ?F2" using F by auto
  have en: "enough V ?F1" "enough V ?F2" "enough V {(kb, old)}" using e(1) locs by auto
  have weaken: "along V H v \<Longrightarrow> {(kb, old)} \<subseteq> H \<Longrightarrow> along V {(kb, old)} v" for H v
    using along_subset en(3) by blast
  have r1: "wp (at_stage Started (map_err_io (FileWrite pp) (rename_file pt pp)))
      (\<lambda>r v. case r of Inl e \<Rightarrow> along V {(kb, old)} v | Inr _ \<Rightarrow> along V ?F1 v) w"
    unfolding at_stage_def wp_map_err
    by (rule wp_mono [OF spec_rename [OF assms(1,3,5)]])
      (use F m1 en(1) weaken in \<open>auto split: sum.splits\<close>)
  have r2: "wp (at_stage PublicRenamed (map_err_io (FileWrite sp) (rename_file st sp)))
      (\<lambda>r v. case r of Inl e \<Rightarrow> along V {(kb, old)} v | Inr _ \<Rightarrow> along V ?F2 v) v" if "along V ?F1 v" for v
    unfolding at_stage_def wp_map_err
    by (rule wp_mono [OF spec_rename [OF that assms(2,4)]])
      (use F m2 en(2) weaken in \<open>auto split: sum.splits\<close>)
  have sync: "wp (at_stage s (sync_parent_directory p)) (\<lambda>r. along V H) v" if "along V H v" for s p H v
    unfolding at_stage_def wp_map_err by (rule along_reads [OF that reads_only_sync_parent])
  have step2: "wp (bind_io (at_stage PublicRenamed (map_err_io (FileWrite sp) (rename_file st sp))) (\<lambda>_.
       at_stage SecretRenamed (sync_parent_directory sp))) (\<lambda>r w'. case r of
      Inl _ \<Rightarrow> along V {(kb, old)} w' | Inr _ \<Rightarrow> along V ?F2 w') v" if "along V ?F1 v" for v
    by (rule wp_bindI [OF r2 [OF that]])
      (use weaken in \<open>auto intro!: wp_mono [OF sync] split: sum.splits\<close>)
  have step1: "wp (bind_io (at_stage PublicRenamed (sync_parent_directory pp)) (\<lambda>_.
     bind_io (if test_commit_failure B = Some BeforeSecretRename then
                throw (Other ''injected secret key commit failure'', PublicRenamed)
              else ret ()) (\<lambda>_.
     bind_io (at_stage PublicRenamed (map_err_io (FileWrite sp) (rename_file st sp))) (\<lambda>_.
       at_stage SecretRenamed (sync_parent_directory sp))))) (\<lambda>r w'. case r of
      Inl _ \<Rightarrow> along V {(kb, old)} w' | Inr _ \<Rightarrow> along V ?F2 w') v" if "along V ?F1 v" for v
    by (rule wp_bindI [OF sync [OF that]])
      (use weaken step2 in \<open>auto simp: wp_simps\<close>)
  have start: "along V {(kb, old)} w" using weaken [OF assms(1)] F(1) by blast
  show ?thesis
  proof (cases "test_commit_failure B = Some BeforePublicRename")
    case True
    then show ?thesis using start by (simp add: commit_keypair_files_def wp_simps)
  next
    case False
    show ?thesis
      unfolding commit_keypair_files_def if_not_P [OF False] wp_bind [of "ret ()"] wp_combinators sum.case
    proof (rule wp_bindI [OF r1], goal_cases)
      case (2 u v)
      then show ?case by (intro step1) simp
    qed simp
  qed
qed

text \<open>The old secret key, and nothing else, is known to be somewhere.\<close>

definition key_kept :: "overwriting \<Rightarrow> loc \<Rightarrow> bytes \<Rightarrow> world \<Rightarrow> bool" where
  "key_kept V ls old w \<longleftrightarrow> (\<exists>k. (k = ls \<or> (\<exists>a. k = sibling_loc ls a ''bak'')) \<and> along V {(k, old)} w)"

lemma spec_restore_secret:
  assumes "along V {(k, old)} w" "k = sibling_loc ls a ''bak''" "leads V b k" "leads V sp ls" "enough V {(ls, old)}"
  shows "wp (restore_backup (Some b) sp) (\<lambda>r. key_kept V ls old) w"
proof (rule wp_mono [OF spec_restore [OF assms(1) _ assms(4), of _ "\<lambda>x. x = k"]])
  show "\<forall>c. Some b = Some c \<longrightarrow> (\<exists>x. leads V c x \<and> x \<noteq> ls \<and> enough V (moved x ls {(k, old)}) \<and> x = k)"
    using assms(2,3,5) sibling_longer by auto
  show "ls \<notin> fst ` {(k, old)}" using assms(2) sibling_longer [of ls a "''bak''"] by auto
  fix r :: "'a + unit" and w'
  assume "along V {(k, old)} w' \<or> (\<exists>x. x = k \<and> along V (moved x ls {(k, old)}) w')"
  then show "key_kept V ls old w'" using assms(2) by (auto simp: key_kept_def)
qed

lemma spec_restore_other:
  assumes "along V {(k, old)} w" "leads V pp lp" "lp \<noteq> k"
    and "\<forall>b. backup = Some b \<longrightarrow> (\<exists>x. leads V b x \<and> x \<noteq> lp \<and> x \<noteq> k)"
  shows "wp (restore_backup backup pp) (\<lambda>r. along V {(k, old)}) w"
proof (rule wp_mono [OF spec_restore [OF assms(1) _ assms(2), of _ "\<lambda>x. x \<noteq> k"]])
  have "enough V {(k, old)}" using assms(1) by (simp add: along_def)
  then show "\<forall>b. backup = Some b \<longrightarrow> (\<exists>x. leads V b x \<and> x \<noteq> lp \<and> enough V (moved x lp {(k, old)}) \<and> x \<noteq> k)"
    using assms(4) by auto
  show "lp \<notin> fst ` {(k, old)}" using assms(3) by simp
  fix r :: "'a + unit" and w'
  assume "along V {(k, old)} w' \<or> (\<exists>x. x \<noteq> k \<and> along V (moved x lp {(k, old)}) w')"
  then show "along V {(k, old)} w'" by auto
qed

lemma spec_restore_public:
  assumes "key_kept V ls old w" "apart ls lp" "leads V pp lp"
    and "\<forall>b. backup = Some b \<longrightarrow> (\<exists>c. leads V b (sibling_loc lp c ''bak''))"
  shows "wp (restore_backup backup pp) (\<lambda>r. key_kept V ls old) w"
proof -
  obtain k where k: "k = ls \<or> (\<exists>a. k = sibling_loc ls a ''bak'')" "along V {(k, old)} w"
    using assms(1) by (auto simp: key_kept_def)
  have ne: "lp \<noteq> k" "\<And>c. sibling_loc lp c ''bak'' \<noteq> k" using k(1) assms(2) unfolding apart_def by metis+
  have "\<forall>b. backup = Some b \<longrightarrow> (\<exists>x. leads V b x \<and> x \<noteq> lp \<and> x \<noteq> k)"
    using assms(4) ne(2) sibling_longer by blast
  from spec_restore_other [OF k(2) assms(3) ne(1) this] show ?thesis
    by (rule wp_mono) (use k(1) in \<open>auto simp: key_kept_def\<close>)
qed

lemma spec_rollback:
  assumes "along V {(k, old)} w" "k = sibling_loc ls a ''bak''" "leads V b k" "leads V sp ls" "leads V pp lp"
    and "apart ls lp" "enough V {(ls, old)}" "\<forall>b. backup = Some b \<longrightarrow> (\<exists>c. leads V b (sibling_loc lp c ''bak''))"
  shows "wp (rollback_keypair_commit sp pp (Some b) backup stage) (\<lambda>r. key_kept V ls old) w"
proof -
  have ne: "ls \<notin> fst ` {(k, old)}" "lp \<notin> fst ` {(k, old)}"
    using assms(2,6) sibling_longer [of ls a "''bak''"] by (auto simp: apart_def)
  have kept: "key_kept V ls old v" if "along V {(k, old)} v" for v
    using that assms(2) unfolding key_kept_def by blast
  have last: "wp (bind_io (restore_backup (Some b) sp) (\<lambda>_. restore_backup backup pp)) (\<lambda>r. key_kept V ls old) v"
    if "along V {(k, old)} v" for v
    by (rule wp_bindI [OF spec_restore_secret [OF that assms(2-4,7)]])
      (use spec_restore_public [OF _ assms(6,5,8)] in auto)
  have opt: "wp (if c then remove_partial what p else ret ()) (\<lambda>r. along V {(k, old)}) v"
    if "along V {(k, old)} v" "leads V p l" "l \<notin> fst ` {(k, old)}" for c what p l v
    by (cases c) (simp_all add: wp_simps spec_remove_partial [OF that] that(1))
  show ?thesis
    unfolding rollback_keypair_commit_def
  proof (rule wp_bindI [OF opt [OF assms(1,4) ne(1)]], goal_cases)
    case (2 u v)
    show ?case
      by (rule wp_bindI [OF opt [OF 2 assms(5) ne(2)]]) (auto intro: kept last)
  qed (rule kept)
qed

text \<open>The calls \<open>stage_keypair\<close> makes when it succeeds; the next one looks for the secret key.\<close>

lemma write_temp_calls:
  assumes "write_temp_file p bs m w = (Inr t, w')"
  shows "w_calls w' = w_calls w + 3 \<and> w_faults w' = w_faults w"
  using assms
  by (auto simp: write_temp_file_def bind_io_Inr map_err_io_def sibling_temp_path_def random_bytes_def ret_def
      create_new_def update_def write_all_def sync_all_def query_def commit_def Let_def fill_bytes_def
      split: prod.splits option.splits)

lemma stage_calls:
  assumes "stage_keypair sp pp sc pc w = (Inr x, w')"
  shows "w_calls w' = w_calls w + 6 \<and> w_faults w' = w_faults w"
proof -
  obtain st w1 where st: "write_temp_file sp sc (Some SECRET_KEY_FILE_PERMISSIONS) w = (Inr st, w1)"
    and rest: "bind_io (or_discard (write_temp_file pp pc None) [st]) (\<lambda>pt. ret (st, pt)) w1 = (Inr x, w')"
    using assms by (auto simp: stage_keypair_def bind_io_Inr)
  have "\<exists>pt. write_temp_file pp pc None w1 = (Inr pt, w')"
    using rest by (cases "write_temp_file pp pc None w1")
      (auto simp: or_discard_def bind_io_def attempt_def ret_def throw_def split: sum.splits prod.splits)
  then show ?thesis using write_temp_calls [OF st] write_temp_calls by fastforce
qed

lemma file_exists:
  assumes "w_faults w (w_calls w) = None" "leads V p l" "intact V F (w_fs w)" "(l, bs) \<in> F"
  shows "fst (path_exists p w :: (error + bool) \<times> world) = Inr True"
proof -
  obtain n where n: "file_name p = Some n" using assms(2) by (auto simp: leads_def)
  have l: "resolve_entry (w_fs w) p = Inr l" using leads_resolves [OF assms(2,3)] by simp
  have c: "contents_at (w_fs w) l = Some bs" using assms(3,4) by (auto simp: intact_def)
  then obtain i where i: "lookup (w_fs w) l = Some (FileAt i)" using contents_entry by blast
  obtain d where d: "walk (w_fs w) MAX_LINKS (fs_cwd (w_fs w)) (butlast (components p)) = Inr d"
    "lookup (w_fs w) d = Some DirAt" "l = d @ [n]" using l resolve_entry_Inr [OF n] by blast
  have comps: "components p = butlast (components p) @ [NormalComp n]"
    using n by (metis append_butlast_last_id file_name_Some)
  have "walk (w_fs w) MAX_LINKS (fs_cwd (w_fs w)) (components p) = Inr l"
    using walk_snoc [OF d(1,2)] i d(3) comps by metis
  then have "resolve (w_fs w) p = Inr l" using comps by (auto simp: resolve_def components_def)
  then have "is_ok (sys_metadata p (w_fs w))"
    using i c by (auto simp: sys_metadata_def sys_open_def handle_stat_def contents_at_def view_def is_ok_iff
        split: option.splits)
  then show ?thesis
    using assms(1) by (simp add: path_exists_def bind_io_def attempt_def metadata_def query_def ret_def Let_def)
qed

text \<open>The last part of the overwrite: the commit, and what follows its success or failure.\<close>

lemma spec_finish:
  assumes "along V {(kb, old), (ts, sc), (tp, pc)} w" "kb = sibling_loc ls a ''bak''"
    and lead: "leads V b kb" "leads V st ts" "leads V pt tp" "leads V sp ls" "leads V pp lp"
    and ne: "distinct [kb, ts, tp, lp]" "distinct [kb, ts, ls, lp]" "apart ls lp"
    and e: "\<And>k F. (k, old) \<in> F \<Longrightarrow> fst ` F \<subseteq> ov_locs V \<Longrightarrow> k = ls \<or> (\<exists>a. k = sibling_loc ls a ''bak'') \<Longrightarrow> enough V F"
      "enough V {(ls, sc), (lp, pc)}"
    and backup: "\<forall>b. backup = Some b \<longrightarrow> (\<exists>c. leads V b (sibling_loc lp c ''bak''))"
  shows "wp (bind_io (attempt (commit_keypair_files B sp pp st pt)) (\<lambda>r.
       case r of
         Inr _ \<Rightarrow> bind_io (discard_backup (Some b)) (\<lambda>_. discard_backup backup)
       | Inl (e, stage) \<Rightarrow>
           bind_io (discard_files [st, pt]) (\<lambda>_.
           bind_io (rollback_keypair_commit sp pp (Some b) backup stage)
           (\<lambda>_. throw e)))) (\<lambda>r w'. case r of
      Inl e \<Rightarrow> key_kept V ls old w' | Inr _ \<Rightarrow> along V {(ls, sc), (lp, pc)} w') w" (is "wp _ ?Q w")
proof (rule wp_bind_attemptI)
  have locs: "kb \<in> ov_locs V" "ls \<in> ov_locs V" using lead by (auto simp: leads_def)
  show "wp (commit_keypair_files B sp pp st pt) (\<lambda>r w'. case r of
      Inl _ \<Rightarrow> along V {(kb, old)} w' | Inr _ \<Rightarrow> along V {(kb, old), (ls, sc), (lp, pc)} w') w"
    by (rule spec_commit [OF assms(1) lead(2-5) refl ne(1,2) _ e(2)]) (use e(1) assms(2) in auto)
  fix r :: "error \<times> keypair_commit_stage + unit" and v
  assume r: "case r of Inl _ \<Rightarrow> along V {(kb, old)} v | Inr _ \<Rightarrow> along V {(kb, old), (ls, sc), (lp, pc)} v"
  show "wp (case r of
         Inr _ \<Rightarrow> bind_io (discard_backup (Some b)) (\<lambda>_. discard_backup backup)
       | Inl (e, stage) \<Rightarrow>
           bind_io (discard_files [st, pt]) (\<lambda>_.
           bind_io (rollback_keypair_commit sp pp (Some b) backup stage) (\<lambda>_. throw e))) ?Q v"
  proof (cases r)
    case (Inl x)
    obtain err stage where x: "x = (err, stage)" by (cases x)
    have v: "along V {(kb, old)} v" using r Inl by simp
    have tmps: "\<forall>p \<in> set [st, pt]. \<exists>l. leads V p l \<and> l \<notin> fst ` {(kb, old)}" using lead(2,3) ne(1) by auto
    have roll: "wp (bind_io (rollback_keypair_commit sp pp (Some b) backup stage) (\<lambda>_. throw err)) ?Q u"
      if "along V {(kb, old)} u" for u
      by (rule wp_bindI [OF spec_rollback [OF that assms(2) lead(1,4,5) ne(3) _ backup]])
        (use e(1) locs in \<open>auto simp: wp_simps\<close>)
    show ?thesis unfolding Inl sum.case x prod.case
      by (rule wp_bindI [OF spec_discards [OF tmps v]]) (use roll in auto)
  next
    case (Inr u)
    have v: "along V {(ls, sc), (lp, pc)} v" using r Inr along_subset [OF _ _ e(2)] by auto
    have pub: "wp (discard_backup backup) ?Q u" if "along V {(ls, sc), (lp, pc)} u" for u
    proof (cases backup)
      case None
      then show ?thesis using that by (simp add: discard_backup_def wp_simps)
    next
      case (Some c)
      then obtain d where d: "leads V c (sibling_loc lp d ''bak'')" using backup by blast
      have "sibling_loc lp d ''bak'' \<notin> fst ` {(ls, sc), (lp, pc)}"
        using ne(3) sibling_longer [of lp d] by (auto simp: apart_def)
      from spec_discard [OF that d this] have c: "wp (discard_file c) (\<lambda>r w'. along V {(ls, sc), (lp, pc)} w') u" .
      obtain u1 where u1: "discard_file c u = (Inr () :: error + unit, u1)"
        using discard_file_returns by (metis prod.collapse)
      show ?thesis
        unfolding Some discard_backup_def option.case wp_def u1 using wpD [OF c u1] by simp
    qed
    have "kb \<notin> fst ` {(ls, sc), (lp, pc)}" using ne(2) by auto
    then have sec: "wp (discard_file b) (\<lambda>r w'. along V {(ls, sc), (lp, pc)} w') v"
      by (rule spec_discard [OF v lead(1)])
    obtain v1 where v1: "discard_file b v = (Inr () :: error + unit, v1)"
      using discard_file_returns by (metis prod.collapse)
    show ?thesis
      unfolding Inr sum.case discard_backup_def [of "Some b"] option.case wp_def bind_io_run [of "discard_file b", OF v1]
      by (rule pub [unfolded wp_def]) (rule wpD [OF sec v1])
  qed
qed

text \<open>What the overwrite asks of the host: two files that are none but regular ones, with no
  backup or temporary name taken by anything else, and old bytes in the secret key file.\<close>

definition ready :: "fs \<Rightarrow> path \<Rightarrow> path \<Rightarrow> loc \<Rightarrow> loc \<Rightarrow> bytes \<Rightarrow> bool" where
  "ready s sp pp ls lp old \<longleftrightarrow> wf_fs s \<and> apart ls lp
     \<and> file_name sp \<noteq> None \<and> resolve_entry s sp = Inr ls
     \<and> file_name pp \<noteq> None \<and> resolve_entry s pp = Inr lp
     \<and> contents_at s ls = Some old
     \<and> (\<forall>l \<in> pair_locs ls lp. \<forall>e. lookup s l = Some e \<longrightarrow> is_file e)"

lemma spec_overwrite_staged:
  assumes al: "along V {(ls, old), (ts, sc), (tp, pc)} w" and calm: "w_faults w (w_calls w) = None"
    and lead: "leads V t1 ts" "leads V t2 tp" "leads V sp ls" "leads V pp lp"
    and ne: "distinct [ls, ts, tp, lp]" "apart ls lp" "\<And>k c. sibling_loc k c ''bak'' \<notin> {ts, tp}"
    and locs: "\<And>a. sibling_loc ls a ''bak'' \<in> ov_locs V" "\<And>a. sibling_loc lp a ''bak'' \<in> ov_locs V"
    and e: "\<And>k F. (k, old) \<in> F \<Longrightarrow> fst ` F \<subseteq> ov_locs V \<Longrightarrow> k = ls \<or> (\<exists>a. k = sibling_loc ls a ''bak'') \<Longrightarrow> enough V F"
      "enough V {(ls, sc), (lp, pc)}"
  shows "wp (bind_io (backup_existing sp [t1, t2] []) (\<lambda>sb.
      bind_io (backup_existing pp [t1, t2] [(sb, sp)]) (\<lambda>pb.
      bind_io (attempt (commit_keypair_files B sp pp t1 t2)) (\<lambda>r.
        case r of
          Inr _ \<Rightarrow> bind_io (discard_backup sb) (\<lambda>_. discard_backup pb)
        | Inl (e, stage) \<Rightarrow> bind_io (discard_files [t1, t2]) (\<lambda>_.
            bind_io (rollback_keypair_commit sp pp sb pb stage) (\<lambda>_. throw e))))))
     (\<lambda>r w'. case r of Inl e \<Rightarrow> key_kept V ls old w' | Inr _ \<Rightarrow> along V {(ls, sc), (lp, pc)} w') w"
    (is "wp _ ?Q w")
proof -
  have in_locs: "ls \<in> ov_locs V" "lp \<in> ov_locs V" "ts \<in> ov_locs V" "tp \<in> ov_locs V"
    using lead by (simp_all add: leads_def)
  have bak: "sibling_loc ls c ''bak'' \<noteq> ls" "sibling_loc ls c ''bak'' \<noteq> lp" "sibling_loc lp c ''bak'' \<noteq> lp"
    "sibling_loc lp c ''bak'' \<noteq> ls" "sibling_loc ls c ''bak'' \<noteq> sibling_loc lp d ''bak''"
    "sibling_loc k c ''bak'' \<noteq> ts" "sibling_loc k c ''bak'' \<noteq> tp" for c d k
    using ne(2,3) sibling_longer unfolding apart_def by (metis insertCI)+
  let ?F = "{(ls, old), (ts, sc), (tp, pc)}"
  let ?H = "\<lambda>k. {(k, old), (ts, sc), (tp, pc)}"
  have m: "moved ls k ?F = ?H k" "moved ls k {(ls, old)} = {(k, old)}" for k using ne(1) by auto
  have en: "enough V (?H (sibling_loc ls a ''bak''))" "enough V {(sibling_loc ls a ''bak'', old)}"
    "enough V {(ls, old)}" for a
    using e(1) [of "sibling_loc ls a ''bak''" "?H (sibling_loc ls a ''bak'')"]
      e(1) [of "sibling_loc ls a ''bak''" "{(sibling_loc ls a ''bak'', old)}"] e(1) [of ls "{(ls, old)}"] in_locs locs
    by auto
  have kept: "along V {(ls, old)} v \<Longrightarrow> key_kept V ls old v" "along V {(sibling_loc ls a ''bak'', old)} v \<Longrightarrow> key_kept V ls old v"
    for v a unfolding key_kept_def by blast+
  have tmps: "\<exists>k. leads V t1 k \<and> k \<noteq> x" "\<exists>k. leads V t2 k \<and> k \<noteq> x" if "x \<noteq> ts" "x \<noteq> tp" for x
    using lead(1,2) that by blast+
  have exists: "fst (path_exists sp w :: (error + bool) \<times> world) = Inr True"
    by (rule file_exists [OF calm lead(3)]) (use al in \<open>auto simp: along_def\<close>)
  have first: "wp (backup_existing sp [t1, t2] []) (\<lambda>r v. case r of
      Inl e \<Rightarrow> key_kept V ls old v
    | Inr None \<Rightarrow> along V ?F v \<and> fst (path_exists sp w :: (error + bool) \<times> world) = Inr False
    | Inr (Some b) \<Rightarrow> \<exists>a. leads V b (sibling_loc ls a ''bak'') \<and> along V (moved ls (sibling_loc ls a ''bak'') ?F) v) w"
  proof (rule spec_backup [OF al lead(3) locs(1), where G = "{(ls, old)}"])
    fix v b a
    assume v: "along V (moved ls (sibling_loc ls a ''bak'') {(ls, old)}) v" and b: "leads V b (sibling_loc ls a ''bak'')"
    have "wp (restore_backup (Some b) sp :: (error, unit) io) (\<lambda>r. key_kept V ls old) v"
      by (rule spec_restore_secret [OF _ refl b lead(3) en(3)]) (use v in simp)
    then show "wp (restore_all [(Some b, sp)] :: (error, unit) io) (\<lambda>r. key_kept V ls old) v"
      by (auto simp: wp_simps elim!: wp_mono split: sum.splits)
  qed (use m en tmps ne(1) bak kept in \<open>auto simp: wp_simps\<close>)
  have second: "wp (backup_existing pp [t1, t2] [(Some b, sp)]) (\<lambda>r v. case r of
      Inl e \<Rightarrow> key_kept V ls old v
    | Inr None \<Rightarrow> along V (?H (sibling_loc ls a ''bak'')) v \<and> fst (path_exists pp u :: (error + bool) \<times> world) = Inr False
    | Inr (Some c) \<Rightarrow> \<exists>d. leads V c (sibling_loc lp d ''bak'')
        \<and> along V (moved lp (sibling_loc lp d ''bak'') (?H (sibling_loc ls a ''bak''))) v) u"
    if "along V (?H (sibling_loc ls a ''bak'')) u" "leads V b (sibling_loc ls a ''bak'')" for a b u
  proof -
    let ?k = "sibling_loc ls a ''bak''"
    have same: "moved lp x (?H ?k) = ?H ?k" "moved lp x {(?k, old)} = {(?k, old)}" for x
      using ne(1) bak(2) [of a] by auto
    have secret: "wp (restore_all [(Some b, sp)] :: (error, unit) io) (\<lambda>r. key_kept V ls old) v"
      if v: "along V {(?k, old)} v" for v
    proof -
      have "wp (restore_backup (Some b) sp :: (error, unit) io) (\<lambda>r. key_kept V ls old) v"
        by (rule spec_restore_secret [OF v refl \<open>leads V b ?k\<close> lead(3) en(3)])
      then show ?thesis by (auto simp: wp_simps elim!: wp_mono split: sum.splits)
    qed
    show ?thesis
    proof (rule spec_backup [OF that(1) lead(4) locs(2), where G = "{(?k, old)}"])
      fix v c d
      assume v: "along V (moved lp (sibling_loc lp d ''bak'') {(?k, old)}) v" and c: "leads V c (sibling_loc lp d ''bak'')"
      have "wp (restore_backup (Some c) pp :: (error, unit) io) (\<lambda>r. along V {(?k, old)}) v"
      proof (rule spec_restore_other [OF _ lead(4)])
        have "leads V c (sibling_loc lp d ''bak'') \<and> sibling_loc lp d ''bak'' \<noteq> lp \<and> sibling_loc lp d ''bak'' \<noteq> ?k"
          using c bak(3) [of d] bak(5) [of a d] by simp
        then show "\<forall>q. Some c = Some q \<longrightarrow> (\<exists>x. leads V q x \<and> x \<noteq> lp \<and> x \<noteq> ?k)" by blast
      qed (use v same(2) bak(2) [of a] in auto)
      then show "wp (restore_all [(Some c, pp), (Some b, sp)] :: (error, unit) io) (\<lambda>r. key_kept V ls old) v"
        unfolding restore_all.simps(2) [of "(Some c, pp)"] fst_conv snd_conv
        by (rule wp_bindI) (use secret kept in auto)
    qed (use same en tmps ne(1) bak bak(5) [symmetric] secret in \<open>auto simp: wp_simps\<close>)
  qed
  show ?thesis
  proof (rule wp_bindI [OF first], goal_cases)
    case (2 sb v)
    then obtain b a where b: "sb = Some b" "leads V b (sibling_loc ls a ''bak'')"
      "along V (?H (sibling_loc ls a ''bak'')) v" using exists m by (auto split: option.splits)
    let ?k = "sibling_loc ls a ''bak''"
    have same: "moved lp x (?H ?k) = ?H ?k" for x using ne(1) bak(2) [of a] by auto
    have d: "distinct [?k, ts, tp, lp]" "distinct [?k, ts, ls, lp]"
      using ne(1) bak(1,2) [of a] bak(6,7) by auto
    show ?case unfolding b(1)
    proof (rule wp_bindI [OF second [OF b(3,2)]], goal_cases)
      case (2 pb u)
      then have pb: "along V (?H ?k) u" "\<forall>c. pb = Some c \<longrightarrow> (\<exists>d. leads V c (sibling_loc lp d ''bak''))"
        using same by (auto split: option.splits)
      show ?case
        by (rule spec_finish [OF pb(1) refl b(2) lead d ne(2) e pb(2)])
    qed simp
  qed simp
qed

lemma spec_replace_keypair:
  assumes r: "ready (w_fs w) sp pp ls lp old" and calm: "w_faults w (w_calls w + 6) = None"
    and V: "V = pair_overwriting w ls lp old sc pc"
  shows "wp (replace_keypair B sp pp sc pc) (\<lambda>r w'. case r of
      Inl e \<Rightarrow> key_kept V ls old w' | Inr _ \<Rightarrow> along V {(ls, sc), (lp, pc)} w') w"
proof -
  have V_simps: "ov_start V = w" "ov_locs V = pair_locs ls lp" by (simp_all add: V pair_overwriting_def)
  have ap: "apart ls lp" using r by (simp add: ready_def)
  have locs: "ls \<in> ov_locs V" "lp \<in> ov_locs V" "\<And>a. sibling_loc ls a ''tmp'' \<in> ov_locs V"
    "\<And>a. sibling_loc lp a ''tmp'' \<in> ov_locs V" "\<And>a. sibling_loc ls a ''bak'' \<in> ov_locs V"
    "\<And>a. sibling_loc lp a ''bak'' \<in> ov_locs V"
    unfolding V_simps pair_locs_def by blast+
  have sp: "leads V sp ls" and pp: "leads V pp lp"
    using r locs(1,2) by (simp_all add: leads_def ready_def V_simps)
  have en: "enough V F" if "(k, old) \<in> F" "fst ` F \<subseteq> ov_locs V" "k = ls \<or> (\<exists>a. k = sibling_loc ls a ''bak'')" for k F
    using enough_old [OF V that(1) _ that(3)] that(2) V_simps(2) by simp
  have en_new: "enough V {(ls, sc), (lp, pc)}" using enough_new [OF V] locs V_simps(2) by auto
  have start: "along V {(ls, old)} w"
    using r en [of ls "{(ls, old)}"] locs(1)
    by (simp add: along_def intact_def ready_def V_simps passes_refl)
  have kept_old: "along V {(ls, old)} v \<Longrightarrow> key_kept V ls old v" for v unfolding key_kept_def by blast
  have kept_bak: "along V {(sibling_loc ls a ''bak'', old)} v \<Longrightarrow> key_kept V ls old v" for v a unfolding key_kept_def by blast
  let ?Q = "\<lambda>r w'. case r of Inl e \<Rightarrow> key_kept V ls old w' | Inr _ \<Rightarrow> along V {(ls, sc), (lp, pc)} w'"
  show ?thesis
  proof (rule wpI)
    fix r w'
    assume run: "replace_keypair B sp pp sc pc w = (r, w')"
    obtain q w1 where st: "stage_keypair sp pp sc pc w = (q, w1)" by (rule prod.exhaust)
    note s = wpD [OF spec_stage [OF start sp pp] st]
    show "?Q r w'"
    proof (cases q)
      case (Inl e)
      then have "r = Inl e" "w' = w1" using run st by (simp_all add: replace_keypair_def bind_io_def)
      then show ?thesis using s Inl locs kept_old by simp
    next
      case (Inr x)
      obtain t1 t2 where x: "x = (t1, t2)" by (cases x)
      obtain a b where t: "leads V t1 (sibling_loc ls a ''tmp'')" "leads V t2 (sibling_loc lp b ''tmp'')"
        "sibling_loc ls a ''tmp'' \<notin> fst ` {(ls, old)}" "sibling_loc lp b ''tmp'' \<notin> fst ` {(ls, old)}"
        "sibling_loc lp b ''tmp'' \<noteq> sibling_loc ls a ''tmp''"
        "along V ({(ls, old)} \<union> {(sibling_loc ls a ''tmp'', sc), (sibling_loc lp b ''tmp'', pc)}) w1"
        using s Inr x locs by auto
      define ts tp where "ts = sibling_loc ls a ''tmp''" and "tp = sibling_loc lp b ''tmp''"
      have ts: "leads V t1 ts" "leads V t2 tp" "ts \<noteq> ls" "tp \<noteq> ls" "tp \<noteq> ts" "ts \<noteq> lp" "tp \<noteq> lp"
        "along V {(ls, old), (ts, sc), (tp, pc)} w1" "ts \<in> ov_locs V" "tp \<in> ov_locs V"
        using t locs ap sibling_longer [of lp b] unfolding ts_def tp_def apart_def by (auto simp: insert_commute)
      have ne: "sibling_loc k c ''bak'' \<notin> {ts, tp}" for k c
        unfolding ts_def tp_def using sibling_suffix by (metis empty_iff insert_iff)
      have calls: "w_faults w1 (w_calls w1) = None" using stage_calls [OF st [unfolded Inr]] calm by simp
      have rest: "bind_io (backup_existing sp [t1, t2] []) (\<lambda>sb.
          bind_io (backup_existing pp [t1, t2] [(sb, sp)]) (\<lambda>pb.
          bind_io (attempt (commit_keypair_files B sp pp t1 t2)) (\<lambda>r.
            case r of
              Inr _ \<Rightarrow> bind_io (discard_backup sb) (\<lambda>_. discard_backup pb)
            | Inl (e, stage) \<Rightarrow> bind_io (discard_files [t1, t2]) (\<lambda>_.
                bind_io (rollback_keypair_commit sp pp sb pb stage) (\<lambda>_. throw e))))) w1 = (r, w')"
        using run st Inr x by (simp add: replace_keypair_def bind_io_def)
      show ?thesis
        by (rule wpD [OF spec_overwrite_staged [OF ts(8) calls ts(1,2) sp pp _ ap ne locs(5,6) en en_new] rest])
          (use ts ap in \<open>auto simp: apart_def\<close>)
    qed
  qed
qed

end
