(* ===== verification/Generate_Properties.thy ===== *)
theory Generate_Properties
  imports Pairs Overwrite KeyOps_Properties
begin

text \<open>
  Key generation: what \<open>generate\<close> leaves behind when it succeeds is a key pair, and it succeeds
  when nothing stands in its way.
\<close>

section \<open>What generation leaves\<close>

lemma write_generated_outcome:
  assumes "write_generated C B opts s pubkey comment w = (Inr u, w')" "go_overwrite opts = Preserve"
    and "file_name (go_secret_key_file opts) = Some n" "file_name (go_public_key_file opts) = Some m"
  shows "\<exists>sc pc ls lp i j. seckey_to_file_contents C s (seckey_comment (go_encryption opts)) = Inr sc
    \<and> pubkey_to_file_contents C pubkey comment = Inr pc
    \<and> ls \<noteq> lp \<and> lookup (w_fs w) ls = None \<and> lookup (w_fs w) lp = None
    \<and> file_with (w_fs w') (go_secret_key_file opts) ls i (as_bytes sc)
    \<and> file_with (w_fs w') (go_public_key_file opts) lp j (as_bytes pc)"
proof -
  obtain u1 w1 u2 w2 sc pc where v: "ensure_secret_key_directory (go_secret_key_file opts) w = (Inr u1, w1)"
    "ensure_parent_directory (go_public_key_file opts) w1 = (Inr u2, w2)"
    "seckey_to_file_contents C s (seckey_comment (go_encryption opts)) = Inr sc"
    "pubkey_to_file_contents C pubkey comment = Inr pc"
    "write_keypair_files_create_new (go_secret_key_file opts) (go_public_key_file opts)
       (as_bytes sc) (as_bytes pc) w2 = (Inr u, w')"
    using assms(1,2) by (auto simp: write_generated_def bind_io_Inr lift_res_def)
  have "keeping_files w w1" "keeping_files w1 w2"
    using v(1,2) keepers.directory_made [OF keepers.makes_directories]
    by (auto simp: ensure_secret_key_directory_def ensure_parent_directory_def dest: obeysD)
  then have keep: "keeping (w_fs w) (w_fs w2)"
    using keeping_files_trans [of w w1 w2] by (simp add: keeping_files_def)
  have new: "lookup (w_fs w) l = None" if "lookup (w_fs w2) l = None" for l
    using keep that unfolding keeping_def by (metis not_None_eq option.distinct(1))
  show ?thesis using create_new_pair [OF v(5) assms(3,4)] v(3,4) new by blast
qed

lemma generate_outcome:
  assumes C: "b64_ok C" "blake2b_ok C" "scrypt_ok C" "ed_ok C"
    and o: "go_overwrite opts = Preserve" "file_name (go_secret_key_file opts) = Some n"
      "file_name (go_public_key_file opts) = Some m"
    and run: "generate C B opts pw w = (Inr res, w')"
  shows "\<exists>sk kn ls lp i j sbs pbs. ls \<noteq> lp \<and> lookup (w_fs w) ls = None \<and> lookup (w_fs w) lp = None
    \<and> file_with (w_fs w') (go_secret_key_file opts) ls i sbs
    \<and> file_with (w_fs w') (go_public_key_file opts) lp j pbs
    \<and> holds_key C sbs pw sk kn \<and> ed_keypair C sk = None
    \<and> pubkey_from_file_contents C (text_of pbs) = Inr (signer_key C sk kn)
    \<and> pubkey_from_base64 C (gr_public_key_base64 res) = Inr (signer_key C sk kn)
    \<and> gr_keynum_hex res = to_key_id kn"
proof -
  let ?sp = "go_secret_key_file opts" and ?pp = "go_public_key_file opts"
  obtain x1 w1 x2 w2 keys w3 s w4 where v: "reject_output_alias ?pp [?sp] w1 = (Inr x2, w2)"
    "(case go_comment opts of None \<Rightarrow> ret () | Some c \<Rightarrow> lift_res (validate_key_comment c)) w = (Inr x1, w1)"
    "generate_keypair_op C w2 = (Inr keys :: error + _, w3)"
    "(case keys of (sk, pk, kn) \<Rightarrow> seal_key C B (go_encryption opts) (go_force_weak_kdf opts) SCRYPT_LOG_N sk kn pw) w3
       = (Inr s, w4)"
    "(case keys of (sk, pk, kn) \<Rightarrow>
        let pubkey = \<lparr>pk_keynum = kn, pk_public_key = pk\<rparr>;
            keynum_hex = to_key_id kn;
            comment = (case go_comment opts of None \<Rightarrow> default_key_comment keynum_hex | Some c \<Rightarrow> c)
        in bind_io (write_generated C B opts s pubkey comment) (\<lambda>_.
             ret \<lparr>gr_secret_key_file = ?sp, gr_public_key_file = ?pp, gr_keynum_hex = keynum_hex,
                  gr_keynum_words = keynum_to_words kn,
                  gr_public_key_base64 = encode_base64 C (pubkey_to_bytes pubkey),
                  gr_credential_id = credential_id s, gr_kdf_fallback_used = False\<rparr>)) w4 = (Inr res, w')"
    using run unfolding generate_def generate_with_log_n_def
    by (auto simp: bind_io_Inr throw_def split: if_splits prod.splits)
  obtain sk pk kn where keys: "keys = (sk, pk, kn)" by (cases keys)
  obtain g' where g: "generate_keypair C (w_rng w2) = ((sk, pk, kn), g')"
    using v(3) keys by (auto simp: generate_keypair_op_def split: prod.splits)
  note wf = generate_keypair_wf [OF C(4) g]
  note seal = seal_key_Inr [OF C(2,3) _ _ v(4) [unfolded keys prod.case]]
  obtain c where out: "write_generated C B opts s (signer_key C sk kn) c w4 = (Inr (), w')"
    "gr_keynum_hex res = to_key_id kn"
    "gr_public_key_base64 res = encode_base64 C (pubkey_to_bytes (signer_key C sk kn))"
    using v(5) wf unfolding keys signer_key_def by (auto simp: bind_io_Inr ret_def Let_def)
  obtain sc pc ls lp i j where f: "seckey_to_file_contents C s (seckey_comment (go_encryption opts)) = Inr sc"
    "pubkey_to_file_contents C (signer_key C sk kn) c = Inr pc"
    "ls \<noteq> lp" "lookup (w_fs w4) ls = None" "lookup (w_fs w4) lp = None"
    "file_with (w_fs w') ?sp ls i (as_bytes sc)" "file_with (w_fs w') ?pp lp j (as_bytes pc)"
    using write_generated_outcome [OF out(1) o] by blast
  have "w_fs w1 = w_fs w" using v(2) by (auto simp: ret_def lift_res_def split: option.splits)
  then have same: "w_fs w4 = w_fs w"
    using reads_onlyD [OF reads_only_alias v(1)] v(3) seal wf
    by (auto simp: generate_keypair_op_def split: prod.splits)
  have "holds_key C (as_bytes sc) pw sk kn"
    using sealed_holds_key [OF C(1) _ _ f(1)] seal wf by blast
  moreover have pubkey: "wf_pubkey (signer_key C sk kn)"
    using wf by (auto simp: wf_pubkey_def signer_key_def)
  then have "pubkey_from_file_contents C (text_of (as_bytes pc)) = Inr (signer_key C sk kn)"
    using pubkey_file.parse_render [OF C(1) _ f(2)] by simp
  moreover have "pubkey_from_base64 C (gr_public_key_base64 res) = Inr (signer_key C sk kn)"
    using pubkey C(1) by (simp add: out(3) pubkey_from_base64_def pubkey_codec.dec_enc)
  ultimately show ?thesis using f(3-7) out(2) wf same by metis
qed

section \<open>Generation that comes off\<close>

lemma alias_of_missing_passes:
  assumes "faultless w" "cwd_ok (w_fs w)" "file_name out = Some n" "resolve_entry (w_fs w) out = Inr l"
    and p: "file_name p = Some m" "resolve_entry (w_fs w) p = Inr lo" "lookup (w_fs w) lo = None" "lo \<noteq> l"
  shows "\<exists>w'. reject_output_alias out [p] w = (Inr (), w') \<and> faultless w' \<and> w_fs w' = w_fs w"
proof -
  obtain c where c: "resolve_destination out w = (Inr c, ticked (ticked w))"
    "components c = RootDir # map NormalComp l"
    using resolve_destination_run [OF assms(1-4)] by blast
  let ?w = "ticked (ticked (ticked w))"
  have "faultless ?w" "cwd_ok (w_fs ?w)" "resolve_entry (w_fs ?w) p = Inr lo" using assms by simp_all
  then obtain d where d: "resolve_destination p ?w = (Inr d, ticked (ticked ?w))"
    "components d = RootDir # map NormalComp lo"
    using resolve_destination_run [of ?w p m lo] p(1) by blast
  have "sys_canonicalize p (w_fs w) = Inl ENOENT"
    using missing_not_found(1) [OF p(1-3)] p(3) by (simp add: sys_canonicalize_def)
  moreover have "map NormalComp lo \<noteq> map NormalComp l"
    using p(4) inj_map_eq_map [of NormalComp lo l] by (auto simp: inj_on_def)
  ultimately have "reject_output_alias out [p] w = (Inr (), ticked (ticked ?w))"
    using c d assms(1)
    by (simp add: reject_output_alias_def bind_io_def attempt_def lookups_run ENOENT_def ret_def)
  then show ?thesis using assms(1) by simp
qed

text \<open>The key can be sealed: it is not encrypted, or with a password and a working scrypt.\<close>

definition can_seal :: "crates \<Rightarrow> generate_options \<Rightarrow> bytes option \<Rightarrow> bool" where
  "can_seal C opts pw \<longleftrightarrow> go_encryption opts = Unprotected \<or>
     (\<exists>p. pw = Some p \<and> \<not> go_force_weak_kdf opts \<and> scrypt_params C SCRYPT_LOG_N SCRYPT_R SCRYPT_P 64 = None
        \<and> (\<forall>salt. length salt = 32 \<longrightarrow>
             is_ok (derive_key_with_params C p salt SCRYPT_LOG_N SCRYPT_R SCRYPT_P ENCRYPTED_BLOB_SIZE)))"

lemma calculated_params:
  assumes "scrypt_params C SCRYPT_LOG_N SCRYPT_R SCRYPT_P 64 = None"
  shows "\<exists>ops mem. calculate_kdf_params dbg SCRYPT_LOG_N False = Inr (ops, mem)
    \<and> opslimit_memlimit_to_params C ops mem = Inr (SCRYPT_LOG_N, SCRYPT_R, SCRYPT_P)"
proof -
  have "unat (33554432 :: u64) = 2 ^ (unat SCRYPT_LOG_N + 5)" "unat (1073741824 :: u64) = 2 ^ (unat SCRYPT_LOG_N + 10)"
    by (simp_all add: SCRYPT_LOG_N_def)
  moreover have "unat SCRYPT_LOG_N \<le> 53" by (simp add: SCRYPT_LOG_N_def)
  ultimately show ?thesis
    unfolding calculate_kdf_params_iff opslimit_memlimit_to_params_exact decode_kdf_params_exact
    using assms by (intro exI [of _ 33554432] exI [of _ 1073741824]) simp
qed

lemma seal_key_run:
  assumes "can_seal C opts pw" "faultless w"
  shows "\<exists>s w'. seal_key C B (go_encryption opts) (go_force_weak_kdf opts) SCRYPT_LOG_N sk kn pw w = (Inr s, w')
    \<and> faultless w' \<and> w_fs w' = w_fs w"
proof (cases "go_encryption opts = Unprotected")
  case True
  then show ?thesis using assms(2) by (simp add: seal_key_def ret_def)
next
  case False
  then obtain p where p: "pw = Some p" "\<not> go_force_weak_kdf opts"
    "scrypt_params C SCRYPT_LOG_N SCRYPT_R SCRYPT_P 64 = None"
    "\<And>salt. length salt = 32 \<Longrightarrow> is_ok (derive_key_with_params C p salt SCRYPT_LOG_N SCRYPT_R SCRYPT_P ENCRYPTED_BLOB_SIZE)"
    using assms(1) by (auto simp: can_seal_def)
  obtain ops mem where k: "calculate_kdf_params (b_debug B) SCRYPT_LOG_N False = Inr (ops, mem)"
    "opslimit_memlimit_to_params C ops mem = Inr (SCRYPT_LOG_N, SCRYPT_R, SCRYPT_P)"
    using calculated_params [OF p(3)] by blast
  obtain salt g where salt: "fill_bytes 32 (w_rng w) = (salt, g)" by (rule prod.exhaust)
  obtain key where "derive_key_with_params C p salt SCRYPT_LOG_N SCRYPT_R SCRYPT_P ENCRYPTED_BLOB_SIZE = Inr key"
    using p(4) [of salt] salt by (auto simp: is_ok_iff fill_bytes_def)
  then have "\<exists>s. new_encrypted C kn sk p salt ops mem False = Inr s"
    using k(2) by (simp add: new_encrypted_def Let_def)
  then show ?thesis
    using False p(1,2) k(1) salt assms(2)
    by (auto simp: seal_key_def bind_io_def random_bytes_def lift_res_def faultless_def)
qed

lemma digit_printable: "d < 16 \<Longrightarrow> 0x30 \<le> (of_char (digit_char d) :: nat) \<and> of_char (digit_char d) < (0x47 :: nat)"
proof -
  assume "d < 16"
  then have "digit_char d \<in> set ''0123456789ABCDEF''" unfolding digit_char_def by (intro nth_mem) simp
  moreover have "\<forall>c \<in> set ''0123456789ABCDEF''. 0x30 \<le> (of_char c :: nat) \<and> of_char c < (0x47 :: nat)" by simp
  ultimately show ?thesis by blast
qed

lemma hex_fixed_printable: "c \<in> set (hex_fixed k n) \<Longrightarrow> 0x30 \<le> (of_char c :: nat) \<and> of_char c < (0x47 :: nat)"
  using digit_printable by (induction k arbitrary: n) auto

lemma default_comment_valid: "validate_untrusted_comment (default_key_comment (to_key_id kn)) = Inr ()"
proof -
  have "\<forall>c \<in> set (to_key_id kn). 0x20 \<le> (of_char c :: nat) \<and> of_char c < (0x7F :: nat)"
    using hex_fixed_printable unfolding to_key_id_fixed by fastforce
  then have "validate_comment (default_key_comment (to_key_id kn)) = Inr ()"
    unfolding default_key_comment_def by (intro validate_comment_ascii) auto
  then show ?thesis by (simp add: validate_untrusted_comment_iff default_key_comment_def)
qed

lemma key_comment_valid: "validate_key_comment c = Inr () \<Longrightarrow> validate_untrusted_comment c = Inr ()"
  by (simp add: validate_key_comment_def split: if_splits)

lemma seckey_comment_valid: "validate_untrusted_comment (seckey_comment mode) = Inr ()"
  by (simp add: validate_untrusted_comment_iff validate_comment_ascii seckey_comment_def)

lemma write_generated_run:
  assumes "faultless w" "go_overwrite opts = Preserve" "validate_untrusted_comment c = Inr ()"
    and "free_pair (w_fs w) (go_secret_key_file opts) (go_public_key_file opts)"
  shows "\<exists>w'. write_generated C B opts s p c w = (Inr (), w')"
proof -
  obtain n m ls lp where names: "file_name (go_secret_key_file opts) = Some n" "file_name (go_public_key_file opts) = Some m"
    "resolve_entry (w_fs w) (go_secret_key_file opts) = Inr ls" "resolve_entry (w_fs w) (go_public_key_file opts) = Inr lp"
    using assms(4) by (auto simp: free_pair_def)
  obtain w1 where w1: "ensure_secret_key_directory (go_secret_key_file opts) w = (Inr (), w1)" "faultless w1"
    "w_fs w1 = w_fs w"
    using ensure_directory_run [OF assms(1) names(1,3)] unfolding ensure_secret_key_directory_def by blast
  obtain w2 where w2: "ensure_parent_directory (go_public_key_file opts) w1 = (Inr (), w2)" "faultless w2"
    "w_fs w2 = w_fs w"
    using ensure_directory_run [OF w1(2) names(2)] names(4) w1(3) unfolding ensure_parent_directory_def by fastforce
  obtain sc where sc: "seckey_to_file_contents C s (seckey_comment (go_encryption opts)) = Inr sc"
    using seckey_comment_valid by (simp add: seckey_to_file_contents_def Let_def)
  obtain pc where pc: "pubkey_to_file_contents C p c = Inr pc"
    using assms(3) by (simp add: pubkey_to_file_contents_def Let_def)
  obtain w3 where w3: "write_keypair_files_create_new (go_secret_key_file opts) (go_public_key_file opts)
      (as_bytes sc) (as_bytes pc) w2 = (Inr (), w3)"
    using create_new_pair_run [OF w2(2)] assms(4) w2(3) by fastforce
  have "write_generated C B opts s p c w = (Inr (), w3)"
    using w1(1) w2(1) sc pc w3 assms(2) by (simp add: write_generated_def bind_io_def lift_res_def)
  then show ?thesis by blast
qed

lemma generate_run:
  assumes "faultless w" "cwd_ok (w_fs w)" "go_overwrite opts = Preserve" "can_seal C opts pw"
    and "free_pair (w_fs w) (go_secret_key_file opts) (go_public_key_file opts)"
    and "\<forall>c. go_comment opts = Some c \<longrightarrow> validate_key_comment c = Inr ()"
  shows "\<exists>res w'. generate C B opts pw w = (Inr res, w')"
proof -
  obtain n m ls lp where names: "file_name (go_secret_key_file opts) = Some n" "file_name (go_public_key_file opts) = Some m"
    "resolve_entry (w_fs w) (go_secret_key_file opts) = Inr ls" "resolve_entry (w_fs w) (go_public_key_file opts) = Inr lp"
    "ls \<noteq> lp" "lookup (w_fs w) ls = None"
    using assms(5) by (auto simp: free_pair_def Let_def)
  obtain w1 where w1: "reject_output_alias (go_public_key_file opts) [go_secret_key_file opts] w = (Inr (), w1)"
    "faultless w1" "w_fs w1 = w_fs w"
    using alias_of_missing_passes [OF assms(1,2) names(2,4,1,3,6,5)] by blast
  obtain sk pk kn w2 where w2: "generate_keypair_op C w1 = (Inr (sk, pk, kn) :: error + _, w2)" "faultless w2" "w_fs w2 = w_fs w"
  proof -
    obtain sk pk kn g where "generate_keypair C (w_rng w1) = ((sk, pk, kn), g)" by (metis prod.collapse)
    then show ?thesis using that w1(2,3) by (simp add: generate_keypair_op_def faultless_def)
  qed
  obtain s w3 where w3: "seal_key C B (go_encryption opts) (go_force_weak_kdf opts) SCRYPT_LOG_N sk kn pw w2 = (Inr s, w3)"
    "faultless w3" "w_fs w3 = w_fs w"
    using seal_key_run [OF assms(4) w2(2)] w2(3) by metis
  let ?p = "\<lparr>pk_keynum = kn, pk_public_key = pk\<rparr>"
  let ?c = "case go_comment opts of None \<Rightarrow> default_key_comment (to_key_id kn) | Some c \<Rightarrow> c"
  have "validate_untrusted_comment ?c = Inr ()"
    using assms(6) default_comment_valid key_comment_valid by (auto split: option.splits)
  then obtain w4 where w4: "write_generated C B opts s ?p ?c w3 = (Inr (), w4)"
    using write_generated_run [OF w3(2) assms(3)] assms(5) w3(3) by fastforce
  have "\<not> (go_encryption opts = Protected \<and> pw = None)" using assms(4) by (auto simp: can_seal_def)
  moreover have "(case go_comment opts of None \<Rightarrow> ret () | Some c \<Rightarrow> lift_res (validate_key_comment c)) w = (Inr (), w)"
    using assms(6) by (auto simp: ret_def lift_res_def split: option.splits)
  ultimately show ?thesis
    using w1(1) w2(1) w3(1) w4
    by (auto simp: generate_def generate_with_log_n_def bind_io_def ret_def Let_def split: option.splits)
qed

section \<open>Properties\<close>

definition ex_generate :: generate_options where
  "ex_generate = generate_set_no_password (generate_builder ''k'' ''p'') True"

lemma ex_free_pair: "free_pair ex_fs ''k'' ''p''"
proof -
  have names: "components ''k'' = [NormalComp ''k'']" "components ''p'' = [NormalComp ''p'']"
    "to_string_lossy ''k'' = ''k''" "to_string_lossy ''p'' = ''p''"
    by (code_simp, code_simp, code_simp, code_simp)
  have r: "file_name ''k'' = Some ''k''" "file_name ''p'' = Some ''p''"
    "resolve_entry ex_fs ''k'' = Inr [''d'', ''k'']" "resolve_entry ex_fs ''p'' = Inr [''d'', ''p'']"
    by (simp_all add: file_name_def resolve_entry_def as_directory_def names)
  have look: "lookup ex_fs [''d'', n] = None" if "n \<noteq> ''m''" "n \<noteq> ''l''" for n
    using that by (simp add: lookup_def ex_fs_def)
  show ?thesis
    unfolding free_pair_def r by (auto simp: Let_def temp_name_def names look)
qed

lemma ex_generate_run:
  obtains res w' where "generate ref_crates ex_build ex_generate None (ex_world ex_fs) = (Inr res, w')"
    "faultless (ex_world ex_fs)"
  using generate_run [of "ex_world ex_fs" ex_generate ref_crates None ex_build] ex_free_pair
  by (auto simp: ex_generate_def generate_set_no_password_def generate_builder_def can_seal_def)

text \<open>C7: key generation without force, on any host: when \<open>generate\<close> succeeds, both files are new,
  the secret key file opens with the password that was given (or without one), and the public key
  file and the line printed for \<open>-P\<close> hold the public key and key number of exactly that secret key,
  whose two halves belong together.\<close>

theorem generate_gives_a_pair:
  assumes "b64_ok C" "blake2b_ok C" "scrypt_ok C" "ed_ok C"
    and "go_overwrite opts = Preserve" "file_name (go_secret_key_file opts) = Some n"
    and "file_name (go_public_key_file opts) = Some m" "generate C B opts pw w = (Inr res, w')"
  shows "\<exists>sk kn ls lp sbs pbs. ls \<noteq> lp \<and> lookup (w_fs w) ls = None \<and> lookup (w_fs w) lp = None
    \<and> resolve_entry (w_fs w') (go_secret_key_file opts) = Inr ls \<and> contents_at (w_fs w') ls = Some sbs
    \<and> resolve_entry (w_fs w') (go_public_key_file opts) = Inr lp \<and> contents_at (w_fs w') lp = Some pbs
    \<and> holds_key C sbs pw sk kn \<and> ed_keypair C sk = None
    \<and> pubkey_from_file_contents C (text_of pbs) = Inr (signer_key C sk kn)
    \<and> pubkey_from_base64 C (gr_public_key_base64 res) = Inr (signer_key C sk kn)
    \<and> gr_keynum_hex res = to_key_id kn"
proof -
  obtain sk kn ls lp i j sbs pbs where g: "ls \<noteq> lp" "lookup (w_fs w) ls = None" "lookup (w_fs w) lp = None"
    "file_with (w_fs w') (go_secret_key_file opts) ls i sbs" "file_with (w_fs w') (go_public_key_file opts) lp j pbs"
    "holds_key C sbs pw sk kn" "ed_keypair C sk = None"
    "pubkey_from_file_contents C (text_of pbs) = Inr (signer_key C sk kn)"
    "pubkey_from_base64 C (gr_public_key_base64 res) = Inr (signer_key C sk kn)" "gr_keynum_hex res = to_key_id kn"
    using generate_outcome [OF assms] by blast
  have "resolve_entry (w_fs w') (go_secret_key_file opts) = Inr ls" "resolve_entry (w_fs w') (go_public_key_file opts) = Inr lp"
    using g(4,5) by (simp_all add: file_with_def)
  then show ?thesis using g(1-3,6-10) g(4,5) [THEN file_with_contents] by blast
qed

theorem generate_gives_a_pair_witness:
  "\<exists>w' ls sbs sk kn. w' = snd (generate ref_crates ex_build ex_generate None (ex_world ex_fs))
     \<and> resolve_entry (w_fs w') ''k'' = Inr ls \<and> contents_at (w_fs w') ls = Some sbs
     \<and> holds_key ref_crates sbs None sk kn"
proof -
  obtain res w' where run: "generate ref_crates ex_build ex_generate None (ex_world ex_fs) = (Inr res, w')"
    by (rule ex_generate_run)
  have "file_name (go_secret_key_file ex_generate) = Some ''k''" "file_name (go_public_key_file ex_generate) = Some ''p''"
    "go_overwrite ex_generate = Preserve" "go_secret_key_file ex_generate = ''k''"
    using ex_free_pair by (simp_all add: ex_generate_def generate_set_no_password_def generate_builder_def file_name_def
        components_def component_of_def body_components_def)
  note o = this
  obtain sk kn ls sbs where "resolve_entry (w_fs w') ''k'' = Inr ls" "contents_at (w_fs w') ls = Some sbs"
    "holds_key ref_crates sbs None sk kn"
    using generate_gives_a_pair [OF ref_b64_ok ref_blake2b_ok ref_scrypt_ok ref_ed_ok o(3,1,2) run] unfolding o(4) by blast
  then show ?thesis using run by (intro exI [of _ w']) auto
qed

text \<open>C9: key generation comes off: on a host where no call fails, with two free names in
  directories that exist, a valid comment and a key that can be sealed, \<open>generate\<close> succeeds.\<close>

theorem generate_succeeds:
  assumes "faultless w" "cwd_ok (w_fs w)" "go_overwrite opts = Preserve" "can_seal C opts pw"
    and "free_pair (w_fs w) (go_secret_key_file opts) (go_public_key_file opts)"
    and "\<forall>c. go_comment opts = Some c \<longrightarrow> validate_key_comment c = Inr ()"
  shows "is_ok (fst (generate C B opts pw w))"
  using generate_run [OF assms, of B] by (auto simp: is_ok_iff)

theorem generate_succeeds_witness:
  "is_ok (fst (generate ref_crates ex_build (generate_builder ''k'' ''p'') (Some [1]) (ex_world ex_fs)))"
proof (rule generate_succeeds)
  have "is_ok (derive_key_with_params ref_crates [1] salt 20 8 1 104)" if "length salt = 32" for salt
    using that by (simp add: derive_key_with_params_def ref_crates_def MAX_KDF_OUTPUT_LEN_def list_all_iff)
  moreover have "ENCRYPTED_BLOB_SIZE = 104" by (simp add: ENCRYPTED_BLOB_SIZE_def size_defs)
  moreover have "scrypt_params ref_crates 20 8 1 64 = None" by (simp add: ref_crates_def)
  ultimately show "can_seal ref_crates (generate_builder ''k'' ''p'') (Some [1])"
    by (simp add: can_seal_def generate_builder_def kdf_const_defs)
qed (use ex_free_pair in \<open>simp_all add: generate_builder_def\<close>)

text \<open>C8: a forced overwrite never loses the secret key on the way. Whichever call fails and
  whenever the machine stops, the bytes of the old secret key are at their place or under a backup
  name beside it, or both new files are in place; when the overwrite fails it is the former, when it
  succeeds the latter. This takes that the one call that looks whether there is a secret key to
  back up, the seventh, does not fail: its failure is taken for the answer no.\<close>

theorem overwrite_keeps_a_key:
  assumes "ready (w_fs w) sp pp ls lp old" "w_faults w (w_calls w + 6) = None"
    and "replace_keypair B sp pp sc pc w = (r, w')"
  shows "passes (\<lambda>s. old_kept ls old s \<or> new_pair ls lp sc pc s) w w'
    \<and> (case r of Inl e \<Rightarrow> old_kept ls old (w_fs w') | Inr _ \<Rightarrow> new_pair ls lp sc pc (w_fs w'))"
proof -
  let ?V = "pair_overwriting w ls lp old sc pc"
  have r: "case r of Inl e \<Rightarrow> key_kept ?V ls old w' | Inr _ \<Rightarrow> along ?V {(ls, sc), (lp, pc)} w'"
    using wpD [OF spec_replace_keypair [OF assms(1,2) refl] assms(3)] .
  then have "\<exists>F. along ?V F w'" by (auto simp: key_kept_def split: sum.splits)
  then have "passes (\<lambda>s. old_kept ls old s \<or> new_pair ls lp sc pc s) w w'"
    using along_goal by (fastforce simp: pair_overwriting_def)
  moreover have "case r of Inl e \<Rightarrow> old_kept ls old (w_fs w') | Inr _ \<Rightarrow> new_pair ls lp sc pc (w_fs w')"
    using r by (auto simp: key_kept_def old_kept_def new_pair_def along_def intact_def split: sum.splits)
  ultimately show ?thesis by (rule conjI)
qed

lemma ex_ready: "ready ex_key_fs ''k'' ''p'' [''d'', ''k''] [''d'', ''p''] (as_bytes ex_seckey_text)"
proof -
  have names: "components ''k'' = [NormalComp ''k'']" "components ''p'' = [NormalComp ''p'']"
    "to_string_lossy ''k'' = ''k''" "to_string_lossy ''p'' = ''p''"
    by (code_simp, code_simp, code_simp, code_simp)
  have "apart [''d'', ''k''] [''d'', ''p'']" by (simp add: apart_def sibling_loc_def temp_name_def names)
  moreover have "contents_at ex_key_fs [''d'', ''k''] = Some (as_bytes ex_seckey_text)"
    by (simp add: contents_at_def view_def) (simp add: ex_key_fs_def)
  moreover have "\<forall>l \<in> pair_locs [''d'', ''k''] [''d'', ''p'']. \<forall>e. lookup ex_key_fs l = Some e \<longrightarrow> is_file e"
    by (auto simp: pair_locs_def sibling_loc_def temp_name_def ex_key_fs_def ex_fs_def lookup_def names
        split: if_splits)
  ultimately show ?thesis
    by (simp add: ready_def file_name_def resolve_entry_def as_directory_def names)
qed

theorem overwrite_keeps_a_key_witness:
  "let (r, w') = replace_keypair ex_build ''k'' ''p'' [1] [2] (ex_world ex_key_fs)
   in case r of Inl e \<Rightarrow> old_kept [''d'', ''k''] (as_bytes ex_seckey_text) (w_fs w')
      | Inr _ \<Rightarrow> new_pair [''d'', ''k''] [''d'', ''p''] [1] [2] (w_fs w')"
proof -
  have "ready (w_fs (ex_world ex_key_fs)) ''k'' ''p'' [''d'', ''k''] [''d'', ''p''] (as_bytes ex_seckey_text)"
    using ex_ready by simp
  moreover have "w_faults (ex_world ex_key_fs) (w_calls (ex_world ex_key_fs) + 6) = None" by (simp add: ex_world_def)
  ultimately show ?thesis
    using overwrite_keeps_a_key [OF _ _ surjective_pairing] unfolding Let_def case_prod_unfold by blast
qed

end
