(* ===== verification/Password_Properties.thy ===== *)
theory Password_Properties
  imports Passwords Inspect_Properties
begin

text \<open>
  Passwords: what is taken from a file or from the terminal, and when the program may say that a
  password was saved.
\<close>

section \<open>From a file\<close>

lemma trim_end_push_all:
  assumes "\<forall>c \<in> set (cs @ ws). scalar_value c" "\<forall>c \<in> set ws. is_whitespace c"
    and "cs = [] \<or> \<not> is_whitespace (last cs)"
  shows "trim_end (push_all (cs @ ws)) = push_all cs"
proof -
  have "dropWhile is_whitespace (rev (cs @ ws)) = rev cs"
    using assms(2,3) dropWhile_append2 [of "rev ws" is_whitespace "rev cs"]
    by (cases cs rule: rev_cases) auto
  then show ?thesis
    using chars_push_all [OF assms(1)] by (simp add: trim_end_def push_all_def)
qed

lemma honest_console [simp]:
  "honest (w\<lparr>w_err := e\<rparr>) \<longleftrightarrow> honest w" "honest (w\<lparr>w_out := e\<rparr>) \<longleftrightarrow> honest w"
  by (simp_all add: honest_def faultless_def)

lemma read_password_file_run:
  assumes "honest w" "regular (w_fs w) p bs" "is_utf8 (text_of bs)"
  shows "fst (read_password_file p w) =
    (if length bs \<le> MAX_PASSWORD_FILE_BYTES then Inr (trim_end (text_of bs))
     else Inl (Io (''Password file too large: '' @ dec (length bs) @ '' bytes exceeds maximum ''
            @ dec MAX_PASSWORD_FILE_BYTES @ '' bytes'')))"
proof -
  define v where "v = w\<lparr>w_err := w_err w @ [''Warning: --password-file is insecure and should only be used for testing purposes.''
      @ [LF]]\<rparr>"
  have v: "honest v" "regular (w_fs v) p bs" using assms(1,2) by (simp_all add: v_def)
  obtain i rs m where run: "open_file p v = (Inr (FileHandle i), ticked v)"
    "fstat (FileHandle i) (ticked v) = (Inr m, ticked (ticked v))" "st_len m = length bs"
    "file_reads (FileHandle i) (ticked (ticked v)) = (Inr rs, ticked3 v)" "delivers rs bs"
    using opened_file [OF v] by metis
  have "handle_stat (w_fs v) (FileHandle i) = Inr m"
    using run(2) v(1) lookups_run [of "ticked v"] by (simp add: honest_def)
  then have plain: "\<not> st_is_dir m" by (auto simp: handle_stat_def split: option.splits)
  have print: "eprintln ''Warning: --password-file is insecure and should only be used for testing purposes.'' w
      = (Inr () :: error + unit, v)"
    by (simp add: eprintln_def print_err_def v_def)
  have rd: "read_to_end (MAX_PASSWORD_FILE_BYTES + 1) [] rs = Inr (take (MAX_PASSWORD_FILE_BYTES + 1) bs)"
    using read_to_end_delivers [OF run(5), of "[]"] by simp
  have "from_utf8 bs = Inr (text_of bs)" using assms(3) by (simp add: from_utf8_Inr)
  then show ?thesis
    using run rd print plain
    by (simp add: read_password_file_def open_password_file_def bind_io_def map_err_io_def lift_res_def
        throw_def ret_def Let_def)
qed

section \<open>From the terminal\<close>

lemma prompt_password_typed:
  assumes "prompt_password H prompt None w = (Inr p, w')"
  shows "h_terminal H \<and> w_calls w' = w_calls w + 2 \<and> h_typed H (w_calls w + 1) = Inr p"
proof (cases "h_terminal H")
  case True
  show ?thesis
  proof (cases "w_faults w (w_calls w)")
    case None
    then show ?thesis
      using assms True
      by (cases "h_typed H (Suc (w_calls w))")
        (auto simp: prompt_password_def is_interactive_def bind_io_def print_out_def flush_def query_def
          read_password_def map_err_io_def Let_def)
  next
    case (Some e)
    then show ?thesis
      using assms True
      by (simp add: prompt_password_def is_interactive_def bind_io_def print_out_def flush_def query_def
          map_err_io_def Let_def)
  qed
next
  case False
  then show ?thesis using assms by (simp add: prompt_password_def is_interactive_def throw_def)
qed

lemma confirmed_typed:
  assumes "prompt_password_with_confirmation H None w = (Inr p, w')"
  shows "h_terminal H \<and> h_typed H (w_calls w + 1) = Inr p \<and> h_typed H (w_calls w + 3) = Inr p"
proof -
  obtain q w1 w2 where "prompt_password H ''Password: '' None w = (Inr p, w1)"
    "prompt_password H ''Password (one more time): '' None w1 = (Inr q, w2)" "as_bytes p = as_bytes q"
    using assms by (auto simp: prompt_password_with_confirmation_def bind_io_Inr throw_def ret_def split: if_splits)
  note typed = this
  have "p = q" using typed(3) by (rule as_bytes_inj)
  then show ?thesis using prompt_password_typed [OF typed(1)] prompt_password_typed [OF typed(2)]
    by (simp add: numeral_3_eq_3)
qed

section \<open>What was saved\<close>

definition SAVED :: string where "SAVED = ''Password saved to OS credential store'' @ [LF]"

lemma check_saved_said:
  assumes "check_saved_password dbg B a pw silent extra w = (r, w')" "w_err w' = w_err w @ [SAVED]"
    and "extra \<noteq> Some ''Password saved to OS credential store''"
  shows "w_keyring w' a = Some (as_bytes pw)"
proof -
  obtain q w1 where get: "get_password B a w = (q, w1)" by (rule prod.exhaust)
  have err: "w_err w1 = w_err w" and ring: "w_keyring w1 = w_keyring w"
    and got: "\<And>s. q = Inr (Some s) \<Longrightarrow> w_keyring w a = Some (as_bytes s)"
    using get
    by (cases "w_keyring w a";
      auto simp: get_password_def open_entry_def entry_new_def get_secret_def keyring_call_def
        bind_io_def attempt_def map_err_io_def ret_def throw_def Let_def from_utf8_Inr
        split: if_splits option.splits sum.splits prod.splits keyring_error.splits)+
  show ?thesis
    using assms get err ring got
    by (auto simp: check_saved_password_def complain_def extra_line_def bind_io_def attempt_def ret_def
        eprintln_def print_err_def SAVED_def dest: as_bytes_inj
        split: sum.splits option.splits if_splits)
qed

lemma save_said:
  assumes "save_password_to_credential_store dbg B a (Some pw) True silent extra w = (r, w')"
    and "w_err w' = w_err w @ [SAVED]" "extra \<noteq> Some ''Password saved to OS credential store''"
  shows "w_keyring w' a = Some (as_bytes pw)"
proof -
  obtain q w1 where save: "save_password B a pw w = (q, w1)" by (rule prod.exhaust)
  have err: "w_err w1 = w_err w"
    using save
    by (auto simp: save_password_def open_entry_def entry_new_def set_password_def keyring_call_def
        bind_io_def map_err_io_def ret_def Let_def split: if_splits option.splits sum.splits prod.splits)
  show ?thesis
  proof (cases q)
    case (Inl e)
    then show ?thesis
      using assms save err
      by (auto simp: save_password_to_credential_store_def complain_def extra_line_def bind_io_def
          attempt_def ret_def eprintln_def print_err_def SAVED_def split: option.splits)
  next
    case (Inr u)
    then have "check_saved_password dbg B a pw silent extra w1 = (r, w')"
      using assms(1) save by (simp add: save_password_to_credential_store_def bind_io_def attempt_def)
    then show ?thesis by (rule check_saved_said) (use assms(2,3) err in auto)
  qed
qed

section \<open>Properties\<close>

text \<open>C29: with a password file, the password is the text of the file without the white space at its
  end, if the file has at most 1024 bytes, and a longer file is refused; at the terminal, a new
  password is accepted only if it was typed twice, the same both times.\<close>

theorem password_sources:
  assumes "honest w" "regular (w_fs w) f (as_bytes (push_all (cs @ ws)))"
    and "\<forall>c \<in> set (cs @ ws). scalar_value c" "\<forall>c \<in> set ws. is_whitespace c"
    and "cs = [] \<or> \<not> is_whitespace (last cs)"
  shows "fst (prompt_password H prompt (Some f) w) =
       (if length (push_all (cs @ ws)) \<le> MAX_PASSWORD_FILE_BYTES then Inr (push_all cs)
       else Inl (Io (''Password file too large: '' @ dec (length (push_all (cs @ ws)))
              @ '' bytes exceeds maximum '' @ dec MAX_PASSWORD_FILE_BYTES @ '' bytes'')))
    \<and> fst (prompt_password_with_confirmation H (Some f) w) = fst (prompt_password H prompt (Some f) w)
    \<and> (prompt_password_with_confirmation H None v = (Inr p, v') \<longrightarrow>
       h_terminal H \<and> h_typed H (w_calls v + 1) = Inr p \<and> h_typed H (w_calls v + 3) = Inr p)"
  using read_password_file_run [OF assms(1,2)] is_utf8_push_all [OF assms(3)]
    trim_end_push_all [OF assms(3,4,5)] confirmed_typed [of H v p v']
  by (simp add: prompt_password_def prompt_password_with_confirmation_def)

definition ex_password_fs :: fs where
  "ex_password_fs = ex_fs\<lparr>fs_inodes := [0 \<mapsto> \<lparr>i_bytes = as_bytes (push_all [112, 119, 32, 10]), i_mode = 384,
     i_mtime = 0\<rparr>]\<rparr>"

theorem password_sources_witness:
  "\<forall>H. fst (prompt_password H [] (Some ''m'') (ex_world ex_password_fs)) = Inr (push_all [112, 119])"
proof (rule allI)
  fix H
  have "lookup ex_password_fs l = lookup ex_fs l" "fs_cwd ex_password_fs = [''d'']" for l
    by (simp_all add: ex_password_fs_def lookup_def)
  then have "regular (w_fs (ex_world ex_password_fs)) ''m'' (as_bytes (push_all ([112, 119] @ [32, 10])))"
    by (simp add: regular_def sys_open_def resolve_def) (simp add: ex_password_fs_def)
  from password_sources [OF ex_honest(1) this, of H "[]"]
  show "fst (prompt_password H [] (Some ''m'') (ex_world ex_password_fs)) = Inr (push_all [112, 119])"
    by (simp add: scalar_value_def is_whitespace_def push_all_def utf8_encode_def MAX_PASSWORD_FILE_BYTES_def)
qed

text \<open>C30: the program says that a password was saved only when it was: if what
  \<open>save_password_to_credential_store\<close> prints is that message, the credential store holds exactly
  this password under the key's id. This is so whichever calls on the store fail, and also where
  the store reports success and has kept nothing, or something else than the password.\<close>

theorem saved_message_true:
  assumes "save_password_to_credential_store dbg B a (Some pw) True silent extra w = (r, w')"
    and "w_err w' = w_err w @ [''Password saved to OS credential store'' @ [LF]]"
    and "extra \<noteq> Some ''Password saved to OS credential store''"
  shows "w_keyring w' a = Some (as_bytes pw)"
  using assms(1) _ assms(3) by (rule save_said) (use assms(2) in \<open>simp add: SAVED_def\<close>)

theorem saved_message_true_witness:
  "w_keyring (snd (save_password_to_credential_store (\<lambda>p. p) ex_build ''a'' (Some ''pw'') True False None
     (ex_world ex_fs) :: (error + unit) \<times> world)) ''a'' = Some (as_bytes ''pw'')"
proof -
  have "from_utf8 [112, 119] = Inr ''pw''" by code_simp
  then have "\<exists>w'. save_password_to_credential_store (\<lambda>p. p) ex_build ''a'' (Some ''pw'') True False None (ex_world ex_fs)
      = (Inr () :: error + unit, w')
    \<and> w_err w' = w_err (ex_world ex_fs) @ [''Password saved to OS credential store'' @ [LF]]"
    by (simp add: save_password_to_credential_store_def save_password_def check_saved_password_def
        get_password_def open_entry_def entry_new_def set_password_def get_secret_def keyring_call_def
        bind_io_def attempt_def map_err_io_def ret_def eprintln_def print_err_def Let_def ex_build_def
        ex_world_def)
  then obtain w' where w': "save_password_to_credential_store (\<lambda>p. p) ex_build ''a'' (Some ''pw'') True False None
        (ex_world ex_fs) = (Inr () :: error + unit, w')"
      "w_err w' = w_err (ex_world ex_fs) @ [''Password saved to OS credential store'' @ [LF]]" by blast
  from saved_message_true [OF w'] w'(1) show ?thesis by simp
qed

end
