(* ===== verification/Program_Properties.thy ===== *)
theory Program_Properties
  imports TrueReads Sign_Properties
begin

text \<open>
  The program as a whole, from its arguments to its exit code: what it leaves alone, and what its
  exit code and its messages mean.
\<close>

section \<open>Looking only\<close>

text \<open>C14: a run that is not asked to generate, sign, recreate or change (a verification, an
  inspection, a usage error, the help) leaves every file, and the history of the file system,
  exactly as it was, whatever the other options are and whatever the host answers.\<close>

theorem looking_changes_nothing:
  assumes "\<And>cli w1. parse_cli P B H w = (Inr (Parsed cli), w1) \<Longrightarrow>
      cli_action cli \<notin> {Some Generate, Some Sign, Some Recreate, Some Change}"
    and "main C P dbg B H w = (code, w')"
  shows "w_fs w' = w_fs w \<and> w_trace w' = w_trace w"
proof -
  have "files_same w w'"
  proof (rule untouched.main_handled [OF _ assms(2)])
    fix cli w1 act
    assume "parse_cli P B H w = (Inr (Parsed cli), w1)" "cli_action cli = Some act"
    then have "act \<in> {Verify, Inspect}" using assms(1) by (cases act) auto
    then show "obeys files_same (dispatch C dbg B H cli act)" by (auto simp: dispatch_def)
  qed
  then show ?thesis by (simp add: files_same_def)
qed

definition ex_host :: "string list \<Rightarrow> host" where
  "ex_host args = \<lparr>h_args = args, h_config_dir = None, h_home = Some ''/d'', h_terminal = False,
     h_typed = (\<lambda>n. Inr ''secret''), h_version = ''1.0'', h_git_describe = ''v1.0''\<rparr>"

lemma ex_parse:
  assumes "take_flag [''-h'', ''--help''] args = None" "take_flag [''-v'', ''--version''] args = None"
    and "\<forall>a \<in> set args. \<not> is_combined a" "parse_args ref_pico B args = Inr cli"
  shows "parse_cli ref_pico B (ex_host args) w = (Inr (Parsed cli), w)"
proof -
  have "expand_combined_flags args = args"
    using assms(3) by (induction args) (simp_all add: expand_combined_flags_def expand_arg_other)
  then show ?thesis
    using assms(1,2,4)
    by (simp add: parse_cli_def ex_host_def ref_pico_def Let_def bind_io_def lift_res_def ret_def)
qed

lemma ex_command_lines:
  "\<exists>cli. parse_cli ref_pico ex_build (ex_host [''-V'', ''-m'', ''m'']) w = (Inr (Parsed cli), w)
     \<and> cli_action cli = Some Verify \<and> \<not> cli_save_password cli \<and> \<not> cli_forget_password cli"
  "\<exists>cli. parse_cli ref_pico ex_build (ex_host [''-S'', ''-W'', ''-s'', ''k'', ''-m'', ''m'']) w
       = (Inr (Parsed cli), w) \<and> cli_action cli = Some Sign \<and> \<not> cli_force cli"
proof -
  have "case parse_args ref_pico ex_build [''-V'', ''-m'', ''m''] of Inl e \<Rightarrow> False
      | Inr cli \<Rightarrow> cli_action cli = Some Verify \<and> \<not> cli_save_password cli \<and> \<not> cli_forget_password cli"
    by code_simp
  then obtain cli where "parse_args ref_pico ex_build [''-V'', ''-m'', ''m''] = Inr cli"
    "cli_action cli = Some Verify \<and> \<not> cli_save_password cli \<and> \<not> cli_forget_password cli"
    by (auto split: sum.splits)
  then show "\<exists>cli. parse_cli ref_pico ex_build (ex_host [''-V'', ''-m'', ''m'']) w = (Inr (Parsed cli), w)
     \<and> cli_action cli = Some Verify \<and> \<not> cli_save_password cli \<and> \<not> cli_forget_password cli"
    using ex_parse [of "[''-V'', ''-m'', ''m'']"] by (simp add: is_combined_def)
  have "case parse_args ref_pico ex_build [''-S'', ''-W'', ''-s'', ''k'', ''-m'', ''m''] of Inl e \<Rightarrow> False
      | Inr cli \<Rightarrow> cli_action cli = Some Sign \<and> \<not> cli_force cli"
    by code_simp
  then obtain cli where "parse_args ref_pico ex_build [''-S'', ''-W'', ''-s'', ''k'', ''-m'', ''m''] = Inr cli"
    "cli_action cli = Some Sign \<and> \<not> cli_force cli"
    by (auto split: sum.splits)
  then show "\<exists>cli. parse_cli ref_pico ex_build (ex_host [''-S'', ''-W'', ''-s'', ''k'', ''-m'', ''m'']) w
       = (Inr (Parsed cli), w) \<and> cli_action cli = Some Sign \<and> \<not> cli_force cli"
    using ex_parse [of "[''-S'', ''-W'', ''-s'', ''k'', ''-m'', ''m'']"] by (simp add: is_combined_def)
qed

theorem looking_changes_nothing_witness:
  "w_fs (snd (main ref_crates ref_pico (\<lambda>p. p) ex_build (ex_host [''-V'', ''-m'', ''m'']) (ex_world ex_fs))) = ex_fs"
  using ex_command_lines(1) [of "ex_world ex_fs"]
    looking_changes_nothing [OF _ surjective_pairing, of ref_pico ex_build
      "ex_host [''-V'', ''-m'', ''m'']" "ex_world ex_fs" ref_crates "\<lambda>p. p"]
  by auto

section \<open>Without force\<close>

text \<open>C10: without \<open>-f\<close>, no action but the change of a password changes or removes anything that
  exists: every file, link and directory keeps its contents and mode, at the end and in every
  state of the file system passed through, whatever call fails.\<close>

theorem no_force_keeps_files:
  assumes "wf_fs (w_fs w)" "parse_cli P B H w = (Inr (Parsed cli), w1)"
    and "\<not> cli_force cli" "cli_action cli \<noteq> Some Change"
    and "cli_action cli = Some Generate \<Longrightarrow> names_files cli"
    and "main C P dbg B H w = (code, w')" "lookup (w_fs w) l \<noteq> None"
  shows "view (w_fs w') l = view (w_fs w) l \<and> passes (\<lambda>s. view s l = view (w_fs w) l) w w'"
proof -
  have k: "keeping_files w w'"
  proof (rule keepers.main_handled [OF _ assms(6)])
    fix cli' w2 act
    assume p: "parse_cli P B H w = (Inr (Parsed cli'), w2)" and a: "cli_action cli' = Some act"
    then have cli: "cli' = cli" using assms(2) by simp
    then have "act = Generate \<longrightarrow> obeys keeping_files (handle_generate C dbg B H cli')"
      using assms(3,5) a generate_keeps_files by blast
    then show "obeys keeping_files (dispatch C dbg B H cli' act)"
      using assms(3,4) a cli by (cases act) (simp_all add: dispatch_def)
  qed
  then have "view (w_fs w') l = view (w_fs w) l"
    by (intro keeping_view [OF assms(1) _ assms(7)]) (simp add: keeping_files_def)
  moreover have "passes (keeping (w_fs w)) w w'" using k by (simp add: keeping_files_def)
  then have "passes (\<lambda>s. view s l = view (w_fs w) l) w w'"
    by (rule passes_mono) (rule keeping_view [OF assms(1) _ assms(7)])
  ultimately show ?thesis by (rule conjI)
qed

theorem no_force_keeps_files_witness:
  "view (w_fs (snd (main ref_crates ref_pico (\<lambda>p. p) ex_build
      (ex_host [''-S'', ''-W'', ''-s'', ''k'', ''-m'', ''m'']) (ex_world ex_key_fs)))) [''d'', ''m'']
   = view ex_key_fs [''d'', ''m'']"
proof -
  let ?args = "[''-S'', ''-W'', ''-s'', ''k'', ''-m'', ''m'']"
  obtain cli where "parse_cli ref_pico ex_build (ex_host ?args) (ex_world ex_key_fs)
      = (Inr (Parsed cli), ex_world ex_key_fs)" "cli_action cli = Some Sign" "\<not> cli_force cli"
    using ex_command_lines(2) by blast
  then show ?thesis
    using no_force_keeps_files [OF _ _ _ _ _ surjective_pairing, of "ex_world ex_key_fs" ref_pico ex_build
        "ex_host ?args" cli "ex_world ex_key_fs" "[''d'', ''m'']" ref_crates "\<lambda>p. p"]
    by simp
qed

section \<open>The credential store\<close>

text \<open>C28: the credential store changes only on request: without \<open>--save-password\<close> and
  \<open>--forget-password\<close>, no action but the change of a password changes any saved password, and
  generation, verification and the inspection of a signature do not even ask for one.\<close>

theorem store_changes_on_request:
  assumes "parse_cli P B H w = (Inr (Parsed cli), w1)"
    and "\<not> cli_save_password cli" "\<not> cli_forget_password cli" "cli_action cli \<noteq> Some Change"
    and "main C P dbg B H w = (code, w')"
  shows "w_keyring w' = w_keyring w
    \<and> (cli_action cli \<in> {Some Generate, Some Verify}
         \<or> cli_action cli = Some Inspect \<and> cli_signature_file cli \<noteq> None \<longrightarrow>
       w_keyring_asked w' = w_keyring_asked w)"
proof -
  have "store_kept w w'"
  proof (rule kept.main_handled [OF _ assms(5)])
    fix cli' w2 act
    assume "parse_cli P B H w = (Inr (Parsed cli'), w2)" "cli_action cli' = Some act"
    then show "obeys store_kept (dispatch C dbg B H cli' act)"
      using assms(1-4) by (cases act) (simp_all add: dispatch_def)
  qed
  then have "w_keyring w' = w_keyring w" by (simp add: store_kept_def)
  moreover have "w_keyring_asked w' = w_keyring_asked w"
    if a: "cli_action cli \<in> {Some Generate, Some Verify}
      \<or> cli_action cli = Some Inspect \<and> cli_signature_file cli \<noteq> None"
  proof -
    have "store_unused w w'"
    proof (rule unused.main_handled [OF _ assms(5)])
      fix cli' w2 act
      assume p: "parse_cli P B H w = (Inr (Parsed cli'), w2)" and act: "cli_action cli' = Some act"
      then have cli: "cli' = cli" using assms(1) by simp
      show "obeys store_unused (dispatch C dbg B H cli' act)"
        using a act assms(2) unfolding cli
        by (cases act) (auto simp: dispatch_def handle_inspect_def)
    qed
    then show ?thesis by (simp add: store_unused_def)
  qed
  ultimately show ?thesis by blast
qed

theorem store_changes_on_request_witness:
  "w_keyring_asked (snd (main ref_crates ref_pico (\<lambda>p. p) ex_build (ex_host [''-V'', ''-m'', ''m'']) (ex_world ex_fs))) = []"
proof -
  obtain cli where "parse_cli ref_pico ex_build (ex_host [''-V'', ''-m'', ''m'']) (ex_world ex_fs)
      = (Inr (Parsed cli), ex_world ex_fs)"
    "cli_action cli = Some Verify" "\<not> cli_save_password cli" "\<not> cli_forget_password cli"
    using ex_command_lines(1) by blast
  then show ?thesis
    using store_changes_on_request [OF _ _ _ _ surjective_pairing, of ref_pico ex_build
        "ex_host [''-V'', ''-m'', ''m'']" "ex_world ex_fs" cli "ex_world ex_fs" ref_crates "\<lambda>p. p"]
    by (simp add: ex_world_def)
qed

section \<open>Exit code of a verification\<close>

text \<open>On the disk, the signature file holds a signature under the key that is good for the message.\<close>

definition verified_file :: "crates \<Rightarrow> fs \<Rightarrow> pubkey_struct \<Rightarrow> bool \<Rightarrow> path \<Rightarrow> path \<Rightarrow> bool" where
  "verified_file C s pubkey force_prehashed sig_file message_file \<longleftrightarrow>
     (\<exists>sb b msg. regular s sig_file sb \<and> sig_box_from_file_contents C (text_of sb) = Inr b
        \<and> regular s message_file msg
        \<and> pk_keynum pubkey = ss_keynum (sb_sig_struct b)
        \<and> (force_prehashed \<longrightarrow> ss_prehashed (sb_sig_struct b))
        \<and> verify C (pk_public_key pubkey) (signed_data C (sb_sig_struct b) msg) (ss_signature (sb_sig_struct b)) = Inr ()
        \<and> verify_global_signature C b (pk_public_key pubkey) = Inr ())"

text \<open>The host of such a run: its calls may fail, its reads and its files are true.\<close>

definition true_host :: "world \<Rightarrow> bool" where
  "true_host w \<longleftrightarrow> true_reads w \<and> (\<forall>p. sound_at (w_fs w) p)"

lemma true_host_looks: "looks w v \<Longrightarrow> true_host w \<Longrightarrow> true_host v"
  using true_reads_looks [of w v] by (simp add: true_host_def looks_def)

lemma true_host_retimed: "retimed w v \<Longrightarrow> true_host w \<Longrightarrow> true_host v"
  using true_reads_retimed [of w v] by (simp add: true_host_def retimed_def)

lemma checked_on_disk:
  assumes "load_signature C sig v = (Inr b, v')" "verify_message_signature C pubkey b f force capture v' = (Inr out, v'')"
    and "verify_global_signature C b (pk_public_key pubkey) = Inr ()" "blake2b_ok C" "true_host v"
  shows "verified_file C (w_fs v) pubkey force sig f"
proof -
  have "obeys looks (load_signature C sig)" by (simp add: load_signature_def)
  then have l: "looks v v'" using assms(1) by (rule obeysD)
  have v': "true_host v'" "w_fs v' = w_fs v" using true_host_looks [OF l assms(5)] l by (simp_all add: looks_def)
  obtain sb where "regular (w_fs v) sig sb" "sig_box_from_file_contents C (text_of sb) = Inr b"
    using load_signature_true [OF assms(1)] assms(5) by (auto simp: true_host_def)
  moreover obtain msg where "regular (w_fs v) f msg"
    "verify C (pk_public_key pubkey) (signed_data C (sb_sig_struct b) msg) (ss_signature (sb_sig_struct b)) = Inr ()"
    using verify_message_true [OF assms(2,4)] v' by (auto simp: true_host_def)
  ultimately show ?thesis
    using verify_message_signature_sound [OF assms(2)] assms(3) unfolding verified_file_def by blast
qed

lemma verify_op_verified:
  assumes "verify_op C opts w = (Inr res, w')" "blake2b_ok C" "true_host w"
  obtains pubkey where "key_from C (w_fs w) (vo_public_key opts) pubkey"
    "verified_file C (w_fs w) pubkey (vo_force_prehashed opts) (vo_signature_file opts) (vo_message_file opts)"
proof -
  obtain pubkey w1 b w2 out w3 where o: "load_public_key C (vo_public_key opts) w = (Inr pubkey, w1)"
    "load_signature C (vo_signature_file opts) w1 = (Inr b, w2)"
    "verify_message_signature C pubkey b (vo_message_file opts) (vo_force_prehashed opts) (vo_output opts) w2
      = (Inr out, w3)"
    "verify_global_signature C b (pk_public_key pubkey) = Inr ()"
    using assms(1) by (auto simp: verify_op_def bind_io_Inr lift_res_def ret_def)
  have "obeys looks (load_public_key C (vo_public_key opts))"
    by (simp add: load_public_key_def split: public_key_source.split)
  then have l: "looks w w1" using o(1) by (rule obeysD)
  have w1: "true_host w1" "w_fs w1 = w_fs w" using true_host_looks [OF l assms(3)] l by (simp_all add: looks_def)
  show thesis
    using that [of pubkey] load_public_key_true [OF o(1)] assms(3) checked_on_disk [OF o(2-4) assms(2) w1(1)] w1(2)
    by (simp add: true_host_def)
qed

lemma verify_file_verified:
  assumes "verify_file_with_key C f pubkey opts w = (Inr res, w')" "blake2b_ok C" "true_host w"
  shows "verified_file C (w_fs w) pubkey (vo_force_prehashed opts) (f @ ''.minisig'') f"
  using assms checked_on_disk
  by (fastforce simp: verify_file_with_key_def Let_def bind_io_Inr lift_res_def ret_def)

lemma verify_batch_verified:
  assumes "verify_multiple_files C dbg B files opts sequential w = (Inr u, w')" "length files \<noteq> 1"
    and "blake2b_ok C" "true_host w"
  obtains pubkey where "key_from C (w_fs w) (vo_public_key opts) pubkey"
    "\<forall>f \<in> set files. verified_file C (w_fs w) pubkey (vo_force_prehashed opts) (f @ ''.minisig'') f"
proof -
  obtain pubkey w1 where pk: "load_public_key C (vo_public_key opts) w = (Inr pubkey, w1)"
    using assms(1) by (auto simp: verify_multiple_files_def bind_io_Inr)
  have "obeys looks (load_public_key C (vo_public_key opts))"
    by (simp add: load_public_key_def split: public_key_source.split)
  then have l: "looks w w1" using pk by (rule obeysD)
  have w1: "true_host w1" "w_fs w1 = w_fs w" using true_host_looks [OF l assms(4)] l by (simp_all add: looks_def)
  obtain results where r: "map fst results = files"
    "\<forall>(f, r) \<in> set results. \<exists>v. retimed w1 v \<and> r = fst (verify_file_with_key C f pubkey opts v)"
    "fst (verify_multiple_files C dbg B files opts sequential w) = batch_outcome results"
    using verify_batch_outcome_run [OF pk assms(2)] by blast
  have ok: "\<forall>r \<in> set results. is_ok (snd r)"
    using r(3) assms(1) by (auto simp: batch_outcome_def split: if_splits)
  have one: "verified_file C (w_fs w) pubkey (vo_force_prehashed opts) (f @ ''.minisig'') f"
    if m: "(f, q) \<in> set results" for f q
  proof -
    obtain v where v: "retimed w1 v" "q = fst (verify_file_with_key C f pubkey opts v)" using r(2) m by auto
    obtain x where "q = Inr x" using ok m by (cases q) auto
    then have "fst (verify_file_with_key C f pubkey opts v) = Inr x" using v(2) by simp
    from verify_file_verified [OF run_fst [OF this] assms(3) true_host_retimed [OF v(1) w1(1)]] show ?thesis
      using v(1) w1(2) by (simp add: retimed_def)
  qed
  have all: "\<forall>f \<in> set files. verified_file C (w_fs w) pubkey (vo_force_prehashed opts) (f @ ''.minisig'') f"
    unfolding r(1) [symmetric] by (auto dest: one)
  have "key_from C (w_fs w) (vo_public_key opts) pubkey"
    using load_public_key_true [OF pk] assms(4) by (simp add: true_host_def)
  then show thesis using all by (rule that)
qed

lemma run_cli_dispatch:
  assumes "cli_action cli = Some act" "act \<notin> {Generate, Recreate}"
  shows "\<exists>w1. looks w w1 \<and> run_cli C dbg B H cli w = dispatch C dbg B H cli act w1"
proof -
  let ?warn = "if cli_allow_kdf_fallback cli then
      eprintln (''Warning: --allow-kdf-fallback is deprecated and has no effect: ''
        @ ''scrypt cannot recover from a failed memory allocation.'')
    else ret () :: (error, unit) io"
  obtain w1 where w1: "?warn w = (Inr (), w1)"
    by (cases "cli_allow_kdf_fallback cli") (simp_all add: eprintln_def print_err_def ret_def)
  have "obeys looks ?warn" by simp
  then have "looks w w1" using w1 by (rule obeysD)
  moreover have "run_cli C dbg B H cli w = dispatch C dbg B H cli act w1"
    using assms w1 by (simp add: run_cli_def bind_io_run) (simp add: bind_io_def ret_def)
  ultimately show ?thesis by blast
qed

lemma verify_cli_options_fields [simp]:
  "vo_public_key (verify_cli_options cli source x f) = source"
  "vo_signature_file (verify_cli_options cli source x f) = x"
  "vo_message_file (verify_cli_options cli source x f) = f"
  "vo_force_prehashed (verify_cli_options cli source x f) = cli_prehashed cli"
  by (simp_all add: verify_cli_options_def verify_builder_def verify_set_output_def verify_set_quiet_def
      verify_set_force_prehashed_def)

lemma main_zero:
  assumes "parse_cli P B H w = (Inr (Parsed cli), w1)" "cli_action cli = Some act" "act \<notin> {Generate, Recreate}"
    and "main C P dbg B H w = (0, w')"
  obtains v where "looks w v" "dispatch C dbg B H cli act v = (Inr 0, w')"
proof -
  have failed: "(exit_code e = 0) = False" for e by (simp add: exit_code_def split: error.split)
  have "w1 = w" using parse_cli_parsed [OF assms(1)] by simp
  then have "run_cli C dbg B H cli w = (Inr 0, w')"
    using assms(1,4) by (auto simp: main_def run_def bind_io_run failed split: prod.splits sum.splits)
  then show thesis using run_cli_dispatch [OF assms(2,3), of w C dbg B H] that by auto
qed

lemma handle_verify_verified:
  assumes "handle_verify C dbg B cli w = (Inr n, w')" "blake2b_ok C" "true_host w"
  shows "all_message_files cli \<noteq> [] \<and> (\<exists>source pubkey.
    (case cli_public_key_file cli of
       Some p \<Rightarrow> source = SourceFile p
     | None \<Rightarrow> (case cli_public_key_base64 cli of
         Some s \<Rightarrow> source = SourceBase64 s
       | None \<Rightarrow> source = SourceFile default_public_key_path))
    \<and> key_from C (w_fs w) source pubkey
    \<and> (\<forall>f \<in> set (all_message_files cli). \<exists>s. verified_file C (w_fs w) pubkey (cli_prehashed cli) s f
         \<and> (case cli_signature_file cli of
              Some x \<Rightarrow> s = x
            | None \<Rightarrow> if length (all_message_files cli) = 1 then default_signature_path f = Inr s
                      else s = f @ ''.minisig'')))"
proof -
  let ?files = "all_message_files cli"
  have ne: "?files \<noteq> []" and pw: "cli_password_file cli = None"
    using assms(1) by (auto simp: handle_verify_def throw_def Let_def split: if_splits)
  obtain source w1 where src: "public_key_of_cli cli w = (Inr source, w1)"
    and rest: "(if length ?files = 1 then
            let message_file = ?files ! 0
            in
            bind_io (lift_res (default_signature_path message_file)) (\<lambda>default_signature.
            let signature_file = unwrap_or (cli_signature_file cli) default_signature
            in
            bind_io (verify_op C (verify_cli_options cli source signature_file message_file)) (\<lambda>result.
            bind_io (print_verified cli result) (\<lambda>_. ret 0)))
          else if cli_signature_file cli \<noteq> None then
            throw (Usage ''Custom signature file (-x) not supported with multiple message files'')
          else if cli_output cli then
            throw (Usage ''Output flag (-o) not supported with multiple message files'')
          else
            bind_io (verify_multiple_files C dbg B ?files (verify_cli_options cli source [] []) (run_sequentially B cli))
              (\<lambda>_. ret 0)) w1 = (Inr n, w')"
    using assms(1) ne pw unfolding handle_verify_def Let_def by (auto simp: bind_io_Inr)
  have "obeys looks (public_key_of_cli cli)" by (auto simp: public_key_of_cli_def split: option.split)
  then have l: "looks w w1" using src by (rule obeysD)
  have w1: "true_host w1" "w_fs w1 = w_fs w" using true_host_looks [OF l assms(3)] l by (simp_all add: looks_def)
  have source: "case cli_public_key_file cli of
       Some p \<Rightarrow> source = SourceFile p
     | None \<Rightarrow> (case cli_public_key_base64 cli of
         Some s \<Rightarrow> source = SourceBase64 s
       | None \<Rightarrow> source = SourceFile default_public_key_path)"
    using src by (auto simp: public_key_of_cli_def bind_io_Inr ret_def throw_def split: option.splits if_splits)
  have "\<exists>pubkey. key_from C (w_fs w) source pubkey
    \<and> (\<forall>f \<in> set ?files. \<exists>s. verified_file C (w_fs w) pubkey (cli_prehashed cli) s f
         \<and> (case cli_signature_file cli of Some x \<Rightarrow> s = x
            | None \<Rightarrow> if length ?files = 1 then default_signature_path f = Inr s else s = f @ ''.minisig''))"
  proof (cases "length ?files = 1")
    case True
    then obtain f where f: "?files = [f]" by (cases ?files) auto
    obtain d res w2 where d: "default_signature_path f = Inr d"
      and v: "verify_op C (verify_cli_options cli source (unwrap_or (cli_signature_file cli) d) f) w1 = (Inr res, w2)"
      using rest f by (auto simp: Let_def bind_io_Inr lift_res_def)
    show ?thesis
      by (rule verify_op_verified [OF v assms(2) w1(1)])
        (use f d w1(2) in \<open>auto simp: unwrap_or_def split: option.splits\<close>)
  next
    case False
    then obtain u w2 where v: "cli_signature_file cli = None"
      "verify_multiple_files C dbg B ?files (verify_cli_options cli source [] []) (run_sequentially B cli) w1 = (Inr u, w2)"
      using rest by (auto simp: bind_io_Inr throw_def split: if_splits)
    show ?thesis
      by (rule verify_batch_verified [OF v(2) False assms(2) w1(1)]) (use v(1) False w1(2) in auto)
  qed
  then show ?thesis using ne source by blast
qed

text \<open>C5: exit code 0 of \<open>-V\<close> means that every message file is vouched for, as it lies on the disk
  the program was run on, whatever calls fail, as long as reads deliver what the files hold: there is
  at least one message file; the public key is what the source named by the options holds; and for
  each message file its signature file (that of \<open>-x\<close>, else the one beside the message) holds a
  signature of the bytes of the message and one of the trusted comment, both good under that key,
  which has the signature's key number. With \<open>-H\<close> no legacy signature counts. This is so for one
  file and for a batch, with threads and without.\<close>

theorem exit_zero_means_verified:
  assumes "parse_cli P B H w = (Inr (Parsed cli), w1)" "cli_action cli = Some Verify"
    and "blake2b_ok C" "\<forall>n bs. delivers (w_reads w n bs) bs"
    and "\<forall>l i. lookup (w_fs w) l = Some (FileAt i) \<longrightarrow> fs_inodes (w_fs w) i \<noteq> None"
    and "main C P dbg B H w = (0, w')"
  shows "all_message_files cli \<noteq> [] \<and> (\<exists>source pubkey.
    (case cli_public_key_file cli of
       Some p \<Rightarrow> source = SourceFile p
     | None \<Rightarrow> (case cli_public_key_base64 cli of
         Some s \<Rightarrow> source = SourceBase64 s
       | None \<Rightarrow> source = SourceFile default_public_key_path))
    \<and> key_from C (w_fs w) source pubkey
    \<and> (\<forall>f \<in> set (all_message_files cli). \<exists>s. verified_file C (w_fs w) pubkey (cli_prehashed cli) s f
         \<and> (case cli_signature_file cli of
              Some x \<Rightarrow> s = x
            | None \<Rightarrow> if length (all_message_files cli) = 1 then default_signature_path f = Inr s
                      else s = f @ ''.minisig'')))"
proof -
  have "true_host w" using assms(4,5) by (auto simp: true_host_def true_reads_def sound_at_def sys_open_file)
  obtain v where v: "looks w v" "dispatch C dbg B H cli Verify v = (Inr 0, w')"
    by (rule main_zero [OF assms(1,2) _ assms(6)]) simp_all
  then have "handle_verify C dbg B cli v = (Inr 0, w')" by (simp add: dispatch_def)
  from handle_verify_verified [OF this assms(3) true_host_looks [OF v(1) \<open>true_host w\<close>]] show ?thesis
    using v(1) by (simp add: looks_def)
qed

lemma verify_options_ext:
  "vo_public_key a = vo_public_key b \<Longrightarrow> vo_signature_file a = vo_signature_file b \<Longrightarrow>
   vo_message_file a = vo_message_file b \<Longrightarrow> vo_force_prehashed a = vo_force_prehashed b \<Longrightarrow>
   vo_output a = vo_output b \<Longrightarrow> verify_op C a = verify_op C b"
  by (simp add: verify_op_def)

lemma ex_parse_key:
  assumes "\<And>t. s \<noteq> CHR ''-'' # t"
  shows "\<exists>cli. parse_args ref_pico ex_build [''-V'', ''-P'', s, ''-m'', ''m''] = Inr cli
    \<and> cli_action cli = Some Verify \<and> cli_public_key_file cli = None \<and> cli_public_key_base64 cli = Some s
    \<and> cli_message_file cli = Some ''m'' \<and> cli_extra_files cli = [] \<and> cli_signature_file cli = None
    \<and> \<not> cli_output cli \<and> \<not> cli_prehashed cli \<and> cli_password_file cli = None \<and> \<not> cli_allow_kdf_fallback cli"
  using assms
  by (simp add: parse_args_def parse_action_def ACTION_FLAGS_def parse_fields_def bind_parse_def flag_def
      either_flag_def opt_value_def return_parse_def ref_pico_def map_err_def reject_conflicts_def
      take_remaining_def ex_build_def and_then_def)

text \<open>The key in base64, as an argument.\<close>

definition ex_key_arg :: string where
  "ex_key_arg = encode_base64 ref_crates (pubkey_to_bytes (signer_key ref_crates (replicate 64 5) (replicate 8 7)))"

lemma ex_key_arg_plain: "ex_key_arg \<noteq> CHR ''-'' # t"
proof
  assume "ex_key_arg = CHR ''-'' # t"
  then have "CHR ''-'' \<in> set ex_key_arg" by (metis list.set_intros(1))
  then have "b64_char (CHR ''-'')"
    using ref_b64_ok unfolding ex_key_arg_def encode_base64_def b64_ok_def by blast
  moreover have "\<not> b64_char (CHR ''-'')" by code_simp
  ultimately show False by blast
qed

lemma ex_verify_main:
  "\<exists>cli w w'. quiet w \<and> (\<forall>l i. lookup (w_fs w) l = Some (FileAt i) \<longrightarrow> fs_inodes (w_fs w) i \<noteq> None)
     \<and> parse_cli ref_pico ex_build (ex_host [''-V'', ''-P'', ex_key_arg, ''-m'', ''m'']) w
       = (Inr (Parsed cli), w) \<and> cli_action cli = Some Verify
     \<and> main ref_crates ref_pico (\<lambda>p. p) ex_build (ex_host [''-V'', ''-P'', ex_key_arg, ''-m'', ''m'']) w = (0, w')
     \<and> all_message_files cli = [''m''] \<and> \<not> cli_prehashed cli"
proof -
  obtain cli where cli: "parse_args ref_pico ex_build [''-V'', ''-P'', ex_key_arg, ''-m'', ''m''] = Inr cli"
    "cli_action cli = Some Verify" "cli_public_key_file cli = None" "cli_public_key_base64 cli = Some ex_key_arg"
    "cli_message_file cli = Some ''m''" "cli_extra_files cli = []" "cli_signature_file cli = None"
    "\<not> cli_output cli" "\<not> cli_prehashed cli" "cli_password_file cli = None" "\<not> cli_allow_kdf_fallback cli"
    using ex_parse_key [OF ex_key_arg_plain] by blast
  have "\<not> is_combined ex_key_arg"
    using ex_key_arg_plain by (auto simp: is_combined_def starts_with_def strip_prefix_Some)
  then have parse: "parse_cli ref_pico ex_build (ex_host [''-V'', ''-P'', ex_key_arg, ''-m'', ''m'']) w
      = (Inr (Parsed cli), w)" for w
    using ex_key_arg_plain by (intro ex_parse cli(1)) (auto simp: is_combined_def)
  have files: "all_message_files cli = [''m'']" using cli(5,6) by (simp add: all_message_files_def)
  have path: "default_signature_path ''m'' = Inr ''m.minisig''" by code_simp
  obtain w r where w: "quiet w" "\<forall>l i. lookup (w_fs w) l = Some (FileAt i) \<longrightarrow> fs_inodes (w_fs w) i \<noteq> None"
    and "fst (verify_op ref_crates ((verify_builder (SourceBase64 ex_key_arg) ''m.minisig'' ''m'')
      \<lparr>vo_output := False\<rparr>) w) = Inr r"
    using ex_verify_run [of False] unfolding ex_key_arg_def by blast
  moreover have eq: "verify_op ref_crates ((verify_builder (SourceBase64 ex_key_arg) ''m.minisig'' ''m'')
      \<lparr>vo_output := False\<rparr>)
    = verify_op ref_crates (verify_cli_options cli (SourceBase64 ex_key_arg) ''m.minisig'' ''m'')"
    using cli by (intro verify_options_ext) (simp_all add: verify_cli_options_def verify_builder_def
        verify_set_output_def verify_set_quiet_def verify_set_force_prehashed_def)
  ultimately have op: "fst (verify_op ref_crates (verify_cli_options cli (SourceBase64 ex_key_arg) ''m.minisig'' ''m'') w)
      = Inr r" by simp
  have "\<exists>w'. print_verified cli r v = (Inr () :: error + unit, w')" for v
    using cli(8) by (auto simp: print_verified_def println_def print_out_def ret_def bind_io_def)
  moreover obtain w1 where w1: "verify_op ref_crates
      (verify_cli_options cli (SourceBase64 ex_key_arg) ''m.minisig'' ''m'') w = (Inr r, w1)"
    using run_fst [OF op] by blast
  ultimately obtain w' where "print_verified cli r w1 = (Inr () :: error + unit, w')" by blast
  then have "handle_verify ref_crates (\<lambda>p. p) ex_build cli w = (Inr 0, w')"
    using w1 files path cli(3,4,7,10)
    by (simp add: handle_verify_def public_key_of_cli_def unwrap_or_def bind_lift_Inr)
      (simp add: bind_io_def ret_def)
  then have "main ref_crates ref_pico (\<lambda>p. p) ex_build (ex_host [''-V'', ''-P'', ex_key_arg, ''-m'', ''m'']) w = (0, w')"
    using parse [of w] cli(2,11)
    by (simp add: main_def run_def run_cli_def dispatch_def bind_io_def ret_def)
  then show ?thesis using w parse [of w] cli(2,9) files by blast
qed

theorem exit_zero_means_verified_witness:
  "\<exists>pubkey s x. verified_file ref_crates s pubkey False x ''m''"
proof -
  obtain cli w w' where run: "parse_cli ref_pico ex_build (ex_host [''-V'', ''-P'', ex_key_arg, ''-m'', ''m'']) w
       = (Inr (Parsed cli), w)" "cli_action cli = Some Verify"
     "main ref_crates ref_pico (\<lambda>p. p) ex_build (ex_host [''-V'', ''-P'', ex_key_arg, ''-m'', ''m'']) w = (0, w')"
     "all_message_files cli = [''m'']" "\<not> cli_prehashed cli"
    and w: "quiet w" "\<forall>l i. lookup (w_fs w) l = Some (FileAt i) \<longrightarrow> fs_inodes (w_fs w) i \<noteq> None"
    using ex_verify_main by blast
  have "\<forall>n bs. delivers (w_reads w n bs) bs" using w(1) by (simp add: quiet_def honest_def)
  from exit_zero_means_verified [OF run(1,2) ref_blake2b_ok this w(2) run(3)]
  obtain pubkey where "\<forall>f \<in> set (all_message_files cli). \<exists>x. verified_file ref_crates (w_fs w) pubkey (cli_prehashed cli) x f"
    by (elim exE conjE) blast
  then show ?thesis using run(4,5) by (metis list.set_intros(1))
qed

end
