(* ===== verification/Lock_Protocol.thy ===== *)
theory Lock_Protocol
  imports Lock_Properties
begin

text \<open>
  The lock of a forced overwrite as several processes see it: each is at one point of the loop of
  \<open>acquire_force_overwrite_lock\<close>, and every step is one system call of one of them on the file
  system they share. A pass of the loop, which the rest of the development runs in one go, is a
  sequence of these steps. They are written by hand and allow more than the code does: the age of a
  lock is left open, so that any lock may count as stale, and a holder may do to the other files what
  it likes. They include what \<open>Lock_Threads\<close>, which takes the calls of the code themselves, leaves out:
  processes that release the lock, and that die.
\<close>

section \<open>The steps\<close>

datatype lock_phase = Idle | Trying | Blocked | Clearing | Waiting | Holding

record lock_state =
  ls_fs :: fs
  ls_phase :: "nat \<Rightarrow> lock_phase"
  ls_cleared :: bool

text \<open>\<open>ls_cleared\<close> remembers that a stale lock was removed. A holder may do to the files what it
  wants but for the lock. A process may end anywhere, and leaves the lock behind if it holds it.\<close>

definition lock_left_alone :: "path \<Rightarrow> fs \<Rightarrow> fs \<Rightarrow> bool" where
  "lock_left_alone p s s' \<longleftrightarrow> (entry_exists s p \<longrightarrow> entry_exists s' p)"

inductive lock_step :: "path \<Rightarrow> nat \<Rightarrow> lock_state \<Rightarrow> lock_state \<Rightarrow> bool" for p :: path and timeout :: nat where
  starts: "ls_phase s i = Idle \<Longrightarrow> lock_step p timeout s (s\<lparr>ls_phase := (ls_phase s)(i := Trying)\<rparr>)"
| created: "ls_phase s i = Trying \<Longrightarrow> sys_create_new p mode time (ls_fs s) = (Inr n, f) \<Longrightarrow>
    lock_step p timeout s (s\<lparr>ls_fs := f, ls_phase := (ls_phase s)(i := Holding)\<rparr>)"
| occupied: "ls_phase s i = Trying \<Longrightarrow> sys_create_new p mode time (ls_fs s) = (Inl EEXIST, f) \<Longrightarrow>
    lock_step p timeout s (s\<lparr>ls_phase := (ls_phase s)(i := Blocked)\<rparr>)"
| stale: "ls_phase s i = Blocked \<Longrightarrow> sys_metadata p (ls_fs s) = Inr m \<Longrightarrow>
    max 0 (time - int (st_mtime m)) \<ge> int (2 * timeout) \<Longrightarrow>
    lock_step p timeout s (s\<lparr>ls_phase := (ls_phase s)(i := Clearing)\<rparr>)"
| not_stale: "ls_phase s i = Blocked \<Longrightarrow>
    lock_step p timeout s (s\<lparr>ls_phase := (ls_phase s)(i := Waiting)\<rparr>)"
| cleared: "ls_phase s i = Clearing \<Longrightarrow> sys_remove_file p (ls_fs s) = (Inr (), f) \<Longrightarrow>
    lock_step p timeout s (s\<lparr>ls_fs := f, ls_phase := (ls_phase s)(i := Trying), ls_cleared := True\<rparr>)"
| not_cleared: "ls_phase s i = Clearing \<Longrightarrow>
    lock_step p timeout s (s\<lparr>ls_phase := (ls_phase s)(i := Waiting)\<rparr>)"
| waited: "ls_phase s i = Waiting \<Longrightarrow>
    lock_step p timeout s (s\<lparr>ls_phase := (ls_phase s)(i := Trying)\<rparr>)"
| works: "ls_phase s i = Holding \<Longrightarrow> lock_left_alone p (ls_fs s) f \<Longrightarrow>
    lock_step p timeout s (s\<lparr>ls_fs := f\<rparr>)"
| released: "ls_phase s i = Holding \<Longrightarrow> sys_remove_file p (ls_fs s) = (r, f) \<Longrightarrow>
    lock_step p timeout s (s\<lparr>ls_fs := f, ls_phase := (ls_phase s)(i := Idle)\<rparr>)"
| ends: "lock_step p timeout s (s\<lparr>ls_phase := (ls_phase s)(i := Idle)\<rparr>)"

inductive lock_reachable :: "path \<Rightarrow> nat \<Rightarrow> lock_state \<Rightarrow> lock_state \<Rightarrow> bool" for p :: path and timeout :: nat where
  here: "lock_reachable p timeout s s"
| further: "lock_reachable p timeout s t \<Longrightarrow> lock_step p timeout t u \<Longrightarrow> lock_reachable p timeout s u"

section \<open>One holder\<close>

definition one_holder :: "path \<Rightarrow> lock_state \<Rightarrow> bool" where
  "one_holder p s \<longleftrightarrow> (\<forall>i j. ls_phase s i = Holding \<longrightarrow> ls_phase s j = Holding \<longrightarrow> i = j)
     \<and> (\<forall>i. ls_phase s i = Holding \<longrightarrow> entry_exists (ls_fs s) p)"

lemma sys_create_new_created:
  assumes "sys_create_new p mode time s = (Inr n, f)" "file_name p = Some m"
  shows "\<not> entry_exists s p \<and> entry_exists f p"
proof -
  obtain l where l: "resolve_entry s p = Inr l" "lookup s l = None" "add_file l mode time s = (n, f)"
    using assms(1) by (auto simp: sys_create_new_def split: sum.splits option.splits prod.splits)
  have "l \<noteq> []" using resolve_entry_last [OF assms(2) l(1)] by simp
  then have st: "staged s l [] f" using add_file_staged [OF _ l(2,3)] by simp
  then have "resolve_entry f p = Inr l" by (rule resolve_entry_same_dirs [OF assms(2) l(1) staged_same_dirs])
  then show ?thesis using l(1,2) st by (auto simp: entry_exists_def staged_def lookup_def)
qed

lemma one_holder_step:
  assumes "lock_step p timeout s t" "file_name p = Some m" "\<not> ls_cleared t" "one_holder p s"
  shows "one_holder p t"
  using assms(1)
proof (cases rule: lock_step.cases)
  case (created i mode time n f)
  then show ?thesis
    using sys_create_new_created [OF created(3) assms(2)] assms(4) by (auto simp: one_holder_def)
next
  case (works i f)
  then show ?thesis using assms(4) by (auto simp: one_holder_def lock_left_alone_def)
next
  case (released i r f)
  then show ?thesis using assms(4) by (auto simp: one_holder_def)
qed (use assms(3,4) in \<open>auto simp: one_holder_def\<close>)

lemma cleared_stays: "lock_step p timeout s t \<Longrightarrow> ls_cleared s \<Longrightarrow> ls_cleared t"
  by (cases rule: lock_step.cases) auto

lemma one_holder_reachable:
  assumes "lock_reachable p timeout s t" "file_name p = Some m" "\<not> ls_cleared t" "one_holder p s"
  shows "one_holder p t"
  using assms(1,3,4)
proof induction
  case here
  then show ?case by simp
next
  case (further t u)
  then show ?case using cleared_stays one_holder_step [OF further(2) assms(2)] by blast
qed

section \<open>Examples\<close>

definition lock_at :: "fs \<Rightarrow> bool" where
  "lock_at f \<longleftrightarrow> fs_cwd f = [''d''] \<and> lookup f [''d''] = Some DirAt"

abbreviation ex_lock :: loc where "ex_lock \<equiv> [''d'', ''.m.force.lock'']"

lemma lock_resolves:
  assumes "lock_at f"
  shows "resolve_entry f ''.m.force.lock'' = Inr ex_lock"
  using assms by (simp add: lock_at_def resolve_entry_def as_directory_def)

lemma lock_created:
  assumes "lock_at f" "lookup f ex_lock = None"
  shows "\<exists>g. sys_create_new ''.m.force.lock'' mode time f = (Inr (fs_next f), g) \<and> lock_at g
    \<and> lookup g ex_lock = Some (FileAt (fs_next f))"
  using assms lock_resolves [OF assms(1)]
  by (auto simp: sys_create_new_def add_file_def Let_def lock_at_def lookup_def)

text \<open>Two processes, and no other.\<close>

definition two_at :: "fs \<Rightarrow> lock_phase \<Rightarrow> lock_phase \<Rightarrow> bool \<Rightarrow> lock_state" where
  "two_at f a b c = \<lparr>ls_fs = f, ls_phase = (\<lambda>i. Idle) (2 := a, 3 := b), ls_cleared = c\<rparr>"

lemma two_at_simps:
  "ls_fs (two_at f a b c) = f" "ls_phase (two_at f a b c) 2 = a" "ls_phase (two_at f a b c) 3 = b"
  "ls_cleared (two_at f a b c) = c"
  "(two_at f a b c)\<lparr>ls_phase := (ls_phase (two_at f a b c))(2 := x)\<rparr> = two_at f x b c"
  "(two_at f a b c)\<lparr>ls_phase := (ls_phase (two_at f a b c))(3 := x)\<rparr> = two_at f a x c"
  "(two_at f a b c)\<lparr>ls_fs := g, ls_phase := (ls_phase (two_at f a b c))(2 := x)\<rparr> = two_at g x b c"
  "(two_at f a b c)\<lparr>ls_fs := g, ls_phase := (ls_phase (two_at f a b c))(3 := x)\<rparr> = two_at g a x c"
  "(two_at f a b c)\<lparr>ls_cleared := d\<rparr> = two_at f a b d"
  by (auto simp: two_at_def)

lemmas first_steps = lock_step.intros [where s = "two_at f a b c" and i = 2 for f a b c, unfolded two_at_simps]

lemma two_idle: "\<lparr>ls_fs = f, ls_phase = (\<lambda>i. Idle), ls_cleared = c\<rparr> = two_at f Idle Idle c"
  by (auto simp: two_at_def)

lemma two_steps:
  "lock_reachable p timeout r s \<Longrightarrow> lock_step p timeout s t \<Longrightarrow> lock_step p timeout t u \<Longrightarrow>
     lock_reachable p timeout r u"
  by (rule further [OF further])

section \<open>Properties\<close>

text \<open>C23: two forced overwrites of the same key do not run at the same time, however the steps of
  any number of processes interleave and wherever one of them dies, as long as no lock has been
  removed for being stale.\<close>

theorem lock_mutual_exclusion:
  assumes "lock_reachable (lock_path_of sp) timeout s t" "file_name sp = Some n"
    and "\<forall>i. ls_phase s i = Idle" "\<not> ls_cleared t"
    and "ls_phase t i = Holding" "ls_phase t j = Holding"
  shows "i = j"
proof -
  obtain m where m: "file_name (lock_path_of sp) = Some m" using lock_has_name [OF assms(2)] by blast
  have "one_holder (lock_path_of sp) s" using assms(3) by (simp add: one_holder_def)
  then have "one_holder (lock_path_of sp) t" by (rule one_holder_reachable [OF assms(1) m assms(4)])
  then show ?thesis using assms(5,6) by (simp add: one_holder_def)
qed

definition ex_free :: lock_state where
  "ex_free = \<lparr>ls_fs = ex_fs, ls_phase = (\<lambda>i. Idle), ls_cleared = False\<rparr>"

theorem lock_mutual_exclusion_witness:
  "\<exists>t. lock_reachable (lock_path_of ''m'') 30000 ex_free t \<and> ls_phase t 2 = Holding
     \<and> (\<forall>j. ls_phase t j = Holding \<longrightarrow> j = 2)"
proof -
  have "lock_at ex_fs" "lookup ex_fs ex_lock = None" by (simp_all add: lock_at_def)
  then obtain g where g: "sys_create_new (lock_path_of ''m'') DEFAULT_FILE_MODE 0 ex_fs = (Inr 1, g)"
    using lock_created [of ex_fs DEFAULT_FILE_MODE 0] by auto
  let ?t = "two_at g Holding Idle False"
  have "lock_reachable (lock_path_of ''m'') 30000 ex_free (two_at ex_fs Idle Idle False)"
    unfolding two_idle [symmetric] ex_free_def by (rule here)
  then have r: "lock_reachable (lock_path_of ''m'') 30000 ex_free ?t"
    by (rule two_steps [OF _ first_steps(1) [OF refl] first_steps(2) [OF refl g]])
  have "j = 2" if "ls_phase ?t j = Holding" for j
    using lock_mutual_exclusion [OF r, of "''m''" j 2] that by (simp add: ex_free_def two_at_simps)
  then show ?thesis using r two_at_simps(2) by blast
qed

end
