(* ===== verification/Lock_Threads.thy ===== *)
theory Lock_Threads
  imports Lock_Properties FilesStay Tasks
begin

text \<open>
  The lock of a forced overwrite when several processes go for it at once: the functions of
  \<open>Keypair\<close> as tasks, one system call at a time, and any number of them in a pool on one file system.
  As long as no lock gets old enough to count as stale at most one of them gets it; where a stale
  lock is found, two of them can.
\<close>

section \<open>The lock, call by call\<close>

definition lock_is_stale_task :: "path \<Rightarrow> nat \<Rightarrow> (error, bool) job" where
  "lock_is_stale_task p stale_age =
     bind_task (attempt_task (call_task (metadata p))) (\<lambda>r.
       case r of
         Inl e \<Rightarrow> ret_task False
       | Inr m \<Rightarrow> bind_task (call_task now) (\<lambda>t.
           ret_task (max 0 (t - int (st_mtime m)) \<ge> int stale_age)))"

definition clear_stale_lock_task :: "path \<Rightarrow> nat \<Rightarrow> (error, bool) job" where
  "clear_stale_lock_task lock_path timeout =
     bind_task (lock_is_stale_task lock_path (2 * timeout)) (\<lambda>stale.
       if stale then
         bind_task (call_task (eprintln (''Warning: removing stale force-overwrite lock ''
                    @ [CHR 0x27] @ display lock_path @ [CHR 0x27] @ '' (older than ''
                    @ dec (2 * timeout div 1000) @ ''s); ''
                    @ ''if another --force is running concurrently this may cause conflicts'')))
         (\<lambda>_. bind_task (attempt_task (call_task (remove_file lock_path))) (\<lambda>r. ret_task (is_ok r)))
       else ret_task False)"

definition wait_for_lock_task :: "path \<Rightarrow> nat \<Rightarrow> nat \<Rightarrow> (error, unit) job" where
  "wait_for_lock_task lock_path timeout started_at =
     bind_task (call_task instant_now) (\<lambda>t.
       if t - started_at \<ge> timeout then
         throw_task (Other (''Timed out waiting for force-overwrite lock: '' @ display lock_path))
       else call_task (sleep FORCE_OVERWRITE_LOCK_POLL_INTERVAL))"

definition acquire_pass_task :: "path \<Rightarrow> nat \<Rightarrow> nat \<Rightarrow> (error, bool) job" where
  "acquire_pass_task lock_path timeout started_at =
     bind_task (attempt_task (call_task (create_new lock_path DEFAULT_FILE_MODE))) (\<lambda>r.
       case r of
         Inr _ \<Rightarrow> ret_task True
       | Inl e \<Rightarrow>
           (if io_kind_of e = AlreadyExists then
              bind_task (clear_stale_lock_task lock_path timeout) (\<lambda>removed.
                if removed then ret_task False
                else bind_task (wait_for_lock_task lock_path timeout started_at) (\<lambda>_. ret_task False))
            else throw_task (FileWrite lock_path e)))"

text \<open>Other processes may keep the loop going for ever, so a task makes at most \<open>k\<close> passes: \<open>False\<close>
  says that it went round \<open>k\<close> times and has not got the lock yet.\<close>

primrec acquire_turns :: "path \<Rightarrow> nat \<Rightarrow> nat \<Rightarrow> nat \<Rightarrow> (error, bool) job" where
  "acquire_turns lock_path timeout started_at 0 = ret_task False"
| "acquire_turns lock_path timeout started_at (Suc k) =
     bind_task (acquire_pass_task lock_path timeout started_at) (\<lambda>held.
       if held then ret_task True else acquire_turns lock_path timeout started_at k)"

definition acquire_lock_task :: "build \<Rightarrow> path \<Rightarrow> nat \<Rightarrow> (error, path option) job" where
  "acquire_lock_task B secret_path k =
     (let lock_path = lock_path_of secret_path
      in bind_task (call_task instant_now) (\<lambda>started_at.
         bind_task (acquire_turns lock_path (force_overwrite_lock_timeout B) started_at k) (\<lambda>held.
           ret_task (if held then Some lock_path else None))))"

lemma run_lock [run_tasks]:
  "run_task (lock_is_stale_task p age) = lock_is_stale p age"
  "run_task (clear_stale_lock_task p timeout) = clear_stale_lock p timeout"
  "run_task (wait_for_lock_task p timeout started) = wait_for_lock p timeout started"
  "run_task (acquire_pass_task p timeout started) = acquire_pass p timeout started"
proof -
  show l: "run_task (lock_is_stale_task p age) = lock_is_stale p age" for age
    by (simp add: run_tasks lock_is_stale_task_def lock_is_stale_def cong: sum.case_cong)
  show c: "run_task (clear_stale_lock_task p timeout) = clear_stale_lock p timeout"
    by (simp add: run_tasks l clear_stale_lock_task_def clear_stale_lock_def cong: if_cong)
  show w: "run_task (wait_for_lock_task p timeout started) = wait_for_lock p timeout started"
    by (simp add: run_tasks wait_for_lock_task_def wait_for_lock_def cong: if_cong)
  show "run_task (acquire_pass_task p timeout started) = acquire_pass p timeout started"
    by (simp add: run_tasks c w acquire_pass_task_def acquire_pass_def cong: if_cong sum.case_cong)
qed

text \<open>Undisturbed, enough passes do what the loop does.\<close>

lemma acquire_turns_loop:
  "acquire_loop p timeout started w = (r, w') \<Longrightarrow>
     \<exists>n. \<forall>k \<ge> n. run_task (acquire_turns p timeout started k) w = (map_sum id (\<lambda>_. True) r, w')"
proof (induction p timeout started w rule: acquire_loop.induct)
  case (1 p timeout started w)
  obtain q v where q: "acquire_pass p timeout started w = (q, v)" by (rule prod.exhaust)
  have turn: "run_task (acquire_turns p timeout started (Suc k)) w = (case q of
      Inl e \<Rightarrow> (Inl e, v)
    | Inr held \<Rightarrow> if held then (Inr True, v) else run_task (acquire_turns p timeout started k) v)" for k
    using q by (auto simp: run_tasks bind_io_def ret_def split: sum.split)
  note run = "1.prems" [unfolded acquire_loop.simps [of p timeout started w] q]
  let ?same = "\<lambda>k v. run_task (acquire_turns p timeout started k) v = (map_sum id (\<lambda>_. True) r, w')"
  have later: "\<exists>n. \<forall>k \<ge> n. ?same k w" if "\<And>k. n \<le> k \<Longrightarrow> ?same (Suc k) w" for n
    using that by (intro exI [of _ "Suc n"] allI impI) (metis Suc_le_D Suc_le_mono)
  show ?case
  proof (cases "q = Inr False")
    case False
    then have "?same (Suc k) w" for k
      using run unfolding turn by (cases q) auto
    then show ?thesis by (rule later)
  next
    case True
    then have "acquire_loop p timeout started v = (r, w')" using run by simp
    then obtain n where n: "\<forall>k \<ge> n. ?same k v" using "1.IH" [OF q [symmetric] True] by blast
    have "?same (Suc k) w" if "n \<le> k" for k using n that unfolding turn by (simp add: True)
    then show ?thesis by (rule later)
  qed
qed

lemma acquire_lock_turns:
  assumes "acquire_force_overwrite_lock B sp w = (r, w')"
  shows "\<exists>n. \<forall>k \<ge> n. run_task (acquire_lock_task B sp k) w = (map_sum id Some r, w')"
proof -
  obtain t v q where q: "instant_now w = (Inr t :: error + nat, v)"
    "acquire_loop (lock_path_of sp) (force_overwrite_lock_timeout B) t v = (q, w')"
    "r = map_sum id (\<lambda>_. lock_path_of sp) q" using acquire_run [OF assms] by blast
  obtain n where "\<forall>k \<ge> n. run_task (acquire_turns (lock_path_of sp) (force_overwrite_lock_timeout B) t k) v
      = (map_sum id (\<lambda>_. True) q, w')" using acquire_turns_loop [OF q(2)] by blast
  moreover have first: "bind_io instant_now f w = f t v" for f :: "nat \<Rightarrow> (error, path option) io"
    using q(1) by (simp add: bind_io_def)
  ultimately show ?thesis
    using q(3)
    by (intro exI [of _ n]; cases q)
      (simp_all add: acquire_lock_task_def Let_def run_tasks first bind_io_def [of "run_task _"] ret_def)
qed

section \<open>As long as no lock is stale\<close>

text \<open>A lock that is at \<open>p\<close> would not count as stale at any reading \<open>c\<close> of the clock.\<close>

definition not_stale :: "path \<Rightarrow> nat \<Rightarrow> (nat \<Rightarrow> int) \<Rightarrow> fs \<Rightarrow> bool" where
  "not_stale p timeout c s \<longleftrightarrow>
     (\<forall>m. sys_metadata p s = Inr m \<longrightarrow> (\<forall>n. c n < int (st_mtime m) + 2 * int timeout))"

text \<open>Readings so close to each other that what is made at one is not stale at another.\<close>

definition close_readings :: "nat \<Rightarrow> (nat \<Rightarrow> int) \<Rightarrow> bool" where
  "close_readings timeout c \<longleftrightarrow> (\<forall>n m. c n < c m + 2 * int timeout)"

lemma close_readings_pos: "close_readings timeout c \<Longrightarrow> 0 < timeout"
  unfolding close_readings_def by (drule spec [of _ 0], drule spec [of _ 0]) simp

lemma created_metadata:
  assumes "file_name p = Some n" "sys_create_new p mode time s = (Inr i, s')"
  shows "\<exists>m. sys_metadata p s' = Inr m \<and> st_mtime m = time"
proof -
  obtain l where l: "resolve_entry s p = Inr l" "lookup s l = None" "add_file l mode time s = (i, s')"
    using assms(2) by (auto simp: sys_create_new_def split: sum.splits option.splits prod.splits)
  have ne: "l \<noteq> []" using resolve_entry_last [OF assms(1) l(1)] by simp
  have st: "staged s l [] s'" using add_file_staged [OF ne l(2,3)] by simp
  have "resolve_entry s' p = Inr l" using resolve_entry_same_dirs [OF assms(1) l(1) staged_same_dirs [OF st]] .
  moreover have at: "lookup s' l = Some (FileAt i)" using l(3) ne by (auto simp: add_file_def Let_def lookup_def)
  ultimately have "resolve s' p = Inr l" by (rule entry_resolves [OF assms(1)])
  then show ?thesis
    using l(3) at by (auto simp: sys_metadata_def sys_open_def handle_stat_def add_file_def Let_def)
qed

text \<open>What a process knows, what a step of one may do, and how they stand together: a process that
  has the lock is marked with \<open>True\<close>.\<close>

definition lock_known :: "path \<Rightarrow> nat \<Rightarrow> (nat \<Rightarrow> int) \<Rightarrow> bool \<Rightarrow> world \<Rightarrow> bool" where
  "lock_known p timeout c g w \<longleftrightarrow> w_clock w = c \<and> not_stale p timeout c (w_fs w)"

definition lock_effect :: "path \<Rightarrow> nat \<Rightarrow> bool \<Rightarrow> world \<Rightarrow> bool \<Rightarrow> world \<Rightarrow> bool" where
  "lock_effect p timeout g w g' w' \<longleftrightarrow> w_clock w' = w_clock w
     \<and> (g' = g \<and> w_fs w' = w_fs w
        \<or> \<not> g \<and> g' \<and> \<not> entry_exists (w_fs w) p \<and> entry_exists (w_fs w') p
          \<and> not_stale p timeout (w_clock w) (w_fs w'))"

definition one_has_it :: "path \<Rightarrow> nat \<Rightarrow> (nat \<Rightarrow> int) \<Rightarrow> fs \<Rightarrow> bool list \<Rightarrow> world \<Rightarrow> bool" where
  "one_has_it p timeout c s gs w \<longleftrightarrow> w_clock w = c \<and> not_stale p timeout c (w_fs w)
     \<and> ((\<forall>i < length gs. \<not> gs ! i) \<and> w_fs w = s
        \<or> (\<exists>i < length gs. gs ! i \<and> (\<forall>j < length gs. gs ! j \<longrightarrow> j = i))
          \<and> entry_exists (w_fs w) p \<and> \<not> entry_exists s p)"

interpretation lockers: pool "lock_known p timeout c" "lock_effect p timeout" "one_has_it p timeout c s"
  for p timeout c s
proof
  fix gs w i g w'
  show "lock_known p timeout c (gs ! i) w" if "one_has_it p timeout c s gs w" "i < length gs"
    using that by (simp add: one_has_it_def lock_known_def)
  assume J: "one_has_it p timeout c s gs w" and i: "i < length gs" and E: "lock_effect p timeout (gs ! i) w g w'"
  show "one_has_it p timeout c s (gs[i := g]) w'"
  proof (cases "g = gs ! i \<and> w_fs w' = w_fs w")
    case True
    then show ?thesis using J E by (simp add: one_has_it_def lock_effect_def)
  next
    case False
    then have "\<forall>i < length gs. \<not> gs ! i" "w_fs w = s" "g" "\<not> entry_exists s p" "entry_exists (w_fs w') p"
      "w_clock w' = c" "not_stale p timeout c (w_fs w')"
      using J E by (auto simp: one_has_it_def lock_effect_def)
    then show ?thesis using i by (auto simp: one_has_it_def nth_list_update)
  qed
qed

subsection \<open>What one process does\<close>

lemma nothing_done:
  "w_clock w' = w_clock w \<Longrightarrow> w_fs w' = w_fs w \<Longrightarrow> lock_effect p timeout g w g w'"
  by (simp add: lock_effect_def)

lemma only_looks:
  assumes "\<And>w r w'. m w = (r, w') \<Longrightarrow> w_clock w' = w_clock w \<and> w_fs w' = w_fs w"
    and "\<And>w r w'. lock_known p timeout c g w \<Longrightarrow> m w = (r, w') \<Longrightarrow> Q r"
  shows "behaves (lock_known p timeout c) (lock_effect p timeout) (\<lambda>r g'. g' = g \<and> Q r) g (call_task m)"
  by (rule behaves_call) (use assms in \<open>blast intro: nothing_done\<close>)

lemma stale_task_behaves:
  assumes "0 < timeout"
  shows "behaves (lock_known p timeout c) (lock_effect p timeout) (\<lambda>r g'. g' = g \<and> r = Inr False) g
     (lock_is_stale_task p (2 * timeout))"
  unfolding lock_is_stale_task_def
proof (rule behaves_bind)
  let ?fine = "\<lambda>m. \<forall>n. c n < int (st_mtime m) + 2 * int timeout"
  show "behaves (lock_known p timeout c) (lock_effect p timeout)
      (\<lambda>r g'. g' = g \<and> (\<exists>q. r = Inr q \<and> (\<forall>m. q = Inr m \<longrightarrow> ?fine m))) g (attempt_task (call_task (metadata p)))"
    by (intro behaves_attempt behaves_call)
      (auto simp: metadata_def query_def Let_def lock_known_def not_stale_def lock_effect_def split: option.splits)
  fix q :: "io_error + stat" and h
  assume "h = g \<and> (\<exists>q'. (Inr q :: error + _) = Inr q' \<and> (\<forall>m. q' = Inr m \<longrightarrow> ?fine m))"
  then have q: "h = g" "\<And>m. q = Inr m \<Longrightarrow> ?fine m" by auto
  show "behaves (lock_known p timeout c) (lock_effect p timeout) (\<lambda>r g'. g' = g \<and> r = Inr False) h
    (case q of Inl e \<Rightarrow> ret_task False :: (error, bool) job
     | Inr m \<Rightarrow> bind_task (call_task now) (\<lambda>t. ret_task (max 0 (t - int (st_mtime m)) \<ge> int (2 * timeout))))"
  proof (cases q)
    case (Inl e)
    then show ?thesis using q(1) by (simp add: behaves_ret)
  next
    case (Inr m)
    have "behaves (lock_known p timeout c) (lock_effect p timeout)
        (\<lambda>r g'. g' = g \<and> (\<exists>n. r = Inr (c n))) g (call_task now :: (error, int) job)"
      by (rule only_looks) (auto simp: now_def lock_known_def)
    then have "behaves (lock_known p timeout c) (lock_effect p timeout) (\<lambda>r g'. g' = g \<and> r = Inr False) g
        (bind_task (call_task now :: (error, int) job)
          (\<lambda>t. ret_task (max 0 (t - int (st_mtime m)) \<ge> int (2 * timeout))))"
    proof (rule behaves_bind)
      fix t h
      assume "h = g \<and> (\<exists>n. (Inr t :: error + int) = Inr (c n))"
      then obtain n where n: "h = g" "t = c n" by auto
      have "c n < int (st_mtime m) + 2 * int timeout" using q(2) [OF Inr] by blast
      then have "\<not> int (2 * timeout) \<le> max 0 (t - int (st_mtime m))" using n(2) assms by simp
      then show "behaves (lock_known p timeout c) (lock_effect p timeout) (\<lambda>r g'. g' = g \<and> r = Inr False) h
          (ret_task (max 0 (t - int (st_mtime m)) \<ge> int (2 * timeout)))"
        using n(1) by (intro behaves_ret) simp
    qed auto
    then show ?thesis using Inr q(1) by simp
  qed
qed auto

lemma clear_task_behaves:
  assumes "0 < timeout"
  shows "behaves (lock_known p timeout c) (lock_effect p timeout) (\<lambda>r g'. g' = g \<and> r = Inr False) g
     (clear_stale_lock_task p timeout)"
  unfolding clear_stale_lock_task_def
  by (rule behaves_bind [OF stale_task_behaves [OF assms]]) (auto intro: behaves_ret)

lemma wait_task_behaves:
  "behaves (lock_known p timeout c) (lock_effect p timeout) (\<lambda>r g'. g' = g) g
     (wait_for_lock_task p timeout started)"
  unfolding wait_for_lock_task_def
  by (rule behaves_bind [where R = "\<lambda>r g'. g' = g"])
    (auto intro!: behaves_throw behaves_call simp: instant_now_def sleep_def Let_def lock_effect_def)

lemma create_lock_behaves:
  assumes "file_name p = Some n" "close_readings timeout c"
  shows "behaves (lock_known p timeout c) (lock_effect p timeout) (\<lambda>r g. g \<longleftrightarrow> is_ok r) False
     (call_task (create_new p m))"
proof (rule behaves_call)
  fix w r w'
  assume K: "lock_known p timeout c False w" and run: "create_new p m w = (r, w')"
  have clock: "w_clock w' = w_clock w"
    using run by (auto simp: create_new_def update_def Let_def commit_def split: option.splits prod.splits)
  show "\<exists>h. lock_effect p timeout False w h w' \<and> (h \<longleftrightarrow> is_ok r)"
  proof (cases r)
    case (Inl e)
    then have "w_fs w' = w_fs w" using create_new_calm [of p m w e w'] run by (simp add: calm_def)
    then show ?thesis using clock Inl by (intro exI [of _ False]) (simp add: lock_effect_def)
  next
    case (Inr i)
    define time where "time = nat (w_clock w (w_calls w))"
    have "sys_create_new p (masked m w) time (w_fs w) = (Inr i, w_fs w')"
      using run Inr
      by (auto simp: time_def create_new_def update_def Let_def commit_def split: option.splits prod.splits)
    then obtain st where st: "sys_metadata p (w_fs w') = Inr st" "st_mtime st = time"
      using created_metadata [OF assms(1)] by blast
    have "c k < int time + 2 * int timeout" for k
    proof -
      have "c k < c (w_calls w) + 2 * int timeout" using assms(2) by (simp add: close_readings_def)
      then show ?thesis using K by (simp add: lock_known_def time_def)
    qed
    then have "not_stale p timeout (w_clock w) (w_fs w')" using K st by (simp add: not_stale_def lock_known_def)
    moreover have "\<not> entry_exists (w_fs w) p \<and> entry_exists (w_fs w') p"
      using create_new_created [of p m w i w'] run Inr assms(1) by simp
    ultimately show ?thesis using clock Inr by (intro exI [of _ True]) (simp add: lock_effect_def)
  qed
qed

lemma pass_task_behaves:
  assumes "file_name p = Some n" "close_readings timeout c"
  shows "behaves (lock_known p timeout c) (lock_effect p timeout) (\<lambda>r g. g \<longleftrightarrow> r = Inr True) False
     (acquire_pass_task p timeout started)"
  unfolding acquire_pass_task_def
proof (rule behaves_bind [where R = "\<lambda>r g. \<exists>q. r = Inr q \<and> (g \<longleftrightarrow> is_ok q)"])
  have timeout: "0 < timeout" using assms(2) by (rule close_readings_pos)
  show "behaves (lock_known p timeout c) (lock_effect p timeout) (\<lambda>r g. \<exists>q. r = Inr q \<and> (g \<longleftrightarrow> is_ok q)) False
      (attempt_task (call_task (create_new p DEFAULT_FILE_MODE)))"
    by (rule behaves_attempt) (use create_lock_behaves [OF assms] in simp)
  let ?B = "behaves (lock_known p timeout c) (lock_effect p timeout)"
  let ?rest = "bind_task (clear_stale_lock_task p timeout) (\<lambda>removed.
      if removed then ret_task False
      else bind_task (wait_for_lock_task p timeout started) (\<lambda>_. ret_task False))"
  have wait: "?B (\<lambda>r g. g \<longleftrightarrow> r = Inr True) False
      (bind_task (wait_for_lock_task p timeout started) (\<lambda>_. ret_task False))"
    by (rule behaves_bind [OF wait_task_behaves]) (auto intro: behaves_ret)
  have rest: "?B (\<lambda>r g. g \<longleftrightarrow> r = Inr True) False ?rest"
    by (rule behaves_bind [OF clear_task_behaves [OF timeout]]) (use wait in auto)
  fix q :: "io_error + nat" and h
  assume "\<exists>q'. (Inr q :: error + _) = Inr q' \<and> (h \<longleftrightarrow> is_ok q')"
  then have "h \<longleftrightarrow> is_ok q" by simp
  then show "?B (\<lambda>r g. g \<longleftrightarrow> r = Inr True) h (case q of
        Inr _ \<Rightarrow> ret_task True
      | Inl e \<Rightarrow> (if io_kind_of e = AlreadyExists then ?rest else throw_task (FileWrite p e)))"
    using rest by (cases q) (auto intro: behaves_ret behaves_throw)
qed auto

lemma turns_behave:
  assumes "file_name p = Some n" "close_readings timeout c"
  shows "behaves (lock_known p timeout c) (lock_effect p timeout) (\<lambda>r g. g \<longleftrightarrow> r = Inr True) False
     (acquire_turns p timeout started k)"
proof (induction k)
  case 0
  show ?case by (simp add: behaves_ret)
next
  case (Suc k)
  show ?case
    unfolding acquire_turns.simps
    by (rule behaves_bind [OF pass_task_behaves [OF assms]]) (use Suc in \<open>auto intro: behaves_ret\<close>)
qed

lemma acquire_behaves:
  assumes "file_name (lock_path_of sp) = Some n" "close_readings (force_overwrite_lock_timeout B) c"
  shows "behaves (lock_known (lock_path_of sp) (force_overwrite_lock_timeout B) c)
     (lock_effect (lock_path_of sp) (force_overwrite_lock_timeout B))
     (\<lambda>r g. g \<longleftrightarrow> (\<exists>x. r = Inr (Some x))) False (acquire_lock_task B sp k)"
  unfolding acquire_lock_task_def Let_def
proof (rule behaves_bind [where R = "\<lambda>r g. \<not> g"])
  let ?B = "behaves (lock_known (lock_path_of sp) (force_overwrite_lock_timeout B) c)
     (lock_effect (lock_path_of sp) (force_overwrite_lock_timeout B))"
  show "?B (\<lambda>r g. \<not> g) False (call_task instant_now)"
    by (rule behaves_call) (auto simp: instant_now_def Let_def lock_effect_def)
  fix t h
  assume "\<not> h"
  then have "?B (\<lambda>r g. g \<longleftrightarrow> r = Inr True) h
      (acquire_turns (lock_path_of sp) (force_overwrite_lock_timeout B) t k)"
    using turns_behave [OF assms] by simp
  then show "?B (\<lambda>r g. g \<longleftrightarrow> (\<exists>x. r = Inr (Some x))) h
      (bind_task (acquire_turns (lock_path_of sp) (force_overwrite_lock_timeout B) t k)
        (\<lambda>held. ret_task (if held then Some (lock_path_of sp) else None)))"
    by (rule behaves_bind) (auto intro: behaves_ret)
qed auto

section \<open>Taking turns\<close>

lemma followed_by_twice: "followed_by (followed_by t k) l = followed_by t (\<lambda>x. followed_by (k x) l)"
proof (induction t)
  case (Step f)
  have "map_prod (\<lambda>t. followed_by t l) id (map_prod (\<lambda>t. followed_by t k) id (f w))
      = map_prod (\<lambda>t. followed_by t (\<lambda>x. followed_by (k x) l)) id (f w)" for w
    using Step.IH [of w] by (cases "f w") simp
  then show ?case unfolding followed_by.simps by simp
qed simp

lemma bind_task_twice: "bind_task (bind_task t f) g = bind_task t (\<lambda>x. bind_task (f x) g)"
  unfolding bind_task_def followed_by_twice
  by (rule arg_cong [where f = "followed_by t"]) (auto split: sum.split)

lemma bind_task_ret: "bind_task (ret_task x) k = k x"
  by (simp add: bind_task_def ret_task_def)

lemma bind_task_if: "bind_task (if b then t else u) k = (if b then bind_task t k else bind_task u k)"
  by simp

lemma bind_task_sum:
  "bind_task (case r of Inl e \<Rightarrow> f e | Inr x \<Rightarrow> g x) k = (case r of Inl e \<Rightarrow> bind_task (f e) k | Inr x \<Rightarrow> bind_task (g x) k)"
  by (simp split: sum.split)

lemmas bind_task_rules = bind_task_twice bind_task_ret bind_task_if bind_task_sum

lemma call_turn:
  assumes "i < length ts" "ts ! i = bind_task (call_task m) k" "m w = (Inr x, v)"
  shows "pool_step i (ts, w) = (ts[i := k x], v)"
  using assms by (simp add: pool_step_def bind_task_def call_task_def)

lemma attempt_turn:
  assumes "i < length ts" "ts ! i = bind_task (attempt_task (call_task m)) k" "m w = (r, v)"
  shows "pool_step i (ts, w) = (ts[i := k r], v)"
  using assms by (simp add: pool_step_def bind_task_def attempt_task_def call_task_def)

lemma call_next:
  assumes "i < length ts" "m w = (Inr x, v)"
  shows "pool_step i (ts[i := bind_task (call_task m) k], w) = (ts[i := k x], v)"
  using call_turn [of i "ts[i := bind_task (call_task m) k]" m k w x v] assms by simp

lemma attempt_next:
  assumes "i < length ts" "m w = (r, v)"
  shows "pool_step i (ts[i := bind_task (attempt_task (call_task m)) k], w) = (ts[i := k r], v)"
  using attempt_turn [of i "ts[i := bind_task (attempt_task (call_task m)) k]" m k w r v] assms by simp

lemma done_stays_step:
  "i < length ts \<Longrightarrow> ts ! i = Done x \<Longrightarrow> pool_step j (ts, w) = (us, v) \<Longrightarrow> us ! i = Done x"
  by (cases "j = i") (auto simp: pool_step_def split: if_splits task.splits prod.splits)

lemma done_stays: "i < length ts \<Longrightarrow> ts ! i = Done x \<Longrightarrow> pool_run schedule (ts, w) = (ts', w') \<Longrightarrow> ts' ! i = Done x"
proof (induction schedule arbitrary: ts w)
  case (Cons j schedule)
  obtain us v where u: "pool_step j (ts, w) = (us, v)" by (rule prod.exhaust)
  have "i < length us" using Cons.prems(1) pool_step_length [OF u] by simp
  moreover have "us ! i = Done x" using Cons.prems(1,2) u by (rule done_stays_step)
  moreover have "pool_run schedule (us, v) = (ts', w')" using Cons.prems(3) u by simp
  ultimately show ?case by (rule Cons.IH)
qed simp

text \<open>The four parts of a pass that finds a stale lock.\<close>

definition stale_warning :: "path \<Rightarrow> nat \<Rightarrow> string" where
  "stale_warning lock_path timeout = ''Warning: removing stale force-overwrite lock ''
     @ [CHR 0x27] @ display lock_path @ [CHR 0x27] @ '' (older than ''
     @ dec (2 * timeout div 1000) @ ''s); ''
     @ ''if another --force is running concurrently this may cause conflicts''"

definition removal :: "path \<Rightarrow> nat \<Rightarrow> (error, bool) job" where
  "removal p timeout = bind_task (call_task (eprintln (stale_warning p timeout)))
     (\<lambda>_. bind_task (attempt_task (call_task (remove_file p))) (\<lambda>r. ret_task (is_ok r)))"

definition turns_then :: "path \<Rightarrow> nat \<Rightarrow> nat \<Rightarrow> nat \<Rightarrow> (bool \<Rightarrow> (error, path option) job) \<Rightarrow> bool \<Rightarrow> (error, path option) job" where
  "turns_then p timeout started k K removed =
     (if removed then bind_task (acquire_turns p timeout started k) K
      else bind_task (wait_for_lock_task p timeout started) (\<lambda>_. bind_task (acquire_turns p timeout started k) K))"

lemma start_turn:
  assumes "i < length ts" "ts ! i = acquire_lock_task B sp k"
  shows "\<exists>t v. pool_step i (ts, w) = (ts[i := bind_task
      (acquire_turns (lock_path_of sp) (force_overwrite_lock_timeout B) t k)
      (\<lambda>held. ret_task (if held then Some (lock_path_of sp) else None))], v)
    \<and> v = w\<lparr>w_instant := t, w_calls := Suc (w_calls w)\<rparr>"
proof -
  obtain t v where n: "instant_now w = (Inr t :: error + nat, v)"
    "v = w\<lparr>w_instant := t, w_calls := Suc (w_calls w)\<rparr>"
    by (simp add: instant_now_def Let_def)
  show ?thesis
    using call_turn [OF assms(1) assms(2) [unfolded acquire_lock_task_def Let_def] n(1)] n(2) by blast
qed

lemma free_turn:
  assumes "i < length ts" "ts ! i = bind_task (acquire_turns p timeout started (Suc k)) K"
    and "create_new p DEFAULT_FILE_MODE w = (Inr n, v)"
  shows "pool_step i (ts, w) = (ts[i := K True], v)"
  using attempt_turn [OF assms(1) assms(2) [unfolded acquire_turns.simps acquire_pass_task_def bind_task_rules] assms(3)]
  by (simp add: bind_task_rules)

lemma busy_turn:
  assumes "i < length ts" "ts ! i = bind_task (acquire_turns p timeout started (Suc k)) K"
    and "create_new p DEFAULT_FILE_MODE w = (Inl EEXIST, v)"
  shows "pool_step i (ts, w) = (ts[i := bind_task (clear_stale_lock_task p timeout) (turns_then p timeout started k K)], v)"
  using attempt_turn [OF assms(1) assms(2) [unfolded acquire_turns.simps acquire_pass_task_def bind_task_rules] assms(3)]
  by (simp add: bind_task_rules turns_then_def [abs_def] EEXIST_def cong: if_cong)

lemma stale_turns:
  assumes "i < length ts" "ts ! i = bind_task (clear_stale_lock_task p timeout) K"
    and "metadata p w = (Inr m, v)" "now v = (Inr t :: error + int, u)"
    and "int (2 * timeout) \<le> max 0 (t - int (st_mtime m))"
  shows "pool_run [i, i] (ts, w) = (ts[i := bind_task (removal p timeout) K], u)"
proof -
  have one: "pool_step i (ts, w) = (ts[i := bind_task (call_task now) (\<lambda>t.
      if int (2 * timeout) \<le> max 0 (t - int (st_mtime m)) then bind_task (removal p timeout) K else K False)], v)"
    using attempt_turn [OF assms(1) assms(2) [unfolded clear_stale_lock_task_def lock_is_stale_task_def bind_task_rules] assms(3)]
    by (simp add: bind_task_rules removal_def stale_warning_def cong: if_cong)
  show ?thesis
    using one call_next [where m = now, OF assms(1,4)] assms(5) by simp
qed

lemma removal_turns:
  assumes "i < length ts" "ts ! i = bind_task (removal p timeout) K"
    and "remove_file p (w\<lparr>w_err := w_err w @ [stale_warning p timeout @ [LF]]\<rparr>) = (Inr u, v)"
  shows "pool_run [i, i] (ts, w) = (ts[i := K True], v)"
proof -
  let ?v = "w\<lparr>w_err := w_err w @ [stale_warning p timeout @ [LF]]\<rparr>"
  have one: "pool_step i (ts, w) = (ts[i := bind_task (attempt_task (call_task (remove_file p)))
      (\<lambda>r. K (is_ok r))], ?v)"
    using call_turn [OF assms(1) assms(2) [unfolded removal_def bind_task_rules], of w "()" ?v]
    by (simp add: eprintln_def print_err_def bind_task_rules)
  show ?thesis
    using one attempt_next [where m = "remove_file p", OF assms(1,3)] by simp
qed

section \<open>Two processes that find a stale lock\<close>

text \<open>On a host where no call fails: the lock is a file, or there is none, and its path is free.\<close>

definition lock_file :: "path \<Rightarrow> loc \<Rightarrow> nat option \<Rightarrow> world \<Rightarrow> bool" where
  "lock_file p l i w \<longleftrightarrow> faultless w \<and> file_name p \<noteq> None \<and> resolve_entry (w_fs w) p = Inr l
     \<and> lookup (w_fs w) l = map_option FileAt i"

definition like :: "world \<Rightarrow> world \<Rightarrow> bool" where
  "like w v \<longleftrightarrow> w_fs v = w_fs w \<and> w_clock v = w_clock w \<and> w_err v = w_err w \<and> w_faults v = w_faults w"

lemma like_lock_file: "like w v \<Longrightarrow> lock_file p l i w \<Longrightarrow> lock_file p l i v"
  by (simp add: like_def lock_file_def faultless_def)

lemma like_trans: "like u v \<Longrightarrow> like v w \<Longrightarrow> like u w"
  by (simp add: like_def)

lemma create_busy:
  assumes "lock_file p l (Some i) w"
  shows "\<exists>v. create_new p m w = (Inl EEXIST, v) \<and> like w v"
  using assms
  by (simp add: create_new_def update_def Let_def sys_create_new_def lock_file_def faultless_def commit_def like_def)

lemma create_free:
  assumes "lock_file p l None w"
  shows "\<exists>i v. create_new p m w = (Inr i, v) \<and> lock_file p l (Some i) v \<and> w_err v = w_err w"
proof -
  obtain n where n: "file_name p = Some n" using assms by (auto simp: lock_file_def)
  have w: "w_faults w k = None" "resolve_entry (w_fs w) p = Inr l" "lookup (w_fs w) l = None" for k
    using assms by (auto simp: lock_file_def faultless_def)
  have ne: "l \<noteq> []" using resolve_entry_last [OF n w(2)] by simp
  obtain i s where s: "add_file l (masked m w) (nat (w_clock w (w_calls w))) (w_fs w) = (i, s)" by (rule prod.exhaust)
  have "resolve_entry s p = Inr l"
    using add_file_staged [OF ne w(3) s] staged_same_dirs resolve_entry_same_dirs [OF n w(2)] by blast
  moreover have "lookup s l = Some (FileAt i)" using s ne by (auto simp: add_file_def Let_def lookup_def)
  ultimately show ?thesis
    using w s n
    by (simp add: create_new_def update_def Let_def sys_create_new_def commit_def lock_file_def faultless_def)
qed

lemma remove_lock:
  assumes "lock_file p l (Some i) w"
  shows "\<exists>v. remove_file p w = (Inr (), v) \<and> lock_file p l None v \<and> w_err v = w_err w"
proof -
  obtain n where n: "file_name p = Some n" using assms by (auto simp: lock_file_def)
  have w: "w_faults w k = None" "resolve_entry (w_fs w) p = Inr l" "lookup (w_fs w) l = Some (FileAt i)" for k
    using assms by (auto simp: lock_file_def faultless_def)
  let ?s = "(w_fs w)\<lparr>fs_entries := (fs_entries (w_fs w))(l := None)\<rparr>"
  have ne: "l \<noteq> []" using resolve_entry_last [OF n w(2)] by simp
  have "same_dirs (w_fs w) ?s" using w(3) by (auto simp: same_dirs_def lookup_def)
  then have "resolve_entry ?s p = Inr l" using resolve_entry_same_dirs [OF n w(2)] by blast
  moreover have "lookup ?s l = None" using ne by (simp add: lookup_def)
  ultimately show ?thesis
    using w n
    by (simp add: remove_file_def update_def Let_def sys_remove_file_def commit_def lock_file_def faultless_def)
qed

lemma looks_stale:
  assumes "lock_file p l (Some i) w" "fs_inodes (w_fs w) i = Some node"
    and "\<forall>k. int (i_mtime node) + 2 * int timeout \<le> w_clock w k"
  shows "\<exists>m t v u. metadata p w = (Inr m, v) \<and> now v = (Inr t :: error + int, u)
    \<and> int (2 * timeout) \<le> max 0 (t - int (st_mtime m)) \<and> like w u"
proof -
  obtain n where n: "file_name p = Some n" using assms(1) by (auto simp: lock_file_def)
  have w: "w_faults w k = None" "resolve_entry (w_fs w) p = Inr l" "lookup (w_fs w) l = Some (FileAt i)" for k
    using assms(1) by (auto simp: lock_file_def faultless_def)
  have "resolve (w_fs w) p = Inr l" by (rule entry_resolves [OF n w(2,3)])
  then obtain m where m: "sys_metadata p (w_fs w) = Inr m" "st_mtime m = i_mtime node"
    using w(3) assms(2) by (auto simp: sys_metadata_def sys_open_def handle_stat_def)
  have "int (i_mtime node) + 2 * int timeout \<le> w_clock w (Suc (w_calls w))" using assms(3) by blast
  then have "int (2 * timeout) \<le> max 0 (w_clock w (Suc (w_calls w)) - int (st_mtime m))" using m(2) by simp
  then show ?thesis using w m by (simp add: metadata_def query_def now_def Let_def like_def)
qed

text \<open>A process goes as far as the decision to remove the lock; later it removes what is there and
  takes it.\<close>

lemma decides:
  assumes "i < length ts" "ts ! i = acquire_lock_task B sp 2"
    and "lock_file (lock_path_of sp) l (Some n) w" "fs_inodes (w_fs w) n = Some node"
    and "\<forall>k. int (i_mtime node) + 2 * int (force_overwrite_lock_timeout B) \<le> w_clock w k"
  shows "\<exists>t v. pool_run [i, i, i, i] (ts, w) = (ts[i := bind_task (removal (lock_path_of sp) (force_overwrite_lock_timeout B))
      (turns_then (lock_path_of sp) (force_overwrite_lock_timeout B) t 1
        (\<lambda>held. ret_task (if held then Some (lock_path_of sp) else None)))], v) \<and> like w v"
proof -
  let ?p = "lock_path_of sp" and ?T = "force_overwrite_lock_timeout B"
  let ?K = "\<lambda>held. ret_task (if held then Some ?p else None)"
  obtain t w1 where one: "pool_step i (ts, w) = (ts[i := bind_task (acquire_turns ?p ?T t 2) ?K], w1)"
    and w1: "w1 = w\<lparr>w_instant := t, w_calls := Suc (w_calls w)\<rparr>" using start_turn [OF assms(1,2)] by blast
  have l1: "like w w1" by (simp add: w1 like_def)
  have f1: "lock_file ?p l (Some n) w1" using like_lock_file [OF l1 assms(3)] .
  obtain w2 where w2: "create_new ?p DEFAULT_FILE_MODE w1 = (Inl EEXIST, w2)" "like w1 w2"
    using create_busy [OF f1] by blast
  have l2: "like w w2" using like_trans [OF l1 w2(2)] .
  have two: "pool_step i (ts[i := bind_task (acquire_turns ?p ?T t 2) ?K], w1)
      = (ts[i := bind_task (clear_stale_lock_task ?p ?T) (turns_then ?p ?T t 1 ?K)], w2)"
    using busy_turn [of i "ts[i := bind_task (acquire_turns ?p ?T t 2) ?K]" ?p ?T t 1 ?K w1 w2] assms(1) w2(1)
    by (simp add: numeral_2_eq_2)
  obtain m u v w3 where w3: "metadata ?p w2 = (Inr m, v)" "now v = (Inr u :: error + int, w3)"
    "int (2 * ?T) \<le> max 0 (u - int (st_mtime m))" "like w2 w3"
    using looks_stale [OF like_lock_file [OF l2 assms(3)], of node ?T] assms(4,5) l2 by (auto simp: like_def)
  have three: "pool_run [i, i] (ts[i := bind_task (clear_stale_lock_task ?p ?T) (turns_then ?p ?T t 1 ?K)], w2)
      = (ts[i := bind_task (removal ?p ?T) (turns_then ?p ?T t 1 ?K)], w3)"
    using stale_turns [OF _ _ w3(1-3), of i "ts[i := bind_task (clear_stale_lock_task ?p ?T) (turns_then ?p ?T t 1 ?K)]"
        "turns_then ?p ?T t 1 ?K"] assms(1) by simp
  show ?thesis using one two three like_trans [OF l2 w3(4)] by auto
qed

lemma takes:
  assumes "i < length ts" "ts ! i = bind_task (removal p timeout)
      (turns_then p timeout t 1 (\<lambda>held. ret_task (if held then Some p else None)))"
    and "lock_file p l (Some n) w"
  shows "\<exists>m v. pool_run [i, i, i] (ts, w) = (ts[i := Done (Inr (Some p))], v) \<and> lock_file p l (Some m) v
    \<and> w_err v = w_err w @ [stale_warning p timeout @ [LF]]"
proof -
  let ?w = "w\<lparr>w_err := w_err w @ [stale_warning p timeout @ [LF]]\<rparr>"
  let ?K = "\<lambda>held. ret_task (if held then Some p else None)"
  have "lock_file p l (Some n) ?w" using assms(3) by (simp add: lock_file_def faultless_def)
  from remove_lock [OF this] obtain w1 where w1: "remove_file p ?w = (Inr (), w1)" "lock_file p l None w1"
    "w_err w1 = w_err w @ [stale_warning p timeout @ [LF]]" by auto
  from create_free [OF w1(2)] obtain m w2 where w2: "create_new p DEFAULT_FILE_MODE w1 = (Inr m, w2)"
    "lock_file p l (Some m) w2" "w_err w2 = w_err w1" by blast
  have one: "pool_run [i, i] (ts, w) = (ts[i := bind_task (acquire_turns p timeout t (Suc 0)) ?K], w1)"
    using removal_turns [OF assms(1,2) w1(1)] by (simp add: turns_then_def)
  have two: "pool_step i (ts[i := bind_task (acquire_turns p timeout t (Suc 0)) ?K], w1) = (ts[i := ?K True], w2)"
    using free_turn [of i "ts[i := bind_task (acquire_turns p timeout t (Suc 0)) ?K]" p timeout t 0 ?K w1 m w2] assms(1) w2(1)
    by simp
  show ?thesis using one two w2 w1(3) by (auto simp: ret_task_def)
qed

section \<open>Properties\<close>

text \<open>C24: of any number of forced overwrites of the same key that go for the lock at the same time,
  each call by call as \<open>acquire_force_overwrite_lock\<close> makes them, at most one gets it, however the
  host interleaves their calls and whichever of the calls fail; and where a lock was there before, none
  does. It needs that no lock gets old: the clock readings lie within the age at which a
  lock counts as stale, twice the timeout, of each other and of the lock that was there.\<close>

theorem concurrent_lock_exclusion:
  assumes "file_name sp = Some n"
    and "close_readings (force_overwrite_lock_timeout B) (w_clock w)"
    and "not_stale (lock_path_of sp) (force_overwrite_lock_timeout B) (w_clock w) (w_fs w)"
    and "pool_run schedule (map (acquire_lock_task B sp) turns, w) = (ts, w')"
    and "i < length ts" "ts ! i = Done (Inr (Some p))"
  shows "\<not> entry_exists (w_fs w) (lock_path_of sp) \<and> entry_exists (w_fs w') (lock_path_of sp)
    \<and> (\<forall>j q. j < length ts \<longrightarrow> ts ! j = Done (Inr (Some q)) \<longrightarrow> j = i)"
proof -
  let ?p = "lock_path_of sp" and ?T = "force_overwrite_lock_timeout B"
  let ?ts = "map (acquire_lock_task B sp) turns"
  let ?gs = "replicate (length turns) False"
  let ?Q = "\<lambda>(i :: nat) r g. g \<longleftrightarrow> (\<exists>x. r = Inr (Some x))"
  obtain m where m: "file_name ?p = Some m" using lock_has_name [OF assms(1)] by blast
  have "lockers.in_order ?p ?T (w_clock w) (w_fs w) ?Q ?gs (?ts, w)"
    using acquire_behaves [OF m assms(2)] assms(3) by (simp add: lockers.in_order_def one_has_it_def)
  then have "\<exists>gs. lockers.in_order ?p ?T (w_clock w) (w_fs w) ?Q gs (pool_run schedule (?ts, w))"
    by (rule lockers.run_in_order)
  then obtain gs where gs: "one_has_it ?p ?T (w_clock w) (w_fs w) gs w'" "length gs = length ts"
    "\<And>j. j < length ts \<Longrightarrow> behaves (lock_known ?p ?T (w_clock w)) (lock_effect ?p ?T) (?Q j) (gs ! j) (ts ! j)"
    using assms(4) by (auto simp: lockers.in_order_def)
  have has: "gs ! j" if "j < length ts" "ts ! j = Done (Inr (Some q))" for j q using gs(3) [OF that(1)] that(2) by simp
  have "gs ! i" using assms(5,6) by (rule has)
  then have "\<forall>j < length gs. gs ! j \<longrightarrow> j = i" "entry_exists (w_fs w') ?p" "\<not> entry_exists (w_fs w) ?p"
    using gs(1,2) assms(5) by (auto simp: one_has_it_def)
  then show ?thesis using has gs(2) by auto
qed

lemma ex_first_takes:
  "\<exists>v. pool_run [0, 0] ([acquire_lock_task ex_build ''m'' (Suc 0), t], ex_world ex_fs)
     = ([Done (Inr (Some ''.m.force.lock'')), t], v)"
proof -
  let ?p = "''.m.force.lock''" and ?T = "force_overwrite_lock_timeout ex_build"
  let ?K = "\<lambda>held. ret_task (if held then Some ?p else None)"
  let ?ts = "[acquire_lock_task ex_build ''m'' (Suc 0), t]"
  have "\<exists>s v. pool_step 0 (?ts, ex_world ex_fs) = (?ts[0 := bind_task (acquire_turns ?p ?T s (Suc 0)) ?K], v)
      \<and> v = (ex_world ex_fs)\<lparr>w_instant := s, w_calls := Suc (w_calls (ex_world ex_fs))\<rparr>"
    by (rule start_turn [of 0 ?ts ex_build "''m''" "Suc 0" "ex_world ex_fs", unfolded ex_lock_path]) simp_all
  then obtain s v where one: "pool_step 0 (?ts, ex_world ex_fs) = (?ts[0 := bind_task (acquire_turns ?p ?T s (Suc 0)) ?K], v)"
    "v = (ex_world ex_fs)\<lparr>w_instant := s, w_calls := Suc (w_calls (ex_world ex_fs))\<rparr>" by blast
  have "lock_file ?p [''d'', ''.m.force.lock''] None v"
    by (simp add: one(2) lock_file_def) (simp add: faultless_def ex_world_def)
  from create_free [OF this] obtain i u where u: "create_new ?p DEFAULT_FILE_MODE v = (Inr i, u)" by blast
  have "pool_step 0 ([bind_task (acquire_turns ?p ?T s (Suc 0)) ?K, t], v) = ([?K True, t], u)"
    using free_turn [of 0 "[bind_task (acquire_turns ?p ?T s (Suc 0)) ?K, t]" ?p ?T s 0 ?K v i u] u
    by (simp del: acquire_turns.simps)
  then show ?thesis using one(1) by (simp add: ret_task_def del: acquire_turns.simps)
qed

theorem concurrent_lock_exclusion_witness:
  "\<forall>schedule. fst (pool_run ([0, 0] @ schedule) (map (acquire_lock_task ex_build ''m'') [1, 5], ex_world ex_fs)) ! 0
       = Done (Inr (Some ''.m.force.lock''))
     \<and> (\<forall>q. fst (pool_run ([0, 0] @ schedule) (map (acquire_lock_task ex_build ''m'') [1, 5], ex_world ex_fs)) ! 1
       \<noteq> Done (Inr (Some q)))"
proof (rule allI)
  fix schedule
  obtain ts w' where run: "pool_run ([0, 0] @ schedule) (map (acquire_lock_task ex_build ''m'') [1, 5], ex_world ex_fs) = (ts, w')"
    by (rule prod.exhaust)
  have close: "close_readings (force_overwrite_lock_timeout ex_build) (w_clock (ex_world ex_fs))"
    by (simp add: close_readings_def force_overwrite_lock_timeout_def FORCE_OVERWRITE_LOCK_TIMEOUT_def ex_build_def)
      (simp add: ex_world_def)
  have free: "not_stale (lock_path_of ''m'') (force_overwrite_lock_timeout ex_build) (w_clock (ex_world ex_fs)) (w_fs (ex_world ex_fs))"
    by (simp add: not_stale_def sys_metadata_def sys_open_def resolve_def)
  let ?u = "acquire_lock_task ex_build ''m'' 5"
  obtain v where "pool_run [0, 0] ([acquire_lock_task ex_build ''m'' (Suc 0), ?u], ex_world ex_fs)
      = ([Done (Inr (Some ''.m.force.lock'')), ?u], v)" using ex_first_takes [of ?u] by (elim exE)
  then have v: "pool_run schedule ([Done (Inr (Some ''.m.force.lock'')), ?u], v) = (ts, w')"
    using run unfolding pool_run_append One_nat_def list.map by (simp only:)
  have len: "length ts = 2" using pool_run_length [OF v] by simp
  have first: "ts ! 0 = Done (Inr (Some ''.m.force.lock''))" by (rule done_stays [OF _ _ v]) simp_all
  have "0 < length ts" using len by simp
  then have one: "\<forall>j q. j < length ts \<longrightarrow> ts ! j = Done (Inr (Some q)) \<longrightarrow> j = 0"
    using concurrent_lock_exclusion [OF ex_names(1) close free run _ first] by blast
  have "ts ! 1 \<noteq> Done (Inr (Some q))" for q using one len by (metis one_less_numeral_iff semiring_norm(76) zero_neq_one)
  with first show "fst (pool_run ([0, 0] @ schedule) (map (acquire_lock_task ex_build ''m'') [1, 5], ex_world ex_fs)) ! 0
       = Done (Inr (Some ''.m.force.lock''))
     \<and> (\<forall>q. fst (pool_run ([0, 0] @ schedule) (map (acquire_lock_task ex_build ''m'') [1, 5], ex_world ex_fs)) ! 1
       \<noteq> Done (Inr (Some q)))" unfolding run fst_conv by blast
qed

text \<open>C25: once a lock counts as stale the exclusion is lost, on any host where no call fails: the check
  for the age of the lock and its removal are two calls, and of two forced overwrites that both find the
  same stale lock one may remove it and take the lock, and the other then remove that lock, which
  is new, and take it too. Both give the warning of the removal, and both have the lock. It does not
  take a clock that jumps; the readings may be as close as the exclusion above needs them.\<close>

theorem stale_lock_race:
  assumes "file_name sp = Some m" "\<forall>k. w_faults w k = None"
    and "resolve_entry (w_fs w) (lock_path_of sp) = Inr l" "lookup (w_fs w) l = Some (FileAt n)"
    and "fs_inodes (w_fs w) n = Some node"
    and "\<forall>k. int (i_mtime node) + 2 * int (force_overwrite_lock_timeout B) \<le> w_clock w k"
  shows "\<exists>schedule w'. pool_run schedule ([acquire_lock_task B sp 2, acquire_lock_task B sp 2], w)
      = ([Done (Inr (Some (lock_path_of sp))), Done (Inr (Some (lock_path_of sp)))], w')
    \<and> w_err w' = w_err w @ replicate 2 (stale_warning (lock_path_of sp) (force_overwrite_lock_timeout B) @ [LF])"
proof -
  let ?p = "lock_path_of sp" and ?T = "force_overwrite_lock_timeout B" and ?a = "acquire_lock_task B sp 2"
  let ?r = "\<lambda>t. bind_task (removal ?p ?T) (turns_then ?p ?T t 1 (\<lambda>held. ret_task (if held then Some ?p else None)))"
  let ?got = "Done (Inr (Some ?p))"
  have f: "lock_file ?p l (Some n) w"
    using lock_has_name [OF assms(1)] assms(2-4) by (auto simp: lock_file_def faultless_def)
  obtain t v where v: "pool_run [0, 0, 0, 0] ([?a, ?a], w) = ([?r t, ?a], v)" "like w v"
    using decides [of 0 "[?a, ?a]", OF _ _ f assms(5,6)] by auto
  have fv: "lock_file ?p l (Some n) v" using like_lock_file [OF v(2) f] .
  have old: "fs_inodes (w_fs v) n = Some node" "\<forall>k. int (i_mtime node) + 2 * int ?T \<le> w_clock v k"
    using assms(5,6) v(2) by (simp_all add: like_def)
  obtain t' u where u: "pool_run [1, 1, 1, 1] ([?r t, ?a], v) = ([?r t, ?r t'], u)" "like v u"
    using decides [of 1 "[?r t, ?a]", OF _ _ fv old] by auto
  obtain i x where x: "pool_run [0, 0, 0] ([?r t, ?r t'], u) = ([?got, ?r t'], x)" "lock_file ?p l (Some i) x"
    "w_err x = w_err u @ [stale_warning ?p ?T @ [LF]]"
    using takes [of 0 "[?r t, ?r t']" ?p ?T t l n u] like_lock_file [OF u(2) fv] by auto
  obtain y where y: "pool_run [1, 1, 1] ([?got, ?r t'], x) = ([?got, ?got], y)"
    "w_err y = w_err x @ [stale_warning ?p ?T @ [LF]]"
    using takes [of 1 "[?got, ?r t']" ?p ?T t' l i x] x(2) by auto
  have "pool_run ([0, 0, 0, 0] @ [1, 1, 1, 1] @ [0, 0, 0] @ [1, 1, 1]) ([?a, ?a], w) = ([?got, ?got], y)"
    unfolding pool_run_append v(1) u(1) x(1) y(1) ..
  moreover have "w_err y = w_err w @ replicate 2 (stale_warning ?p ?T @ [LF])"
    using v(2) u(2) x(3) y(2) by (simp add: like_def numeral_2_eq_2)
  ultimately show ?thesis by blast
qed

text \<open>The lock of the example, when it is just old enough, and a clock that stands still.\<close>

definition ex_old_lock :: world where
  "ex_old_lock = (ex_world ex_locked)\<lparr>w_clock := (\<lambda>n. 1700000060000)\<rparr>"

theorem stale_lock_race_witness:
  "close_readings (force_overwrite_lock_timeout ex_build) (w_clock ex_old_lock)
    \<and> (\<exists>schedule w'. pool_run schedule ([acquire_lock_task ex_build ''m'' 2, acquire_lock_task ex_build ''m'' 2], ex_old_lock)
        = ([Done (Inr (Some ''.m.force.lock'')), Done (Inr (Some ''.m.force.lock''))], w'))"
proof -
  have T: "force_overwrite_lock_timeout ex_build = 30000"
    by (simp add: force_overwrite_lock_timeout_def FORCE_OVERWRITE_LOCK_TIMEOUT_def ex_build_def)
  have "fs_inodes ex_locked 1 = Some \<lparr>i_bytes = [], i_mode = 420, i_mtime = 1700000000000\<rparr>" by (simp add: ex_locked_def)
  moreover have "w_faults ex_old_lock k = None" "w_fs ex_old_lock = ex_locked" "w_clock ex_old_lock k = 1700000060000" for k
    by (simp_all add: ex_old_lock_def) (simp add: ex_world_def)
  ultimately show ?thesis
    using stale_lock_race [of "''m''" "''m''" ex_old_lock "[''d'', ''.m.force.lock'']" 1
        "\<lparr>i_bytes = [], i_mode = 420, i_mtime = 1700000000000\<rparr>" ex_build]
    by (auto simp: T close_readings_def)
qed

end
