(* ===== verification/Parallel_Verify.thy ===== *)
theory Parallel_Verify
  imports Program_Properties "HOL-Library.Multiset"
begin

text \<open>
  Batches of verifications with threads. On a host that works, the files are verified with the same
  results and the same lines of output as with \<open>--sequential\<close>, whatever the schedule; only the order of
  the lines may differ. On any host the work touches no file, and each success stands for two
  signatures that were verified.
\<close>

section \<open>Tasks that read\<close>

text \<open>The ghost of a task is the output it still owes, on both streams.\<close>

definition reading :: "fs \<Rightarrow> fs list \<Rightarrow> string list \<times> string list \<Rightarrow> world \<Rightarrow> bool" where
  "reading s h g w \<longleftrightarrow> quiet w \<and> w_fs w = s \<and> w_trace w = h"

definition prints :: "string list \<times> string list \<Rightarrow> world \<Rightarrow> string list \<times> string list \<Rightarrow> world \<Rightarrow> bool" where
  "prints g w g' w' \<longleftrightarrow>
     (quiet w \<longrightarrow> quiet w') \<and> w_fs w' = w_fs w \<and> w_trace w' = w_trace w
     \<and> (\<exists>os es. w_out w' = w_out w @ os \<and> fst g = os @ fst g'
          \<and> w_err w' = w_err w @ es \<and> snd g = es @ snd g')"

text \<open>The result of a task is settled by the files, whatever else goes on.\<close>

definition settles :: "fs \<Rightarrow> 'a \<Rightarrow> 'a task \<Rightarrow> bool" where
  "settles s r t \<longleftrightarrow> (\<forall>h g. behaves (reading s h) prints (\<lambda>x g'. x = r \<and> g' = g) g t)"

lemma prints_nothing: "prints g w g (ticked w)"
  by (auto simp: prints_def) (auto simp: ticked_def)

lemma settles_Done [simp]: "settles s r (Done r)"
  by (simp add: settles_def)

lemma settles_query: "(\<And>w. w_fs w = s \<Longrightarrow> f w = r) \<Longrightarrow> settles s r (call_task (query f))"
  unfolding settles_def
  by (intro allI behaves_call) (auto simp: reading_def query_run [OF quiet_honest(2)] intro!: prints_nothing)

lemma settles_calls:
  "settles s (sys_open p s) (call_task (open_file p))"
  "settles s (handle_stat s i) (call_task (fstat i))"
  unfolding open_file_def fstat_def by (rule settles_query, simp)+

lemma settles_followed_by:
  assumes "settles s r t" "settles s r' (k r)"
  shows "settles s r' (followed_by t k)"
  unfolding settles_def
proof (intro allI)
  fix h g
  have "behaves (reading s h) prints (\<lambda>x g'. x = r \<and> g' = g) g t"
    using assms(1) unfolding settles_def by blast
  then show "behaves (reading s h) prints (\<lambda>x g'. x = r' \<and> g' = g) g (followed_by t k)"
    by (rule behaves_followed_by) (use assms(2) in \<open>unfold settles_def, blast\<close>)
qed

definition settled :: "fs \<Rightarrow> 'a task \<Rightarrow> bool" where
  "settled s t \<longleftrightarrow> (\<exists>r. settles s r t)"

named_theorems settled_intros

lemma settled_followed_by: "settled s t \<Longrightarrow> (\<And>x. settled s (k x)) \<Longrightarrow> settled s (followed_by t k)"
  unfolding settled_def by (meson settles_followed_by)

lemma settled_Done: "settled s (Done x)"
  unfolding settled_def by (rule exI) (rule settles_Done)

lemma settled_combinators [settled_intros]:
  "settled s (ret_task x)" "settled s (throw_task e)" "settled s (lift_task r)"
  "settled s t \<Longrightarrow> settled s (map_err_task f t)" "settled s t \<Longrightarrow> settled s (attempt_task t)"
  "settled s t \<Longrightarrow> (\<And>x. settled s (k x)) \<Longrightarrow> settled s (bind_task t k)"
  by (auto simp: ret_task_def throw_task_def lift_task_def map_err_task_def attempt_task_def bind_task_def
      intro!: settled_followed_by settled_Done split: sum.split)

lemma settled_if [settled_intros]:
  "settled s t \<Longrightarrow> settled s u \<Longrightarrow> settled s (if b then t else u)"
  by simp

lemma settled_calls [settled_intros]: "settled s (call_task (open_file p))" "settled s (call_task (fstat i))"
  unfolding settled_def by (rule exI, rule settles_calls)+

text \<open>The blocks a file comes in are the host's choice; their bytes are not.\<close>

definition blocks_of :: "fs \<Rightarrow> handle \<Rightarrow> reader \<Rightarrow> bool" where
  "blocks_of s i rs \<longleftrightarrow>
     (case i of
        DirHandle l \<Rightarrow> rs = [Inl EISDIR]
      | FileHandle n \<Rightarrow>
          (case fs_inodes s n of
             None \<Rightarrow> rs = []
           | Some f \<Rightarrow> \<exists>blocks. rs = map Inr blocks \<and> (\<forall>b \<in> set blocks. b \<noteq> []) \<and> concat blocks = i_bytes f))"

lemma file_reads_blocks:
  assumes "quiet w"
  shows "\<exists>rs. file_reads i w = (Inr rs, ticked w) \<and> blocks_of (w_fs w) i rs"
proof -
  have "\<exists>blocks. w_reads w (w_calls w) bs = map Inr blocks \<and> (\<forall>b \<in> set blocks. b \<noteq> []) \<and> concat blocks = bs" for bs
    using assms by (intro delivers_blocks) (simp_all add: quiet_def honest_def)
  then show ?thesis
    using quiet_honest(2) [OF assms]
    by (auto simp: file_reads_def query_run blocks_of_def split: handle.split option.split)
qed

lemma blocks_exist: "\<exists>rs. blocks_of s i rs"
proof (cases i)
  case (FileHandle n)
  have "\<exists>blocks. (\<forall>b \<in> set blocks. b \<noteq> []) \<and> concat blocks = bs" for bs :: bytes
    by (rule exI [of _ "if bs = [] then [] else [bs]"]) simp
  then show ?thesis using FileHandle by (cases "fs_inodes s n") (auto simp: blocks_of_def)
qed (simp add: blocks_of_def)

lemma settled_reads:
  assumes "\<And>rs rs'. blocks_of s i rs \<Longrightarrow> blocks_of s i rs' \<Longrightarrow> k rs = k rs'" "\<And>rs. settled s (k rs)"
  shows "settled s (bind_task (map_err_task e (call_task (file_reads i))) k)"
proof -
  obtain rs where rs: "blocks_of s i rs" using blocks_exist by blast
  obtain r where r: "settles s r (k rs)" using assms(2) by (auto simp: settled_def)
  have "settles s r (bind_task (map_err_task e (call_task (file_reads i))) k)"
    unfolding settles_def
  proof (intro allI)
    fix h g
    have "behaves (reading s h) prints (\<lambda>x g'. g' = g \<and> (\<exists>rs. x = Inr rs \<and> blocks_of s i rs)) g
        (map_err_task e (call_task (file_reads i)))"
    proof (intro behaves_map_err behaves_call)
      fix w x w'
      assume w: "reading s h g w" "file_reads i w = (x, w')"
      then obtain rs where "file_reads i w = (Inr rs, ticked w)" "blocks_of s i rs"
        using file_reads_blocks [of w i] by (auto simp: reading_def)
      then show "\<exists>g'. prints g w g' w' \<and> (g' = g \<and> (\<exists>rs. map_err e x = Inr rs \<and> blocks_of s i rs))"
        using w(2) prints_nothing [of g w] by (intro exI [of _ g]) simp
    qed
    then show "behaves (reading s h) prints (\<lambda>x g'. x = r \<and> g' = g) g
        (bind_task (map_err_task e (call_task (file_reads i))) k)"
    proof (rule behaves_bind)
      fix x g'
      assume "g' = g \<and> (\<exists>rs. Inr x = Inr rs \<and> blocks_of s i rs)"
      then have "g' = g" "k x = k rs" using assms(1) [OF _ rs, of x] by auto
      then show "behaves (reading s h) prints (\<lambda>x g'. x = r \<and> g' = g) g' (k x)"
        using r unfolding settles_def by (simp only:)
    qed auto
  qed
  then show ?thesis by (auto simp: settled_def)
qed

lemma blocks_read_to_end:
  assumes "blocks_of s i rs" "blocks_of s i rs'"
  shows "read_to_end cap [] rs = read_to_end cap [] rs'"
proof (cases i)
  case (FileHandle n)
  have deliv: "delivers (map Inr blocks) (concat blocks)" if "\<forall>b \<in> set blocks. b \<noteq> []" for blocks
    using that by (induction blocks) (auto simp: delivers_Nil delivers_Cons)
  show ?thesis
  proof (cases "fs_inodes s n")
    case (Some f)
    then have "delivers rs (i_bytes f)" "delivers rs' (i_bytes f)"
      using assms FileHandle deliv by (auto simp: blocks_of_def) (metis deliv)+
    then show ?thesis using read_to_end_delivers by fastforce
  qed (use assms FileHandle in \<open>simp add: blocks_of_def\<close>)
qed (use assms in \<open>simp add: blocks_of_def\<close>)

lemma blocks_hash:
  assumes "blocks_of s i rs" "blocks_of s i rs'" "blake2b_ok C"
  shows "blake2b_512_stream C rs = blake2b_512_stream C rs'"
  using assms(1,2) blake2b_512_stream_eq [OF assms(3)]
  by (auto simp: blocks_of_def split: handle.splits option.splits)

lemma settled_read_to_end:
  assumes "\<And>r. settled s (k r)"
  shows "settled s (bind_task (map_err_task e (call_task (file_reads i))) (\<lambda>rs. k (read_to_end cap [] rs)))"
proof (rule settled_reads)
  fix rs rs'
  assume "blocks_of s i rs" "blocks_of s i rs'"
  then show "k (read_to_end cap [] rs) = k (read_to_end cap [] rs')"
    by (rule arg_cong [where f = k, OF blocks_read_to_end])
qed (rule assms)

lemma settled_hash:
  assumes "blake2b_ok C"
  shows "settled s (bind_task (map_err_task e (call_task (file_reads i))) (\<lambda>rs. lift_task (blake2b_512_stream C rs)))"
proof (rule settled_reads)
  fix rs rs'
  assume "blocks_of s i rs" "blocks_of s i rs'"
  then show "lift_task (blake2b_512_stream C rs) = lift_task (blake2b_512_stream C rs')"
    using assms by (rule arg_cong [where f = lift_task, OF blocks_hash])
qed (simp add: settled_intros)

lemma settled_reading [settled_intros]:
  "settled s (read_file_bounded_task p n)" "settled s (read_message_file_task p)"
  "blake2b_ok C \<Longrightarrow> settled s (hash_file_task C p)"
proof -
  have "settled s (bind_task (map_err_task e (call_task (file_reads i))) (\<lambda>reader.
      lift_task (read_bounded_string_from_reader reader p n)))" for i and e :: "io_error \<Rightarrow> error"
    unfolding read_bounded_string_from_reader_def
    by (rule settled_read_to_end [where k = "\<lambda>r. lift_task (and_then (map_err (FileRead p) r) _)"])
      (simp add: settled_intros)
  then show "settled s (read_file_bounded_task p n)"
    unfolding read_file_bounded_task_def by (simp add: settled_intros)
  have "settled s (bind_task (map_err_task e (call_task (file_reads i))) (\<lambda>reader.
      bind_task (lift_task (map_err (FileRead p) (read_to_end n [] reader))) k))"
    if "\<And>x. settled s (k x)" for i n and e :: "io_error \<Rightarrow> error" and k :: "bytes \<Rightarrow> (error, bytes) job"
    by (rule settled_read_to_end [where k = "\<lambda>r. bind_task (lift_task (map_err (FileRead p) r)) k"])
      (simp add: settled_intros that)
  then show "settled s (read_message_file_task p)"
    unfolding read_message_file_task_def by (simp add: settled_intros)
  show "settled s (hash_file_task C p)" if "blake2b_ok C"
    unfolding hash_file_task_def by (simp add: settled_intros settled_hash [OF that])
qed

lemma settled_verify_file:
  "blake2b_ok C \<Longrightarrow> settled s (verify_file_with_key_task C f pubkey opts)"
  by (simp add: verify_file_with_key_task_def load_signature_task_def verify_message_signature_task_def
      Let_def settled_intros)

section \<open>The job for a file\<close>

definition verify_lines ::
  "(path \<Rightarrow> string) \<Rightarrow> path \<Rightarrow> error + verify_result \<Rightarrow> verify_options \<Rightarrow> string list \<times> string list" where
  "verify_lines dbg f r opts =
     (case r of
        Inr x \<Rightarrow>
          (if vo_quiet opts then []
           else [''Verified: '' @ sanitised_path_display f @ [LF] @ ''  Trusted comment: ''
             @ vr_trusted_comment x @ [LF]], [])
      | Inl e \<Rightarrow>
          ([], [''Failed: '' @ sanitised_path_display f @ '' ('' @ display_error dbg e @ '')'' @ [LF]]))"

lemma report_verify_lines:
  "report_verify_result dbg f r opts w
     = (Inr (), w\<lparr>w_out := w_out w @ fst (verify_lines dbg f r opts),
                w_err := w_err w @ snd (verify_lines dbg f r opts)\<rparr>)"
  by (cases r) (simp_all add: report_verify_result_def verify_lines_def eprintln_def println_def
      print_err_def print_out_def ret_def)

lemma quiet_output [simp]:
  "quiet (w\<lparr>w_out := os\<rparr>) = quiet w" "quiet (w\<lparr>w_err := os\<rparr>) = quiet w"
  by (simp_all add: quiet_def honest_def faultless_def)

lemma verify_job_behaves:
  assumes "blake2b_ok C"
  shows "\<exists>r g. \<forall>h. behaves (reading s h) prints (\<lambda>x g'. x = (f, r) \<and> g' = ([], [])) g
    (verify_job C dbg pubkey opts f)"
proof -
  obtain r where r: "settles s r (verify_file_with_key_task C f pubkey opts)"
    using settled_verify_file [OF assms] unfolding settled_def by blast
  obtain os es where lines: "verify_lines dbg f r opts = (os, es)" by (rule prod.exhaust)
  have report: "behaves (reading s h) prints (\<lambda>x g'. g' = ([], [])) (os, es)
      (report_verify_result_task dbg f r opts :: (error, unit) job)" for h
    unfolding report_verify_result_task_def
    by (rule behaves_call) (auto simp: prints_def report_verify_lines lines)
  have "behaves (reading s h) prints (\<lambda>x g'. x = (f, r) \<and> g' = ([], [])) (os, es)
      (verify_job C dbg pubkey opts f)" for h
    unfolding verify_job_def
  proof (rule behaves_followed_by)
    show "behaves (reading s h) prints (\<lambda>x g'. x = r \<and> g' = (os, es)) (os, es)
        (verify_file_with_key_task C f pubkey opts)"
      using r unfolding settles_def by blast
    show "behaves (reading s h) prints (\<lambda>x g'. x = (f, r) \<and> g' = ([], [])) g
        (followed_by (report_verify_result_task dbg f x opts :: (error, unit) job) (\<lambda>_. Done (f, x)))"
      if "x = r \<and> g = (os, es)" for x g
      using that by (auto intro: behaves_followed_by [OF report])
  qed
  then show ?thesis by blast
qed

section \<open>The batch\<close>

definition owed :: "(string list \<times> string list) list \<Rightarrow> string multiset \<times> string multiset" where
  "owed gs = (sum_list (map (\<lambda>g. mset (fst g)) gs), sum_list (map (\<lambda>g. mset (snd g)) gs))"

text \<open>What is printed and what is still owed make up the same lines all the time.\<close>

definition accounts ::
  "fs \<Rightarrow> fs list \<Rightarrow> string multiset \<Rightarrow> string multiset \<Rightarrow> (string list \<times> string list) list \<Rightarrow> world \<Rightarrow> bool" where
  "accounts s h os0 es0 gs w \<longleftrightarrow>
     quiet w \<and> w_fs w = s \<and> w_trace w = h
     \<and> mset (w_out w) + fst (owed gs) = os0 \<and> mset (w_err w) + snd (owed gs) = es0"

lemma sum_list_replaced:
  fixes f :: "'a \<Rightarrow> 'b :: comm_monoid_add"
  shows "i < length gs \<Longrightarrow> f (gs ! i) + sum_list (map f (gs[i := g])) = f g + sum_list (map f gs)"
proof (induction gs arbitrary: i)
  case (Cons a gs)
  then show ?case by (cases i) (simp_all add: ac_simps)
qed simp

lemma owed_update:
  assumes "i < length gs" "fst (gs ! i) = os @ fst g" "snd (gs ! i) = es @ snd g"
  shows "mset os + fst (owed (gs[i := g])) = fst (owed gs)"
    and "mset es + snd (owed (gs[i := g])) = snd (owed gs)"
  using assms(2,3) sum_list_replaced [OF assms(1), of "\<lambda>g. mset (fst g)" g]
    sum_list_replaced [OF assms(1), of "\<lambda>g. mset (snd g)" g]
  by (simp_all add: owed_def ac_simps)

interpretation batch: pool "reading s h" prints "accounts s h os0 es0" for s h os0 es0
proof
  fix gs w i g w'
  show "reading s h (gs ! i) w" if "accounts s h os0 es0 gs w" "i < length gs"
    using that by (simp add: accounts_def reading_def)
  show "accounts s h os0 es0 (gs[i := g]) w'"
    if a: "accounts s h os0 es0 gs w" "i < length gs" "prints (gs ! i) w g w'"
  proof -
    obtain os es where l: "w_out w' = w_out w @ os" "fst (gs ! i) = os @ fst g"
      "w_err w' = w_err w @ es" "snd (gs ! i) = es @ snd g"
      using a(3) by (auto simp: prints_def)
    show ?thesis
      using a(1,3) l(1,3) owed_update [OF a(2) l(2,4)]
      by (auto simp: accounts_def prints_def)
  qed
qed

lemma verify_batch_settled:
  assumes "blake2b_ok C"
  shows "\<exists>rs os0 es0. \<forall>schedule w xs w'. quiet w \<longrightarrow> w_fs w = s \<longrightarrow>
     run_pool schedule (map (verify_job C dbg pubkey opts) files, w) = Some (xs, w') \<longrightarrow>
     xs = rs \<and> quiet w' \<and> w_fs w' = w_fs w \<and> w_trace w' = w_trace w
     \<and> mset (w_out w') = mset (w_out w) + os0 \<and> mset (w_err w') = mset (w_err w) + es0"
proof -
  let ?P = "\<lambda>f r g. \<forall>h. behaves (reading s h) prints (\<lambda>x g'. x = (f, r) \<and> g' = ([], [])) g
    (verify_job C dbg pubkey opts f)"
  have "\<forall>f. \<exists>rg. ?P f (fst rg) (snd rg)"
  proof
    fix f
    obtain r g where "?P f r g" using verify_job_behaves [OF assms, of s f dbg pubkey opts] by (elim exE)
    then show "\<exists>rg. ?P f (fst rg) (snd rg)" by (intro exI [of _ "(r, g)"]) simp
  qed
  then obtain rg0 where rg0: "\<forall>f. ?P f (fst (rg0 f)) (snd (rg0 f))" by (rule choice [THEN exE])
  define r where "r = fst \<circ> rg0"
  define g where "g = snd \<circ> rg0"
  have rg: "\<And>f. ?P f (r f) (g f)" unfolding r_def g_def o_apply by (rule spec [OF rg0])
  let ?gs = "map g files" and ?rs = "map (\<lambda>f. (f, r f)) files"
  have "xs = ?rs \<and> quiet w' \<and> w_fs w' = w_fs w \<and> w_trace w' = w_trace w
      \<and> mset (w_out w') = mset (w_out w) + fst (owed ?gs) \<and> mset (w_err w') = mset (w_err w) + snd (owed ?gs)"
    if w: "quiet w" "w_fs w = s"
      and run: "run_pool schedule (map (verify_job C dbg pubkey opts) files, w) = Some (xs, w')"
    for schedule w xs w'
  proof -
    let ?os = "mset (w_out w) + fst (owed ?gs)" and ?es = "mset (w_err w) + snd (owed ?gs)"
    have start: "accounts s (w_trace w) ?os ?es ?gs w" using w by (simp add: accounts_def)
    obtain gs' where gs: "accounts s (w_trace w) ?os ?es gs' w'" "length gs' = length files"
      "length xs = length files" "\<forall>i < length files. xs ! i = (files ! i, r (files ! i)) \<and> gs' ! i = ([], [])"
    proof -
      have "\<exists>gs'. accounts s (w_trace w) ?os ?es gs' w' \<and> length gs' = length (map (verify_job C dbg pubkey opts) files)
          \<and> length xs = length (map (verify_job C dbg pubkey opts) files)
          \<and> (\<forall>i < length (map (verify_job C dbg pubkey opts) files).
                xs ! i = (files ! i, r (files ! i)) \<and> gs' ! i = ([], []))"
        by (rule batch.results_in_order [OF run start]) (use rg in simp_all)
      then show thesis using that by auto
    qed
    have "xs = ?rs" by (rule nth_equalityI) (use gs in auto)
    moreover have "owed gs' = ({#}, {#})"
    proof -
      have "gs' = replicate (length files) ([], [])" by (rule nth_equalityI) (use gs in auto)
      moreover have "sum_list (replicate n ({#} :: string multiset)) = {#}" for n by (induction n) simp_all
      ultimately show ?thesis by (simp add: owed_def)
    qed
    ultimately show ?thesis using gs(1) w(2) by (simp add: accounts_def)
  qed
  then show ?thesis
    by (intro exI [of _ ?rs] exI [of _ "fst (owed ?gs)"] exI [of _ "snd (owed ?gs)"] allI impI)
qed

lemma verify_batch_schedules:
  assumes "blake2b_ok C" "quiet w"
    and "run_pool schedule (map (verify_job C dbg pubkey opts) files, w) = Some (xs, w')"
    and "run_each (map (verify_job C dbg pubkey opts) files) w = (ys, v)"
  shows "xs = ys \<and> w_fs w' = w_fs v \<and> w_trace w' = w_trace v
    \<and> mset (w_out w') = mset (w_out v) \<and> mset (w_err w') = mset (w_err v)"
proof -
  obtain in_turn where "run_pool in_turn (map (verify_job C dbg pubkey opts) files, w) = Some (ys, v)"
    using sequential_schedule assms(4) by metis
  then show ?thesis
    using verify_batch_settled [OF assms(1), of "w_fs w" dbg pubkey opts files] assms(2,3)
    by (elim exE) (metis (no_types))
qed

lemma print_summary_run:
  "\<exists>r es. \<forall>w. print_verify_summary results w = (r, w\<lparr>w_err := w_err w @ es\<rparr>)"
proof (cases "format_verify_summary results")
  case None
  then show ?thesis
    by (intro exI [of _ "Inr ()"] exI [of _ "[]"])
      (simp add: print_verify_summary_def print_summary_def format_verify_summary_def ret_def)
next
  case (Some s)
  then show ?thesis
    by (intro exI [of _ "if list_all (\<lambda>(f, r). \<not> is_ok r) results then Inl TotalFailure else Inl PartialFailure"]
        exI [of _ "[s]"])
      (simp add: print_verify_summary_def print_summary_def format_verify_summary_def bind_io_def print_err_def throw_def)
qed

definition verify_prologue :: "crates \<Rightarrow> verify_options \<Rightarrow> (error, pubkey_struct) io" where
  "verify_prologue C opts =
     bind_io (load_public_key C (vo_public_key opts)) (\<lambda>pubkey.
       bind_io (if \<not> vo_quiet opts then
          println (''Verifying with key: '' @ to_key_id (pk_keynum pubkey) @ '' (''
            @ keynum_to_words (pk_keynum pubkey) @ '')'')
        else ret ()) (\<lambda>_. ret pubkey))"

lemma bind_io_ret [simp]: "bind_io (ret x) f = f x"
  by (simp add: fun_eq_iff bind_io_def ret_def)

lemma verify_multiple_files_prologue:
  "verify_multiple_files C dbg B files opts sequential =
     bind_io (verify_prologue C opts) (\<lambda>pubkey.
       if length files = 1 then
         bind_io (verify_file_with_key C (files ! 0) pubkey opts) (\<lambda>result.
           report_verify_result dbg (files ! 0) (Inr result) opts)
       else
         bind_io (collect_verify_results C dbg B files pubkey opts sequential) print_verify_summary)"
  by (simp add: verify_multiple_files_def verify_prologue_def bind_io_assoc)

lemma looks_quiet: "looks w v \<Longrightarrow> quiet w \<Longrightarrow> quiet v"
  by (auto simp: looks_def intro: same_host_quiet)

lemma verify_prologue_quiet:
  assumes "verify_prologue C opts w = (r, v)" "quiet w"
  shows "quiet v"
proof -
  have "obeys looks (verify_prologue C opts)"
    by (simp add: verify_prologue_def load_public_key_def split: public_key_source.split)
  then show ?thesis using assms by (blast dest: obeysD looks_quiet)
qed

section \<open>With threads and without\<close>

text \<open>Two runs with the same outcome that leave the same files and the same lines, up to their order.\<close>

definition alike :: "world \<Rightarrow> world \<Rightarrow> bool" where
  "alike w v \<longleftrightarrow> w_fs w = w_fs v \<and> w_trace w = w_trace v
     \<and> mset (w_out w) = mset (w_out v) \<and> mset (w_err w) = mset (w_err v)"

lemma alike_refl [simp]: "alike w w"
  by (simp add: alike_def)

lemma verify_multiple_files_alike:
  assumes "quiet w" "blake2b_ok C" "verify_multiple_files C dbg B files opts sequential w = (r, w')"
  shows "\<exists>v. verify_multiple_files C dbg B files opts True w = (r, v) \<and> alike w' v"
proof -
  obtain p w1 where p: "verify_prologue C opts w = (p, w1)" by (rule prod.exhaust)
  have w1: "quiet w1" using verify_prologue_quiet [OF p assms(1)] .
  note seq = verify_multiple_files_prologue bind_io_def p
  show ?thesis
  proof (cases "\<exists>pubkey. p = Inr pubkey \<and> length files \<noteq> 1")
    case False
    then have "verify_multiple_files C dbg B files opts True w = (r, w')"
      using assms(3) by (cases p) (auto simp: seq)
    then show ?thesis by auto
  next
    case True
    then obtain pubkey where Inr: "p = Inr pubkey" and ne: "length files \<noteq> 1" by blast
    let ?jobs = "map (verify_job C dbg pubkey opts) files"
    obtain ys v where each: "run_each ?jobs w1 = (ys, v)" by (rule prod.exhaust)
    obtain schedule xs w2 where c: "collect_verify_results C dbg B files pubkey opts sequential w1 = (Inr xs, w2)"
      and run: "run_pool schedule (?jobs, w1) = Some (xs, w2)"
      by (rule collect_verify_results_schedule)
    have same: "xs = ys" "alike w2 v"
      using verify_batch_schedules [OF assms(2) w1 run each] by (simp_all add: alike_def)
    obtain r0 es where s: "\<forall>w. print_verify_summary ys w = (r0, w\<lparr>w_err := w_err w @ es\<rparr>)"
      using print_summary_run by blast
    have "r = r0" "w' = w2\<lparr>w_err := w_err w2 @ es\<rparr>" using assms(3) c s same(1) Inr ne by (auto simp: seq)
    moreover have "verify_multiple_files C dbg B files opts True w = (r0, v\<lparr>w_err := w_err v @ es\<rparr>)"
      using Inr ne each s by (simp add: seq collect_verify_results_def)
    ultimately show ?thesis using same(2) by (auto simp: alike_def)
  qed
qed

text \<open>The whole of \<open>-V\<close>.\<close>

lemma run_sequentially_flag [simp]: "run_sequentially B (cli\<lparr>cli_sequential := True\<rparr>)"
  by (simp add: run_sequentially_def)

lemma verify_options_flag [simp]:
  "all_message_files (cli\<lparr>cli_sequential := True\<rparr>) = all_message_files cli"
  "public_key_of_cli (cli\<lparr>cli_sequential := True\<rparr>) = public_key_of_cli cli"
  "verify_cli_options (cli\<lparr>cli_sequential := True\<rparr>) = verify_cli_options cli"
  "print_verified (cli\<lparr>cli_sequential := True\<rparr>) = print_verified cli"
  by (simp_all add: fun_eq_iff all_message_files_def public_key_of_cli_def unless_quiet_def
      verify_cli_options_def print_verified_def cong: if_cong option.case_cong)

lemma handle_verify_alike:
  assumes "quiet w" "blake2b_ok C" "handle_verify C dbg B cli w = (r, w')"
  shows "\<exists>v. handle_verify C dbg B (cli\<lparr>cli_sequential := True\<rparr>) w = (r, v) \<and> alike w' v"
proof -
  let ?files = "all_message_files cli"
  obtain p w1 where p: "public_key_of_cli cli w = (p, w1)" by (rule prod.exhaust)
  have "obeys looks (public_key_of_cli cli)" by (simp add: public_key_of_cli_def)
  then have w1: "quiet w1" using p assms(1) by (blast dest: obeysD looks_quiet)
  consider (batch) source where "?files \<noteq> []" "cli_password_file cli = None" "p = Inr source"
      "length ?files \<noteq> 1" "cli_signature_file cli = None" "\<not> cli_output cli"
    | (same) "handle_verify C dbg B (cli\<lparr>cli_sequential := True\<rparr>) w = handle_verify C dbg B cli w"
  proof (cases "?files = [] \<or> cli_password_file cli \<noteq> None \<or> (\<exists>e. p = Inl e) \<or> length ?files = 1
      \<or> cli_signature_file cli \<noteq> None \<or> cli_output cli")
    case True
    then have "handle_verify C dbg B (cli\<lparr>cli_sequential := True\<rparr>) w = handle_verify C dbg B cli w"
      using p by (elim disjE exE) (simp_all add: handle_verify_def bind_io_def Let_def cong: if_cong)
    then show thesis by (rule that(2))
  next
    case False
    then show thesis using that(1) by (cases p) auto
  qed
  then show ?thesis
  proof cases
    case batch
    let ?opts = "verify_cli_options cli source [] []"
    obtain q w2 where q: "verify_multiple_files C dbg B ?files ?opts (run_sequentially B cli) w1 = (q, w2)"
      by (rule prod.exhaust)
    obtain v where v: "verify_multiple_files C dbg B ?files ?opts True w1 = (q, v)" "alike w2 v"
      using verify_multiple_files_alike [OF w1 assms(2) q] by blast
    show ?thesis
      using assms(3) batch p q v by (cases q) (auto simp: handle_verify_def bind_io_def ret_def Let_def)
  next
    case same
    then show ?thesis using assms(3) by auto
  qed
qed

section \<open>What a success stands for\<close>

text \<open>What a result of a batch says of the message, as it is on the disk.\<close>

definition vouches ::
  "crates \<Rightarrow> pubkey_struct \<Rightarrow> bool \<Rightarrow> fs \<Rightarrow> path \<Rightarrow> error + verify_result \<Rightarrow> bool" where
  "vouches C pubkey force_prehashed s f r \<longleftrightarrow>
     (case r of
        Inl e \<Rightarrow> True
      | Inr res \<Rightarrow> \<exists>b :: sig_box.
          pk_keynum pubkey = ss_keynum (sb_sig_struct b)
          \<and> (force_prehashed \<longrightarrow> ss_prehashed (sb_sig_struct b))
          \<and> (\<forall>bs. regular s f bs \<longrightarrow>
               verify C (pk_public_key pubkey) (signed_data C (sb_sig_struct b) bs)
                 (ss_signature (sb_sig_struct b)) = Inr ())
          \<and> verify C (pk_public_key pubkey)
               (ss_signature (sb_sig_struct b) @ as_bytes (vr_trusted_comment res)) (sb_global_signature b) = Inr ())"

lemma verify_file_vouches:
  assumes "blake2b_ok C" "true_reads w"
  shows "vouches C pubkey (vo_force_prehashed opts) (w_fs w) f (fst (verify_file_with_key C f pubkey opts w))"
proof (cases "fst (verify_file_with_key C f pubkey opts w)")
  case (Inr res)
  then obtain b w1 out w2 where o: "load_signature C (f @ ''.minisig'') w = (Inr b, w1)"
    "verify_message_signature C pubkey b f (vo_force_prehashed opts) False w1 = (Inr out, w2)"
    "verify_global_signature C b (pk_public_key pubkey) = Inr ()" "res = verify_result_of pubkey b None"
    by (cases "verify_file_with_key C f pubkey opts w")
      (auto simp: verify_file_with_key_def Let_def bind_io_Inr lift_res_def ret_def)
  have "obeys looks (load_signature C (f @ ''.minisig''))" by (simp add: load_signature_def)
  then have "looks w w1" using o(1) by (rule obeysD)
  then have w1: "w_fs w1 = w_fs w" "true_reads w1"
    using assms(2) true_reads_looks by (auto simp: looks_def)
  have "verify C (pk_public_key pubkey) (signed_data C (sb_sig_struct b) bs) (ss_signature (sb_sig_struct b)) = Inr ()"
    if "regular (w_fs w) f bs" for bs
    using verify_message_true [OF o(2) assms(1) w1(2)] regular_sound [OF that] regular_unique [OF that] w1(1) by auto
  then show ?thesis
    using verify_message_signature_sound [OF o(2)] o(3,4)
    unfolding vouches_def Inr sum.case
    by (intro exI [of _ b]) (simp add: verify_result_of_def into_parts_def verify_global_signature_def)
qed (simp add: vouches_def)

section \<open>Properties\<close>

text \<open>C12: on a host that works, the flag \<open>--sequential\<close> changes nothing of \<open>-V\<close> but the order of its
  lines: with any number of threads, in any interleaving of their system calls and lines, the outcome
  is the same, the files are untouched, and the same lines are printed on both streams.\<close>

theorem parallel_verify_is_sequential:
  assumes "quiet w" "blake2b_ok C" "cli_action cli = Some Verify"
    and "run_cli C dbg B H cli w = (r, w')"
  shows "\<exists>v. run_cli C dbg B H (cli\<lparr>cli_sequential := True\<rparr>) w = (r, v)
    \<and> w_fs w' = w_fs v \<and> w_trace w' = w_trace v
    \<and> mset (w_out w') = mset (w_out v) \<and> mset (w_err w') = mset (w_err v)"
proof -
  let ?warn = "if cli_allow_kdf_fallback cli then
      eprintln (''Warning: --allow-kdf-fallback is deprecated and has no effect: ''
        @ ''scrypt cannot recover from a failed memory allocation.'')
    else ret () :: (error, unit) io"
  obtain w1 where w1: "?warn w = (Inr (), w1)"
    by (cases "cli_allow_kdf_fallback cli") (simp_all add: eprintln_def print_err_def ret_def)
  have "obeys looks ?warn" by simp
  then have "quiet w1" using w1 assms(1) by (blast dest: obeysD looks_quiet)
  moreover have "handle_verify C dbg B cli w1 = (r, w')"
    using assms(3,4) w1 by (simp add: run_cli_def dispatch_def bind_io_def ret_def)
  ultimately obtain v where "handle_verify C dbg B (cli\<lparr>cli_sequential := True\<rparr>) w1 = (r, v)" "alike w' v"
    using handle_verify_alike assms(2) by blast
  then have "run_cli C dbg B H (cli\<lparr>cli_sequential := True\<rparr>) w = (r, v)"
    using assms(3) w1 by (simp add: run_cli_def dispatch_def bind_io_def ret_def)
  then show ?thesis using \<open>alike w' v\<close> by (auto simp: alike_def)
qed

lemma ex_file_argument: "\<not> starts_with ''-'' (to_string_lossy ''k'')"
  by code_simp

lemma ex_parse_batch:
  assumes "\<And>t. s \<noteq> CHR ''-'' # t"
  shows "\<exists>cli. parse_args ref_pico ex_build [''-V'', ''-P'', s, ''-m'', ''m'', ''k''] = Inr cli
    \<and> cli_action cli = Some Verify \<and> all_message_files cli = [''m'', ''k''] \<and> \<not> cli_sequential cli"
  using assms
  by (simp add: parse_args_def parse_action_def ACTION_FLAGS_def parse_fields_def bind_parse_def flag_def
      either_flag_def opt_value_def return_parse_def ref_pico_def map_err_def reject_conflicts_def
      take_remaining_def ex_build_def and_then_def all_message_files_def ex_file_argument)

theorem parallel_verify_is_sequential_witness:
  "\<exists>cli. parse_args ref_pico ex_build [''-V'', ''-P'', ex_key_arg, ''-m'', ''m'', ''k''] = Inr cli
     \<and> \<not> cli_sequential cli
     \<and> mset (w_err (snd (run_cli ref_crates (\<lambda>p. p) ex_build (ex_host []) cli (ex_world ex_key_fs))))
       = mset (w_err (snd (run_cli ref_crates (\<lambda>p. p) ex_build (ex_host [])
           (cli\<lparr>cli_sequential := True\<rparr>) (ex_world ex_key_fs))))"
proof -
  obtain cli where cli: "parse_args ref_pico ex_build [''-V'', ''-P'', ex_key_arg, ''-m'', ''m'', ''k''] = Inr cli"
    "cli_action cli = Some Verify" "\<not> cli_sequential cli"
    using ex_parse_batch [OF ex_key_arg_plain] by blast
  have "mset (w_err (snd (run_cli ref_crates (\<lambda>p. p) ex_build (ex_host []) cli (ex_world ex_key_fs))))
       = mset (w_err (snd (run_cli ref_crates (\<lambda>p. p) ex_build (ex_host [])
           (cli\<lparr>cli_sequential := True\<rparr>) (ex_world ex_key_fs))))"
    using parallel_verify_is_sequential [where w = "ex_world ex_key_fs" and C = ref_crates and cli = cli
        and dbg = "\<lambda>p. p" and B = ex_build and H = "ex_host []",
        OF ex_quiet ref_blake2b_ok cli(2) surjective_pairing] by (elim exE conjE) simp
  then show ?thesis using cli by blast
qed

text \<open>C13: with threads, however they interleave and whatever calls fail, as long as reads deliver what the
  files hold: a batch of verifications gives one result for each file, in the order of the files, touches
  no file, and each result that is a success stands for a signature that verifies under the key given for
  the message as it is on the disk, and for a global signature over the trusted comment reported.\<close>

theorem parallel_verify_sound:
  assumes "collect_verify_results C dbg B files pubkey opts sequential w = (Inr results, w')"
    and "blake2b_ok C" "\<forall>n bs. delivers (w_reads w n bs) bs"
  shows "map fst results = files \<and> w_fs w' = w_fs w \<and> w_trace w' = w_trace w
    \<and> (\<forall>(f, r) \<in> set results. case r of Inl e \<Rightarrow> True | Inr res \<Rightarrow>
        \<exists>b :: sig_box. pk_keynum pubkey = ss_keynum (sb_sig_struct b)
          \<and> (vo_force_prehashed opts \<longrightarrow> ss_prehashed (sb_sig_struct b))
          \<and> (\<forall>bs. regular (w_fs w) f bs \<longrightarrow>
               verify C (pk_public_key pubkey) (signed_data C (sb_sig_struct b) bs)
                 (ss_signature (sb_sig_struct b)) = Inr ())
          \<and> verify C (pk_public_key pubkey)
               (ss_signature (sb_sig_struct b) @ as_bytes (vr_trusted_comment res)) (sb_global_signature b) = Inr ())"
proof -
  obtain rs v where "collect_verify_results C dbg B files pubkey opts sequential w = (Inr rs, v)"
    "map fst rs = files"
    "\<forall>(f, r) \<in> set rs. \<exists>v. retimed w v \<and> r = fst (verify_file_with_key C f pubkey opts v)"
    using collect_verify_results_run by blast
  then have order: "map fst results = files"
    and each: "\<forall>(f, r) \<in> set results. \<exists>v. retimed w v \<and> r = fst (verify_file_with_key C f pubkey opts v)"
    using assms(1) by auto
  have "looks w w'" by (rule obeysD [OF lookers.batch_verified assms(1)])
  then have still: "w_fs w' = w_fs w" "w_trace w' = w_trace w" by (simp_all add: looks_def)
  have "\<forall>(f, r) \<in> set results. vouches C pubkey (vo_force_prehashed opts) (w_fs w) f r"
  proof (clarify)
    fix f r
    assume "(f, r) \<in> set results"
    then obtain v where v: "retimed w v" "r = fst (verify_file_with_key C f pubkey opts v)" using each by auto
    have "true_reads v" using true_reads_retimed [OF v(1)] assms(3) by (simp add: true_reads_def)
    from verify_file_vouches [OF assms(2) this, of pubkey opts f] v
    show "vouches C pubkey (vo_force_prehashed opts) (w_fs w) f r" by (simp add: retimed_def)
  qed
  with order still show ?thesis unfolding vouches_def by (intro conjI)
qed

theorem parallel_verify_sound_witness:
  "\<exists>results w'. collect_verify_results ref_crates (\<lambda>p. p) ex_build [''m'', ''k'']
       (signer_key ref_crates (replicate 64 5) (replicate 8 7)) (verify_builder (SourceFile []) [] []) False
       (ex_world ex_key_fs) = (Inr results, w')
     \<and> map fst results = [''m'', ''k''] \<and> w_fs w' = ex_key_fs"
proof -
  obtain results w' where "collect_verify_results ref_crates (\<lambda>p. p) ex_build [''m'', ''k'']
       (signer_key ref_crates (replicate 64 5) (replicate 8 7)) (verify_builder (SourceFile []) [] []) False
       (ex_world ex_key_fs) = (Inr results, w')"
    using collect_verify_results_run by blast
  moreover have "\<forall>n bs. delivers (w_reads (ex_world ex_key_fs) n bs) bs"
    using ex_quiet [of ex_key_fs] by (simp add: quiet_def honest_def)
  ultimately show ?thesis
    using parallel_verify_sound [OF _ ref_blake2b_ok, of "\<lambda>p. p" ex_build "[''m'', ''k'']"] by fastforce
qed

end
