(* ===== verification/Parallel_Sign.thy ===== *)
theory Parallel_Sign
  imports Parallel_Verify
begin

text \<open>
  Batches of signatures with threads, without force. Here the tasks do write, each the file of its
  own signature, while others do the same. The ghost of a task is the file it has made: its place, its
  inode and its bytes. No step of another task touches it, and none touches what was there before.
\<close>

section \<open>The place of a signature\<close>

lemma split_slash_suffix:
  "SLASH \<notin> set v \<Longrightarrow> split_slash (p @ v) = butlast (split_slash p) @ [last (split_slash p) @ v]"
proof (induction p)
  case Nil
  then show ?case by (simp add: split_slash_plain)
next
  case (Cons c p)
  obtain a as where s: "split_slash p = a # as" by (cases "split_slash p") simp_all
  then show ?case using Cons by (cases as) auto
qed

lemma file_name_minisig: "file_name (p @ ''.minisig'') \<noteq> None"
proof -
  have plain: "SLASH \<notin> set ''.minisig''" by simp
  let ?ws = "butlast (split_slash p)" and ?w = "last (split_slash p) @ ''.minisig''"
  have s: "split_slash (p @ ''.minisig'') = ?ws @ [?w]" using plain by (rule split_slash_suffix)
  have w: "?w \<noteq> []" "?w \<noteq> ''.''" "?w \<noteq> ''..''"
    using arg_cong [of ?w _ length] by fastforce+
  have body: "body_components (ws @ [?w]) = body_components ws @ [NormalComp ?w]" for ws
    using w by (simp add: body_components_def component_of_def)
  have "\<exists>cs. components (p @ ''.minisig'') = cs @ [NormalComp ?w]"
  proof (cases p)
    case Nil
    have "components ''.minisig'' = [] @ [NormalComp (last (split_slash []) @ ''.minisig'')]" by code_simp
    then show ?thesis unfolding Nil by (intro exI [of _ "[]"]) (simp only: append_Nil)
  next
    case (Cons c q)
    show ?thesis
    proof (cases "c = SLASH")
      case True
      have "split_slash (q @ ''.minisig'') = butlast (split_slash q) @ [last (split_slash q) @ ''.minisig'']"
        using plain by (rule split_slash_suffix)
      moreover have "last (split_slash p) = last (split_slash q)" using Cons True by simp
      ultimately show ?thesis using Cons True body by (auto simp: components_def)
    next
      case False
      show ?thesis
      proof (cases ?ws)
        case Nil
        then have "split_slash (p @ ''.minisig'') = [?w]" using s by simp
        moreover have "body_components [?w] = [NormalComp ?w]" using body [of "[]"] by (simp add: body_components_def)
        ultimately have "components (p @ ''.minisig'') = [NormalComp ?w]"
          using \<open>p = c # q\<close> False w(2) by (simp add: components_def del: split_slash.simps)
        then show ?thesis by (intro exI [of _ "[]"]) simp
      next
        case (Cons a as)
        then show ?thesis
          using \<open>p = c # q\<close> False s body [of as] body [of "a # as"]
          by (auto simp: components_def split: list.split)
      qed
    qed
  qed
  then show ?thesis by (auto simp: file_name_def)
qed

section \<open>Files made and files read\<close>

type_synonym made = "(loc \<times> nat \<times> bytes) option"

definition inode_of :: "made \<Rightarrow> nat set" where
  "inode_of g = (case g of None \<Rightarrow> {} | Some (l, n, bs) \<Rightarrow> {n})"

definition known :: "fs \<Rightarrow> made \<Rightarrow> world \<Rightarrow> bool" where
  "known s g w \<longleftrightarrow>
     wf_fs s \<and> additive s (w_fs w) \<and> true_reads w
     \<and> (case g of
          None \<Rightarrow> True
        | Some (l, n, bs) \<Rightarrow>
            lookup (w_fs w) l = Some (FileAt n) \<and> map_option i_bytes (fs_inodes (w_fs w) n) = Some bs
            \<and> fs_next s \<le> n \<and> n < fs_next (w_fs w))"

definition adds :: "fs \<Rightarrow> made \<Rightarrow> world \<Rightarrow> made \<Rightarrow> world \<Rightarrow> bool" where
  "adds s g w g' w' \<longleftrightarrow>
     known s g' w' \<and> passes (additive s) w w' \<and> fs_next (w_fs w) \<le> fs_next (w_fs w')
     \<and> (\<forall>l e. lookup (w_fs w) l = Some e \<longrightarrow> lookup (w_fs w') l = Some e)
     \<and> (\<forall>n < fs_next (w_fs w). n \<notin> inode_of g \<longrightarrow> fs_inodes (w_fs w') n = fs_inodes (w_fs w) n)
     \<and> inode_of g' \<subseteq> inode_of g \<union> {fs_next (w_fs w)..<fs_next (w_fs w')}"

lemma looks_adds: "known s g w \<Longrightarrow> looks w w' \<Longrightarrow> adds s g w g w'"
  by (auto simp: adds_def known_def looks_def same_host_def true_reads_def passes_refl
      split: option.splits)

definition signing :: "fs \<Rightarrow> world \<Rightarrow> made list \<Rightarrow> world \<Rightarrow> bool" where
  "signing s v gs w \<longleftrightarrow>
     passes (additive s) v w \<and> (\<forall>i < length gs. known s (gs ! i) w)
     \<and> (\<forall>i < length gs. \<forall>j < length gs. i \<noteq> j \<longrightarrow> inode_of (gs ! i) \<inter> inode_of (gs ! j) = {})"

lemma known_inode: "known s g w \<Longrightarrow> n \<in> inode_of g \<Longrightarrow> n < fs_next (w_fs w)"
  by (auto simp: known_def inode_of_def split: option.splits)

lemma adds_known_other:
  assumes "adds s g w g' w'" "known s h w" "inode_of h \<inter> inode_of g = {}"
  shows "known s h w'"
proof (cases h)
  case None
  then show ?thesis using assms(1) by (simp add: adds_def known_def)
next
  case (Some x)
  obtain l n bs where x: "x = (l, n, bs)" by (cases x)
  have "n < fs_next (w_fs w)" "n \<notin> inode_of g"
    using known_inode [OF assms(2)] assms(3) Some x by (auto simp: inode_of_def)
  then have "fs_inodes (w_fs w') n = fs_inodes (w_fs w) n" using assms(1) by (simp add: adds_def)
  then show ?thesis using assms(1,2) Some x by (auto simp: adds_def known_def)
qed

interpretation signers: pool "known s" "adds s" "signing s v" for s v
proof
  fix gs w i g w'
  show "known s (gs ! i) w" if "signing s v gs w" "i < length gs"
    using that by (simp add: signing_def)
  show "signing s v (gs[i := g]) w'"
    if a: "signing s v gs w" "i < length gs" "adds s (gs ! i) w g w'"
  proof -
    have "known s (gs[i := g] ! j) w'" if "j < length gs" for j
      using a that adds_known_other [OF a(3), of "gs ! j"]
      by (cases "j = i") (auto simp: signing_def adds_def)
    moreover have "inode_of (gs[i := g] ! j) \<inter> inode_of (gs[i := g] ! k) = {}"
      if "j < length gs" "k < length gs" "j \<noteq> k" for j k
    proof -
      have new: "inode_of g \<inter> inode_of (gs ! m) = {}" if "m < length gs" "m \<noteq> i" for m
      proof -
        have "\<forall>n \<in> inode_of (gs ! m). n < fs_next (w_fs w)"
          using a(1) that(1) known_inode by (auto simp: signing_def)
        moreover have "inode_of (gs ! i) \<inter> inode_of (gs ! m) = {}"
          using a(1,2) that by (auto simp: signing_def)
        moreover have "inode_of g \<subseteq> inode_of (gs ! i) \<union> {fs_next (w_fs w)..<fs_next (w_fs w')}"
          using a(3) by (simp add: adds_def)
        ultimately show ?thesis by fastforce
      qed
      show ?thesis
        using a(1) that new [of j] new [of k]
        by (cases "j = i"; cases "k = i") (auto simp: signing_def)
    qed
    moreover have "passes (additive s) v w'"
      using a(1,3) by (auto simp: signing_def adds_def intro: passes_trans)
    ultimately show ?thesis by (simp add: signing_def)
  qed
qed

section \<open>Reading while others write\<close>

definition asks :: "fs \<Rightarrow> ('a \<Rightarrow> bool) \<Rightarrow> 'a task \<Rightarrow> bool" where
  "asks s Q t \<longleftrightarrow> (\<forall>g. behaves (known s) (adds s) (\<lambda>x g'. Q x \<and> g' = g) g t)"

abbreviation only_looks :: "'a task \<Rightarrow> bool" where
  "only_looks t \<equiv> within (\<lambda>_. True) looks t"

lemma asks_only_looks:
  assumes "only_looks t"
  shows "asks s (\<lambda>_. True) t"
  unfolding asks_def
proof
  fix g
  have "behaves (known s) (adds s) (\<lambda>x g'. True \<and> g' = g) g t"
    if "behaves (\<lambda>_ _. True) (\<lambda>_ w _ w'. looks w w') (\<lambda>_ _. True) u t" for u :: unit
    using that
  proof induction
    case (ended x u)
    then show ?case by simp
  next
    case (steps u f)
    show ?case
    proof (rule behaves.steps)
      fix w t w'
      assume "known s g w" "f w = (t, w')"
      then show "\<exists>g'. adds s g w g' w' \<and> behaves (known s) (adds s) (\<lambda>x g'. True \<and> g' = g) g' t"
        using steps.IH [of w t w'] looks_adds [of s g w w'] by auto
    qed
  qed
  then show "behaves (known s) (adds s) (\<lambda>x g'. True \<and> g' = g) g t"
    using assms unfolding within_def .
qed

lemma asks_call:
  assumes "obeys looks m" "\<And>w r w'. wf_fs s \<Longrightarrow> additive s (w_fs w) \<Longrightarrow> true_reads w \<Longrightarrow> m w = (r, w') \<Longrightarrow> Q r"
  shows "asks s Q (call_task m)"
  unfolding asks_def
proof (intro allI behaves_call)
  fix g w r w'
  assume "known s g w" "m w = (r, w')"
  then show "\<exists>g'. adds s g w g' w' \<and> (Q r \<and> g' = g)"
    using assms(2) [of w r w'] looks_adds obeysD [OF assms(1)] by (auto simp: known_def)
qed

lemma asks_bind:
  assumes "asks s R t" "\<And>e. R (Inl e) \<Longrightarrow> Q (Inl e)" "\<And>x. R (Inr x) \<Longrightarrow> asks s Q (k x)"
  shows "asks s Q (bind_task t k)"
  unfolding asks_def
proof
  fix g
  have t: "behaves (known s) (adds s) (\<lambda>x g'. R x \<and> g' = g) g t" using assms(1) by (simp add: asks_def)
  show "behaves (known s) (adds s) (\<lambda>x g'. Q x \<and> g' = g) g (bind_task t k)"
    by (rule behaves_bind [OF t]) (use assms(2,3) in \<open>auto simp: asks_def\<close>)
qed

lemma asks_map_err: "asks s (\<lambda>r. Q (map_err f r)) t \<Longrightarrow> asks s Q (map_err_task f t)"
  by (simp add: asks_def behaves_map_err)

lemma asks_ends: "Q (Inr x) \<Longrightarrow> asks s Q (ret_task x)" "Q (Inl e) \<Longrightarrow> asks s Q (throw_task e)" "Q r \<Longrightarrow> asks s Q (lift_task r)"
  by (simp_all add: asks_def behaves_ret behaves_throw behaves_lift)

text \<open>A message that was there from the start is opened and read as it was.\<close>

definition opened :: "fs \<Rightarrow> path \<Rightarrow> handle \<Rightarrow> bool" where
  "opened s p h \<longleftrightarrow>
     (\<forall>bs. regular s p bs \<longrightarrow>
        (\<exists>i n. h = FileHandle i \<and> i < fs_next s \<and> fs_inodes s i = Some n \<and> i_bytes n = bs))"

lemma sys_open_opened:
  assumes "wf_fs s" "additive s s'" "sys_open p s' = Inr h"
  shows "opened s p h"
  unfolding opened_def
proof (intro allI impI)
  fix bs
  assume "regular s p bs"
  then obtain l i n where r: "resolve s p = Inr l" "lookup s l = Some (FileAt i)" "fs_inodes s i = Some n"
    "i_bytes n = bs" by (auto simp: regular_resolve)
  have "resolve s' p = Inr l" using r(1,2) assms(2) by (rule resolve_additive)
  then have "h = FileHandle i"
    using assms(3) additive_lookup [OF assms(2) r(2)] by (simp add: sys_open_def)
  moreover have "i < fs_next s" using assms(1) r(2) by (auto simp: wf_fs_def)
  ultimately show "\<exists>i n. h = FileHandle i \<and> i < fs_next s \<and> fs_inodes s i = Some n \<and> i_bytes n = bs"
    using r by blast
qed

lemma asks_open:
  "asks s (\<lambda>r. \<forall>h. r = Inr h \<longrightarrow> opened s p h) (map_err_task e (call_task (open_file p)))"
  by (rule asks_map_err, rule asks_call, simp)
    (auto simp: open_file_def query_def Let_def map_err_def sys_open_opened split: option.splits sum.splits)

lemma asks_reads:
  assumes "opened s p h"
  shows "asks s (\<lambda>r. \<forall>rs bs. r = Inr rs \<longrightarrow> regular s p bs \<longrightarrow> delivers rs bs)
    (map_err_task e (call_task (file_reads h)))"
proof (intro asks_map_err asks_call)
  fix w r w'
  assume w: "wf_fs s" "additive s (w_fs w)" "true_reads w" "file_reads h w = (r, w')"
  show "\<forall>rs bs. map_err e r = Inr rs \<longrightarrow> regular s p bs \<longrightarrow> delivers rs bs"
  proof (intro allI impI)
    fix rs bs
    assume r: "map_err e r = Inr rs" and "regular s p bs"
    then obtain i n where i: "h = FileHandle i" "i < fs_next s" "fs_inodes s i = Some n" "i_bytes n = bs"
      using assms by (auto simp: opened_def)
    have "fs_inodes (w_fs w) i = Some n" using w(2) i(2,3) by (simp add: additive_def)
    then show "delivers rs bs"
      using w(3,4) r i(1,4) by (auto simp: file_reads_def query_def Let_def true_reads_def map_err_def
          split: option.splits sum.splits)
  qed
qed simp

lemma asks_opening:
  assumes "\<And>h. opened s p h \<Longrightarrow> asks s Q (k h)" "\<And>x. Q (Inl x)"
  shows "asks s Q (bind_task (map_err_task e (call_task (open_file p))) k)"
  by (rule asks_bind [OF asks_open]) (use assms in auto)

lemma asks_reading:
  assumes "opened s p h" "\<And>rs. (\<And>bs. regular s p bs \<Longrightarrow> delivers rs bs) \<Longrightarrow> asks s Q (k rs)" "\<And>x. Q (Inl x)"
  shows "asks s Q (bind_task (map_err_task e (call_task (file_reads h))) k)"
  by (rule asks_bind [OF asks_reads [OF assms(1)]]) (use assms(2,3) in auto)

lemma asks_lift:
  "(\<And>x. r = Inr x \<Longrightarrow> asks s Q (k x)) \<Longrightarrow> (\<And>e. Q (Inl e)) \<Longrightarrow> asks s Q (bind_task (lift_task r) k)"
  by (rule asks_bind [where R = "\<lambda>x. x = r"]) (auto intro: asks_ends)

lemma asks_message: "asks s (\<lambda>r. \<forall>x bs. r = Inr x \<longrightarrow> regular s p bs \<longrightarrow> x = bs) (read_message_file_task p)"
  unfolding read_message_file_task_def
proof (rule asks_opening)
  fix h
  assume h: "opened s p h"
  let ?Q = "\<lambda>r :: error + bytes. \<forall>x bs. r = Inr x \<longrightarrow> regular s p bs \<longrightarrow> x = bs"
  have rest: "asks s ?Q (bind_task (map_err_task (FileRead p) (call_task (file_reads h))) (\<lambda>reader.
      bind_task (lift_task (map_err (FileRead p) (read_to_end (MAX_MESSAGE_SIZE_BYTES + 1) [] reader))) (\<lambda>buf.
        if length buf > MAX_MESSAGE_SIZE_BYTES then throw_task (message_too_large (length buf)) else ret_task buf)))"
  proof (rule asks_reading [OF h], rule asks_lift)
    fix rs buf
    assume d: "\<And>bs. regular s p bs \<Longrightarrow> delivers rs bs"
      and b: "map_err (FileRead p) (read_to_end (MAX_MESSAGE_SIZE_BYTES + 1) [] rs) = Inr buf"
    have "buf = bs" if "regular s p bs" "\<not> length buf > MAX_MESSAGE_SIZE_BYTES" for bs
      using read_to_end_delivers [OF d [OF that(1)], of "[]" "MAX_MESSAGE_SIZE_BYTES + 1"] b that(2)
      by (auto simp: map_err_def)
    then show "asks s ?Q (if length buf > MAX_MESSAGE_SIZE_BYTES then throw_task (message_too_large (length buf))
        else ret_task buf)"
      by (auto intro!: asks_ends)
  qed simp_all
  show "asks s ?Q (bind_task (map_err_task (FileRead p) (call_task (fstat h))) (\<lambda>m.
      if st_len m > MAX_MESSAGE_SIZE_BYTES then throw_task (message_too_large (st_len m))
      else bind_task (map_err_task (FileRead p) (call_task (file_reads h))) (\<lambda>reader.
      bind_task (lift_task (map_err (FileRead p) (read_to_end (MAX_MESSAGE_SIZE_BYTES + 1) [] reader))) (\<lambda>buf.
        if length buf > MAX_MESSAGE_SIZE_BYTES then throw_task (message_too_large (length buf)) else ret_task buf))))"
  proof (rule asks_bind [OF asks_only_looks])
    fix m
    show "asks s ?Q (if st_len m > MAX_MESSAGE_SIZE_BYTES then throw_task (message_too_large (st_len m))
      else bind_task (map_err_task (FileRead p) (call_task (file_reads h))) (\<lambda>reader.
      bind_task (lift_task (map_err (FileRead p) (read_to_end (MAX_MESSAGE_SIZE_BYTES + 1) [] reader))) (\<lambda>buf.
        if length buf > MAX_MESSAGE_SIZE_BYTES then throw_task (message_too_large (length buf)) else ret_task buf)))"
      using rest by (cases "st_len m > MAX_MESSAGE_SIZE_BYTES") (auto intro: asks_ends)
  qed simp_all
qed simp

lemma asks_hash:
  assumes "blake2b_ok C"
  shows "asks s (\<lambda>r. \<forall>x bs. r = Inr x \<longrightarrow> regular s p bs \<longrightarrow> x = blake2b_512 C bs) (hash_file_task C p)"
  unfolding hash_file_task_def
proof (rule asks_opening)
  fix h
  assume h: "opened s p h"
  show "asks s (\<lambda>r. \<forall>x bs. r = Inr x \<longrightarrow> regular s p bs \<longrightarrow> x = blake2b_512 C bs)
     (bind_task (map_err_task (\<lambda>e. Io (''failed to read data for hashing: '' @ io_text e)) (call_task (file_reads h)))
       (\<lambda>reader. lift_task (blake2b_512_stream C reader)))"
    by (rule asks_reading [OF h])
      (auto intro!: asks_ends dest: blake2b_stream_delivers [OF assms, rotated])
qed simp

lemma asks_data:
  assumes "blake2b_ok C"
  shows "asks s (\<lambda>r. \<forall>x bs. r = Inr x \<longrightarrow> regular s p bs \<longrightarrow> x = (if prehashed then blake2b_512 C bs else bs))
    (data_to_sign_task C p prehashed)"
  using asks_hash [OF assms, of s p] asks_message [of s p] by (simp add: data_to_sign_task_def)

text \<open>What a signature that is made stands for: it was made over the message as it was.\<close>

definition signs :: "crates \<Rightarrow> secret_key \<Rightarrow> key_num \<Rightarrow> fs \<Rightarrow> sign_options \<Rightarrow> path \<Rightarrow> sig_box \<Rightarrow> bool" where
  "signs C sk keynum s opts p b \<longleftrightarrow>
     (\<exists>t data.
        sign_and_check C sk keynum (so_prehashed opts) t (untrusted_comment_of opts) data = Inr b
        \<and> (case so_trusted_comment opts of Some c \<Rightarrow> t = c | None \<Rightarrow> is_utf8 t)
        \<and> (\<forall>bs. regular s p bs \<longrightarrow> data = (if so_prehashed opts then blake2b_512 C bs else bs)))"

lemma signs_verifies:
  assumes "signs C sk keynum s opts p b"
  shows "ss_keynum (sb_sig_struct b) = keynum \<and> ss_prehashed (sb_sig_struct b) = so_prehashed opts
    \<and> (\<forall>bs. regular s p bs \<longrightarrow> verify C (ed_public C sk)
         (if so_prehashed opts then blake2b_512 C bs else bs) (ss_signature (sb_sig_struct b)) = Inr ())
    \<and> verify_global_signature C b (ed_public C sk) = Inr ()"
proof -
  obtain t data where s: "sign_and_check C sk keynum (so_prehashed opts) t (untrusted_comment_of opts) data = Inr b"
    "\<forall>bs. regular s p bs \<longrightarrow> data = (if so_prehashed opts then blake2b_512 C bs else bs)"
    using assms by (auto simp: signs_def)
  from sign_and_check_Inr [OF s(1)] s(2) show ?thesis by auto
qed

lemma asks_comment:
  "asks s (\<lambda>r. \<forall>t. r = Inr t \<longrightarrow> (case tc of Some c \<Rightarrow> t = c | None \<Rightarrow> is_utf8 t))
     (case tc of Some c \<Rightarrow> ret_task c | None \<Rightarrow> default_trusted_comment_task p prehashed)"
proof (cases tc)
  case None
  have "asks s (\<lambda>r. \<forall>t. r = Inr t \<longrightarrow> is_utf8 t) (default_trusted_comment_task p prehashed)"
    unfolding default_trusted_comment_task_def by (rule asks_call) (auto dest: default_comment_utf8)
  then show ?thesis using None by simp
qed (auto intro: asks_ends)

lemma asks_signature:
  assumes "blake2b_ok C"
  shows "asks s (\<lambda>r. \<forall>b. r = Inr b \<longrightarrow> signs C sk keynum s opts p b)
    (create_signature_task C sk keynum p (so_prehashed opts) (so_trusted_comment opts) (so_untrusted_comment opts))"
  unfolding create_signature_task_def untrusted_comment_of_def [symmetric]
proof (rule asks_bind [OF asks_comment])
  fix t
  assume t: "\<forall>u. Inr t = (Inr u :: error + string) \<longrightarrow> (case so_trusted_comment opts of Some c \<Rightarrow> u = c | None \<Rightarrow> is_utf8 u)"
  let ?Q = "\<lambda>r :: error + sig_box. \<forall>b. r = Inr b \<longrightarrow> signs C sk keynum s opts p b"
  show "asks s ?Q (let untrusted_comment = untrusted_comment_of opts
       in bind_task (lift_task (validate_comment_with_length untrusted_comment
                     (Some (COMMENTMAXBYTES - COMMENT_PREFIX_SIZE)) ''untrusted'')) (\<lambda>_.
          bind_task (lift_task (validate_comment_with_length t
                     (Some (TRUSTEDCOMMENTMAXBYTES - TRUSTED_COMMENT_PREFIX_SIZE)) ''trusted'')) (\<lambda>_.
          bind_task (data_to_sign_task C p (so_prehashed opts)) (\<lambda>data.
            lift_task (sign_and_check C sk keynum (so_prehashed opts) t untrusted_comment data)))))"
    unfolding Let_def
  proof (intro asks_lift asks_bind [OF asks_data [OF assms]])
    fix data
    assume d: "\<forall>x bs. Inr data = Inr x \<longrightarrow> regular s p bs \<longrightarrow> x = (if so_prehashed opts then blake2b_512 C bs else bs)"
    have "signs C sk keynum s opts p b"
      if "sign_and_check C sk keynum (so_prehashed opts) t (untrusted_comment_of opts) data = Inr b" for b
      unfolding signs_def using that t d by (intro exI [of _ t] exI [of _ data]) auto
    then show "asks s ?Q (lift_task (sign_and_check C sk keynum (so_prehashed opts) t (untrusted_comment_of opts) data))"
      by (auto intro!: asks_ends)
  qed simp_all
qed simp

section \<open>Writing while others write\<close>

lemma adds_create:
  assumes "known s None w" "file_name p = Some n" "create_new p m w = (r, w')"
  shows "\<exists>g. adds s None w g w'
    \<and> (\<forall>i. r = Inr i \<longrightarrow> (\<exists>l. g = Some (l, i, []) \<and> resolve_entry s p = Inr l \<and> lookup s l = None))"
proof -
  have k: "wf_fs s" "additive s (w_fs w)" "true_reads w" using assms(1) by (simp_all add: known_def)
  consider (fault) e where "r = Inl e" "w' = w\<lparr>w_calls := Suc (w_calls w)\<rparr>"
    | (made) f t where "sys_create_new p (masked m w) t (w_fs w) = (r, f)"
        "w' = commit f (w\<lparr>w_calls := Suc (w_calls w)\<rparr>)"
    using assms(3) by (auto simp: create_new_def update_def Let_def split: option.splits prod.splits)
  then show ?thesis
  proof cases
    case fault
    then have "looks w w'" by (simp add: looks_def same_host_def)
    then show ?thesis using fault(1) looks_adds [OF assms(1)] by blast
  next
    case made
    have a: "additive s f" "case r of Inl e \<Rightarrow> f = w_fs w | Inr i \<Rightarrow> fresh s p \<and> fs_next s \<le> i"
      using additive_create [OF k(2) assms(2) made(1)] by auto
    have w': "w_fs w' = f" "passes (additive s) w w'" "true_reads w'"
      using made(2) a(1) k(3) by (auto simp: commit_def true_reads_def intro: passes_snoc)
    show ?thesis
    proof (cases r)
      case (Inl e)
      then have "adds s None w None w'" using w' a k by (simp add: adds_def known_def)
      then show ?thesis using Inl by blast
    next
      case (Inr i)
      obtain l where l: "resolve_entry (w_fs w) p = Inr l" "lookup (w_fs w) l = None"
        and f: "add_file l (masked m w) t (w_fs w) = (i, f)"
        using made(1) Inr by (auto simp: sys_create_new_def split: sum.splits option.splits prod.splits)
      have ne: "l \<noteq> []" using l(2) by (auto simp: lookup_def)
      have old: "resolve_entry s p = Inr l" "lookup s l = None"
        using l additive_resolve [OF assms(2) k(2)] k(2) by (auto simp: additive_def)
      have i: "i = fs_next (w_fs w)" "fs_next f = Suc i" "lookup f l = Some (FileAt i)"
        "map_option i_bytes (fs_inodes f i) = Some []" "\<forall>n. n \<noteq> i \<longrightarrow> fs_inodes f n = fs_inodes (w_fs w) n"
        "\<forall>k e. lookup (w_fs w) k = Some e \<longrightarrow> lookup f k = Some e"
        using f l(2) ne by (auto simp: add_file_def Let_def)
      have "adds s None w (Some (l, i, [])) w'"
        using i w' a(1) k by (auto simp: adds_def known_def inode_of_def additive_def)
      then show ?thesis using Inr old by blast
    qed
  qed
qed

lemma adds_write:
  assumes "known s (Some (l, i, [])) w" "write_all i bs w = (r, w')"
  shows "\<exists>cs. adds s (Some (l, i, [])) w (Some (l, i, cs)) w' \<and> (r = Inr () \<longrightarrow> cs = bs)"
proof -
  have k: "wf_fs s" "additive s (w_fs w)" "true_reads w" "lookup (w_fs w) l = Some (FileAt i)" "fs_next s \<le> i"
    "i < fs_next (w_fs w)" using assms(1) by (simp_all add: known_def)
  obtain n where n: "fs_inodes (w_fs w) i = Some n" "i_bytes n = []" using assms(1) by (auto simp: known_def)
  let ?part = "take (w_partial w (w_calls w)) bs"
  have app: "additive s (append_inode i cs (w_fs w))" for cs using k(2,5) by (rule additive_append)
  consider (part) e where "r = Inl e" "w_fs w' = append_inode i ?part (w_fs w)" "same_host w w'"
      "w_trace w' = w_trace w @ [append_inode i ?part (w_fs w)]"
    | (all) "r = Inr ()" "w_fs w' = append_inode i bs (w_fs w)" "same_host w w'"
      "w_trace w' = w_trace w @ [append_inode i ?part (w_fs w), append_inode i bs (w_fs w)]"
    using assms(2)
    by (cases "w_faults w (w_calls w)") (auto simp: write_all_def Let_def commit_def same_host_def)
  then obtain cs where cs: "w_fs w' = append_inode i cs (w_fs w)" "same_host w w'" "r = Inr () \<longrightarrow> cs = bs"
    "passes (additive s) w w'"
  proof cases
    case part
    then show ?thesis using that [of ?part] app by (auto simp: passes_def)
  next
    case all
    then show ?thesis using that [of bs] app by (auto simp: passes_def)
  qed
  have "adds s (Some (l, i, [])) w (Some (l, i, cs)) w'"
    using cs(1,2,4) k n app [of cs]
    by (auto simp: adds_def known_def inode_of_def same_host_def true_reads_def append_inode_def lookup_def)
  then show ?thesis using cs(3) by blast
qed

lemma write_file_behaves:
  assumes "file_name p = Some n"
  shows "behaves (known s) (adds s)
    (\<lambda>r g. r = Inr () \<longrightarrow> (\<exists>l i. g = Some (l, i, contents) \<and> resolve_entry s p = Inr l \<and> lookup s l = None)) None
    (write_file_task p contents False)"
proof -
  let ?at = "\<lambda>g bs. \<exists>l i. g = Some (l, i, bs) \<and> resolve_entry s p = Inr l \<and> lookup s l = None"
  let ?e = "\<lambda>e. if io_kind_of e = AlreadyExists then FileExists p else FileWrite p e"
  have create: "behaves (known s) (adds s) (\<lambda>r g. \<forall>i. r = Inr i \<longrightarrow>
      (\<exists>l. g = Some (l, i, []) \<and> resolve_entry s p = Inr l \<and> lookup s l = None)) None
      (map_err_task ?e (call_task (create_new p DEFAULT_FILE_MODE)))"
  proof (intro behaves_map_err behaves_call)
    fix w r w'
    assume "known s None w" "create_new p DEFAULT_FILE_MODE w = (r, w')"
    from adds_create [OF this(1) assms this(2)]
    show "\<exists>g. adds s None w g w' \<and> (\<forall>i. map_err ?e r = Inr i \<longrightarrow>
        (\<exists>l. g = Some (l, i, []) \<and> resolve_entry s p = Inr l \<and> lookup s l = None))"
      by (cases r) (auto simp: map_err_def)
  qed
  have fill: "behaves (known s) (adds s) (\<lambda>r g. r = Inr () \<longrightarrow> ?at g contents) (Some (l, i, []))
      (bind_task (map_err_task (FileWrite p) (call_task (write_all i contents))) (\<lambda>_. ret_task ()))"
    if l: "resolve_entry s p = Inr l" "lookup s l = None" for l i
  proof (rule behaves_bind [where R = "\<lambda>r g. r = Inr () \<longrightarrow> ?at g contents"])
    show "behaves (known s) (adds s) (\<lambda>r g. r = Inr () \<longrightarrow> ?at g contents) (Some (l, i, []))
        (map_err_task (FileWrite p) (call_task (write_all i contents)))"
    proof (intro behaves_map_err behaves_call)
      fix w r w'
      assume "known s (Some (l, i, [])) w" "write_all i contents w = (r, w')"
      from adds_write [OF this] l
      show "\<exists>g. adds s (Some (l, i, [])) w g w' \<and> (map_err (FileWrite p) r = Inr () \<longrightarrow> ?at g contents)"
        by (cases r) (auto simp: map_err_def)
    qed
  qed (auto intro: behaves_ret)
  have both: "behaves (known s) (adds s) (\<lambda>r g. r = Inr () \<longrightarrow> ?at g contents) None
      (bind_task (map_err_task ?e (call_task (create_new p DEFAULT_FILE_MODE))) (\<lambda>file.
       bind_task (map_err_task (FileWrite p) (call_task (write_all file contents))) (\<lambda>_. ret_task ())))"
  proof (rule behaves_bind [OF create])
    fix i and g :: made
    assume "\<forall>j. Inr i = (Inr j :: error + nat) \<longrightarrow> (\<exists>l. g = Some (l, j, []) \<and> resolve_entry s p = Inr l \<and> lookup s l = None)"
    then obtain l where g: "g = Some (l, i, [])" and l: "resolve_entry s p = Inr l" "lookup s l = None" by blast
    show "behaves (known s) (adds s) (\<lambda>r g. r = Inr () \<longrightarrow> ?at g contents) g
        (bind_task (map_err_task (FileWrite p) (call_task (write_all i contents))) (\<lambda>_. ret_task ()))"
      unfolding g by (rule fill [OF l])
  qed simp
  show ?thesis
    unfolding write_file_task_def validate_windows_path_def if_False
  proof (rule behaves_bind [where R = "\<lambda>r g. g = None"], goal_cases)
    case (3 x h)
    then show ?case using both by (simp only:)
  qed (simp_all add: behaves_lift)
qed

section \<open>The job for a file\<close>

text \<open>What a result of a batch says of the files at its start and of the file it has made.\<close>

definition signed_file ::
  "crates \<Rightarrow> secret_key \<Rightarrow> key_num \<Rightarrow> sign_options \<Rightarrow> fs \<Rightarrow> path \<Rightarrow> path \<Rightarrow> error + sign_result \<Rightarrow> made \<Rightarrow> bool" where
  "signed_file C sk keynum opts s f p r g \<longleftrightarrow>
     (case r of
        Inl e \<Rightarrow> True
      | Inr res \<Rightarrow> \<exists>b l i. g = Some (l, i, as_bytes (sig_box_to_file_contents C b))
          \<and> resolve_entry s p = Inr l \<and> lookup s l = None \<and> signs C sk keynum s opts f b
          \<and> sr_trusted_comment res = sb_trusted_comment b)"

lemma sign_file_behaves:
  assumes "blake2b_ok C" "\<not> so_force opts" "file_name (signature_path f opts) = Some n"
  shows "behaves (known s) (adds s)
    (signed_file C sk keynum opts s f (signature_path f opts)) None (sign_file_with_key_task C f sk keynum opts)"
proof -
  let ?p = "signature_path f opts"
  let ?Q = "signed_file C sk keynum opts s f ?p"
  have no_alias: "behaves (known s) (adds s) (\<lambda>r g. True \<and> g = None) None
      (reject_output_alias_task ?p [f, so_secret_key_file opts])"
    using asks_only_looks [OF lookers.task_checks_alias, of s] unfolding asks_def by (rule spec)
  have sig: "behaves (known s) (adds s) (\<lambda>r g. (\<forall>b. r = Inr b \<longrightarrow> signs C sk keynum s opts f b) \<and> g = None)
      None (create_signature_task C sk keynum f (so_prehashed opts) (so_trusted_comment opts) (so_untrusted_comment opts))"
    using asks_signature [OF assms(1), of s sk keynum opts f] unfolding asks_def by (rule spec)
  have finish: "behaves (known s) (adds s) ?Q None
      (bind_task (write_file_task ?p (as_bytes (sig_box_to_file_contents C b)) False) (\<lambda>_.
         ret_task (case into_parts b of (_, _, trusted_comment, _) \<Rightarrow>
             \<lparr>sr_signature_file = ?p, sr_trusted_comment = trusted_comment,
              sr_key_id = to_key_id keynum, sr_key_id_words = keynum_to_words keynum\<rparr>)))"
    if "signs C sk keynum s opts f b" for b
    by (rule behaves_bind [OF write_file_behaves [OF assms(3)]])
      (use that in \<open>auto simp: signed_file_def into_parts_def intro!: behaves_ret\<close>)
  have rest: "behaves (known s) (adds s) ?Q None
      (bind_task (create_signature_task C sk keynum f (so_prehashed opts) (so_trusted_comment opts)
          (so_untrusted_comment opts)) (\<lambda>b.
       bind_task (write_file_task ?p (as_bytes (sig_box_to_file_contents C b)) False) (\<lambda>_.
         ret_task (case into_parts b of (_, _, trusted_comment, _) \<Rightarrow>
             \<lparr>sr_signature_file = ?p, sr_trusted_comment = trusted_comment,
              sr_key_id = to_key_id keynum, sr_key_id_words = keynum_to_words keynum\<rparr>))))"
    by (rule behaves_bind [OF sig]) (use finish in \<open>auto simp: signed_file_def\<close>)
  have force: "so_force opts = False" using assms(2) by simp
  show ?thesis
    unfolding sign_file_with_key_task_def Let_def force
    by (rule behaves_bind [OF no_alias]) (use rest in \<open>auto simp: signed_file_def\<close>)
qed

lemma sign_job_behaves:
  assumes "blake2b_ok C" "\<not> so_force opts" "file_name (signature_path f opts) = Some n"
  shows "behaves (known s) (adds s)
    (\<lambda>x g. fst x = f \<and> signed_file C sk keynum opts s f (signature_path f opts) (snd x) g) None
    (sign_job C dbg sk keynum opts f)"
  unfolding sign_job_def
proof (rule behaves_followed_by [OF sign_file_behaves [OF assms]])
  fix r g
  assume r: "signed_file C sk keynum opts s f (signature_path f opts) r g"
  have "only_looks (call_task (report_sign_result dbg f r opts) :: (error, unit) job)"
    by (auto simp: report_sign_result_def split: sum.split)
  then have "behaves (known s) (adds s) (\<lambda>r g'. True \<and> g' = g) g
      (call_task (report_sign_result dbg f r opts) :: (error, unit) job)"
    using asks_only_looks [of "call_task (report_sign_result dbg f r opts) :: (error, unit) job" s]
    by (simp add: asks_def)
  then show "behaves (known s) (adds s)
      (\<lambda>x g. fst x = f \<and> signed_file C sk keynum opts s f (signature_path f opts) (snd x) g) g
      (followed_by (call_task (report_sign_result dbg f r opts) :: (error, unit) job) (\<lambda>_. Done (f, r)))"
    by (rule behaves_followed_by) (simp add: r)
qed

lemma sign_pool_signs:
  assumes "blake2b_ok C" "wf_fs (w_fs w)" "true_reads w" "\<not> so_force opts" "so_signature_file opts = None"
    and "run_pool schedule (map (sign_job C dbg sk keynum opts) files, w) = Some (xs, w')"
  shows "\<exists>gs. signing (w_fs w) w gs w' \<and> length gs = length files \<and> length xs = length files
    \<and> (\<forall>i < length files. fst (xs ! i) = files ! i
         \<and> signed_file C sk keynum opts (w_fs w) (files ! i) (files ! i @ ''.minisig'') (snd (xs ! i)) (gs ! i))"
proof -
  let ?s = "w_fs w" and ?jobs = "map (sign_job C dbg sk keynum opts) files"
  have start: "signing ?s w (replicate (length files) None) w"
    using assms(2,3) by (auto simp: signing_def known_def inode_of_def passes_refl)
  have path: "signature_path f opts = f @ ''.minisig''" for f using assms(5) by (simp add: signature_path_def)
  have "\<exists>gs. signing ?s w gs w' \<and> length gs = length ?jobs \<and> length xs = length ?jobs
    \<and> (\<forall>i < length ?jobs. fst (xs ! i) = files ! i
         \<and> signed_file C sk keynum opts ?s (files ! i) (signature_path (files ! i) opts) (snd (xs ! i)) (gs ! i))"
  proof (rule signers.results_in_order [OF assms(6) start])
    fix i
    assume i: "i < length ?jobs"
    obtain n where "file_name (signature_path (files ! i) opts) = Some n"
      using file_name_minisig [of "files ! i"] path by auto
    from sign_job_behaves [OF assms(1,4) this, of ?s sk keynum dbg] i
    show "behaves (known ?s) (adds ?s) (\<lambda>x g. fst x = files ! i
         \<and> signed_file C sk keynum opts ?s (files ! i) (signature_path (files ! i) opts) (snd x) g)
       (replicate (length files) None ! i) (?jobs ! i)" by simp
  qed simp
  then show ?thesis unfolding path by simp
qed

text \<open>What a success stands for once the batch is over.\<close>

definition stands_for ::
  "crates \<Rightarrow> secret_key \<Rightarrow> key_num \<Rightarrow> sign_options \<Rightarrow> fs \<Rightarrow> fs \<Rightarrow> path \<Rightarrow> error + sign_result \<Rightarrow> bool" where
  "stands_for C sk keynum opts s s' f r \<longleftrightarrow>
     (case r of Inl e \<Rightarrow> True | Inr res \<Rightarrow>
        \<exists>b l. resolve_entry s (f @ ''.minisig'') = Inr l \<and> lookup s l = None
          \<and> contents_at s' l = Some (as_bytes (sig_box_to_file_contents C b))
          \<and> sb_trusted_comment b = sr_trusted_comment res \<and> ss_keynum (sb_sig_struct b) = keynum
          \<and> (\<forall>bs. regular s f bs \<longrightarrow> verify C (ed_public C sk)
                (if so_prehashed opts then blake2b_512 C bs else bs) (ss_signature (sb_sig_struct b)) = Inr ())
          \<and> verify_global_signature C b (ed_public C sk) = Inr ())"

lemma signed_file_stands:
  assumes "signed_file C sk keynum opts s f (f @ ''.minisig'') r g" "known s g w"
  shows "stands_for C sk keynum opts s (w_fs w) f r"
proof (cases r)
  case (Inr res)
  then obtain b l n where b: "g = Some (l, n, as_bytes (sig_box_to_file_contents C b))"
    "resolve_entry s (f @ ''.minisig'') = Inr l" "lookup s l = None"
    "signs C sk keynum s opts f b" "sr_trusted_comment res = sb_trusted_comment b"
    using assms(1) by (auto simp: signed_file_def)
  have "contents_at (w_fs w) l = Some (as_bytes (sig_box_to_file_contents C b))"
    using assms(2) b(1) by (simp add: known_def contents_at_def view_def)
  then show ?thesis
    unfolding stands_for_def Inr sum.case
    using b(2-5) by (intro exI [of _ b] exI [of _ l]) (simp add: signs_verifies [OF b(4)])
qed (simp add: stands_for_def)

section \<open>Property\<close>

text \<open>C11: a batch of signatures by any number of threads, in any interleaving of their system calls
  and whatever calls fail, as long as reads deliver what the files hold: without force, nothing that
  was there before is ever changed or removed, in any state passed through; there is one result for
  each file, in order; and each file reported as signed has, at the end, its signature file in a
  place that was free, holding a signature by the key given that verifies for the message as it was
  when the batch began, with the trusted comment reported. No thread spoils what another has made.\<close>

theorem parallel_sign_signs:
  assumes "blake2b_ok C" "wf_fs (w_fs w)" "\<forall>n bs. delivers (w_reads w n bs) bs"
    and "\<not> so_force opts" "so_signature_file opts = None"
    and "collect_sign_results C dbg B files sk keynum opts sequential w = (Inr results, w')"
  shows "map fst results = files \<and> passes (additive (w_fs w)) w w'
    \<and> (\<forall>(f, r) \<in> set results. case r of Inl e \<Rightarrow> True | Inr res \<Rightarrow>
        \<exists>b l. resolve_entry (w_fs w) (f @ ''.minisig'') = Inr l \<and> lookup (w_fs w) l = None
          \<and> contents_at (w_fs w') l = Some (as_bytes (sig_box_to_file_contents C b))
          \<and> sb_trusted_comment b = sr_trusted_comment res \<and> ss_keynum (sb_sig_struct b) = keynum
          \<and> (\<forall>bs. regular (w_fs w) f bs \<longrightarrow> verify C (ed_public C sk)
                (if so_prehashed opts then blake2b_512 C bs else bs) (ss_signature (sb_sig_struct b)) = Inr ())
          \<and> verify_global_signature C b (ed_public C sk) = Inr ())"
proof -
  let ?jobs = "map (sign_job C dbg sk keynum opts) files"
  obtain schedule results' v where c: "collect_sign_results C dbg B files sk keynum opts sequential w = (Inr results', v)"
    and pool: "run_pool schedule (?jobs, w) = Some (results', v)"
    by (rule collect_sign_results_schedule)
  have run: "run_pool schedule (?jobs, w) = Some (results, w')" using c pool assms(6) by simp
  have reads: "true_reads w" using assms(3) by (simp add: true_reads_def)
  obtain gs where all: "signing (w_fs w) w gs w' \<and> length gs = length files \<and> length results = length files
    \<and> (\<forall>i < length files. fst (results ! i) = files ! i
         \<and> signed_file C sk keynum opts (w_fs w) (files ! i) (files ! i @ ''.minisig'')
              (snd (results ! i)) (gs ! i))"
    using sign_pool_signs [OF assms(1,2) reads assms(4,5) run] by (rule exE)
  note gs = all [THEN conjunct1] all [THEN conjunct2, THEN conjunct1]
    all [THEN conjunct2, THEN conjunct2, THEN conjunct1] all [THEN conjunct2, THEN conjunct2, THEN conjunct2]
  have order: "map fst results = files" by (rule nth_equalityI) (use gs in auto)
  have old: "passes (additive (w_fs w)) w w'" using gs(1) by (simp add: signing_def)
  have "stands_for C sk keynum opts (w_fs w) (w_fs w') f r" if m: "(f, r) \<in> set results" for f r
  proof -
    obtain i where i: "i < length files" "results ! i = (f, r)"
      using iffD1 [OF in_set_conv_nth m] unfolding gs(3) by (elim exE conjE)
    have "known (w_fs w) (gs ! i) w'" using gs(1,2) i(1) by (simp add: signing_def)
    moreover have "signed_file C sk keynum opts (w_fs w) f (f @ ''.minisig'') r (gs ! i)"
      using gs(4) [rule_format, OF i(1)] i(2) by simp
    ultimately show ?thesis by (intro signed_file_stands)
  qed
  then have "\<forall>(f, r) \<in> set results. stands_for C sk keynum opts (w_fs w) (w_fs w') f r" by blast
  with order old show ?thesis unfolding stands_for_def by (intro conjI)
qed

lemma report_sign_ok: "\<exists>v. report_sign_result dbg f r opts w = (Inr () :: 'e + unit, v)"
  by (auto simp: report_sign_result_def println_def eprintln_def print_out_def print_err_def ret_def
      split: sum.split)

theorem parallel_sign_signs_witness:
  "\<exists>res w' b. collect_sign_results ref_crates (\<lambda>p. p) ex_build [''m'']
       (replicate 64 5) (replicate 8 7) ex_sign False (ex_world ex_key_fs) = (Inr [(''m'', Inr res)], w')
     \<and> contents_at (w_fs w') [''d'', ''m.minisig''] = Some (as_bytes (sig_box_to_file_contents ref_crates b))
     \<and> verify_global_signature ref_crates b (ed_public ref_crates (replicate 64 5)) = Inr ()"
proof -
  let ?w = "ex_world ex_key_fs" and ?sk = "replicate 64 (5 :: 8 word)" and ?n = "replicate 8 (7 :: 8 word)"
  obtain res v where v: "sign_file_with_key ref_crates ''m'' ?sk ?n ex_sign ?w = (Inr res, v)"
    using ex_sign_file [of ?w] by auto
  obtain v' where v': "report_sign_result (\<lambda>p. p) ''m'' (Inr res) ex_sign v = (Inr () :: error + unit, v')"
    using report_sign_ok by blast
  have "collect_sign_results ref_crates (\<lambda>p. p) ex_build [''m''] ?sk ?n ex_sign False ?w
      = (Inr [(''m'', Inr res)], v')"
    using v v' by (simp add: collect_sign_results_def Let_def run_threads_alone sign_job_def run_followed_by run_tasks)
  moreover have "\<forall>n bs. delivers (w_reads ?w n bs) bs" using ex_quiet [of ex_key_fs] by (simp add: quiet_def honest_def)
  moreover have "so_signature_file ex_sign = None" by (simp add: ex_sign_def sign_builder_def)
  ultimately show ?thesis
    using parallel_sign_signs [OF ref_blake2b_ok _ _ ex_sign_fields(6), of ?w "\<lambda>p. p" ex_build "[''m'']" ?sk ?n False
        "[(''m'', Inr res)]" v']
    by (intro exI [of _ res] exI [of _ v']) auto
qed

end
