(* ===== verification/Batches.thy ===== *)
theory Batches
  imports Parallel_Sign KeyOps_Properties
begin

text \<open>
  Batches from end to end: the files that \<open>-S\<close> signs, with threads or without, are files that \<open>-V\<close>
  accepts, with threads or without, under the public key of the secret key they were signed with.
\<close>

section \<open>Verifying a file that works\<close>

lemma verify_file_run:
  assumes "quiet w" "blake2b_ok C" "regular (w_fs w) (f @ ''.minisig'') sb" "length sb \<le> MAX_SIGNATURE_FILE_BYTES"
    and "is_utf8 (text_of sb)" "regular (w_fs w) f msg" "length msg \<le> MAX_MESSAGE_SIZE_BYTES"
  shows "fst (verify_file_with_key C f pubkey opts w) =
     verify_spec C (Inr pubkey) (text_of sb) msg (vo_force_prehashed opts) False"
proof -
  have f: "honest w" using assms(1) by (rule quiet_honest)
  have sig: "load_signature C (f @ ''.minisig'') w = (sig_box_from_file_contents C (text_of sb), ticked3 w)"
    using load_signature_run [OF f assms(3-5)] .
  have msg: "fst (verify_message_signature C pubkey b f (vo_force_prehashed opts) False (ticked3 w)) =
      map_sum id (\<lambda>_. None) (check_message C pubkey b msg (vo_force_prehashed opts))" for b
    using verify_message_signature_run [of "ticked3 w" f msg C pubkey b "vo_force_prehashed opts" False] assms
    by simp
  have "and_then (map_sum id (\<lambda>_. None) r) (\<lambda>_. k) = and_then r (\<lambda>_. k)" for r :: "error + unit" and k
    by (cases r) simp_all
  then show ?thesis
    using sig msg
    by (cases "sig_box_from_file_contents C (text_of sb)")
      (auto simp: verify_file_with_key_def verify_spec_def Let_def bind_io_run bind_io_failed fst_bind_global
        split: sum.split)
qed

section \<open>A file of the batch\<close>

text \<open>A file that was signed, with its signature beside it, is accepted.\<close>

lemma signed_file_verifies:
  assumes C: "b64_ok C" "b64_size_ok C" "ed_ok C" "blake2b_ok C" and kn: "wf_key_num keynum"
    and s: "wf_fs s" "additive s (w_fs v)" "regular s f msg" "length msg \<le> MAX_MESSAGE_SIZE_BYTES"
    and u: "is_utf8 (untrusted_comment_of opts)" "case so_trusted_comment opts of None \<Rightarrow> True | Some c \<Rightarrow> is_utf8 c"
    and made: "signed_file C sk keynum opts s f (f @ ''.minisig'') (Inr res) g" "known s g w" "w_fs w = w_fs v"
    and v: "quiet v" "vo_force_prehashed vopts \<longrightarrow> so_prehashed opts"
  shows "\<exists>r. fst (verify_file_with_key C f (signer_key C sk keynum) vopts v) = Inr r"
proof -
  obtain b l i where g: "g = Some (l, i, as_bytes (sig_box_to_file_contents C b))"
    "resolve_entry s (f @ ''.minisig'') = Inr l" "signs C sk keynum s opts f b"
    using made(1) by (auto simp: signed_file_def)
  obtain t data where b: "sign_and_check C sk keynum (so_prehashed opts) t (untrusted_comment_of opts) data = Inr b"
    "case so_trusted_comment opts of Some c \<Rightarrow> t = c | None \<Rightarrow> is_utf8 t"
    "data = (if so_prehashed opts then blake2b_512 C msg else msg)"
    using g(3) s(3) by (auto simp: signs_def)
  obtain n where n: "file_name (f @ ''.minisig'') = Some n" using file_name_minisig by auto
  have sig: "regular (w_fs v) (f @ ''.minisig'') (as_bytes (sig_box_to_file_contents C b))"
    using entry_regular [OF n] additive_resolve [OF n s(2)] g(1,2) made(2,3) by (auto simp: known_def)
  have "is_utf8 t" using b(2) u(2) by (auto split: option.splits)
  then have fits: "length (sig_box_to_file_contents C b) \<le> MAX_SIGNATURE_FILE_BYTES"
    "is_utf8 (sig_box_to_file_contents C b)"
    using sig_file_fits [OF C(1,2) sign_and_check_wf [OF C(3) kn b(1)]] sign_and_check_Inr [OF b(1)] u(1)
    by auto
  have "fst (verify_file_with_key C f (signer_key C sk keynum) vopts v) = verify_spec C (Inr (signer_key C sk keynum))
      (sig_box_to_file_contents C b) msg (vo_force_prehashed vopts) False"
    using verify_file_run [OF v(1) C(4) sig _ _ regular_additive [OF s(1-3)] s(4)] fits by simp
  then show ?thesis
    using signed_spec [OF C(1,3) kn v(2) b(1) [unfolded b(3)], of False] by auto
qed

section \<open>The batch\<close>

lemma batch_file_verifies:
  assumes C: "b64_ok C" "b64_size_ok C" "ed_ok C" "blake2b_ok C" and kn: "wf_key_num keynum"
    and w: "wf_fs (w_fs w)" "true_reads w" "\<not> so_force opts" "so_signature_file opts = None"
    and u: "is_utf8 (untrusted_comment_of opts)" "case so_trusted_comment opts of None \<Rightarrow> True | Some c \<Rightarrow> is_utf8 c"
    and files: "\<forall>f \<in> set files. \<exists>bs. regular (w_fs w) f bs \<and> length bs \<le> MAX_MESSAGE_SIZE_BYTES"
    and run: "collect_sign_results C dbg B files sk keynum opts sequential w = (Inr results, w')"
      "\<forall>r \<in> set results. is_ok (snd r)"
    and v: "quiet v" "w_fs v = w_fs w'" "vo_force_prehashed vopts \<longrightarrow> so_prehashed opts"
    and f: "f \<in> set files"
  shows "is_ok (fst (verify_file_with_key C f (signer_key C sk keynum) vopts v))"
proof -
  obtain schedule where pool: "run_pool schedule (map (sign_job C dbg sk keynum opts) files, w) = Some (results, w')"
    using collect_sign_results_schedule [of C dbg B files sk keynum opts sequential w] run(1) by auto
  obtain gs where all: "signing (w_fs w) w gs w' \<and> length gs = length files \<and> length results = length files
    \<and> (\<forall>i < length files. fst (results ! i) = files ! i
         \<and> signed_file C sk keynum opts (w_fs w) (files ! i) (files ! i @ ''.minisig'') (snd (results ! i)) (gs ! i))"
    using sign_pool_signs [OF C(4) w pool] by (rule exE)
  obtain i where i: "i < length files" "files ! i = f" using f by (auto simp: in_set_conv_nth)
  have known: "known (w_fs w) (gs ! i) w'" using all i by (simp add: signing_def)
  have ok: "is_ok (snd (results ! i))" using run(2) all i(1) by (metis nth_mem)
  then obtain res where res: "snd (results ! i) = Inr res" by (auto simp: is_ok_iff)
  have made: "signed_file C sk keynum opts (w_fs w) f (f @ ''.minisig'') (Inr res) (gs ! i)"
    using all i res by (metis (no_types))
  obtain bs where bs: "regular (w_fs w) f bs" "length bs \<le> MAX_MESSAGE_SIZE_BYTES" using files f by blast
  have "additive (w_fs w) (w_fs v)" using known v(2) by (simp add: known_def)
  from signed_file_verifies [OF C kn w(1) this bs u made known _ v(1,3)] v(2) show ?thesis
    by (auto simp: is_ok_iff)
qed

lemma verify_multiple_files_ok:
  assumes "load_public_key C (vo_public_key opts) v = (Inr pubkey, v1)" "quiet v"
    and "\<And>f u. f \<in> set files \<Longrightarrow> quiet u \<Longrightarrow> w_fs u = w_fs v \<Longrightarrow> is_ok (fst (verify_file_with_key C f pubkey opts u))"
    and "length files \<noteq> 1"
  shows "fst (verify_multiple_files C dbg B files opts sequential v) = Inr ()"
proof -
  have "obeys looks (load_public_key C (vo_public_key opts))"
    by (simp add: load_public_key_def split: public_key_source.split)
  then have "looks v v1" using assms(1) by (rule obeysD)
  then have v1: "quiet v1" "w_fs v1 = w_fs v" using assms(2) looks_quiet by (auto simp: looks_def)
  obtain results where r: "map fst results = files"
    "\<forall>(f, r) \<in> set results. \<exists>u. retimed v1 u \<and> r = fst (verify_file_with_key C f pubkey opts u)"
    "fst (verify_multiple_files C dbg B files opts sequential v) = batch_outcome results"
    using verify_batch_outcome_run [OF assms(1,4)] by blast
  have "is_ok r" if m: "(f, r) \<in> set results" for f r
  proof -
    obtain u where u: "retimed v1 u" "r = fst (verify_file_with_key C f pubkey opts u)" using r(2) m by auto
    have "f \<in> set files" using m r(1) by (metis fst_conv image_eqI set_map)
    moreover have "quiet u" "w_fs u = w_fs v" using u(1) v1 by (auto simp: retimed_def quiet_def honest_def faultless_def)
    ultimately show ?thesis using assms(3) u(2) by simp
  qed
  then have "\<forall>r \<in> set results. is_ok (snd r)" by auto
  then show ?thesis using r(3) by (simp add: batch_outcome_def)
qed

section \<open>What a successful \<open>-S\<close> has done\<close>

text \<open>Files that are all different are all kept.\<close>

lemma dedup_files_distinct:
  assumes "dedup_files (map (\<lambda>l. RootDir # map NormalComp l) seen) files w = (Inr kept, w')"
    and "cwd_ok (w_fs w)" "distinct (map (resolve (w_fs w)) files)"
    and "\<forall>f \<in> set files. \<forall>l \<in> set seen. resolve (w_fs w) f \<noteq> Inr l"
  shows "kept = files"
  using assms
proof (induction files arbitrary: seen w kept)
  case Nil
  then show ?case by (simp add: ret_def)
next
  case (Cons f fs)
  obtain c w1 where c: "canonicalize f w = (Inr c, w1)"
    and rest: "(if components c \<notin> set (map (\<lambda>l. RootDir # map NormalComp l) seen) then
         bind_io (dedup_files (components c # map (\<lambda>l. RootDir # map NormalComp l) seen) fs) (\<lambda>rest. ret (f # rest))
       else dedup_files (map (\<lambda>l. RootDir # map NormalComp l) seen) fs) w1 = (Inr kept, w')"
    using Cons.prems(1) by (auto simp: bind_io_Inr map_err_io_Inr)
  have "sys_canonicalize f (w_fs w) = Inr c" and w1: "w_fs w1 = w_fs w"
    using c by (auto simp: canonicalize_def query_def Let_def split: option.splits)
  then obtain l where l: "resolve (w_fs w) f = Inr l" "components c = RootDir # map NormalComp l"
    using canonical_path [OF Cons.prems(2)] by blast
  have inj: "RootDir # map NormalComp a = RootDir # map NormalComp b \<Longrightarrow> a = b" for a b
    by (auto simp: inj_on_def dest!: map_injective)
  have "components c \<notin> set (map (\<lambda>l. RootDir # map NormalComp l) seen)"
    using Cons.prems(4) l inj by auto
  then obtain kept' where k: "kept = f # kept'"
    "dedup_files (map (\<lambda>l. RootDir # map NormalComp l) (l # seen)) fs w1 = (Inr kept', w')"
    using rest l(2) by (auto simp: bind_io_Inr ret_def)
  have "\<forall>g \<in> set fs. resolve (w_fs w) g \<noteq> Inr l"
    using Cons.prems(3) l(1) by (auto simp: image_iff)
  then have "kept' = fs"
    by (intro Cons.IH [OF k(2)]) (use Cons.prems w1 in auto)
  then show ?case using k(1) by simp
qed

lemma looks_trans: "looks u v \<Longrightarrow> looks v w \<Longrightarrow> looks u w"
  by (rule lookers.trans)

lemma sign_multiple_batch:
  assumes "sign_multiple_files_with_key C dbg B files seckey opts password sequential w = (Inr (), w')"
    and "length files \<noteq> 1" "cwd_ok (w_fs w)" "distinct (map (resolve (w_fs w)) files)"
  obtains sk keynum w1 results w2 where "extract_key C seckey password = Inr (sk, keynum)" "looks w w1"
    "collect_sign_results C dbg B files sk keynum opts sequential w1 = (Inr results, w2)"
    "\<forall>r \<in> set results. is_ok (snd r)" "looks w2 w'"
proof -
  obtain kept v0 where d: "dedup_files [] files w = (Inr kept, v0)"
    using assms(1) by (auto simp: sign_multiple_files_with_key_def bind_io_Inr)
  have kept: "kept = files" using dedup_files_distinct [of "[]" files w kept v0] d assms(3,4) by simp
  let ?print = "\<lambda>n. if \<not> so_quiet opts then println (''Signing with key: '' @ to_key_id n @ '' (''
      @ keynum_to_words n @ '')'') else ret () :: (error, unit) io"
  have "\<not> (length files > 1 \<and> so_signature_file opts \<noteq> None)"
  proof
    assume "length files > 1 \<and> so_signature_file opts \<noteq> None"
    then show False using assms(1) d kept by (simp add: sign_multiple_files_with_key_def bind_io_run throw_def)
  qed
  then obtain v1 v2 sk keynum v3 results v4 where
    a: "reject_batch_aliases files (files @ [so_secret_key_file opts]) opts v0 = (Inr (), v1)"
    and e: "extract_key_op C seckey password v1 = (Inr (sk, keynum), v2)"
    and p: "?print keynum v2 = (Inr (), v3)"
    and c: "collect_sign_results C dbg B files sk keynum opts sequential v3 = (Inr results, v4)"
    and s: "print_sign_summary results v4 = (Inr (), w')"
    using assms(1,2) d kept
    by (simp only: sign_multiple_files_with_key_def bind_io_run if_False) (auto simp: bind_io_Inr)
  have "obeys looks (dedup_files [] files)" by simp
  then have 1: "looks w v0" using d by (rule obeysD)
  have "obeys looks (reject_batch_aliases files (files @ [so_secret_key_file opts]) opts)" by simp
  then have 2: "looks v0 v1" using a by (rule obeysD)
  have "obeys looks (extract_key_op C seckey password)" by simp
  then have 3: "looks v1 v2" using e by (rule obeysD)
  have "obeys looks (?print keynum)" by simp
  then have 4: "looks v2 v3" using p by (rule obeysD)
  have before: "looks w v3" using looks_trans [OF looks_trans [OF 1 2] looks_trans [OF 3 4]] .
  have "obeys looks (print_sign_summary results)" by (simp add: print_sign_summary_def)
  then have after: "looks v4 w'" using s by (rule obeysD)
  have "batch_outcome results = Inr ()"
    using print_summary_outcome [of "''signed''" results v4] s by (simp add: print_sign_summary_def)
  then have ok: "\<forall>r \<in> set results. is_ok (snd r)" by (auto simp: batch_outcome_def split: if_splits)
  have "extract_key C seckey password = Inr (sk, keynum)"
    using fst_extract_key_op [of C seckey password v1] e by simp
  then show thesis using that before c ok after by blast
qed

definition batch_options :: "cli \<Rightarrow> path \<Rightarrow> sign_options" where
  "batch_options cli key =
     apply_sign_options (sign_set_prehashed (sign_builder key []) (cli_prehashed cli \<or> \<not> cli_legacy cli)) cli"

lemma batch_options_fields [simp]:
  "so_secret_key_file (batch_options cli key) = key"
  "so_force (batch_options cli key) = cli_force cli" "so_signature_file (batch_options cli key) = None"
  "so_prehashed (batch_options cli key) = (cli_prehashed cli \<or> \<not> cli_legacy cli)"
  "so_trusted_comment (batch_options cli key) = cli_trusted_comment cli"
  "so_untrusted_comment (batch_options cli key) = cli_untrusted_comment cli"
  by (auto simp: batch_options_def apply_sign_options_def sign_set_prehashed_def sign_builder_def
      sign_set_trusted_comment_def sign_set_untrusted_comment_def sign_set_quiet_def sign_set_force_def
      Let_def split: option.split)

lemma handle_sign_batch:
  assumes "handle_sign C dbg B H cli w = (Inr n, w')" "length (all_message_files cli) \<noteq> 1"
    and "default_secret_key_path H = Inr d"
  obtains seckey w1 pw w2 w3 where
    "load_secret_key C (unwrap_or (cli_secret_key_file cli) d) w = (Inr seckey, w1)" "looks w w2"
    "sign_multiple_files_with_key C dbg B (all_message_files cli) seckey
       (batch_options cli (unwrap_or (cli_secret_key_file cli) d)) pw (run_sequentially B cli) w2 = (Inr (), w3)"
    "looks w3 w'"
proof -
  let ?key = "unwrap_or (cli_secret_key_file cli) d"
  let ?password = "\<lambda>seckey. if cli_no_password cli then ret None
      else bind_io (get_password_with_credential_store B H (credential_id seckey) ''Password: ''
                      (cli_quiet cli) (cli_password_file cli)) (\<lambda>p. ret (Some p))"
  let ?say = "unless_quiet cli (eprintln ''Working...'') :: (error, unit) io"
  let ?forget = "\<lambda>seckey. if cli_forget_password cli then
      forget_password_with_feedback dbg B (credential_id seckey) (cli_quiet cli) else ret () :: (error, unit) io"
  have guards: "(all_message_files cli = []) = False" "(cli_prehashed cli \<and> cli_legacy cli) = False"
      "(length (all_message_files cli) = 1) = False"
    using assms(1,2) by (auto simp: handle_sign_def throw_def Let_def split: if_splits)
  obtain seckey w1 w1' pw w2 w3 w4 where
    l: "load_secret_key C ?key w = (Inr seckey, w1)"
    and k: "lift_res (seckey_check_kdf_budget seckey) w1 = (Inr (), w1')"
    and p: "?password seckey w1' = (Inr pw, w2)"
    and u: "?say w2 = (Inr (), w3)"
    and m: "handle_sign_multiple C dbg B cli (all_message_files cli) ?key (cli_prehashed cli \<or> \<not> cli_legacy cli)
       seckey (credential_id seckey) pw w3 = (Inr (), w4)"
    and f: "?forget seckey w4 = (Inr (), w')"
    using assms(1) unfolding handle_sign_def Let_def guards if_False assms(3) bind_lift_Inr bind_io_Inr
    by (auto simp: ret_def)
  have "w1' = w1" using k by (simp add: lift_res_def)
  have "obeys looks (load_secret_key C ?key)" by simp
  then have 1: "looks w w1" using l by (rule obeysD)
  have "obeys looks (?password seckey)" by simp
  then have 2: "looks w1 w2" using p unfolding \<open>w1' = w1\<close> by (rule obeysD)
  have "obeys looks ?say" by simp
  then have 3: "looks w2 w3" using u by (rule obeysD)
  have before: "looks w w3" using looks_trans [OF looks_trans [OF 1 2] 3] .
  obtain w5 where s: "sign_multiple_files_with_key C dbg B (all_message_files cli) seckey (batch_options cli ?key)
        (map_option as_bytes pw) (run_sequentially B cli) w3 = (Inr (), w5)"
    and t: "save_password_to_credential_store dbg B (credential_id seckey) pw (cli_save_password cli)
       (cli_quiet cli) None w5 = (Inr () :: error + unit, w4)"
    using m by (auto simp: handle_sign_multiple_def batch_options_def bind_io_Inr throw_def Let_def split: if_splits)
  have "obeys looks (save_password_to_credential_store dbg B (credential_id seckey) pw (cli_save_password cli)
       (cli_quiet cli) None :: (error, unit) io)" by simp
  then have 4: "looks w5 w4" using t by (rule obeysD)
  have "obeys looks (?forget seckey)" by simp
  then have "looks w4 w'" using f by (rule obeysD)
  with 4 have "looks w5 w'" by (rule looks_trans)
  with l before s show thesis by (rule that)
qed

section \<open>From exit code to exit code\<close>

lemma default_untrusted_utf8: "is_utf8 DEFAULT_UNTRUSTED_COMMENT"
  unfolding DEFAULT_UNTRUSTED_COMMENT_def by (rule is_utf8_ascii) simp

lemma main_verify_batch:
  assumes "parse_cli P B H v = (Inr (Parsed cli), v0)" "cli_action cli = Some Verify"
    and "all_message_files cli \<noteq> []" "length (all_message_files cli) \<noteq> 1"
    and "cli_public_key_file cli = None" "cli_public_key_base64 cli = Some s" "pubkey_from_base64 C s = Inr pubkey"
    and "cli_password_file cli = None" "cli_signature_file cli = None" "\<not> cli_output cli"
    and "quiet v"
    and "\<And>f u opts. f \<in> set (all_message_files cli) \<Longrightarrow> quiet u \<Longrightarrow> w_fs u = w_fs v \<Longrightarrow>
      vo_force_prehashed opts = cli_prehashed cli \<Longrightarrow> is_ok (fst (verify_file_with_key C f pubkey opts u))"
  shows "fst (main C P dbg B H v) = 0"
proof -
  have v0: "v0 = v" using parse_cli_parsed [OF assms(1)] by simp
  obtain v1 where v1: "looks v v1" "run_cli C dbg B H cli v = handle_verify C dbg B cli v1"
    using run_cli_dispatch [of cli Verify v C dbg B H] assms(2) by (auto simp: dispatch_def)
  have q: "quiet v1" "w_fs v1 = w_fs v" using v1(1) looks_quiet assms(11) by (auto simp: looks_def)
  let ?opts = "verify_cli_options cli (SourceBase64 s) [] []"
  have "load_public_key C (vo_public_key ?opts) v1 = (Inr pubkey, v1)"
    using assms(7) by (simp add: load_public_key_def lift_res_def)
  from verify_multiple_files_ok [OF this q(1) _ assms(4)]
  have "fst (verify_multiple_files C dbg B (all_message_files cli) ?opts (run_sequentially B cli) v1) = Inr ()"
    using assms(12) q(2) by simp
  then obtain v2 where "verify_multiple_files C dbg B (all_message_files cli) ?opts (run_sequentially B cli) v1
      = (Inr (), v2)" by (metis prod.collapse)
  then have "handle_verify C dbg B cli v1 = (Inr 0, v2)"
    using assms(3-6,8-10)
    by (simp add: handle_verify_def public_key_of_cli_def Let_def bind_io_run) (simp add: ret_def bind_io_def)
  then show ?thesis using assms(1) v0 v1(2) by (simp add: main_def run_def bind_io_run)
qed

lemma main_sign_batch:
  assumes "parse_cli P B H w = (Inr (Parsed cli), w0)" "cli_action cli = Some Sign"
    and "main C P dbg B H w = (0, w')" "length (all_message_files cli) \<noteq> 1"
    and "default_secret_key_path H = Inr d"
    and "cwd_ok (w_fs w)" "distinct (map (resolve (w_fs w)) (all_message_files cli))"
  obtains seckey pw sk keynum u u1 w1 results w2 where "all_message_files cli \<noteq> []" "looks w u"
    "load_secret_key C (unwrap_or (cli_secret_key_file cli) d) u = (Inr seckey, u1)"
    "extract_key C seckey pw = Inr (sk, keynum)" "looks w w1"
    "collect_sign_results C dbg B (all_message_files cli) sk keynum
       (batch_options cli (unwrap_or (cli_secret_key_file cli) d)) (run_sequentially B cli) w1 = (Inr results, w2)"
    "\<forall>r \<in> set results. is_ok (snd r)" "looks w2 w'"
proof -
  have failed: "(exit_code e = 0) = False" for e by (simp add: exit_code_def split: error.split)
  have "w0 = w" using parse_cli_parsed [OF assms(1)] by simp
  then have "run_cli C dbg B H cli w = (Inr 0, w')"
    using assms(1,3) by (auto simp: main_def run_def bind_io_run failed split: prod.splits sum.splits)
  then obtain u where u: "looks w u" "handle_sign C dbg B H cli u = (Inr 0, w')"
    using run_cli_dispatch [of cli Sign w C dbg B H] assms(2) by (auto simp: dispatch_def)
  obtain seckey u1 pw v2 v3 where h:
    "load_secret_key C (unwrap_or (cli_secret_key_file cli) d) u = (Inr seckey, u1)" "looks u v2"
    "sign_multiple_files_with_key C dbg B (all_message_files cli) seckey
       (batch_options cli (unwrap_or (cli_secret_key_file cli) d)) pw (run_sequentially B cli) v2 = (Inr (), v3)"
    "looks v3 w'"
    by (rule handle_sign_batch [OF u(2) assms(4,5)])
  have v2: "looks w v2" using u(1) h(2) by (rule looks_trans)
  then have fs: "w_fs v2 = w_fs w" by (simp add: looks_def)
  obtain sk keynum w1 results w2 where b: "extract_key C seckey pw = Inr (sk, keynum)" "looks v2 w1"
    "collect_sign_results C dbg B (all_message_files cli) sk keynum
       (batch_options cli (unwrap_or (cli_secret_key_file cli) d)) (run_sequentially B cli) w1 = (Inr results, w2)"
    "\<forall>r \<in> set results. is_ok (snd r)" "looks w2 v3"
    by (rule sign_multiple_batch [OF h(3) assms(4)]) (use assms(6,7) fs in simp_all)
  have "all_message_files cli \<noteq> []"
    using u(2) by (auto simp: handle_sign_def throw_def Let_def)
  then show thesis
    by (rule that [OF _ u(1) h(1) b(1) looks_trans [OF v2 b(2)] b(3,4) looks_trans [OF b(5) h(4)]])
qed

end
