(* ===== verification/Batch_Properties.thy ===== *)
theory Batch_Properties
  imports Batches
begin

text \<open>
  The property that ties \<open>-S\<close> to \<open>-V\<close>, from exit code to exit code, and its instance: on a
  small world \<open>main\<close> signs two files and then verifies them.
\<close>

section \<open>A batch on a small world\<close>

definition rests :: "fs \<Rightarrow> world \<Rightarrow> bool" where
  "rests s w \<longleftrightarrow> quiet w \<and> w_fs w = s"

lemma rests_after: "rests s w \<Longrightarrow> looks w w' \<Longrightarrow> rests s w'"
  using looks_quiet [of w w'] by (simp add: rests_def looks_def)

lemma rests_looks:
  assumes "obeys looks X" "rests s w" "fst (X w) = r"
  obtains w' where "X w = (r, w')" "rests s w'"
proof -
  have "X w = (r, snd (X w))" using assms(3) by (rule run_fst)
  moreover from this have "rests s (snd (X w))" by (intro rests_after [OF assms(2)] obeysD [OF assms(1)])
  ultimately show thesis by (rule that)
qed

lemma ex_parse_sign_batch:
  "\<exists>cli. parse_args ref_pico ex_build [''-S'', ''-W'', ''--sequential'', ''-s'', ''k'', ''-t'', ''signed'', ''-c'', ''by me'', ''-m'', ''m'', ''k''] = Inr cli
    \<and> cli_action cli = Some Sign \<and> all_message_files cli = [''m'', ''k''] \<and> cli_sequential cli
    \<and> \<not> cli_force cli \<and> \<not> cli_prehashed cli \<and> \<not> cli_legacy cli \<and> cli_no_password cli \<and> \<not> cli_quiet cli
    \<and> \<not> cli_allow_kdf_fallback cli \<and> \<not> cli_save_password cli \<and> \<not> cli_forget_password cli
    \<and> cli_secret_key_file cli = Some ''k'' \<and> cli_trusted_comment cli = Some ''signed''
    \<and> cli_untrusted_comment cli = Some ''by me'' \<and> cli_signature_file cli = None"
proof -
  have "case parse_args ref_pico ex_build [''-S'', ''-W'', ''--sequential'', ''-s'', ''k'', ''-t'', ''signed'', ''-c'', ''by me'', ''-m'', ''m'', ''k''] of
      Inl e \<Rightarrow> False | Inr cli \<Rightarrow> cli_action cli = Some Sign \<and> all_message_files cli = [''m'', ''k''] \<and> cli_sequential cli
    \<and> \<not> cli_force cli \<and> \<not> cli_prehashed cli \<and> \<not> cli_legacy cli \<and> cli_no_password cli \<and> \<not> cli_quiet cli
    \<and> \<not> cli_allow_kdf_fallback cli \<and> \<not> cli_save_password cli \<and> \<not> cli_forget_password cli
    \<and> cli_secret_key_file cli = Some ''k'' \<and> cli_trusted_comment cli = Some ''signed''
    \<and> cli_untrusted_comment cli = Some ''by me'' \<and> cli_signature_file cli = None"
    by code_simp
  then show ?thesis by (auto split: sum.splits)
qed


lemma ex_outputs [simp]:
  "components ''k.minisig'' = [NormalComp ''k.minisig'']" "file_name ''k.minisig'' = Some ''k.minisig''"
  by (code_simp, code_simp)

text \<open>The state of the files before and after the first signature.\<close>

definition ex_like :: "fs \<Rightarrow> bool" where
  "ex_like s \<longleftrightarrow> fs_cwd s = [''d''] \<and> lookup s [''d''] = Some DirAt \<and> lookup s [''d'', ''m''] = Some (FileAt 0)
     \<and> lookup s [''d'', ''k''] = Some (FileAt 1) \<and> lookup s [''d'', ''k.minisig''] = None \<and> wf_fs s
     \<and> regular s ''m'' [1, 2, 3] \<and> regular s ''k'' (as_bytes ex_seckey_text)"

lemma ex_like_start: "ex_like ex_key_fs"
proof -
  have "lookup ex_key_fs [''d'', ''k.minisig''] = None" by (simp add: ex_key_fs_def ex_fs_def lookup_def)
  then show ?thesis by (simp add: ex_like_def)
qed

lemma ex_like_resolve:
  assumes "ex_like s"
  shows "resolve s ''m'' = Inr [''d'', ''m'']" "resolve s ''k'' = Inr [''d'', ''k'']"
    "resolve_entry s ''m.minisig'' = Inr [''d'', ''m.minisig'']"
    "resolve_entry s ''k.minisig'' = Inr [''d'', ''k.minisig'']" "cwd_ok s"
  using assms by (simp_all add: ex_like_def resolve_entry_def resolve_def as_directory_def cwd_ok_def plain_name_def)

lemma ex_like_staged:
  assumes "staged ex_key_fs [''d'', ''m.minisig''] c s"
  shows "ex_like s"
proof -
  have "regular s ''m'' [1, 2, 3]" "regular s ''k'' (as_bytes ex_seckey_text)"
    using regular_additive [OF ex_key_wf(1) staged_additive [OF ex_key_wf(1) assms]] by simp_all
  moreover have "wf_fs s" using staged_wf [OF ex_key_wf(1) assms] .
  ultimately show ?thesis
    using assms ex_like_start by (simp add: ex_like_def staged_def lookup_def)
qed

lemma ex_like_files:
  "ex_like s \<Longrightarrow> \<forall>f \<in> {''m'', ''k''}. \<exists>bs. regular s f bs \<and> length bs \<le> MAX_MESSAGE_SIZE_BYTES"
  using ex_seckey_utf8(2) by (auto simp: ex_like_def MAX_MESSAGE_SIZE_BYTES_def MAX_KEY_FILE_BYTES_def)

lemma ex_batch_sign_file:
  assumes "rests s w" "ex_like s" "f \<in> {''m'', ''k''}" "lookup s [''d'', f @ ''.minisig''] = None"
    and "so_secret_key_file opts = ''k''" "so_signature_file opts = None" "\<not> so_force opts"
    and "so_trusted_comment opts = Some ''signed''" "so_untrusted_comment opts = Some ''by me''"
  shows "\<exists>res w' c. sign_file_with_key ref_crates f (replicate 64 5) (replicate 8 7) opts w = (Inr res, w')
    \<and> staged s [''d'', f @ ''.minisig''] c (w_fs w') \<and> quiet w'"
proof -
  have w: "quiet w" "w_fs w = s" using assms(1) by (simp_all add: rests_def)
  obtain bs where bs: "regular s f bs" "length bs \<le> MAX_MESSAGE_SIZE_BYTES"
    using ex_like_files [OF assms(2)] assms(3) by blast
  have p: "file_name (signature_path f opts) = Some (f @ ''.minisig'')"
    "resolve_entry s (signature_path f opts) = Inr [''d'', f @ ''.minisig'']"
    using assms(2,3,6) by (auto simp: signature_path_def ex_like_resolve)
  have q: "\<forall>q \<in> {f, so_secret_key_file opts}. \<exists>lo. resolve s q = Inr lo \<and> lookup s lo \<noteq> None
      \<and> lo \<noteq> [''d'', f @ ''.minisig'']"
    using assms(2,3,5) by (auto simp: ex_like_resolve ex_like_def)
  obtain res w' where run: "sign_file_with_key ref_crates f (replicate 64 5) (replicate 8 7) opts w = (Inr res, w')"
    using sign_file_succeeds [OF ref_ed_ok ref_blake2b_ok ex_keypair w(1) _ _ bs(2) assms(7-9) ex_comments p(1),
        of "[''d'', f @ ''.minisig'']" "replicate 8 7"] p(2) q bs(1) w(2) ex_like_resolve(5) [OF assms(2)] assms(4)
    by auto
  then show ?thesis
    using sign_file_run [OF w(1) _ ref_blake2b_ok _ bs(2) assms(7) p(1) _ run] p(2) bs(1) w(2) assms(2)
    by (auto simp: ex_like_def)
qed


lemma job_run:
  assumes "sign_file_with_key C f sk n opts w = (Inr res, v)" "rests s v"
  shows "\<exists>v'. run_task (sign_job C dbg sk n opts f) w = ((f, Inr res), v') \<and> rests s v'"
proof -
  obtain v' where v': "report_sign_result dbg f (Inr res) opts v = (Inr () :: error + unit, v')"
    using report_sign_ok by blast
  have "obeys looks (report_sign_result dbg f (Inr res) opts :: (error, unit) io)" by simp
  then have "looks v v'" using v' by (rule obeysD)
  with assms(2) have "rests s v'" by (rule rests_after)
  moreover have "run_task (sign_job C dbg sk n opts f) w = ((f, Inr res), v')"
    using assms(1) v' by (simp add: sign_job_def run_followed_by run_tasks)
  ultimately show ?thesis by blast
qed

lemma ex_batch_collect:
  assumes "rests ex_key_fs w"
    and "so_secret_key_file opts = ''k''" "so_signature_file opts = None" "\<not> so_force opts"
    and "so_trusted_comment opts = Some ''signed''" "so_untrusted_comment opts = Some ''by me''"
  shows "\<exists>rs w'. collect_sign_results ref_crates dbg B [''m'', ''k''] (replicate 64 5) (replicate 8 7) opts True w
      = (Inr rs, w') \<and> batch_outcome rs = Inr ()"
proof -
  obtain r1 v1 c where 1: "sign_file_with_key ref_crates ''m'' (replicate 64 5) (replicate 8 7) opts w = (Inr r1, v1)"
    "staged ex_key_fs [''d'', ''m.minisig''] c (w_fs v1)" "quiet v1"
    using ex_batch_sign_file [OF assms(1) ex_like_start _ _ assms(2-6), of "''m''"] by auto
  have "rests (w_fs v1) v1" using 1(3) by (simp add: rests_def)
  from job_run [OF 1(1) this] obtain w1 where w1: "rests (w_fs v1) w1"
    "run_task (sign_job ref_crates dbg (replicate 64 5) (replicate 8 7) opts ''m'') w = ((''m'', Inr r1), w1)" by blast
  have like: "ex_like (w_fs v1)" using 1(2) by (rule ex_like_staged)
  obtain r2 v2 where 2: "sign_file_with_key ref_crates ''k'' (replicate 64 5) (replicate 8 7) opts w1 = (Inr r2, v2)"
    "quiet v2"
    using ex_batch_sign_file [OF w1(1) like _ _ assms(2-6), of "''k''"] like by (auto simp: ex_like_def)
  have "rests (w_fs v2) v2" using 2(2) by (simp add: rests_def)
  from job_run [OF 2(1) this] obtain w2 where
    "run_task (sign_job ref_crates dbg (replicate 64 5) (replicate 8 7) opts ''k'') w1 = ((''k'', Inr r2), w2)" by blast
  then have "collect_sign_results ref_crates dbg B [''m'', ''k''] (replicate 64 5) (replicate 8 7) opts True w
      = (Inr [(''m'', Inr r1), (''k'', Inr r2)], w2)"
    using w1(2) by (simp add: collect_sign_results_def Let_def)
  then show ?thesis by (auto simp: batch_outcome_def)
qed

lemma ex_batch_sign:
  assumes w: "rests ex_key_fs w"
    and o: "so_secret_key_file opts = ''k''" "so_signature_file opts = None" "\<not> so_force opts"
    "so_trusted_comment opts = Some ''signed''" "so_untrusted_comment opts = Some ''by me''"
  shows "\<exists>w'. sign_multiple_files_with_key ref_crates dbg B [''m'', ''k''] ex_seckey opts None True w = (Inr (), w')"
proof -
  have s: "w_fs w = ex_key_fs" "faultless w" using w quiet_honest by (auto simp: rests_def)
  have keep: "fst (dedup_files [] [''m'', ''k''] w) = Inr [''m'', ''k'']"
    using dedup_files_run [of w "[''m'', ''k'']" "[]"] s by simp
  obtain w1 where w1: "dedup_files [] [''m'', ''k''] w = (Inr [''m'', ''k''], w1)" "rests ex_key_fs w1"
    by (rule rests_looks [where X = "dedup_files [] [''m'', ''k'']", OF _ w keep]) simp
  have apart: "fst (reject_output_alias (signature_path f opts) [''m'', ''k'', ''k''] v) = Inr ()"
    if "f \<in> {''m'', ''k''}" "rests ex_key_fs v" for f v
    using reject_output_alias_passes [of v "signature_path f opts" "f @ ''.minisig''"
        "[''d'', f @ ''.minisig'']" "[''m'', ''k'', ''k'']"] that quiet_honest o(2) ex_like_resolve [OF ex_like_start]
    by (auto simp: rests_def signature_path_def)
  obtain w2 where w2: "reject_output_alias (signature_path ''m'' opts) [''m'', ''k'', ''k''] w1 = (Inr (), w2)"
      "rests ex_key_fs w2"
    by (rule rests_looks [where X = "reject_output_alias (signature_path ''m'' opts) [''m'', ''k'', ''k'']",
      OF _ w1(2) apart [OF _ w1(2)]]) simp_all
  obtain w3 where w3: "reject_output_alias (signature_path ''k'' opts) [''m'', ''k'', ''k''] w2 = (Inr (), w3)"
      "rests ex_key_fs w3"
    by (rule rests_looks [where X = "reject_output_alias (signature_path ''k'' opts) [''m'', ''k'', ''k'']",
      OF _ w2(2) apart [OF _ w2(2)]]) simp_all
  have aliases: "reject_batch_aliases [''m'', ''k''] [''m'', ''k'', ''k''] opts w1 = (Inr (), w3)"
    using w2(1) w3(1) by (simp add: bind_io_run ret_def)
  have e: "obeys looks (extract_key_op ref_crates ex_seckey None)" by simp
  have x: "fst (extract_key_op ref_crates ex_seckey None w3) = Inr (replicate 64 5, replicate 8 7)"
    by (simp only: fst_extract_key_op ex_extract)
  obtain w4 where w4: "extract_key_op ref_crates ex_seckey None w3 = (Inr (replicate 64 5, replicate 8 7), w4)"
      "rests ex_key_fs w4"
    by (rule rests_looks [OF e w3(2) x])
  have "\<exists>w5. (if \<not> so_quiet opts then println line else ret () :: (error, unit) io) w4 = (Inr (), w5)
      \<and> rests ex_key_fs w5" for line
    using w4(2) by (auto simp: println_def print_out_def ret_def rests_def quiet_def honest_def faultless_def)
  then obtain w5 where w5: "(if \<not> so_quiet opts then println (''Signing with key: '' @ to_key_id (replicate 8 7) @ '' (''
      @ keynum_to_words (replicate 8 7) @ '')'') else ret () :: (error, unit) io) w4 = (Inr (), w5)"
    "rests ex_key_fs w5" by blast
  obtain rs w6 where w6: "collect_sign_results ref_crates dbg B [''m'', ''k''] (replicate 64 5) (replicate 8 7) opts True w5
      = (Inr rs, w6)" "batch_outcome rs = Inr ()"
    using ex_batch_collect [OF w5(2) o, of dbg B] by (elim exE conjE)
  have "fst (print_sign_summary rs w6) = batch_outcome rs"
    unfolding print_sign_summary_def by (rule print_summary_outcome)
  then have "print_sign_summary rs w6 = (Inr (), snd (print_sign_summary rs w6))"
    unfolding w6(2) by (rule run_fst)
  then obtain w7 where "print_sign_summary rs w6 = (Inr (), w7)" by (rule that)
  then show ?thesis
    using w1(1) aliases w4(1) w5(1) w6(1) o(1,2)
    by (simp add: sign_multiple_files_with_key_def bind_io_run del: dedup_files.simps reject_batch_aliases.simps)
qed


definition ex_sign_args :: "string list" where
  "ex_sign_args = [''-S'', ''-W'', ''--sequential'', ''-s'', ''k'', ''-t'', ''signed'', ''-c'', ''by me'', ''-m'', ''m'', ''k'']"

lemma ex_batch_main:
  "\<exists>cli w'. parse_cli ref_pico ex_build (ex_host ex_sign_args) (ex_world ex_key_fs) = (Inr (Parsed cli), ex_world ex_key_fs)
     \<and> cli_action cli = Some Sign \<and> all_message_files cli = [''m'', ''k''] \<and> \<not> cli_force cli \<and> \<not> cli_legacy cli
     \<and> cli_trusted_comment cli = Some ''signed'' \<and> cli_untrusted_comment cli = Some ''by me''
     \<and> cli_secret_key_file cli = Some ''k''
     \<and> main ref_crates ref_pico dbg ex_build (ex_host ex_sign_args) (ex_world ex_key_fs) = (0, w')"
proof -
  let ?w = "ex_world ex_key_fs"
  obtain cli where args: "parse_args ref_pico ex_build ex_sign_args = Inr cli"
    and cli: "cli_action cli = Some Sign" "all_message_files cli = [''m'', ''k'']" "cli_sequential cli"
      "\<not> cli_force cli" "\<not> cli_prehashed cli" "\<not> cli_legacy cli" "cli_no_password cli" "\<not> cli_quiet cli"
      "\<not> cli_allow_kdf_fallback cli" "\<not> cli_save_password cli" "\<not> cli_forget_password cli"
      "cli_secret_key_file cli = Some ''k''" "cli_trusted_comment cli = Some ''signed''"
      "cli_untrusted_comment cli = Some ''by me''" "cli_signature_file cli = None"
    using ex_parse_sign_batch unfolding ex_sign_args_def by blast
  have parse: "parse_cli ref_pico ex_build (ex_host ex_sign_args) ?w = (Inr (Parsed cli), ?w)"
    by (rule ex_parse [OF _ _ _ args]) (code_simp, code_simp, code_simp)
  let ?opts = "batch_options cli ''k''"
  have o: "so_secret_key_file ?opts = ''k''" "so_signature_file ?opts = None" "\<not> so_force ?opts"
    "so_trusted_comment ?opts = Some ''signed''" "so_untrusted_comment ?opts = Some ''by me''"
    using cli by (simp_all)
  have 0: "rests ex_key_fs ?w" by (simp add: rests_def)
  obtain w1 where w1: "load_secret_key ref_crates ''k'' ?w = (Inr ex_seckey, w1)" using ex_load by blast
  have "obeys looks (load_secret_key ref_crates ''k'')" by simp
  then have "looks ?w w1" using w1 by (rule obeysD)
  with 0 have w1': "rests ex_key_fs w1" by (rule rests_after)
  have k: "seckey_check_kdf_budget ex_seckey = Inr ()"
    by (simp add: seckey_check_kdf_budget_def ex_seckey_def new_unencrypted_def)
  obtain w2 where w2: "eprintln ''Working...'' w1 = (Inr () :: error + unit, w2)" "rests ex_key_fs w2"
    using w1' by (auto simp: eprintln_def print_err_def rests_def quiet_def honest_def faultless_def)
  obtain w3 where w3: "sign_multiple_files_with_key ref_crates dbg ex_build [''m'', ''k''] ex_seckey ?opts None True w2
      = (Inr (), w3)"
    using ex_batch_sign [OF w2(2) o, of dbg ex_build] by (rule exE)
  have seq: "run_sequentially ex_build cli" using cli(3) by (simp add: run_sequentially_def)
  have m: "handle_sign_multiple ref_crates dbg ex_build cli [''m'', ''k''] ''k'' True ex_seckey i None w2 = (Inr (), w3)" for i
    using w3 cli seq
    by (simp add: handle_sign_multiple_def batch_options_def bind_io_run Let_def save_password_to_credential_store_def ret_def)
  obtain d where d: "default_secret_key_path (ex_host ex_sign_args) = Inr d"
    by (auto simp: default_secret_key_path_def ex_host_def)
  have "handle_sign ref_crates dbg ex_build (ex_host ex_sign_args) cli ?w = (Inr 0, w3)"
    using w1 w2(1) m cli d k
    by (simp add: handle_sign_def Let_def bind_io_run lift_res_def ret_def unwrap_or_def unless_quiet_def)
  then have "main ref_crates ref_pico dbg ex_build (ex_host ex_sign_args) ?w = (0, w3)"
    using parse cli by (simp add: main_def run_def run_cli_def dispatch_def bind_io_run ret_def)
  with parse cli show ?thesis by blast
qed


definition ex_verify_args :: "string list" where
  "ex_verify_args = [''-V'', ''-P'', ex_key_arg, ''-m'', ''m'', ''k'']"

lemma ex_parse_verify_batch:
  "\<exists>cli. parse_cli ref_pico ex_build (ex_host ex_verify_args) w = (Inr (Parsed cli), w)
    \<and> cli_action cli = Some Verify \<and> all_message_files cli = [''m'', ''k''] \<and> \<not> cli_sequential cli
    \<and> cli_public_key_file cli = None \<and> cli_public_key_base64 cli = Some ex_key_arg
    \<and> cli_password_file cli = None \<and> cli_signature_file cli = None \<and> \<not> cli_output cli"
proof -
  have "\<exists>cli. parse_args ref_pico ex_build [''-V'', ''-P'', s, ''-m'', ''m'', ''k''] = Inr cli
    \<and> cli_action cli = Some Verify \<and> all_message_files cli = [''m'', ''k''] \<and> \<not> cli_sequential cli
    \<and> cli_public_key_file cli = None \<and> cli_public_key_base64 cli = Some s
    \<and> cli_password_file cli = None \<and> cli_signature_file cli = None \<and> \<not> cli_output cli"
    if "\<And>t. s \<noteq> CHR ''-'' # t" for s
    using that
    by (simp add: parse_args_def parse_action_def ACTION_FLAGS_def parse_fields_def bind_parse_def flag_def
        either_flag_def opt_value_def return_parse_def ref_pico_def map_err_def reject_conflicts_def
        take_remaining_def ex_build_def and_then_def all_message_files_def ex_file_argument)
  from this [OF ex_key_arg_plain] obtain cli where args: "parse_args ref_pico ex_build ex_verify_args = Inr cli"
    and cli: "cli_action cli = Some Verify \<and> all_message_files cli = [''m'', ''k''] \<and> \<not> cli_sequential cli
      \<and> cli_public_key_file cli = None \<and> cli_public_key_base64 cli = Some ex_key_arg
      \<and> cli_password_file cli = None \<and> cli_signature_file cli = None \<and> \<not> cli_output cli"
    unfolding ex_verify_args_def by (elim exE conjE) simp
  have "\<not> is_combined ex_key_arg"
    using ex_key_arg_plain by (auto simp: is_combined_def starts_with_def strip_prefix_Some)
  then have "parse_cli ref_pico ex_build (ex_host ex_verify_args) w = (Inr (Parsed cli), w)"
    using ex_key_arg_plain by (intro ex_parse args) (auto simp: is_combined_def ex_verify_args_def)
  then show ?thesis using cli by blast
qed

section \<open>Property\<close>

text \<open>C2: what \<open>-S\<close> has signed, \<open>-V\<close> accepts, from exit code to exit code and with threads on both
  sides. A batch of different files is signed without force, whatever calls fail as long as reads are
  true, and \<open>main\<close> returns 0. Then the secret key that was loaded opens to a key such that, whenever
  later \<open>main\<close> is to verify those files with its public key, on a host that works and on which the
  files are as the signing left them, it returns 0 as well.\<close>

theorem signed_batch_verifies:
  assumes "b64_ok C" "b64_size_ok C" "ed_ok C" "blake2b_ok C" "scrypt_ok C"
    and "wf_fs (w_fs w)" "cwd_ok (w_fs w)" "\<forall>n bs. delivers (w_reads w n bs) bs"
    and "parse_cli P B H w = (Inr (Parsed cli), w0)" "cli_action cli = Some Sign" "\<not> cli_force cli"
    and "length (all_message_files cli) \<noteq> 1" "distinct (map (resolve (w_fs w)) (all_message_files cli))"
    and "\<forall>f \<in> set (all_message_files cli). \<exists>bs. regular (w_fs w) f bs \<and> length bs \<le> MAX_MESSAGE_SIZE_BYTES"
    and "\<forall>c. cli_untrusted_comment cli = Some c \<or> cli_trusted_comment cli = Some c \<longrightarrow> is_utf8 c"
    and "default_secret_key_path H = Inr d"
    and "main C P dbg B H w = (0, w')"
  shows "\<exists>seckey u u' pw sk keynum.
    load_secret_key C (unwrap_or (cli_secret_key_file cli) d) u = (Inr seckey, u') \<and> looks w u
    \<and> extract_key C seckey pw = Inr (sk, keynum)
    \<and> (\<forall>dbg B H v v0 cli2 s.
         parse_cli P B H v = (Inr (Parsed cli2), v0) \<longrightarrow> cli_action cli2 = Some Verify \<longrightarrow>
         all_message_files cli2 = all_message_files cli \<longrightarrow>
         cli_public_key_file cli2 = None \<longrightarrow> cli_public_key_base64 cli2 = Some s \<longrightarrow>
         pubkey_from_base64 C s = Inr (signer_key C sk keynum) \<longrightarrow>
         cli_password_file cli2 = None \<longrightarrow> cli_signature_file cli2 = None \<longrightarrow> \<not> cli_output cli2 \<longrightarrow>
         (cli_prehashed cli2 \<longrightarrow> cli_prehashed cli \<or> \<not> cli_legacy cli) \<longrightarrow>
         quiet v \<longrightarrow> w_fs v = w_fs w' \<longrightarrow>
         fst (main C P dbg B H v) = 0)"
proof (rule main_sign_batch [OF assms(9,10,17,12,16,7,13)])
  let ?files = "all_message_files cli" and ?key = "unwrap_or (cli_secret_key_file cli) d"
  let ?opts = "batch_options cli ?key"
  fix seckey pw sk keynum u u1 w1 results w2
  assume ne: "?files \<noteq> []" and u: "looks w u" and l: "load_secret_key C ?key u = (Inr seckey, u1)"
    and k: "extract_key C seckey pw = Inr (sk, keynum)" and w1: "looks w w1"
    and run: "collect_sign_results C dbg B ?files sk keynum ?opts (run_sequentially B cli) w1 = (Inr results, w2)"
    and ok: "\<forall>r \<in> set results. is_ok (snd r)" and w2: "looks w2 w'"
  obtain t where "seckey_from_file_contents C t = Inr seckey"
    using l by (auto simp: load_secret_key_def bind_io_Inr lift_res_def and_then_Inr_iff)
  then have kn: "wf_key_num keynum" using extract_key_wf [OF assms(5) seckey_from_file_wf [OF assms(1)] k] by blast
  have tr: "true_reads w" using assms(8) by (simp add: true_reads_def)
  have utf8: "is_utf8 (untrusted_comment_of ?opts)"
    "case so_trusted_comment ?opts of None \<Rightarrow> True | Some c \<Rightarrow> is_utf8 c"
    using assms(15) by (auto simp: untrusted_comment_of_def default_untrusted_utf8 split: option.split)
  have file_ok: "is_ok (fst (verify_file_with_key C f (signer_key C sk keynum) opts v))"
    if "f \<in> set ?files" "quiet v" "w_fs v = w_fs w'"
      "vo_force_prehashed opts \<longrightarrow> cli_prehashed cli \<or> \<not> cli_legacy cli" for f v opts
    by (rule batch_file_verifies [OF assms(1-4) kn _ _ _ _ utf8 _ run ok that(2) _ _ that(1)])
      (use assms(6,11,14) w1 w2 true_reads_looks [OF w1 tr] that in \<open>simp_all add: looks_def\<close>)
  have verified: "fst (main C P dbg B H v) = 0"
    if "parse_cli P B H v = (Inr (Parsed cli2), v0)" "cli_action cli2 = Some Verify" "all_message_files cli2 = ?files"
      "cli_public_key_file cli2 = None" "cli_public_key_base64 cli2 = Some s"
      "pubkey_from_base64 C s = Inr (signer_key C sk keynum)" "cli_password_file cli2 = None"
      "cli_signature_file cli2 = None" "\<not> cli_output cli2"
      "cli_prehashed cli2 \<longrightarrow> cli_prehashed cli \<or> \<not> cli_legacy cli" "quiet v" "w_fs v = w_fs w'"
    for dbg B H v v0 cli2 s
    by (rule main_verify_batch [OF that(1,2) _ _ that(4-9) that(11)])
      (use that(3,10,12) ne assms(12) file_ok in simp_all)
  show ?thesis
    by (rule exI [of _ seckey], rule exI [of _ u], rule exI [of _ u1], rule exI [of _ pw], rule exI [of _ sk],
        rule exI [of _ keynum], intro conjI allI impI)
      (use l u k verified in \<open>simp_all add: looks_def\<close>)
qed

theorem signed_batch_verifies_witness:
  "\<exists>w'. main ref_crates ref_pico (\<lambda>p. p) ex_build (ex_host ex_sign_args) (ex_world ex_key_fs) = (0, w')
     \<and> fst (main ref_crates ref_pico (\<lambda>p. p) ex_build (ex_host ex_verify_args) (ex_world (w_fs w'))) = 0"
proof -
  let ?w = "ex_world ex_key_fs" and ?s = "signer_key ref_crates (replicate 64 5) (replicate 8 7)"
  obtain cli w' where cli: "parse_cli ref_pico ex_build (ex_host ex_sign_args) ?w = (Inr (Parsed cli), ?w)"
    "cli_action cli = Some Sign" "all_message_files cli = [''m'', ''k'']" "\<not> cli_force cli" "\<not> cli_legacy cli"
    "cli_trusted_comment cli = Some ''signed''" "cli_untrusted_comment cli = Some ''by me''"
    "cli_secret_key_file cli = Some ''k''"
    and run: "main ref_crates ref_pico (\<lambda>p. p) ex_build (ex_host ex_sign_args) ?w = (0, w')"
    using ex_batch_main [of "\<lambda>p. p"] by (elim exE conjE)
  obtain cli2 where cli2: "parse_cli ref_pico ex_build (ex_host ex_verify_args) (ex_world (w_fs w'))
      = (Inr (Parsed cli2), ex_world (w_fs w'))"
    "cli_action cli2 = Some Verify" "all_message_files cli2 = [''m'', ''k'']"
    "cli_public_key_file cli2 = None" "cli_public_key_base64 cli2 = Some ex_key_arg"
    "cli_password_file cli2 = None" "cli_signature_file cli2 = None" "\<not> cli_output cli2"
    using ex_parse_verify_batch by blast
  obtain d where d: "default_secret_key_path (ex_host ex_sign_args) = Inr d"
    by (simp add: default_secret_key_path_def ex_host_def)
  have host: "wf_fs (w_fs ?w)" "cwd_ok (w_fs ?w)" "\<forall>n bs. delivers (w_reads ?w n bs) bs"
    using ex_quiet [of ex_key_fs] by (simp_all add: quiet_def honest_def)
  have files: "length (all_message_files cli) \<noteq> 1" "distinct (map (resolve (w_fs ?w)) (all_message_files cli))"
    "\<forall>f \<in> set (all_message_files cli). \<exists>bs. regular (w_fs ?w) f bs \<and> length bs \<le> MAX_MESSAGE_SIZE_BYTES"
    using ex_like_files [OF ex_like_start] cli(3) by simp_all
  have utf8: "\<forall>c. cli_untrusted_comment cli = Some c \<or> cli_trusted_comment cli = Some c \<longrightarrow> is_utf8 c"
    using cli(6,7) by (auto simp: is_utf8_ascii)
  obtain seckey u u' pw sk keynum where
    l: "load_secret_key ref_crates (unwrap_or (cli_secret_key_file cli) d) u = (Inr seckey, u') \<and> looks ?w u
      \<and> extract_key ref_crates seckey pw = Inr (sk, keynum)
      \<and> (\<forall>dbg B H v v0 cli2 s.
         parse_cli ref_pico B H v = (Inr (Parsed cli2), v0) \<longrightarrow> cli_action cli2 = Some Verify \<longrightarrow>
         all_message_files cli2 = all_message_files cli \<longrightarrow>
         cli_public_key_file cli2 = None \<longrightarrow> cli_public_key_base64 cli2 = Some s \<longrightarrow>
         pubkey_from_base64 ref_crates s = Inr (signer_key ref_crates sk keynum) \<longrightarrow>
         cli_password_file cli2 = None \<longrightarrow> cli_signature_file cli2 = None \<longrightarrow> \<not> cli_output cli2 \<longrightarrow>
         (cli_prehashed cli2 \<longrightarrow> cli_prehashed cli \<or> \<not> cli_legacy cli) \<longrightarrow>
         quiet v \<longrightarrow> w_fs v = w_fs w' \<longrightarrow> fst (main ref_crates ref_pico dbg B H v) = 0)"
    using signed_batch_verifies [OF ref_b64_ok ref_b64_size_ok ref_ed_ok ref_blake2b_ok ref_scrypt_ok
        host cli(1,2,4) files utf8 d run] by (elim exE) (rule that)
  have "rests ex_key_fs u" using rests_after [of ex_key_fs ?w u] l by (simp add: rests_def)
  then have "seckey = ex_seckey"
    using load_secret_key_run [of u "''k''" "as_bytes ex_seckey_text" ref_crates "Inr seckey" u'] l cli(8)
      ex_seckey_utf8(2) ex_utf8_text ex_seckey_file
    by (simp add: rests_def unwrap_or_def)
  then have "sk = replicate 64 5" "keynum = replicate 8 7"
    using l extract_key_unencrypted [of "replicate 64 5" ref_crates "replicate 8 7" pw]
    by (auto simp: ex_seckey_def wf_array_defs size_defs)
  then have "fst (main ref_crates ref_pico (\<lambda>p. p) ex_build (ex_host ex_verify_args) (ex_world (w_fs w'))) = 0"
    using l cli(3,5) cli2 ref_pubkey_b64 [of "replicate 64 5", folded ex_key_arg_def] by simp
  with run show ?thesis by blast
qed

end
