(* ===== verification/Spec2Isabelle.thy ===== *)
theory Spec2Isabelle
  imports Key_Properties File_Properties Lock_Properties Verify_Properties Sign_Properties
    KeyOps_Properties Inspect_Properties Generate_Properties Password_Properties Program_Properties
    Lock_Protocol Lock_Threads Batch_Properties
begin

text \<open>
  A model of the Rust implementation of minisign (\<open>rs/src\<close>) and proofs of what makes it correct.

  \<^bold>\<open>The program.\<close> Six operations (generate, sign, verify, recreate, change, inspect) work on three
  kinds of file: public keys, secret keys that may be encrypted under a password, and signatures.
  The operations call the file layer (\<open>ops/file_utils.rs\<close>), which calls the operating system, and
  the format layer (\<open>keys.rs\<close>, \<open>signature.rs\<close>, \<open>validation.rs\<close>, \<open>formats.rs\<close>), which calls
  \<open>crypto.rs\<close>, which calls the crates for Ed25519, BLAKE2b, scrypt and base64.

  \<^bold>\<open>Theories and code.\<close>
  \<^item> \<open>Prelude\<close>, \<open>Text\<close>, \<open>Utf8\<close>: results as sums (\<open>Inl\<close> is \<open>Err\<close>, \<open>and_then\<close> is \<open>?\<close>), bytes as
    8-bit words, Rust strings as byte strings with \<open>lines\<close>, \<open>chars\<close> and UTF-8 validation.
  \<^item> \<open>Errors\<close>: \<open>errors.rs\<close>. \<open>Crates\<close>: the third-party crates as a record of functions, the first
    argument of what uses them, with their documented behaviour as the predicates \<open>b64_ok\<close>,
    \<open>blake2b_ok\<close>, \<open>scrypt_ok\<close>, \<open>ed_ok\<close>. \<open>Reference_Crates\<close>: an instance that satisfies them all,
    on which the witnesses run.
  \<^item> \<open>Formats\<close>: \<open>formats.rs\<close>. \<open>Kdf\<close>, \<open>Crypto\<close>: \<open>crypto.rs\<close> and \<open>constants.rs\<close>. \<open>Wordlist\<close>:
    \<open>wordlist.rs\<close>. \<open>Validation\<close>: \<open>validation.rs\<close>.
  \<^item> \<open>Codec\<close>: the interface of a fixed-size structure (locale \<open>byte_codec\<close>) and of its text file
    (locale \<open>key_file\<close>), interpreted for public keys, secret keys and signatures in \<open>Keys\<close>
    (\<open>keys.rs\<close>) and \<open>SigFile\<close> (\<open>signature.rs\<close>).
  \<^item> \<open>FileSys\<close>: paths, entries, inodes and the system calls of \<open>std::fs\<close> as functions on a file
    system. \<open>World\<close>: the state the program runs in (files, faults, clock, random generator,
    output) and the monad of its effects. Every system call takes a number; the world decides by
    number whether it fails and with which error, so a theorem about all worlds is one about all
    failures. The states of the file system passed through are recorded (\<open>w_trace\<close>), which is what
    crash safety speaks about.
  \<^item> \<open>Tasks\<close>: work that other work may interrupt, as a tree of the effects of \<open>World\<close>; pools of tasks
    that share a world, and the schedule \<open>w_schedule\<close> that says whose step is next. The batches of
    \<open>Verify\<close> and \<open>Sign\<close> are pools: a build with the feature \<open>parallel\<close> (\<open>b_parallel\<close>) runs them under the
    schedule of the host, \<open>--sequential\<close> and a build without it in order. \<open>FileTasks\<close>: the functions of
    \<open>ops/file_utils.rs\<close> that the threads run, step by step.
  \<^item> \<open>FileUtils\<close>: \<open>ops/file_utils.rs\<close>. \<open>KeyUse\<close>: the weak-key warning and the sealing of keys.
    \<open>Verify\<close>, \<open>Sign\<close>, \<open>Recreate\<close>, \<open>Change\<close>, \<open>Inspect\<close>: the files of that name under \<open>ops\<close>.
    \<open>Keypair\<close> and \<open>Generate\<close>: \<open>ops/generate.rs\<close>, the writing of the pair with its lock, backups
    and rollback, and the operation. \<open>CredStore\<close>: \<open>credential_store.rs\<close>.
  \<^item> \<open>Cli\<close>: \<open>cli.rs\<close>, with the crate \<open>pico-args\<close> as a parameter. \<open>Passwords\<close> and \<open>Program\<close>:
    \<open>main.rs\<close>, the passwords and the credential store, then the handlers, their output and the exit
    codes. The terminal, the environment and the arguments are the record \<open>host\<close>.

  \<^bold>\<open>What is proved.\<close>
  \<^item> \<open>Key_Properties\<close>: the formats (round trips, strictness, what the global signature binds) and
    the cryptographic envelope (parameters, budget, authenticated decryption).
  \<^item> \<open>PathLemmas\<close>, \<open>AliasLemmas\<close>, \<open>FileSafety\<close>, \<open>NoOverwrite\<close>, \<open>Reads\<close>, \<open>TrueReads\<close> carry \<open>File_Properties\<close>:
    atomic replacement, creation without overwriting, sound alias detection, exact bounded reads,
    harmless printed paths. \<open>TrueReads\<close> is about hosts where calls may fail and reads deliver what
    the files hold; \<open>FilesStay\<close> about what one written file leaves of the others.
  \<^item> \<open>Lock_Properties\<close>: the lock of a forced overwrite, for one process on any host.
    \<open>Lock_Threads\<close>: any number of processes that go for it at once, as a pool of tasks that make the
    calls of the code one by one. At most one gets it as long as no lock counts as stale;
    \<open>stale_lock_race\<close> shows that the removal of a stale lock can race. \<open>Lock_Protocol\<close>: a step relation
    written by hand in which processes also release the lock and die.
  \<^item> \<open>Verify_Properties\<close>, \<open>Sign_Properties\<close>, \<open>KeyOps_Properties\<close>, \<open>Inspect_Properties\<close>: the operations
    from end to end. \<open>Pairs\<close> and \<open>Generate_Properties\<close>: the two files of a new key pair, and key
    generation. \<open>Overwrite\<close>: a forced overwrite state by state, with its backups and its rollback. \<open>Examples\<close>: a small file system for the witnesses.
  \<^item> \<open>Replays\<close>, \<open>Parallel_Verify\<close>, \<open>Parallel_Sign\<close>: batches by threads, for every interleaving of their
    system calls. A verification gives what it would give alone; \<open>-V\<close> prints the same lines as with
    \<open>--sequential\<close>, in some order; signing threads do not spoil one another's files. The proofs are by the
    judgement \<open>behaves\<close> and the locale \<open>pool\<close> of \<open>Tasks\<close>: what each step relies on and guarantees.
  \<^item> \<open>Batches\<close>, \<open>Batch_Properties\<close>: both operations together, on runs of \<open>main\<close>: files that \<open>-S\<close> has signed
    with exit code 0 are files that \<open>-V\<close> accepts with exit code 0, with threads on either side.
  \<^item> \<open>Footprint\<close>, \<open>Frames\<close>: relations between the world before and after that whole runs obey, threads
    included, as locales over the calls that change something; \<open>Reach\<close> interprets them for the files, for what exists and for
    the credential store. They carry \<open>Program_Properties\<close>, on runs of \<open>main\<close>.
    \<open>Cli_Properties\<close>, \<open>Password_Properties\<close>: the command line, and passwords.

  \<^bold>\<open>Bounds and termination.\<close> Operations use no fuel. Reads are lists of what the host returns; the loop
  that waits for the lock terminates by the clock and by the removal of stale locks. A pool ends under
  every schedule: what the host's schedule leaves undone is run in order. The one task with a bound is
  that of \<open>Lock_Threads\<close>, which makes at most a given number of passes of the loop since others could keep
  it waiting; the properties hold for every bound, and undisturbed a large enough one gives what the
  loop gives (\<open>acquire_lock_turns\<close>).

  \<^bold>\<open>Not modelled.\<close> The Windows branches of the file layer other than the check of reserved names,
  the wiping of secrets from memory and the constant-time comparisons, which have no effect on values,
  the \<open>Debug\<close> instances, and the warnings of \<open>force_weak_kdf\<close> that a debug build prints. \<open>sync_all\<close> is a
  call that may fail and otherwise changes nothing: the states a crash may leave are those passed
  through. The keyring of the operating system is a map, of which a call that reports success may
  have kept something else than it was given (\<open>w_keyring_keeps\<close>). Of threads, what is modelled is the order in which their system calls and
  lines take effect; each call is one step, as the operating system promises for the files of a batch.
\<close>

end
